(* ===== verification/Rust_Strings.thy ===== *)
theory Rust_Strings
  imports Prelude
begin

text \<open>
  The string, byte-slice and formatting functions of the Rust standard library that the sources
  use: ASCII classification and case mapping, splitting and trimming, UTF-8 decoding, number
  parsing and printing, big-endian encoding. Each is defined by its documented behaviour on the
  UTF-8 bytes of the string.
\<close>

section \<open>Bytes and ASCII\<close>

definition as_bytes :: "string \<Rightarrow> bytes" where
  "as_bytes s = map of_char s"

definition of_bytes :: "bytes \<Rightarrow> string" where
  "of_bytes b = map (\<lambda>w. char_of (unat w)) b"

abbreviation code :: "char \<Rightarrow> nat" where
  "code c \<equiv> of_char c"

definition is_ascii_digit :: "char \<Rightarrow> bool" where
  "is_ascii_digit c \<longleftrightarrow> 48 \<le> code c \<and> code c \<le> 57"

definition is_ascii_lowercase :: "char \<Rightarrow> bool" where
  "is_ascii_lowercase c \<longleftrightarrow> 97 \<le> code c \<and> code c \<le> 122"

definition is_ascii_uppercase :: "char \<Rightarrow> bool" where
  "is_ascii_uppercase c \<longleftrightarrow> 65 \<le> code c \<and> code c \<le> 90"

definition is_ascii_hexdigit :: "char \<Rightarrow> bool" where
  "is_ascii_hexdigit c \<longleftrightarrow>
     is_ascii_digit c \<or> (97 \<le> code c \<and> code c \<le> 102) \<or> (65 \<le> code c \<and> code c \<le> 70)"

definition is_ascii_alphanumeric :: "char \<Rightarrow> bool" where
  "is_ascii_alphanumeric c \<longleftrightarrow>
     is_ascii_digit c \<or> is_ascii_lowercase c \<or> is_ascii_uppercase c"

definition is_ascii_whitespace :: "char \<Rightarrow> bool" where
  "is_ascii_whitespace c \<longleftrightarrow> code c \<in> {9, 10, 12, 13, 32}"

definition ascii_upper :: "char \<Rightarrow> char" where
  "ascii_upper c = (if is_ascii_lowercase c then char_of (code c - 32) else c)"

definition ascii_lower :: "char \<Rightarrow> char" where
  "ascii_lower c = (if is_ascii_uppercase c then char_of (code c + 32) else c)"

definition to_ascii_uppercase :: "string \<Rightarrow> string" where
  "to_ascii_uppercase s = map ascii_upper s"

definition to_ascii_lowercase :: "string \<Rightarrow> string" where
  "to_ascii_lowercase s = map ascii_lower s"

definition eq_ignore_ascii_case :: "string \<Rightarrow> string \<Rightarrow> bool" where
  "eq_ignore_ascii_case a b \<longleftrightarrow> to_ascii_lowercase a = to_ascii_lowercase b"

text \<open>\<open>char::to_digit(16)\<close>.\<close>

definition to_digit16 :: "char \<Rightarrow> nat option" where
  "to_digit16 c =
     (if is_ascii_digit c then Some (code c - 48)
      else if 97 \<le> code c \<and> code c \<le> 102 then Some (code c - 87)
      else if 65 \<le> code c \<and> code c \<le> 70 then Some (code c - 55)
      else None)"

section \<open>Prefixes, splitting, trimming\<close>

definition starts_with :: "'a list \<Rightarrow> 'a list \<Rightarrow> bool" where
  "starts_with s p \<longleftrightarrow> take (length p) s = p"

definition ends_with :: "'a list \<Rightarrow> 'a list \<Rightarrow> bool" where
  "ends_with s p \<longleftrightarrow> starts_with (rev s) (rev p)"

definition strip_prefix :: "'a list \<Rightarrow> 'a list \<Rightarrow> 'a list option" where
  "strip_prefix s p = (if starts_with s p then Some (drop (length p) s) else None)"

definition strip_suffix :: "'a list \<Rightarrow> 'a list \<Rightarrow> 'a list option" where
  "strip_suffix s p = (if ends_with s p then Some (take (length s - length p) s) else None)"

fun split_once :: "'a \<Rightarrow> 'a list \<Rightarrow> ('a list \<times> 'a list) option" where
  "split_once c [] = None"
| "split_once c (x # xs) =
     (if x = c then Some ([], xs)
      else map_option (\<lambda>(a, b). (x # a, b)) (split_once c xs))"

fun split_on :: "'a \<Rightarrow> 'a list \<Rightarrow> 'a list list" where
  "split_on c [] = [[]]"
| "split_on c (x # xs) =
     (if x = c then [] # split_on c xs
      else (case split_on c xs of [] \<Rightarrow> [[x]] | y # ys \<Rightarrow> (x # y) # ys))"

text \<open>\<open>str::split_once\<close> and \<open>str::contains\<close> with a string pattern (the first occurrence).\<close>

fun split_once_str :: "'a list \<Rightarrow> 'a list \<Rightarrow> ('a list \<times> 'a list) option" where
  "split_once_str p [] = (if p = [] then Some ([], []) else None)"
| "split_once_str p (x # xs) =
     (if starts_with (x # xs) p then Some ([], drop (length p) (x # xs))
      else map_option (\<lambda>(a, b). (x # a, b)) (split_once_str p xs))"

definition contains_str :: "'a list \<Rightarrow> 'a list \<Rightarrow> bool" where
  "contains_str s p \<longleftrightarrow> split_once_str p s \<noteq> None"

text \<open>
  \<open>str::trim\<close> removes Unicode white space. \<open>ws_len\<close> is the number of bytes of the white-space
  character a string starts with, 0 when it starts with another character; \<open>ws_len_rev\<close> reads the
  reversed string.
\<close>

fun ws_len :: "nat list \<Rightarrow> nat" where
  "ws_len (a # b # c # r) =
     (if (9 \<le> a \<and> a \<le> 13) \<or> a = 32 then 1
      else if a = 194 \<and> (b = 133 \<or> b = 160) then 2
      else if (a = 225 \<and> b = 154 \<and> c = 128)
           \<or> (a = 226 \<and> b = 128 \<and> (128 \<le> c \<and> c \<le> 138 \<or> c = 168 \<or> c = 169 \<or> c = 175))
           \<or> (a = 226 \<and> b = 129 \<and> c = 159) \<or> (a = 227 \<and> b = 128 \<and> c = 128) then 3
      else 0)"
| "ws_len [a, b] =
     (if (9 \<le> a \<and> a \<le> 13) \<or> a = 32 then 1 else if a = 194 \<and> (b = 133 \<or> b = 160) then 2 else 0)"
| "ws_len [a] = (if (9 \<le> a \<and> a \<le> 13) \<or> a = 32 then 1 else 0)"
| "ws_len [] = 0"

fun ws_len_rev :: "nat list \<Rightarrow> nat" where
  "ws_len_rev r =
     (if ws_len (rev (take 1 r)) = 1 then 1
      else if ws_len (rev (take 2 r)) = 2 then 2
      else if ws_len (rev (take 3 r)) = 3 then 3 else 0)"

function trim_start :: "string \<Rightarrow> string" where
  "trim_start s =
     (let n = ws_len (map code s)
      in if n = 0 \<or> s = [] then s else trim_start (drop n s))"
  by pat_completeness auto
termination
  by (relation "measure length") auto

function trim_end_rev :: "string \<Rightarrow> string" where
  "trim_end_rev s =
     (let n = ws_len_rev (map code s)
      in if n = 0 \<or> s = [] then s else trim_end_rev (drop n s))"
  by pat_completeness auto
termination
  by (relation "measure length") auto

declare trim_start.simps [simp del] trim_end_rev.simps [simp del]

definition trim :: "string \<Rightarrow> string" where
  "trim s = rev (trim_end_rev (rev (trim_start s)))"

definition trim_end_matches :: "'a \<Rightarrow> 'a list \<Rightarrow> 'a list" where
  "trim_end_matches c s = rev (dropWhile (\<lambda>x. x = c) (rev s))"

section \<open>UTF-8\<close>

text \<open>
  \<open>utf8_extra b bs\<close>: how many bytes of \<open>bs\<close> the sequence that starts with \<open>b\<close> takes, and whether
  it is a valid code point; a \<open>False\<close> result covers the maximal invalid part, which
  \<open>String::from_utf8_lossy\<close> replaces by U+FFFD.
\<close>

definition utf8_cont :: "bytes \<Rightarrow> bool" where
  "utf8_cont bs = (case bs of [] \<Rightarrow> False | b # _ \<Rightarrow> 128 \<le> b \<and> b \<le> 191)"

definition utf8_second :: "u8 \<Rightarrow> u8 \<Rightarrow> u8 \<Rightarrow> bytes \<Rightarrow> bool" where
  "utf8_second b lo hi bs = (case bs of [] \<Rightarrow> False | c # _ \<Rightarrow> lo \<le> c \<and> c \<le> hi)"

definition utf8_extra :: "u8 \<Rightarrow> bytes \<Rightarrow> nat \<times> bool" where
  "utf8_extra b bs =
     (if b < 128 then (0, True)
      else if 194 \<le> b \<and> b \<le> 223 then (if utf8_cont bs then (1, True) else (0, False))
      else if 224 \<le> b \<and> b \<le> 239 then
        (if \<not> utf8_second b (if b = 224 then 160 else 128) (if b = 237 then 159 else 191) bs
         then (0, False)
         else if \<not> utf8_cont (drop 1 bs) then (1, False) else (2, True))
      else if 240 \<le> b \<and> b \<le> 244 then
        (if \<not> utf8_second b (if b = 240 then 144 else 128) (if b = 244 then 143 else 191) bs
         then (0, False)
         else if \<not> utf8_cont (drop 1 bs) then (1, False)
         else if \<not> utf8_cont (drop 2 bs) then (2, False) else (3, True))
      else (0, False))"

fun from_utf8_lossy_bytes :: "bytes \<Rightarrow> bytes" where
  "from_utf8_lossy_bytes [] = []"
| "from_utf8_lossy_bytes (b # bs) =
     (if snd (utf8_extra b bs) then b # take (fst (utf8_extra b bs)) bs else [239, 191, 189]) @
     from_utf8_lossy_bytes (drop (fst (utf8_extra b bs)) bs)"

definition from_utf8_lossy :: "bytes \<Rightarrow> string" where
  "from_utf8_lossy bs = of_bytes (from_utf8_lossy_bytes bs)"

fun utf8_valid :: "bytes \<Rightarrow> bool" where
  "utf8_valid [] = True"
| "utf8_valid (b # bs) =
     (snd (utf8_extra b bs) \<and> utf8_valid (drop (fst (utf8_extra b bs)) bs))"

definition from_utf8 :: "bytes \<Rightarrow> string option" where
  "from_utf8 bs = (if utf8_valid bs then Some (of_bytes bs) else None)"

section \<open>Numbers\<close>

definition hex_digit :: "nat \<Rightarrow> char" where
  "hex_digit n = (if n < 10 then char_of (48 + n) else char_of (87 + n))"

definition hex_digit_upper :: "nat \<Rightarrow> char" where
  "hex_digit_upper n = (if n < 10 then char_of (48 + n) else char_of (55 + n))"

text \<open>\<open>format!("{:0wx}")\<close> of a value below \<open>16 ^ w\<close>, and its upper-case variant.\<close>

fun hex_pad :: "nat \<Rightarrow> nat \<Rightarrow> string" where
  "hex_pad 0 n = []"
| "hex_pad (Suc w) n = hex_pad w (n div 16) @ [hex_digit (n mod 16)]"

fun hex_pad_upper :: "nat \<Rightarrow> nat \<Rightarrow> string" where
  "hex_pad_upper 0 n = []"
| "hex_pad_upper (Suc w) n = hex_pad_upper w (n div 16) @ [hex_digit_upper (n mod 16)]"

text \<open>Decimal \<open>to_string\<close>, and \<open>str::parse\<close> of an unsigned type with \<open>bound\<close> values.\<close>

fun dec_string :: "nat \<Rightarrow> string" where
  "dec_string n =
     (if n < 10 then [char_of (48 + n)] else dec_string (n div 10) @ [char_of (48 + n mod 10)])"

declare dec_string.simps [simp del]

definition dec_value :: "string \<Rightarrow> int" where
  "dec_value s = foldl (\<lambda>a c. a * 10 + (int (code c) - 48)) 0 s"

definition parse_uint :: "int \<Rightarrow> string \<Rightarrow> int option" where
  "parse_uint bound s =
     (let d = (case s of [] \<Rightarrow> [] | c # r \<Rightarrow> if c = CHR ''+'' then r else s)
      in if d \<noteq> [] \<and> list_all is_ascii_digit d \<and> dec_value d < bound
         then Some (dec_value d) else None)"

text \<open>\<open>from_str_radix(_, 16)\<close> on a string of hex digits.\<close>

definition hex_value :: "string \<Rightarrow> nat" where
  "hex_value s = foldl (\<lambda>a c. a * 16 + unwrap_or 0 (to_digit16 c)) 0 s"

text \<open>\<open>u64::to_be_bytes\<close>, and \<open>u64::from_be_bytes\<close> / \<open>from_le_bytes\<close> of a slice.\<close>

definition to_be_bytes :: "u64 \<Rightarrow> bytes" where
  "to_be_bytes w = map (\<lambda>i. ucast (drop_bit i w)) [56, 48, 40, 32, 24, 16, 8, 0]"

definition from_be_bytes :: "bytes \<Rightarrow> 'n::len word" where
  "from_be_bytes bs = foldl (\<lambda>a b. a * 256 + ucast b) 0 bs"

definition from_le_bytes :: "bytes \<Rightarrow> 'n::len word" where
  "from_le_bytes bs = from_be_bytes (rev bs)"

section \<open>Lemmas\<close>

lemma length_as_bytes [simp]: "length (as_bytes s) = length s"
  by (simp add: as_bytes_def)

lemma as_bytes_append [simp]: "as_bytes (s @ t) = as_bytes s @ as_bytes t"
  by (simp add: as_bytes_def)

lemma unat_of_char [simp]: "unat (of_char c :: u8) = code c"
proof -
  have "(of_char c :: u8) = of_nat (code c)" by (simp add: of_nat_of_char)
  then show ?thesis by (simp add: unat_of_nat)
qed

lemma of_bytes_as_bytes [simp]: "of_bytes (as_bytes s) = s"
  by (simp add: of_bytes_def as_bytes_def comp_def)

lemma as_bytes_inj [simp]: "as_bytes s = as_bytes t \<longleftrightarrow> s = t"
  by (metis of_bytes_as_bytes)

lemma char_of_unat_inverse: "(of_char (char_of (unat (w :: u8)) :: char) :: u8) = w"
proof -
  have "unat w mod 256 = unat w" using unsigned_less [of w, where ?'a = nat] by simp
  then have "code (char_of (unat w)) = unat w" by (simp add: of_char_of)
  then show ?thesis by (metis unat_of_char unsigned_word_eqI)
qed

lemma as_bytes_of_bytes [simp]: "as_bytes (of_bytes b) = b"
  by (simp add: of_bytes_def as_bytes_def comp_def char_of_unat_inverse)

lemma starts_with_append [simp]: "starts_with (p @ s) p"
  by (simp add: starts_with_def)

lemma starts_with_iff: "starts_with s p \<longleftrightarrow> (\<exists>r. s = p @ r)"
  unfolding starts_with_def by (metis append_eq_conv_conj append_take_drop_id)

lemma starts_with_prefix: "starts_with s p \<longleftrightarrow> prefix p s"
  by (auto simp: starts_with_iff prefix_def)

lemma ends_with_iff: "ends_with s p \<longleftrightarrow> (\<exists>r. s = r @ p)"
  unfolding ends_with_def starts_with_iff by (metis rev_append rev_rev_ident)

lemma strip_prefix_Some [simp]: "strip_prefix s p = Some r \<longleftrightarrow> s = p @ r"
  by (auto simp: strip_prefix_def starts_with_iff)

lemma strip_suffix_Some [simp]: "strip_suffix s p = Some r \<longleftrightarrow> s = r @ p"
  by (auto simp: strip_suffix_def ends_with_iff)

lemma split_once_Some:
  "split_once c s = Some (a, b) \<longleftrightarrow> s = a @ c # b \<and> c \<notin> set a"
proof (induction s arbitrary: a)
  case (Cons x xs)
  then show ?case
    by (cases a) (auto split: if_splits)
qed simp

lemma split_once_None: "split_once c s = None \<longleftrightarrow> c \<notin> set s"
  by (induction s) auto

lemma split_on_nonempty [simp]: "split_on c s \<noteq> []"
  by (induction s) (auto split: list.splits)

lemma ascii_upper_idem [simp]: "ascii_upper (ascii_upper c) = ascii_upper c"
  by (auto simp: ascii_upper_def is_ascii_lowercase_def of_char_of)

lemma ascii_lower_idem [simp]: "ascii_lower (ascii_lower c) = ascii_lower c"
  by (auto simp: ascii_lower_def is_ascii_uppercase_def of_char_of)

lemma ascii_lower_upper [simp]: "ascii_lower (ascii_upper c) = ascii_lower c"
  by (auto simp: ascii_lower_def ascii_upper_def is_ascii_uppercase_def is_ascii_lowercase_def
      of_char_of)

lemma ascii_upper_lower [simp]: "ascii_upper (ascii_lower c) = ascii_upper c"
  by (auto simp: ascii_lower_def ascii_upper_def is_ascii_uppercase_def is_ascii_lowercase_def
      of_char_of)

lemma to_ascii_uppercase_idem [simp]:
  "to_ascii_uppercase (to_ascii_uppercase s) = to_ascii_uppercase s"
  by (simp add: to_ascii_uppercase_def)

lemma to_ascii_lower_upper [simp]:
  "to_ascii_lowercase (to_ascii_uppercase s) = to_ascii_lowercase s"
  by (simp add: to_ascii_uppercase_def to_ascii_lowercase_def)

lemma to_ascii_upper_lower [simp]:
  "to_ascii_uppercase (to_ascii_lowercase s) = to_ascii_uppercase s"
  by (simp add: to_ascii_uppercase_def to_ascii_lowercase_def)

lemma length_to_ascii [simp]:
  "length (to_ascii_uppercase s) = length s"
  "length (to_ascii_lowercase s) = length s"
  by (simp_all add: to_ascii_uppercase_def to_ascii_lowercase_def)

lemma to_ascii_Nil [simp]:
  "to_ascii_uppercase [] = []" "to_ascii_lowercase [] = []"
  "to_ascii_uppercase s = [] \<longleftrightarrow> s = []" "to_ascii_lowercase s = [] \<longleftrightarrow> s = []"
  by (simp_all add: to_ascii_uppercase_def to_ascii_lowercase_def)

lemma eq_ignore_refl [simp]: "eq_ignore_ascii_case s s"
  by (simp add: eq_ignore_ascii_case_def)

lemma eq_ignore_upper [simp]:
  "eq_ignore_ascii_case (to_ascii_uppercase s) t \<longleftrightarrow> eq_ignore_ascii_case s t"
  "eq_ignore_ascii_case s (to_ascii_uppercase t) \<longleftrightarrow> eq_ignore_ascii_case s t"
  by (simp_all add: eq_ignore_ascii_case_def)

lemma eq_ignore_sym: "eq_ignore_ascii_case s t \<longleftrightarrow> eq_ignore_ascii_case t s"
  by (auto simp: eq_ignore_ascii_case_def)

lemma eq_ignore_upper_iff:
  "eq_ignore_ascii_case s t \<longleftrightarrow> to_ascii_uppercase s = to_ascii_uppercase t"
  unfolding eq_ignore_ascii_case_def by (metis to_ascii_lower_upper to_ascii_upper_lower)

lemma length_hex_pad [simp]: "length (hex_pad w n) = w"
  by (induction w arbitrary: n) auto

lemma length_hex_pad_upper [simp]: "length (hex_pad_upper w n) = w"
  by (induction w arbitrary: n) auto

text \<open>Big-endian encoding is injective and keeps the numeric order, which the bytewise key order of
  the index rows relies on.\<close>

fun nat_be :: "nat \<Rightarrow> nat \<Rightarrow> bytes" where
  "nat_be 0 n = []"
| "nat_be (Suc k) n = of_nat (n div 256 ^ k) # nat_be k n"

lemma length_to_be_bytes [simp]: "length (to_be_bytes w) = 8"
  by (simp add: to_be_bytes_def)

lemma ucast_drop_bit_of_nat: "(ucast (drop_bit i w) :: u8) = of_nat (unat (w :: u64) div 2 ^ i)"
  by (metis of_nat_unat unat_drop_bit_eq drop_bit_eq_div)

lemma to_be_bytes_nat_be: "to_be_bytes w = nat_be 8 (unat w)"
proof -
  have 8: "(8::nat) = Suc (Suc (Suc (Suc (Suc (Suc (Suc (Suc 0)))))))" by simp
  show ?thesis
    unfolding to_be_bytes_def 8 nat_be.simps by (simp add: ucast_drop_bit_of_nat)
qed

lemma mod_256_Suc: "n mod 256 ^ Suc k = 256 ^ k * (n div 256 ^ k mod 256) + n mod (256 ^ k :: nat)"
  by (simp add: mod_mult2_eq mult.commute [of 256])

lemma ucast_of_nat_u8: "(ucast (of_nat m :: u8) :: 'n::len word) = of_nat (m mod 256)"
proof -
  have "(ucast (of_nat m :: u8) :: 'n::len word) = of_nat (unat (of_nat m :: u8))"
    by (rule of_nat_unat [symmetric])
  also have "\<dots> = of_nat (m mod 256)"
    by (simp only: unat_of_nat) simp
  finally show ?thesis .
qed

lemma foldl_nat_be:
  "foldl (\<lambda>a b. a * 256 + ucast b) (x :: 'n::len word) (nat_be k n) =
     x * 256 ^ k + of_nat (n mod 256 ^ k)"
proof (induction k arbitrary: x)
  case (Suc k)
  have "foldl (\<lambda>a b. a * 256 + ucast b) x (nat_be (Suc k) n) =
      (x * 256 + of_nat (n div 256 ^ k mod 256)) * 256 ^ k + of_nat (n mod 256 ^ k)"
    by (simp add: Suc.IH ucast_of_nat_u8)
  also have "\<dots> = x * 256 ^ Suc k + of_nat (n mod 256 ^ Suc k)"
    unfolding mod_256_Suc by (simp add: algebra_simps)
  finally show ?case .
qed simp

lemma from_be_bytes_to_be_bytes [simp]: "from_be_bytes (to_be_bytes w) = w"
proof -
  have "unat w mod 256 ^ 8 = unat w"
    using unsigned_less [of w, where ?'a = nat] by simp
  then show ?thesis
    unfolding from_be_bytes_def to_be_bytes_nat_be foldl_nat_be by simp
qed

lemma to_be_bytes_inj [simp]: "to_be_bytes u = to_be_bytes v \<longleftrightarrow> u = v"
  by (metis from_be_bytes_to_be_bytes)

lemma of_nat_u8_less: "(of_nat a :: u8) < of_nat b \<longleftrightarrow> a mod 256 < b mod 256"
  by (simp add: word_less_nat_alt unat_of_nat)

lemma of_nat_u8_eq: "(of_nat a :: u8) = of_nat b \<longleftrightarrow> a mod 256 = b mod 256"
  by (simp add: word_eq_iff_unsigned [where ?'a = nat] unat_of_nat)

lemma nat_be_less: "nat_be k m < nat_be k n \<longleftrightarrow> m mod 256 ^ k < n mod 256 ^ k"
proof (induction k)
  case (Suc k)
  let ?a = "m div 256 ^ k mod 256" and ?b = "n div 256 ^ k mod 256"
  have lt: "m mod 256 ^ k < 256 ^ k" "n mod 256 ^ k < 256 ^ k" by simp_all
  have "nat_be (Suc k) m < nat_be (Suc k) n \<longleftrightarrow>
      ?a < ?b \<or> ?a = ?b \<and> m mod 256 ^ k < n mod 256 ^ k"
    by (simp add: Suc.IH of_nat_u8_less of_nat_u8_eq)
  also have "\<dots> \<longleftrightarrow> m mod 256 ^ Suc k < n mod 256 ^ Suc k"
  proof -
    have "256 ^ k * ?a + m mod 256 ^ k < 256 ^ k * ?b + n mod 256 ^ k" if "?a < ?b"
    proof -
      have "256 ^ k * (?a + 1) \<le> 256 ^ k * ?b"
        using that by (intro mult_le_mono2) simp
      then have "256 ^ k * ?a + 256 ^ k \<le> 256 ^ k * ?b"
        by (simp only: distrib_left mult_1_right)
      then show ?thesis using lt(1) by linarith
    qed
    moreover have "256 ^ k * ?b + n mod 256 ^ k < 256 ^ k * ?a + m mod 256 ^ k" if "?b < ?a"
    proof -
      have "256 ^ k * (?b + 1) \<le> 256 ^ k * ?a"
        using that by (intro mult_le_mono2) simp
      then have "256 ^ k * ?b + 256 ^ k \<le> 256 ^ k * ?a"
        by (simp only: distrib_left mult_1_right)
      then show ?thesis using lt(2) by linarith
    qed
    ultimately show ?thesis
      unfolding mod_256_Suc by (cases ?a ?b rule: linorder_cases) (auto dest: less_asym)
  qed
  finally show ?case .
qed simp

lemma to_be_bytes_less [simp]: "to_be_bytes u < to_be_bytes v \<longleftrightarrow> u < v"
proof -
  have "unat w mod 256 ^ 8 = unat w" for w :: u64
    using unsigned_less [of w, where ?'a = nat] by simp
  then show ?thesis
    by (simp add: to_be_bytes_nat_be nat_be_less word_less_nat_alt)
qed

lemma less_append_same_length:
  fixes a b :: "'a::order list"
  assumes "length a = length b"
  shows "a @ x < b @ y \<longleftrightarrow> a < b \<or> a = b \<and> x < y"
  using assms by (induction a b rule: list_induct2) auto

lemma less_append_prefix [simp]: "p @ x < p @ y \<longleftrightarrow> x < (y :: 'a::order list)"
  by (induction p) auto

end
