(* ===== verification/CityHash.thy ===== *)
theory CityHash
  imports Rust_Strings
begin

text \<open>
  \<^verbatim>\<open>src/hash/city.rs\<close> and \<^verbatim>\<open>src/hash.rs\<close>: the portable CityHash128 that names every database key.
  All arithmetic is on 64-bit words, so the wrapping operations of the source are the word
  operations; the two loops of the source are recursive functions.
\<close>

definition K0 :: u64 where "K0 = 0xc3a5c85c97cb3127"
definition K1 :: u64 where "K1 = 0xb492b66fbe98f273"
definition K2 :: u64 where "K2 = 0x9ae16a3b2f90404f"
definition K_MUL :: u64 where "K_MUL = 0x9ddfea08eb382d69"

definition rotate_right :: "nat \<Rightarrow> u64 \<Rightarrow> u64" where
  "rotate_right n w = (drop_bit n w) OR (push_bit (64 - n) w)"

definition fetch64 :: "bytes \<Rightarrow> u64" where
  "fetch64 s = from_le_bytes (take 8 s)"

definition fetch32 :: "bytes \<Rightarrow> u64" where
  "fetch32 s = ucast (from_le_bytes (take 4 s) :: u32)"

definition shift_mix :: "u64 \<Rightarrow> u64" where
  "shift_mix v = v XOR (drop_bit 47 v)"

definition hash_len16_mul :: "u64 \<Rightarrow> u64 \<Rightarrow> u64 \<Rightarrow> u64" where
  "hash_len16_mul u v mul =
     (let a = (u XOR v) * mul; a = a XOR drop_bit 47 a;
          b = (v XOR a) * mul; b = b XOR drop_bit 47 b
      in b * mul)"

definition hash_len16 :: "u64 \<Rightarrow> u64 \<Rightarrow> u64" where
  "hash_len16 u v =
     (let a = (u XOR v) * K_MUL; a = a XOR drop_bit 47 a;
          b = (v XOR a) * K_MUL; b = b XOR drop_bit 47 b
      in b * K_MUL)"

definition hash_len0to16 :: "bytes \<Rightarrow> u64" where
  "hash_len0to16 s =
     (let n = length s; len = of_nat n
      in if n \<ge> 8 then
           (let mul = K2 + len * 2;
                a = fetch64 s + K2;
                b = fetch64 (drop (n - 8) s);
                c = rotate_right 37 b * mul + a;
                d = (rotate_right 25 a + b) * mul
            in hash_len16_mul c d mul)
         else if n \<ge> 4 then
           (let mul = K2 + len * 2;
                a = fetch32 s
            in hash_len16_mul (len + push_bit 3 a) (fetch32 (drop (n - 4) s)) mul)
         else if s \<noteq> [] then
           (let a = ucast (s ! 0) :: u32;
                b = ucast (s ! (n div 2)) :: u32;
                c = ucast (s ! (n - 1)) :: u32;
                y = ucast (a + push_bit 8 b) :: u64;
                z = ucast ((of_nat n :: u32) + push_bit 2 c) :: u64
            in shift_mix ((y * K2) XOR (z * K0)) * K2)
         else K2)"

definition weak_hash_len32_with_seeds ::
  "u64 \<Rightarrow> u64 \<Rightarrow> u64 \<Rightarrow> u64 \<Rightarrow> u64 \<Rightarrow> u64 \<Rightarrow> u64 \<times> u64" where
  "weak_hash_len32_with_seeds w x y z a b =
     (let a = a + w;
          b = rotate_right 21 (b + a + z);
          c = a;
          a = a + x + y;
          b = b + rotate_right 44 a
      in (a + z, b + c))"

definition weak_hash32 :: "bytes \<Rightarrow> u64 \<Rightarrow> u64 \<Rightarrow> u64 \<times> u64" where
  "weak_hash32 s a b =
     weak_hash_len32_with_seeds (fetch64 s) (fetch64 (drop 8 s)) (fetch64 (drop 16 s))
       (fetch64 (drop 24 s)) a b"

definition pack :: "u64 \<Rightarrow> u64 \<Rightarrow> u128" where
  "pack low high = (push_bit 64 (ucast high)) OR (ucast low)"

text \<open>The loop of \<open>city_murmur\<close>, 16 bytes per round.\<close>

fun murmur_loop :: "bytes \<Rightarrow> nat \<Rightarrow> nat \<Rightarrow> u64 \<Rightarrow> u64 \<Rightarrow> u64 \<Rightarrow> u64 \<Rightarrow> u64 \<times> u64 \<times> u64 \<times> u64" where
  "murmur_loop s i remaining a b c d =
     (if remaining > 16 then
        (let a = (a XOR (shift_mix (fetch64 (drop i s) * K1) * K1)) * K1;
             b = b XOR a;
             c = (c XOR (shift_mix (fetch64 (drop (i + 8) s) * K1) * K1)) * K1;
             d = d XOR c
         in murmur_loop s (i + 16) (remaining - 16) a b c d)
      else (a, b, c, d))"

declare murmur_loop.simps [simp del]

definition city_murmur :: "bytes \<Rightarrow> u64 \<Rightarrow> u64 \<Rightarrow> u128" where
  "city_murmur s seed_low seed_high =
     (let n = length s;
          (a, b, c, d) =
            (if n \<le> 16 then
               (let a = shift_mix (seed_low * K1) * K1;
                    c = seed_high * K1 + hash_len0to16 s;
                    d = shift_mix (a + (if n \<ge> 8 then fetch64 s else c))
                in (a, seed_high, c, d))
             else
               (let c = hash_len16 (fetch64 (drop (n - 8) s) + K1) seed_low;
                    d = hash_len16 (seed_high + of_nat n) (c + fetch64 (drop (n - 16) s));
                    a = seed_low + d
                in murmur_loop s 0 n a seed_high c d));
          a = hash_len16 a c;
          b = hash_len16 d b
      in pack (a XOR b) (hash_len16 b a))"

record city_state =
  cx :: u64
  cy :: u64
  cz :: u64
  cv0 :: u64
  cv1 :: u64
  cw0 :: u64
  cw1 :: u64

text \<open>One round of the 64-byte loop; the source runs it twice per iteration.\<close>

definition city_round :: "bytes \<Rightarrow> city_state \<Rightarrow> city_state" where
  "city_round s st =
     (let x = rotate_right 37 (cx st + cy st + cv0 st + fetch64 (drop 8 s)) * K1;
          y = rotate_right 42 (cy st + cv1 st + fetch64 (drop 48 s)) * K1;
          x = x XOR cw1 st;
          y = y + cv0 st + fetch64 (drop 40 s);
          z = rotate_right 33 (cz st + cw0 st) * K1;
          v = weak_hash32 s (cv1 st * K1) (x + cw0 st);
          w = weak_hash32 (drop 32 s) (z + cw1 st) (y + fetch64 (drop 16 s))
      in \<lparr>cx = z, cy = y, cz = x, cv0 = fst v, cv1 = snd v, cw0 = fst w, cw1 = snd w\<rparr>)"

fun city_loop :: "bytes \<Rightarrow> nat \<Rightarrow> city_state \<Rightarrow> nat \<times> city_state" where
  "city_loop s remaining st =
     (if remaining \<ge> 128
      then city_loop (drop 128 s) (remaining - 128) (city_round (drop 64 s) (city_round s st))
      else (remaining, st))"

declare city_loop.simps [simp del]

function city_tail :: "bytes \<Rightarrow> nat \<Rightarrow> nat \<Rightarrow> city_state \<Rightarrow> city_state" where
  "city_tail orig remaining tail_done st =
     (if tail_done < remaining then
        (let tail_done = tail_done + 32;
             y = rotate_right 42 (cx st + cy st) * K0 + cv1 st;
             w0 = cw0 st + fetch64 (drop (length orig - tail_done + 16) orig);
             x = cx st * K0 + w0;
             z = cz st + cw1 st + fetch64 (drop (length orig - tail_done) orig);
             w1 = cw1 st + cv0 st;
             v = weak_hash32 (drop (length orig - tail_done) orig) (cv0 st + z) (cv1 st)
         in city_tail orig remaining tail_done
              \<lparr>cx = x, cy = y, cz = z, cv0 = fst v * K0, cv1 = snd v, cw0 = w0, cw1 = w1\<rparr>)
      else st)"
  by pat_completeness auto
termination
  by (relation "measure (\<lambda>(orig, remaining, tail_done, st). remaining - tail_done)") auto

declare city_tail.simps [simp del]

definition city_hash128_with_seed :: "bytes \<Rightarrow> u64 \<Rightarrow> u64 \<Rightarrow> u128" where
  "city_hash128_with_seed s seed_low seed_high =
     (if length s < 128 then city_murmur s seed_low seed_high
      else
        (let z = of_nat (length s) * K1;
             v0 = rotate_right 49 (seed_high XOR K1) * K1 + fetch64 s;
             v1 = rotate_right 42 v0 * K1 + fetch64 (drop 8 s);
             w0 = rotate_right 35 (seed_high + z) * K1 + seed_low;
             w1 = rotate_right 53 (seed_low + fetch64 (drop 88 s)) * K1;
             (remaining, st) = city_loop s (length s)
               \<lparr>cx = seed_low, cy = seed_high, cz = z, cv0 = v0, cv1 = v1, cw0 = w0, cw1 = w1\<rparr>;
             st = city_tail s remaining 0
               \<lparr>cx = cx st + rotate_right 49 (cv0 st + cz st) * K0,
                cy = cy st * K0 + rotate_right 37 (cw1 st),
                cz = cz st * K0 + rotate_right 27 (cw0 st),
                cv0 = cv0 st * K0, cv1 = cv1 st, cw0 = cw0 st * 9, cw1 = cw1 st\<rparr>;
             x = hash_len16 (cx st) (cv0 st);
             y = hash_len16 (cy st + cz st) (cw0 st)
         in pack (hash_len16 (x + cv1 st) (cw1 st) + y)
                 (hash_len16 (x + cw1 st) (y + cv1 st))))"

definition city_hash_128 :: "bytes \<Rightarrow> u128" where
  "city_hash_128 data =
     (if length data \<ge> 16
      then city_hash128_with_seed (drop 16 data) (fetch64 data) (fetch64 (drop 8 data) + K0)
      else city_hash128_with_seed data K0 K1)"

definition hash128 :: "bytes \<Rightarrow> u128" where
  "hash128 data = city_hash_128 data"

text \<open>\<open>format!("{:032x}")\<close> of the digest, one nibble per character.\<close>

definition hash128_hex :: "bytes \<Rightarrow> string" where
  "hash128_hex data =
     (let h = hash128 data in map (\<lambda>i. hex_digit (unat (drop_bit (4 * i) h AND 15))) (rev [0..<32]))"

section \<open>Published vectors\<close>

lemma city_hash_vector_empty: "hash128 [] = 0x3cb540c392e51e293df09dfc64c09a2b"
  by code_simp

lemma city_hash_vector_hello: "hash128 (as_bytes ''hello'') = 0x65148f580b45f3476f72e4abb491a74a"
  by code_simp

lemma city_hash_vector_100:
  "hash128 (map of_nat [0..<100]) = 0x4af6eac6b81177e082940c1b36354e6f"
  by code_simp

lemma city_hash_vector_hex: "hash128_hex (as_bytes ''hello'') = ''65148f580b45f3476f72e4abb491a74a''"
  unfolding hash128_hex_def city_hash_vector_hello by code_simp

text \<open>The digest agrees with the published CityHash128 vectors that the repository pins: the
  empty input, \<open>hello\<close>, the bytes 0 to 99, and the hex form of the digest of \<open>hello\<close>.\<close>

theorem city_hash_golden_vectors:
  "hash128 [] = 0x3cb540c392e51e293df09dfc64c09a2b \<and>
   hash128 (as_bytes ''hello'') = 0x65148f580b45f3476f72e4abb491a74a \<and>
   hash128 (map of_nat [0..<100]) = 0x4af6eac6b81177e082940c1b36354e6f \<and>
   hash128_hex (as_bytes ''hello'') = ''65148f580b45f3476f72e4abb491a74a''"
  by (intro conjI city_hash_vector_empty city_hash_vector_hello city_hash_vector_100 city_hash_vector_hex)

end
