(* ===== verification/Keys.thy ===== *)
theory Keys
  imports CityHash
begin

text \<open>
  \<^verbatim>\<open>src/keys.rs\<close>: the database keys. A key is a plain-text kind prefix and the hex digest of the
  lower-cased canonical fields joined by \<open>/\<close>; the read-through kinds hash their URL as it is, and
  the OCSP kind carries the request digest computed by the OCSP reader.
\<close>

definition PCKCERT :: string where "PCKCERT = ''pckcert/''"
definition TCB :: string where "TCB = ''tcb/''"
definition IDENTITY :: string where "IDENTITY = ''identity/''"
definition PCKCRL :: string where "PCKCRL = ''pckcrl/''"
definition ROOTCACRL :: string where "ROOTCACRL = ''rootcacrl''"
definition CRL :: string where "CRL = ''crl/''"
definition AMD_KDS :: string where "AMD_KDS = ''amd-kds/''"
definition NVIDIA_RIM :: string where "NVIDIA_RIM = ''nvidia-rim/''"
definition NVIDIA_OCSP :: string where "NVIDIA_OCSP = ''nvidia-ocsp/''"
definition FIFO_ORDER :: string where "FIFO_ORDER = ''fifo/''"
definition FIFO_POS :: string where "FIFO_POS = ''fifo-pos/''"
definition FIFO_COUNT :: string where "FIFO_COUNT = ''fifo-count/''"
definition APPRAISAL :: string where "APPRAISAL = ''appraisal/''"
definition PREG :: string where "PREG = ''preg/''"
definition PLATFORM :: string where "PLATFORM = ''platform/''"

lemmas prefix_defs =
  PCKCERT_def TCB_def IDENTITY_def PCKCRL_def ROOTCACRL_def CRL_def AMD_KDS_def NVIDIA_RIM_def
  NVIDIA_OCSP_def FIFO_ORDER_def FIFO_POS_def FIFO_COUNT_def APPRAISAL_def PREG_def PLATFORM_def

fun join :: "string \<Rightarrow> string list \<Rightarrow> string" where
  "join sep [] = []"
| "join sep [x] = x"
| "join sep (x # y # ys) = x @ sep @ join sep (y # ys)"

definition join_lower :: "string list \<Rightarrow> string" where
  "join_lower parts = join ''/'' (map to_ascii_lowercase parts)"

definition make :: "string \<Rightarrow> string list \<Rightarrow> string" where
  "make pre parts = pre @ hash128_hex (as_bytes (join_lower parts))"

definition key_pckcert :: "string \<Rightarrow> string \<Rightarrow> string \<Rightarrow> string \<Rightarrow> string" where
  "key_pckcert qeid pceid cpusvn pcesvn = make PCKCERT [qeid, pceid, cpusvn, pcesvn]"

definition key_tcb :: "string \<Rightarrow> u32 \<Rightarrow> string \<Rightarrow> string \<Rightarrow> string" where
  "key_tcb prd version fmspc update = make TCB [prd, dec_string (unat version), fmspc, update]"

definition key_identity :: "string \<Rightarrow> u32 \<Rightarrow> string \<Rightarrow> string" where
  "key_identity name version update = make IDENTITY [name, dec_string (unat version), update]"

definition key_pckcrl :: "string \<Rightarrow> string" where
  "key_pckcrl ca = make PCKCRL [ca]"

definition key_rootcacrl :: string where
  "key_rootcacrl = ROOTCACRL"

definition key_crl :: "string \<Rightarrow> string" where
  "key_crl uri = make CRL [uri]"

definition key_amd_kds :: "string \<Rightarrow> string" where
  "key_amd_kds url = AMD_KDS @ hash128_hex (as_bytes url)"

definition key_nvidia_rim :: "string \<Rightarrow> string" where
  "key_nvidia_rim url = NVIDIA_RIM @ hash128_hex (as_bytes url)"

definition key_nvidia_ocsp :: "string \<Rightarrow> string" where
  "key_nvidia_ocsp cache_key = NVIDIA_OCSP @ cache_key"

definition key_appraisal :: "string \<Rightarrow> string" where
  "key_appraisal fmspc = make APPRAISAL [fmspc]"

definition key_preg :: "string \<Rightarrow> string \<Rightarrow> string \<Rightarrow> string \<Rightarrow> string" where
  "key_preg qeid pceid cpusvn pcesvn = make PREG [qeid, pceid, cpusvn, pcesvn]"

definition key_platform :: "string \<Rightarrow> string \<Rightarrow> string" where
  "key_platform qeid pceid = make PLATFORM [qeid, pceid]"

definition prod_name :: "u8 \<Rightarrow> string" where
  "prod_name prod_type = (if prod_type = 1 then ''tdx'' else ''sgx'')"

definition identity_name :: "u8 \<Rightarrow> string" where
  "identity_name enclave_id =
     (if enclave_id = 2 then ''qve'' else if enclave_id = 3 then ''tdqe'' else ''qe'')"

lemmas key_defs =
  key_pckcert_def key_tcb_def key_identity_def key_pckcrl_def key_rootcacrl_def key_crl_def
  key_amd_kds_def key_nvidia_rim_def key_nvidia_ocsp_def key_appraisal_def key_preg_def
  key_platform_def make_def

section \<open>Shape of the keys\<close>

lemma length_hash128_hex [simp]: "length (hash128_hex data) = 32"
  by (simp add: hash128_hex_def Let_def)

definition is_lower_hex :: "char \<Rightarrow> bool" where
  "is_lower_hex c \<longleftrightarrow> is_ascii_digit c \<or> (97 \<le> code c \<and> code c \<le> 102)"

lemma hex_digit_lower_hex: "n < 16 \<Longrightarrow> is_lower_hex (hex_digit n)"
  by (auto simp: hex_digit_def is_lower_hex_def is_ascii_digit_def)

lemma unat_and_15: "unat ((w :: u128) AND 15) < 16"
proof -
  have "w AND 15 \<le> 15" by (rule word_and_le1)
  then show ?thesis by (simp add: word_le_nat_alt)
qed

lemma hash128_hex_lower_hex: "list_all is_lower_hex (hash128_hex data)"
  by (auto simp: hash128_hex_def Let_def list_all_iff intro: hex_digit_lower_hex unat_and_15)

lemma join_lower_cong:
  "map to_ascii_lowercase xs = map to_ascii_lowercase ys \<Longrightarrow> join_lower xs = join_lower ys"
  by (simp add: join_lower_def)

text \<open>The first field of a key may hold any byte (a \<open>qeid\<close> is not required to be hex); the later ones
  never hold a separator, so the canonical string still determines every field.\<close>

lemma append_sep_inj:
  assumes "a @ c # x = b @ c # y" and "c \<notin> set x" and "c \<notin> set y"
  shows "a = b \<and> x = y"
proof -
  have "rev x @ c # rev a = rev y @ c # rev b"
    using arg_cong [OF assms(1), of rev] by simp
  moreover have "c \<notin> set (rev x)" "c \<notin> set (rev y)"
    using assms by simp_all
  ultimately have "split_once c (rev y @ c # rev b) = Some (rev x, rev a)"
    "split_once c (rev y @ c # rev b) = Some (rev y, rev b)"
    by (simp_all add: split_once_Some)
  then show ?thesis by simp
qed

lemma join_lower_snoc:
  "xs \<noteq> [] \<Longrightarrow> join_lower (xs @ [y]) = join_lower xs @ ''/'' @ to_ascii_lowercase y"
proof (induction xs)
  case (Cons x xs)
  then show ?case
    by (cases xs) (auto simp: join_lower_def)
qed simp

lemma slash_lower: "CHR ''/'' \<in> set (to_ascii_lowercase s) \<longleftrightarrow> CHR ''/'' \<in> set s"
proof -
  have "ascii_lower c = CHR ''/'' \<longleftrightarrow> c = CHR ''/''" for c
  proof (cases "is_ascii_uppercase c")
    case True
    then have "code (ascii_lower c) \<noteq> 47" "code c \<noteq> 47"
      by (auto simp: ascii_lower_def is_ascii_uppercase_def)
    moreover have "code (CHR ''/'') = 47" by simp
    ultimately show ?thesis by metis
  qed (simp add: ascii_lower_def)
  then have "CHR ''/'' \<in> ascii_lower ` set s \<longleftrightarrow> CHR ''/'' \<in> set s"
    by (metis image_iff)
  then show ?thesis by (simp only: to_ascii_lowercase_def set_map)
qed

lemma join_lower_inj:
  assumes "length xs = length ys" and "xs \<noteq> []"
    and "\<forall>x\<in>set (tl xs). CHR ''/'' \<notin> set x" and "\<forall>y\<in>set (tl ys). CHR ''/'' \<notin> set y"
    and "join_lower xs = join_lower ys"
  shows "list_all2 eq_ignore_ascii_case xs ys"
  using assms
proof (induction xs arbitrary: ys rule: rev_induct)
  case (snoc x xs)
  from snoc.prems(1) obtain y zs where ys: "ys = zs @ [y]"
    by (metis length_0_conv rev_exhaust snoc_eq_iff_butlast)
  show ?case
  proof (cases "xs = []")
    case True
    with snoc.prems ys show ?thesis
      by (simp add: join_lower_def eq_ignore_ascii_case_def)
  next
    case False
    with snoc.prems ys have zs: "zs \<noteq> []" by auto
    have "join_lower xs @ CHR ''/'' # to_ascii_lowercase x = join_lower zs @ CHR ''/'' # to_ascii_lowercase y"
      using snoc.prems(5) False zs ys by (simp add: join_lower_snoc)
    moreover have "CHR ''/'' \<notin> set x" "CHR ''/'' \<notin> set y"
      using snoc.prems False zs ys by simp_all
    ultimately have "join_lower xs = join_lower zs \<and> to_ascii_lowercase x = to_ascii_lowercase y"
      by (metis append_sep_inj slash_lower)
    moreover have "list_all2 eq_ignore_ascii_case xs zs"
      using snoc.IH [of zs] snoc.prems False zs ys calculation by simp
    ultimately show ?thesis
      unfolding ys by (intro list_all2_appendI) (simp_all add: eq_ignore_ascii_case_def [of x y])
  qed
qed simp

section \<open>Properties\<close>

definition all_prefixes :: "string list" where
  "all_prefixes =
     [PCKCERT, TCB, IDENTITY, PCKCRL, ROOTCACRL, CRL, AMD_KDS, NVIDIA_RIM, NVIDIA_OCSP,
      FIFO_ORDER, FIFO_POS, FIFO_COUNT, APPRAISAL, PREG, PLATFORM]"

definition prefix_free :: "'a list list \<Rightarrow> bool" where
  "prefix_free ps \<longleftrightarrow> (\<forall>p\<in>set ps. \<forall>q\<in>set ps. p \<noteq> q \<longrightarrow> \<not> starts_with q p)"

lemma all_prefixes_free: "prefix_free all_prefixes"
  by (simp add: prefix_free_def all_prefixes_def prefix_defs starts_with_def)

lemma prefix_free_disjoint:
  assumes "prefix_free ps" and "p \<in> set ps" and "q \<in> set ps" and "p @ x = q @ y"
  shows "p = q"
proof (rule ccontr)
  assume "p \<noteq> q"
  moreover from assms(4) have "starts_with p q \<or> starts_with q p"
    by (auto simp: starts_with_iff append_eq_append_conv2)
  ultimately show False
    using assms(1-3) by (auto simp: prefix_free_def)
qed

text \<open>Two keys of different kinds are never equal: no kind prefix is a prefix of another, the
  index prefixes of the bounded kinds included.\<close>

theorem key_kinds_disjoint:
  "p \<in> set all_prefixes \<Longrightarrow> q \<in> set all_prefixes \<Longrightarrow> p \<noteq> q \<Longrightarrow> p @ x \<noteq> q @ y"
  using prefix_free_disjoint [OF all_prefixes_free] by blast

theorem key_kinds_disjoint_witness: "PCKCERT @ ''00'' \<noteq> PCKCRL @ ''00''"
  by (rule key_kinds_disjoint) (simp_all add: all_prefixes_def prefix_defs)

text \<open>A PCK certificate key depends only on the four request fields up to ASCII case, and, the
  three fixed-width fields being free of the separator, the canonical string it digests determines
  them: equal canonical strings come from the same platform and TCB.\<close>

theorem key_pckcert_canonical:
  assumes "\<forall>f\<in>{pceid, cpusvn, pcesvn, pceid', cpusvn', pcesvn'}. CHR ''/'' \<notin> set f"
  shows "join_lower [qeid, pceid, cpusvn, pcesvn] = join_lower [qeid', pceid', cpusvn', pcesvn'] \<longleftrightarrow>
     eq_ignore_ascii_case qeid qeid' \<and> eq_ignore_ascii_case pceid pceid' \<and>
     eq_ignore_ascii_case cpusvn cpusvn' \<and> eq_ignore_ascii_case pcesvn pcesvn'"
    (is "?l \<longleftrightarrow> ?r")
proof
  assume ?l
  then have "list_all2 eq_ignore_ascii_case
      [qeid, pceid, cpusvn, pcesvn] [qeid', pceid', cpusvn', pcesvn']"
    using assms by (intro join_lower_inj) simp_all
  then show ?r by simp
next
  assume ?r
  then show ?l
    by (intro join_lower_cong) (simp add: eq_ignore_ascii_case_def)
qed

theorem key_pckcert_canonical_witness:
  "join_lower [''AB'', ''0000'', ''00'', ''0D00''] = join_lower [''ab'', ''0000'', ''00'', ''0d00''] \<longleftrightarrow>
     eq_ignore_ascii_case ''AB'' ''ab'' \<and> eq_ignore_ascii_case ''0000'' ''0000'' \<and>
     eq_ignore_ascii_case ''00'' ''00'' \<and> eq_ignore_ascii_case ''0D00'' ''0d00''"
  by (rule key_pckcert_canonical) simp

end
