(* ===== verification/Errors.thy ===== *)
theory Errors
  imports Rust_Strings
begin

text \<open>
  \<^verbatim>\<open>src/error.rs\<close>: the PCCS status codes and error type, the response an error becomes, and the
  two body extractors. The body read itself (axum, bounded by a tokio timeout) is an input: \<open>None\<close>
  when the timeout elapsed, otherwise the extractor's own result, \<open>Inl\<close> with the HTTP status of
  its rejection.
\<close>

record pccs_error =
  err_status :: nat
  err_message :: string

type_synonym 'a res = "pccs_error + 'a"

definition mk_error :: "nat \<Rightarrow> string \<Rightarrow> pccs_error" where
  "mk_error st msg = \<lparr>err_status = st, err_message = msg\<rparr>"

definition INVALID_REQ :: pccs_error where
  "INVALID_REQ = mk_error 400 ''Invalid request parameters.''"

definition UNAUTHORIZED :: pccs_error where
  "UNAUTHORIZED = mk_error 401 ''Authentication failed.''"

definition NO_CACHE_DATA :: pccs_error where
  "NO_CACHE_DATA = mk_error 404 ''No cache data for this platform.''"

definition CONTENT_TOO_LARGE :: pccs_error where
  "CONTENT_TOO_LARGE = mk_error 413 ''Content too large.''"

definition REQUEST_TIMEOUT :: pccs_error where
  "REQUEST_TIMEOUT = mk_error 408 ''Request Timeout''"

definition integrity_error :: pccs_error where
  "integrity_error = mk_error 460
     (''The integrity of the data can'' @ [CHR 0x27] @ ''t be verified.'')"

definition platform_unknown :: pccs_error where
  "platform_unknown = mk_error 461 ''The platform was not found in the cache.''"

definition certs_unavailable :: pccs_error where
  "certs_unavailable = mk_error 462 ''Certificates are not available for certain TCBs.''"

definition PCS_V3_REACHED_EOL :: pccs_error where
  "PCS_V3_REACHED_EOL = mk_error 410
     ''The Intel PCS API version 3 reached planned EOL. Accordingly, collateral from this API version cannot be retrieved any longer.''"

definition INTERNAL_ERROR :: pccs_error where
  "INTERNAL_ERROR = mk_error 500 ''Internal server error occurred.''"

definition SERVICE_UNAVAILABLE :: pccs_error where
  "SERVICE_UNAVAILABLE = mk_error 503 ''Server is currently unable to process the request.''"

definition PCS_ACCESS_FAILURE :: pccs_error where
  "PCS_ACCESS_FAILURE = mk_error 502 ''Unable to retrieve the collateral from the Intel SGX PCS.''"

definition AMD_KDS_ACCESS_FAILURE :: pccs_error where
  "AMD_KDS_ACCESS_FAILURE = mk_error 502 ''Unable to retrieve the collateral from the AMD KDS.''"

definition NVIDIA_RIM_ACCESS_FAILURE :: pccs_error where
  "NVIDIA_RIM_ACCESS_FAILURE =
     mk_error 502 ''Unable to retrieve the collateral from the NVIDIA RIM service.''"

definition NVIDIA_NRAS_ACCESS_FAILURE :: pccs_error where
  "NVIDIA_NRAS_ACCESS_FAILURE =
     mk_error 502 ''Unable to retrieve the attestation result from the NVIDIA NRAS.''"

definition NVIDIA_OCSP_ACCESS_FAILURE :: pccs_error where
  "NVIDIA_OCSP_ACCESS_FAILURE =
     mk_error 502 ''Unable to retrieve the OCSP response from the NVIDIA OCSP service.''"

section \<open>Responses\<close>

record response =
  resp_status :: nat
  resp_headers :: "(string \<times> string) list"
  resp_body :: bytes

definition ERROR_CONTENT_TYPE :: string where
  "ERROR_CONTENT_TYPE = ''text/html; charset=utf-8''"

definition text_html :: "nat \<Rightarrow> string \<Rightarrow> response" where
  "text_html st body =
     \<lparr>resp_status = st, resp_headers = [(''content-type'', ERROR_CONTENT_TYPE)],
      resp_body = as_bytes body\<rparr>"

definition into_response :: "pccs_error \<Rightarrow> response" where
  "into_response e = text_html (err_status e) (err_message e)"

definition success_body :: string where
  "success_body = ''Operation successful.''"

definition success_response :: response where
  "success_response = text_html 200 success_body"

section \<open>Body extractors\<close>

definition pccs_json :: "(nat + 'a) option \<Rightarrow> 'a res" where
  "pccs_json read =
     (case read of
        None \<Rightarrow> Inl REQUEST_TIMEOUT
      | Some (Inr v) \<Rightarrow> Inr v
      | Some (Inl rejection) \<Rightarrow>
          if rejection = 413 then Inl CONTENT_TOO_LARGE else Inl INVALID_REQ)"

definition pccs_bytes :: "(nat + bytes) option \<Rightarrow> bytes res" where
  "pccs_bytes read =
     (case read of
        None \<Rightarrow> Inl REQUEST_TIMEOUT
      | Some (Inr body) \<Rightarrow> Inr body
      | Some (Inl rejection) \<Rightarrow>
          if rejection = 413 then Inl CONTENT_TOO_LARGE else Inl INVALID_REQ)"

lemmas error_defs =
  INVALID_REQ_def UNAUTHORIZED_def NO_CACHE_DATA_def CONTENT_TOO_LARGE_def REQUEST_TIMEOUT_def
  integrity_error_def platform_unknown_def certs_unavailable_def PCS_V3_REACHED_EOL_def
  INTERNAL_ERROR_def SERVICE_UNAVAILABLE_def PCS_ACCESS_FAILURE_def AMD_KDS_ACCESS_FAILURE_def
  NVIDIA_RIM_ACCESS_FAILURE_def NVIDIA_NRAS_ACCESS_FAILURE_def NVIDIA_OCSP_ACCESS_FAILURE_def
  mk_error_def

lemma err_status_simps [simp]:
  "err_status INVALID_REQ = 400" "err_status UNAUTHORIZED = 401" "err_status NO_CACHE_DATA = 404"
  "err_status CONTENT_TOO_LARGE = 413" "err_status REQUEST_TIMEOUT = 408"
  "err_status integrity_error = 460" "err_status platform_unknown = 461"
  "err_status certs_unavailable = 462" "err_status PCS_V3_REACHED_EOL = 410"
  "err_status INTERNAL_ERROR = 500" "err_status SERVICE_UNAVAILABLE = 503"
  "err_status PCS_ACCESS_FAILURE = 502" "err_status AMD_KDS_ACCESS_FAILURE = 502"
  "err_status NVIDIA_RIM_ACCESS_FAILURE = 502" "err_status NVIDIA_NRAS_ACCESS_FAILURE = 502"
  "err_status NVIDIA_OCSP_ACCESS_FAILURE = 502"
  by (simp_all add: error_defs)

end
