(* ===== verification/Json.thy ===== *)
theory Json
  imports Rust_Strings
begin

text \<open>
  The JSON documents the program reads and stores (\<open>serde_json::Value\<close>, built with
  \<open>preserve_order\<close>, so an object is a list of members in document order), with the accessors the
  sources call; and the record of external functions: digests, codecs, the JSON text parser and
  the date parser are third-party crates, so every definition that calls one takes the record
  \<open>ext\<close> as an argument.
\<close>

datatype jnum = PosInt u64 | NegInt int | Float u64

datatype json =
    JNull
  | JBool bool
  | JNum jnum
  | JStr string
  | JArr "json list"
  | JObj "(string \<times> json) list"

definition jget :: "json \<Rightarrow> string \<Rightarrow> json option" where
  "jget v k = (case v of JObj kvs \<Rightarrow> map_of kvs k | _ \<Rightarrow> None)"

definition as_str :: "json \<Rightarrow> string option" where
  "as_str v = (case v of JStr s \<Rightarrow> Some s | _ \<Rightarrow> None)"

definition as_array :: "json \<Rightarrow> json list option" where
  "as_array v = (case v of JArr xs \<Rightarrow> Some xs | _ \<Rightarrow> None)"

definition as_bool :: "json \<Rightarrow> bool option" where
  "as_bool v = (case v of JBool b \<Rightarrow> Some b | _ \<Rightarrow> None)"

definition as_u64 :: "json \<Rightarrow> u64 option" where
  "as_u64 v = (case v of JNum (PosInt n) \<Rightarrow> Some n | _ \<Rightarrow> None)"

definition as_i64 :: "json \<Rightarrow> int option" where
  "as_i64 v =
     (case v of
        JNum (PosInt n) \<Rightarrow> if n \<le> 0x7fffffffffffffff then Some (uint n) else None
      | JNum (NegInt i) \<Rightarrow> Some i
      | _ \<Rightarrow> None)"

definition is_object :: "json \<Rightarrow> bool" where
  "is_object v = (case v of JObj _ \<Rightarrow> True | _ \<Rightarrow> False)"

definition get_str :: "json \<Rightarrow> string \<Rightarrow> string option" where
  "get_str v k = Option.bind (jget v k) as_str"

definition get_array :: "json \<Rightarrow> string \<Rightarrow> json list option" where
  "get_array v k = Option.bind (jget v k) as_array"

definition get_u64 :: "json \<Rightarrow> string \<Rightarrow> u64 option" where
  "get_u64 v k = Option.bind (jget v k) as_u64"

lemma jget_simps [simp]:
  "jget (JObj kvs) k = map_of kvs k"
  "jget JNull k = None" "jget (JBool b) k = None" "jget (JNum n) k = None"
  "jget (JStr s) k = None" "jget (JArr xs) k = None"
  by (simp_all add: jget_def)

lemma as_str_Some [simp]: "as_str v = Some s \<longleftrightarrow> v = JStr s"
  by (cases v) (simp_all add: as_str_def)

lemma as_str_JStr [simp]: "as_str (JStr s) = Some s"
  by simp

lemma as_array_Some [simp]: "as_array v = Some xs \<longleftrightarrow> v = JArr xs"
  by (cases v) (simp_all add: as_array_def)

lemma get_str_Some [simp]: "get_str v k = Some s \<longleftrightarrow> jget v k = Some (JStr s)"
  by (auto simp: get_str_def bind_eq_Some_conv)

section \<open>External functions\<close>

record ext =
  x_sha256 :: "bytes \<Rightarrow> bytes"
  x_sha384 :: "bytes \<Rightarrow> bytes"
  x_sha512 :: "bytes \<Rightarrow> bytes"
  x_hex_encode :: "bytes \<Rightarrow> string"
  x_hex_encode_upper :: "bytes \<Rightarrow> string"
  x_hex_decode :: "string \<Rightarrow> bytes option"
  x_base64_std :: "string \<Rightarrow> bytes option"
  x_base64_url :: "string \<Rightarrow> bytes option"
  x_json_from_slice :: "bytes \<Rightarrow> json option"
  x_json_to_string :: "json \<Rightarrow> string"
  x_naive_time :: "string \<Rightarrow> string \<Rightarrow> int option"
  x_zoned_time :: "string \<Rightarrow> string \<Rightarrow> int option"

text \<open>A concrete instance, used where a property is applied to one input: digests and codecs that
  return their argument, dates read as one decimal number of seconds.\<close>

definition sample_ext :: ext where
  "sample_ext =
     \<lparr>x_sha256 = id, x_sha384 = id, x_sha512 = id,
      x_hex_encode = of_bytes, x_hex_encode_upper = of_bytes, x_hex_decode = Some \<circ> as_bytes,
      x_base64_std = Some \<circ> as_bytes, x_base64_url = Some \<circ> as_bytes,
      x_json_from_slice = (\<lambda>b. Some (JStr (of_bytes b))), x_json_to_string = (\<lambda>v. []),
      x_naive_time = (\<lambda>s f. parse_uint 1000 s),
      x_zoned_time = (\<lambda>s f. None)\<rparr>"

end
