(* ===== verification/Ocsp.thy ===== *)
theory Ocsp
  imports Errors Json
begin

text \<open>
  \<^verbatim>\<open>src/ocsp.rs\<close>: the DER reader of the NVIDIA OCSP proxy, the cache key of a request and the cache
  deadline of a response. Slices that the source advances through \<open>&mut &[u8]\<close> are returned as the
  rest of the input. SHA-256, hex encoding and the date parser are fields of \<open>ext\<close>. \<open>usize\<close> is
  64 bits wide; \<open>i64\<close> values are integers with their range checks written out.
\<close>

section \<open>The TLV reader\<close>

record tlv =
  tlv_tag :: u8
  tlv_value :: bytes
  tlv_raw :: bytes

text \<open>The length loop: \<open>checked_mul(256)\<close> and \<open>checked_add\<close> on \<open>usize\<close>.\<close>

definition usize_overflow :: "nat \<Rightarrow> bool" where
  "usize_overflow n \<longleftrightarrow> (2 :: int) ^ 64 \<le> int n"

lemma usize_overflow_iff [simp]: "usize_overflow n \<longleftrightarrow> 2 ^ 64 \<le> n"
  by (simp add: usize_overflow_def)

fun len_value :: "nat \<Rightarrow> bytes \<Rightarrow> nat option" where
  "len_value acc [] = Some acc"
| "len_value acc (b # bs) =
     (if usize_overflow (acc * 256) then None
      else if usize_overflow (acc * 256 + unat b) then None
      else len_value (acc * 256 + unat b) bs)"

definition tlv_header :: "bytes \<Rightarrow> (nat \<times> nat) res" where
  "tlv_header original =
     (let first_len = original ! 1
      in if first_len AND 0x80 = 0 then Inr (2, unat first_len)
         else
           (let count = unat (first_len AND 0x7f)
            in if count = 0 \<or> count > 8 \<or> length original < 2 + count then Inl INVALID_REQ
               else if original ! 2 = 0 then Inl INVALID_REQ
               else
                 (case len_value 0 (take count (drop 2 original)) of
                    None \<Rightarrow> Inl INVALID_REQ
                  | Some v \<Rightarrow> if v < 128 then Inl INVALID_REQ else Inr (2 + count, v))))"

definition take_tlv :: "bytes \<Rightarrow> (tlv \<times> bytes) res" where
  "take_tlv original =
     (if length original < 2 then Inl INVALID_REQ
      else
        (let tag = original ! 0
         in if tag AND 0x1f = 0x1f then Inl INVALID_REQ
            else and_then (tlv_header original) (\<lambda>(header_len, value_len).
              if usize_overflow (header_len + value_len) then Inl INVALID_REQ
              else if length original < header_len + value_len then Inl INVALID_REQ
              else
                (let raw = take (header_len + value_len) original
                 in Inr (\<lparr>tlv_tag = tag, tlv_value = drop header_len raw, tlv_raw = raw\<rparr>,
                         drop (header_len + value_len) original)))))"

definition peek_tag :: "bytes \<Rightarrow> u8 option" where
  "peek_tag inp = (case inp of [] \<Rightarrow> None | b # _ \<Rightarrow> Some b)"

definition take_expected :: "u8 \<Rightarrow> bytes \<Rightarrow> (tlv \<times> bytes) res" where
  "take_expected expected_tag inp =
     and_then (take_tlv inp) (\<lambda>(t, rest).
       if tlv_tag t \<noteq> expected_tag then Inl INVALID_REQ else Inr (t, rest))"

definition parse_single :: "u8 \<Rightarrow> bytes \<Rightarrow> tlv res" where
  "parse_single expected_tag inp =
     and_then (take_expected expected_tag inp) (\<lambda>(t, rest).
       if rest \<noteq> [] then Inl INVALID_REQ else Inr t)"

text \<open>What the parsing loops need of a reader: it returns a non-empty prefix of its input.\<close>

locale tlv_reader =
  fixes take_one :: "bytes \<Rightarrow> 'e + ('t \<times> bytes)"
    and raw :: "'t \<Rightarrow> bytes"
  assumes consumes: "take_one inp = Inr (t, rest) \<Longrightarrow> inp = raw t @ rest"
    and nonempty: "take_one inp = Inr (t, rest) \<Longrightarrow> raw t \<noteq> []"
begin

lemma shorter: "take_one inp = Inr (t, rest) \<Longrightarrow> length rest < length inp"
  using consumes nonempty by fastforce

lemma raw_length: "take_one inp = Inr (t, rest) \<Longrightarrow> length (raw t) + length rest = length inp"
  using consumes by fastforce

lemma empty_fails: "\<exists>e. take_one [] = Inl e"
  using shorter by (cases "take_one []") fastforce+

end

lemma tlv_header_ge_2: "tlv_header original = Inr (h, v) \<Longrightarrow> 2 \<le> h"
  by (auto simp: tlv_header_def Let_def split: if_splits option.splits)

interpretation der: tlv_reader take_tlv tlv_raw
proof
  fix inp t rest
  assume "take_tlv inp = Inr (t, rest)"
  then show "inp = tlv_raw t @ rest"
    by (auto simp: take_tlv_def Let_def split: if_splits)
next
  fix inp t rest
  assume *: "take_tlv inp = Inr (t, rest)"
  then obtain h v where h: "tlv_header inp = Inr (h, v)" and t: "tlv_raw t = take (h + v) inp"
    and "\<not> length inp < 2"
    by (auto simp: take_tlv_def Let_def split: if_splits)
  with tlv_header_ge_2 [OF h] show "tlv_raw t \<noteq> []"
    by (cases inp) auto
qed

interpretation der_expected: tlv_reader "take_expected tag" tlv_raw for tag
  by unfold_locales
    (auto simp: take_expected_def split: if_splits dest: der.consumes der.nonempty)

section \<open>Requests\<close>

function validate_extensions :: "bytes \<Rightarrow> unit res" where
  "validate_extensions extensions =
     (if extensions = [] then Inr ()
      else
        (case take_expected 0x30 extensions of
           Inl e \<Rightarrow> Inl e
         | Inr (extension, extensions') \<Rightarrow>
             and_then (take_expected 0x06 (tlv_value extension)) (\<lambda>(_, fields).
             and_then (if peek_tag fields = Some 0x01
                       then map_sum id snd (take_expected 0x01 fields) else Inr fields) (\<lambda>fields.
             and_then (take_expected 0x04 fields) (\<lambda>(_, fields).
               if fields \<noteq> [] then Inl INVALID_REQ else validate_extensions extensions')))))"
  by pat_completeness auto
termination
  by (relation "measure length") (auto dest: der_expected.shorter)

function validate_request_list_loop :: "bytes \<Rightarrow> unit res" where
  "validate_request_list_loop request_list =
     (if request_list = [] then Inr ()
      else
        (case take_expected 0x30 request_list of
           Inl e \<Rightarrow> Inl e
         | Inr (request, request_list') \<Rightarrow>
             and_then (take_expected 0x30 (tlv_value request)) (\<lambda>(_, fields).
             and_then (if fields \<noteq> [] then map_sum id snd (take_expected 0xa0 fields) else Inr fields)
               (\<lambda>fields.
                 if fields \<noteq> [] then Inl INVALID_REQ
                 else validate_request_list_loop request_list'))))"
  by pat_completeness auto
termination
  by (relation "measure length") (auto dest: der_expected.shorter)

declare validate_extensions.simps [simp del] validate_request_list_loop.simps [simp del]

definition validate_request_list :: "bytes \<Rightarrow> unit res" where
  "validate_request_list request_list =
     (if request_list = [] then Inl INVALID_REQ else validate_request_list_loop request_list)"

text \<open>Only the optional requestExtensions may follow the requestList.\<close>

definition after_request_list :: "bytes \<Rightarrow> unit res" where
  "after_request_list rest =
     and_then (if rest \<noteq> [] then
                 and_then (take_expected 0xa2 rest) (\<lambda>(extensions, rest).
                 and_then (parse_single 0x30 (tlv_value extensions)) (\<lambda>s.
                 and_then (validate_extensions (tlv_value s)) (\<lambda>_. Inr rest)))
               else Inr rest) (\<lambda>rest.
       if rest \<noteq> [] then Inl INVALID_REQ else Inr ())"

text \<open>The loop over the fields of the TBSRequest: the raw requestList it accepts.\<close>

function tbs_loop :: "bytes \<Rightarrow> bytes res" where
  "tbs_loop tbs_fields =
     (if tbs_fields = [] then Inl INVALID_REQ
      else
        (case take_tlv tbs_fields of
           Inl e \<Rightarrow> Inl e
         | Inr (field, rest) \<Rightarrow>
             if tlv_tag field = 0xa0 \<or> tlv_tag field = 0xa1 then tbs_loop rest
             else if tlv_tag field = 0x30 then
               and_then (validate_request_list (tlv_value field)) (\<lambda>_.
               and_then (after_request_list rest) (\<lambda>_. Inr (tlv_raw field)))
             else Inl INVALID_REQ))"
  by pat_completeness auto
termination
  by (relation "measure length") (auto dest: der.shorter)

declare tbs_loop.simps [simp del]

record ocsp_request =
  cache_key :: string

definition parse_request :: "ext \<Rightarrow> bytes \<Rightarrow> ocsp_request res" where
  "parse_request E request =
     and_then (parse_single 0x30 request) (\<lambda>outer.
     and_then (take_expected 0x30 (tlv_value outer)) (\<lambda>(tbs, _).
     and_then (tbs_loop (tlv_value tbs)) (\<lambda>list_raw.
       Inr \<lparr>cache_key = x_hex_encode E (x_sha256 E list_raw)\<rparr>)))"

section \<open>Responses\<close>

definition OID_OCSP_BASIC :: bytes where
  "OID_OCSP_BASIC = [0x2b, 0x06, 0x01, 0x05, 0x05, 0x07, 0x30, 0x01, 0x01]"

definition CERT_STATUS_UNKNOWN :: u8 where
  "CERT_STATUS_UNKNOWN = 0x82"

record response_validity =
  this_update :: int
  next_update :: "int option"
  unknown :: bool

definition parse_generalized_time :: "ext \<Rightarrow> bytes \<Rightarrow> int res" where
  "parse_generalized_time E value =
     and_then (ok_or INVALID_REQ (from_utf8 value)) (\<lambda>s.
       ok_or INVALID_REQ
         (or_else (x_naive_time E s ''%Y%m%d%H%M%SZ'')
         (or_else (x_naive_time E s ''%Y%m%d%H%M%S%.fZ'')
         (or_else (x_zoned_time E s ''%Y%m%d%H%M%S%z'')
                  (x_zoned_time E s ''%Y%m%d%H%M%S%.f%z'')))))"

text \<open>One SingleResponse: certID, certStatus, thisUpdate, nextUpdate, singleExtensions.\<close>

definition single_response :: "ext \<Rightarrow> bytes \<Rightarrow> response_validity res" where
  "single_response E inp =
     and_then (take_expected 0x30 inp) (\<lambda>(_, fields).
     and_then (take_tlv fields) (\<lambda>(cert_status, fields).
     if tlv_tag cert_status AND 0xc0 \<noteq> 0x80 then Inl INVALID_REQ
     else
       and_then (take_expected 0x18 fields) (\<lambda>(tu, fields).
       and_then (parse_generalized_time E (tlv_value tu)) (\<lambda>this_upd.
       and_then (if peek_tag fields = Some 0xa0 then
                   and_then (take_expected 0xa0 fields) (\<lambda>(explicit, fields).
                   and_then (parse_single 0x18 (tlv_value explicit)) (\<lambda>v.
                   and_then (parse_generalized_time E (tlv_value v)) (\<lambda>t.
                     Inr (Some t, fields))))
                 else Inr (None, fields)) (\<lambda>(next_upd, fields).
       and_then (if fields \<noteq> [] then map_sum id snd (take_expected 0xa1 fields) else Inr fields)
         (\<lambda>fields.
           if fields \<noteq> [] then Inl INVALID_REQ
           else Inr \<lparr>this_update = this_upd, next_update = next_upd,
                     unknown = (tlv_tag cert_status = CERT_STATUS_UNKNOWN)\<rparr>))))))"

function single_responses_loop :: "ext \<Rightarrow> bytes \<Rightarrow> response_validity list res" where
  "single_responses_loop E single_responses =
     (if single_responses = [] then Inr []
      else
        (case take_expected 0x30 single_responses of
           Inl e \<Rightarrow> Inl e
         | Inr (single, rest) \<Rightarrow>
             and_then (single_response E (tlv_value single)) (\<lambda>v.
             and_then (single_responses_loop E rest) (\<lambda>vs. Inr (v # vs)))))"
  by pat_completeness auto
termination
  by (relation "measure (length \<circ> snd)") (auto dest: der_expected.shorter)

declare single_responses_loop.simps [simp del]

text \<open>The ResponseData: version, responderID, producedAt, responses.\<close>

definition response_data :: "ext \<Rightarrow> bytes \<Rightarrow> response_validity list res" where
  "response_data E inp =
     and_then (if peek_tag inp = Some 0xa0 then map_sum id snd (take_expected 0xa0 inp)
               else Inr inp) (\<lambda>fields.
     and_then (take_tlv fields) (\<lambda>(responder_id, fields).
     if tlv_tag responder_id AND 0xc0 \<noteq> 0x80 \<or>
        \<not> (tlv_tag responder_id AND 0x1f = 1 \<or> tlv_tag responder_id AND 0x1f = 2)
     then Inl INVALID_REQ
     else
       and_then (take_expected 0x18 fields) (\<lambda>(_, fields).
       and_then (take_expected 0x30 fields) (\<lambda>(responses, _).
       and_then (single_responses_loop E (tlv_value responses)) (\<lambda>validity.
         if validity = [] then Inl INVALID_REQ else Inr validity)))))"

definition response_validity_of :: "ext \<Rightarrow> bytes \<Rightarrow> response_validity list res" where
  "response_validity_of E response =
     and_then (parse_single 0x30 response) (\<lambda>outer.
     and_then (take_expected 0x0a (tlv_value outer)) (\<lambda>(status, fields).
     if tlv_value status \<noteq> [0] then Inl INVALID_REQ
     else
       and_then (take_expected 0xa0 fields) (\<lambda>(rb, _).
       and_then (parse_single 0x30 (tlv_value rb)) (\<lambda>response_bytes.
       and_then (take_expected 0x06 (tlv_value response_bytes)) (\<lambda>(response_type, fields).
       if tlv_value response_type \<noteq> OID_OCSP_BASIC then Inl INVALID_REQ
       else
         and_then (take_expected 0x04 fields) (\<lambda>(basic_der, _).
         and_then (parse_single 0x30 (tlv_value basic_der)) (\<lambda>basic.
         and_then (take_expected 0x30 (tlv_value basic)) (\<lambda>(rdata, fields).
         and_then (take_expected 0x30 fields) (\<lambda>(_, fields).
         and_then (take_expected 0x03 fields) (\<lambda>(_, fields).
         and_then (if fields \<noteq> [] then
                     and_then (take_expected 0xa0 fields) (\<lambda>(certs, fields).
                     and_then (parse_single 0x30 (tlv_value certs)) (\<lambda>_. Inr fields))
                   else Inr fields) (\<lambda>fields.
           if fields \<noteq> [] then Inl INVALID_REQ
           else response_data E (tlv_value rdata))))))))))))"

definition I64_MAX :: int where "I64_MAX = 2 ^ 63 - 1"
definition I64_MIN :: int where "I64_MIN = - (2 ^ 63)"

text \<open>The loop over the single responses: \<open>now\<close>, the default TTL and the deadline so far.\<close>

fun expiry_loop :: "int \<Rightarrow> int \<Rightarrow> int \<Rightarrow> response_validity list \<Rightarrow> int res" where
  "expiry_loop now default_ttl expires_at [] = Inr expires_at"
| "expiry_loop now default_ttl expires_at (item # rest) =
     (if unknown item then Inl INVALID_REQ
      else if this_update item > now then Inl INVALID_REQ
      else
        (let signed_expiry =
               (case next_update item of
                  Some t \<Rightarrow> t
                | None \<Rightarrow> max I64_MIN (min I64_MAX (this_update item + default_ttl)))
         in expiry_loop now default_ttl (min expires_at signed_expiry) rest))"

definition response_cache_expiry :: "ext \<Rightarrow> bytes \<Rightarrow> int \<Rightarrow> u64 \<Rightarrow> u64 \<Rightarrow> u64 res" where
  "response_cache_expiry E response now max_ttl_seconds default_ttl_seconds =
     and_then (response_validity_of E response) (\<lambda>validity.
     if uint default_ttl_seconds > I64_MAX then Inl INTERNAL_ERROR
     else if uint max_ttl_seconds > I64_MAX then Inl INTERNAL_ERROR
     else if now + uint max_ttl_seconds > I64_MAX then Inl INTERNAL_ERROR
     else
       and_then (expiry_loop now (uint default_ttl_seconds) (now + uint max_ttl_seconds) validity)
         (\<lambda>expires_at.
           if expires_at \<le> now then Inl INVALID_REQ
           else if expires_at < 0 then Inl INTERNAL_ERROR
           else Inr (word_of_int expires_at)))"

section \<open>The reader accepts exactly DER\<close>

text \<open>The definite-length, minimal-length encoding of one TLV (X.690, 10.1).\<close>

fun be_min :: "nat \<Rightarrow> bytes" where
  "be_min n = (if n = 0 then [] else be_min (n div 256) @ [of_nat (n mod 256)])"

declare be_min.simps [simp del]

definition der_len :: "nat \<Rightarrow> bytes" where
  "der_len n = (if n < 128 then [of_nat n] else (128 + of_nat (length (be_min n))) # be_min n)"

definition der_tlv :: "u8 \<Rightarrow> bytes \<Rightarrow> bytes" where
  "der_tlv tag v = tag # der_len (length v) @ v"

definition len_fold :: "nat \<Rightarrow> bytes \<Rightarrow> nat" where
  "len_fold acc bs = foldl (\<lambda>a b. a * 256 + unat b) acc bs"

lemma len_fold_simps [simp]:
  "len_fold acc [] = acc"
  "len_fold acc (b # bs) = len_fold (acc * 256 + unat b) bs"
  "len_fold acc (bs @ [b]) = len_fold acc bs * 256 + unat b"
  by (simp_all add: len_fold_def)

lemma len_fold_ge: "acc \<le> len_fold acc bs"
proof (induction bs arbitrary: acc)
  case (Cons b bs)
  have "acc \<le> acc * 256 + unat b" by simp
  also have "\<dots> \<le> len_fold (acc * 256 + unat b) bs" by (rule Cons.IH)
  finally show ?case by simp
qed simp

lemma len_value_fold:
  "acc < 2 ^ 64 \<Longrightarrow>
   len_value acc bs = (if len_fold acc bs < 2 ^ 64 then Some (len_fold acc bs) else None)"
proof (induction bs arbitrary: acc)
  case (Cons b bs)
  show ?case
  proof (cases "acc * 256 + unat b < 2 ^ 64")
    case True
    then show ?thesis using Cons.IH [OF True] by simp
  next
    case False
    then show ?thesis using len_fold_ge [of "acc * 256 + unat b" bs] by simp
  qed
qed simp

lemma len_fold_be_min [simp]: "len_fold 0 (be_min n) = n"
proof (induction n rule: be_min.induct)
  case (1 n)
  then show ?case by (simp add: be_min.simps [of n] unat_of_nat)
qed

lemma be_min_eq_Nil [simp]: "be_min n = [] \<longleftrightarrow> n = 0"
  by (simp add: be_min.simps [of n])

lemma be_min_0 [simp]: "be_min 0 = []"
  by simp

lemma hd_be_min: "n > 0 \<Longrightarrow> hd (be_min n) \<noteq> 0"
proof (induction n rule: be_min.induct)
  case (1 n)
  show ?case
  proof (cases "n < 256")
    case True
    then have "unat (of_nat n :: u8) \<noteq> 0"
      using "1.prems" by (simp add: unat_of_nat)
    then show ?thesis using True "1.prems"
      by (auto simp: be_min.simps [of n])
  next
    case False
    then have "n div 256 > 0" by (simp add: div_greater_zero_iff)
    then show ?thesis using "1.IH" "1.prems" by (simp add: be_min.simps [of n])
  qed
qed

lemma be_min_len_fold: "bs \<noteq> [] \<Longrightarrow> hd bs \<noteq> 0 \<Longrightarrow> be_min (len_fold 0 bs) = bs"
proof (induction bs rule: rev_induct)
  case (snoc b bs)
  have b: "unat b < 256" using unsigned_less [of b, where ?'a = nat] by simp
  have m: "(len_fold 0 bs * 256 + unat b) mod 256 = unat b"
    "(len_fold 0 bs * 256 + unat b) div 256 = len_fold 0 bs" using b by simp_all
  show ?case
  proof (cases "bs = []")
    case True
    with snoc.prems have "unat b > 0" by (simp add: unat_gt_0)
    with True b show ?thesis
      by (simp add: be_min.simps [of "unat b"])
  next
    case False
    with snoc have IH: "be_min (len_fold 0 bs) = bs" by simp
    with False have "len_fold 0 bs > 0" by (metis be_min_eq_Nil gr0I)
    then show ?thesis using b
      by (simp add: be_min.simps [of "len_fold 0 bs * 256 + unat b"] m IH)
  qed
qed simp

lemma length_be_min: "n < 256 ^ k \<Longrightarrow> length (be_min n) \<le> k"
proof (induction k arbitrary: n)
  case (Suc k)
  then have "n div 256 < 256 ^ k" by (simp add: less_mult_imp_div_less mult.commute)
  then show ?case using Suc.IH [of "n div 256"] by (simp add: be_min.simps [of n])
qed simp

lemma u8_lt_256: "unat (w :: u8) < 256"
  using unsigned_less [of w, where ?'a = nat] by simp

lemma u8_and_7f: "unat ((w :: u8) AND 0x7f) = unat w mod 128"
proof -
  have "w AND 0x7f = take_bit 7 w" by (simp add: take_bit_eq_mask mask_eq_exp_minus_1)
  then have "unat (w AND 0x7f) = take_bit 7 (unat w)" by (simp only: unsigned_take_bit_eq)
  then show ?thesis by (simp add: take_bit_eq_mod)
qed

lemma u8_and_80: "(w :: u8) AND 0x80 = 0 \<longleftrightarrow> unat w < 128"
proof -
  have "w AND 0x80 = 0 \<longleftrightarrow> \<not> bit w 7"
    using and_exp_eq_0_iff_not_bit [of w 7] by simp
  also have "bit w 7 \<longleftrightarrow> bit (unat w) 7"
    by (simp add: bit_unsigned_iff)
  also have "bit (unat w) 7 \<longleftrightarrow> odd (unat w div 128)"
    by (simp add: bit_iff_odd)
  also have "\<dots> \<longleftrightarrow> \<not> unat w < 128"
  proof (cases "unat w < 128")
    case False
    then have "unat w div 128 = 1"
      using u8_lt_256 [of w] by (intro div_nat_eqI) simp_all
    with False show ?thesis by simp
  qed simp
  finally show ?thesis by simp
qed

lemma u8_split: "\<not> unat (w :: u8) < 128 \<Longrightarrow> w = 128 + of_nat (unat w mod 128)"
proof -
  assume *: "\<not> unat w < 128"
  then have "unat w mod 128 = unat w - 128" using u8_lt_256 [of w] by (simp add: le_mod_geq)
  with * have "unat w = 128 + unat w mod 128" by linarith
  then have "w = of_nat (128 + unat w mod 128)" by (metis of_nat_unat ucast_id)
  then show ?thesis by simp
qed

lemma unat_128_plus: "n < 128 \<Longrightarrow> unat (128 + of_nat n :: u8) = 128 + n"
  by (simp add: unat_word_ariths unat_of_nat)

lemma tlv_header_long:
  assumes "unat l = 128 + length be" and "be \<noteq> []" and "length be \<le> 8" and "hd be \<noteq> 0"
    and "len_value 0 be = Some n" and "\<not> n < 128"
  shows "tlv_header (tag # l # be @ rest) = Inr (2 + length be, n)"
proof -
  have "unat l mod 128 = length be" using assms(1,3) by simp
  moreover have "(be @ rest) ! 0 = hd be" using assms(2) by (simp add: hd_conv_nth nth_append)
  ultimately show ?thesis
    using assms by (simp add: tlv_header_def u8_and_80 u8_and_7f Let_def)
qed

lemma tlv_header_der:
  assumes "n < 2 ^ 64"
  shows "tlv_header (tag # der_len n @ rest) = Inr (1 + length (der_len n), n)"
proof (cases "n < 128")
  case True
  then have "unat (of_nat n :: u8) = n" by (simp add: unat_of_nat)
  with True show ?thesis
    by (simp add: tlv_header_def der_len_def u8_and_80 Let_def)
next
  case False
  have len: "length (be_min n) \<le> 8"
    using length_be_min [of n 8] assms by simp
  have "tlv_header (tag # (128 + of_nat (length (be_min n))) # be_min n @ rest) =
      Inr (2 + length (be_min n), n)"
    using False len assms hd_be_min [of n]
    by (intro tlv_header_long) (auto simp: unat_128_plus len_value_fold)
  with False show ?thesis by (simp add: der_len_def)
qed

lemma tlv_header_inv:
  assumes "tlv_header original = Inr (h, v)" and "2 \<le> length original"
  shows "v < 2 ^ 64 \<and> h = 1 + length (der_len v) \<and> h \<le> length original \<and>
         take h original = original ! 0 # der_len v"
proof -
  obtain tag l rest where o: "original = tag # l # rest"
    using assms(2) by (cases original; cases "tl original") auto
  show ?thesis
  proof (cases "unat l < 128")
    case True
    then have "h = 2" "v = unat l" using assms(1) o
      by (simp_all add: tlv_header_def u8_and_80 Let_def)
    with True o show ?thesis by (simp add: der_len_def)
  next
    case False
    define k where "k = unat l mod 128"
    have hyp: "k \<noteq> 0" "k \<le> 8" "k \<le> length rest" "rest ! 0 \<noteq> 0" "h = 2 + k"
      "len_value 0 (take k rest) = Some v" "\<not> v < 128"
      using assms(1) False o
      by (auto simp: tlv_header_def u8_and_80 u8_and_7f Let_def k_def split: if_splits option.splits)
    from hyp(6) have v: "v = len_fold 0 (take k rest)" "v < 2 ^ 64"
      by (simp_all add: len_value_fold split: if_splits)
    have "hd (take k rest) \<noteq> 0" "take k rest \<noteq> []"
      using hyp(1,3,4) by (cases rest; simp)+
    then have be: "be_min v = take k rest" using v(1) by (simp add: be_min_len_fold)
    have "l = 128 + of_nat k" using u8_split [OF False] by (simp add: k_def)
    then show ?thesis
      using hyp v(2) be o by (simp add: der_len_def)
  qed
qed

lemma der_len_nonempty [simp]: "der_len n \<noteq> []"
  by (simp add: der_len_def)

lemma length_der_tlv [simp]: "length (der_tlv tag v) = 1 + length (der_len (length v)) + length v"
  by (simp add: der_tlv_def)

lemma take_tlv_der:
  assumes "tag AND 0x1f \<noteq> 0x1f" and "length (der_tlv tag v) < 2 ^ 64"
  shows "take_tlv (der_tlv tag v @ rest) =
           Inr (\<lparr>tlv_tag = tag, tlv_value = v, tlv_raw = der_tlv tag v\<rparr>, rest)"
proof -
  let ?n = "length v" and ?h = "1 + length (der_len (length v))"
  have "tlv_header (der_tlv tag v @ rest) = Inr (?h, ?n)"
    using assms(2) tlv_header_der [of ?n tag "v @ rest"] by (simp add: der_tlv_def)
  moreover have "length (der_tlv tag v @ rest) \<ge> 2"
    by (cases "der_len ?n") (simp_all add: der_tlv_def der_len_def split: if_splits)
  moreover have "take (?h + ?n) (der_tlv tag v @ rest) = der_tlv tag v"
    "drop (?h + ?n) (der_tlv tag v @ rest) = rest" "drop ?h (der_tlv tag v) = v"
    "(der_tlv tag v @ rest) ! 0 = tag"
    by (simp_all add: der_tlv_def)
  ultimately show ?thesis
    using assms unfolding take_tlv_def Let_def by simp
qed

lemma take_tlv_inv:
  assumes "take_tlv inp = Inr (t, rest)"
  shows "inp = der_tlv (tlv_tag t) (tlv_value t) @ rest \<and>
         tlv_raw t = der_tlv (tlv_tag t) (tlv_value t) \<and>
         tlv_tag t AND 0x1f \<noteq> 0x1f \<and> length (tlv_raw t) < 2 ^ 64"
proof -
  from assms obtain h v where h: "tlv_header inp = Inr (h, v)" and l2: "2 \<le> length inp"
    and le: "h + v < 2 ^ 64" "h + v \<le> length inp"
    and t: "t = \<lparr>tlv_tag = inp ! 0, tlv_value = drop h (take (h + v) inp), tlv_raw = take (h + v) inp\<rparr>"
    and rest: "rest = drop (h + v) inp" and tag: "inp ! 0 AND 0x1f \<noteq> 0x1f"
    by (auto simp: take_tlv_def Let_def split: if_splits)
  note inv = tlv_header_inv [OF h l2]
  have "take (h + v) inp = take h inp @ take v (drop h inp)" by (rule take_add)
  moreover have "take v (drop h inp) = drop h (take (h + v) inp)" by (simp add: drop_take)
  moreover have "length (drop h (take (h + v) inp)) = v" using le(2) by simp
  ultimately have raw: "take (h + v) inp = der_tlv (inp ! 0) (drop h (take (h + v) inp))"
    using inv by (metis append_Cons der_tlv_def)
  show ?thesis
    using raw tag le rest t by simp
qed

text \<open>The DER reader accepts exactly the minimal, definite-length encodings with a one-byte tag: a
  successful read returns the first TLV of the input and the rest after it, and every such
  encoding below the address-space bound is read back.\<close>

theorem take_tlv_exactly_der:
  "take_tlv inp = Inr (t, rest) \<longleftrightarrow>
     inp = der_tlv (tlv_tag t) (tlv_value t) @ rest \<and>
     tlv_raw t = der_tlv (tlv_tag t) (tlv_value t) \<and>
     tlv_tag t AND 0x1f \<noteq> 0x1f \<and> length (tlv_raw t) < 2 ^ 64"
proof
  assume *: "inp = der_tlv (tlv_tag t) (tlv_value t) @ rest \<and>
     tlv_raw t = der_tlv (tlv_tag t) (tlv_value t) \<and>
     tlv_tag t AND 0x1f \<noteq> 0x1f \<and> length (tlv_raw t) < 2 ^ 64"
  then show "take_tlv inp = Inr (t, rest)"
    using take_tlv_der [of "tlv_tag t" "tlv_value t" rest] by (cases t) simp
qed (rule take_tlv_inv)

section \<open>The request reader\<close>

definition mk_tlv :: "u8 \<Rightarrow> bytes \<Rightarrow> tlv" where
  "mk_tlv tag v = \<lparr>tlv_tag = tag, tlv_value = v, tlv_raw = der_tlv tag v\<rparr>"

definition ok_tlv :: "u8 \<Rightarrow> bytes \<Rightarrow> bool" where
  "ok_tlv tag v \<longleftrightarrow> tag AND 0x1f \<noteq> 0x1f \<and> length (der_tlv tag v) < 2 ^ 64"

lemma mk_tlv_sel [simp]:
  "tlv_tag (mk_tlv tag v) = tag" "tlv_value (mk_tlv tag v) = v" "tlv_raw (mk_tlv tag v) = der_tlv tag v"
  by (simp_all add: mk_tlv_def)

lemma take_tlv_iff:
  "take_tlv inp = Inr (t, rest) \<longleftrightarrow>
     (\<exists>tag v. t = mk_tlv tag v \<and> inp = der_tlv tag v @ rest \<and> ok_tlv tag v)"
proof
  assume "take_tlv inp = Inr (t, rest)"
  from take_tlv_inv [OF this]
  have "t = mk_tlv (tlv_tag t) (tlv_value t) \<and> inp = der_tlv (tlv_tag t) (tlv_value t) @ rest \<and>
      ok_tlv (tlv_tag t) (tlv_value t)"
    by (cases t) (simp add: mk_tlv_def ok_tlv_def)
  then show "\<exists>tag v. t = mk_tlv tag v \<and> inp = der_tlv tag v @ rest \<and> ok_tlv tag v" by blast
next
  assume "\<exists>tag v. t = mk_tlv tag v \<and> inp = der_tlv tag v @ rest \<and> ok_tlv tag v"
  then show "take_tlv inp = Inr (t, rest)"
    using take_tlv_der by (auto simp: mk_tlv_def ok_tlv_def)
qed

lemma take_tlv_mk [simp]:
  "ok_tlv tag v \<Longrightarrow> take_tlv (der_tlv tag v @ rest) = Inr (mk_tlv tag v, rest)"
  "ok_tlv tag v \<Longrightarrow> take_tlv (der_tlv tag v) = Inr (mk_tlv tag v, [])"
  using take_tlv_der [of tag v rest] take_tlv_der [of tag v "[]"]
  by (simp_all add: mk_tlv_def ok_tlv_def)

lemma take_expected_mk [simp]:
  "ok_tlv tag v \<Longrightarrow> take_expected tag (der_tlv tag v @ rest) = Inr (mk_tlv tag v, rest)"
  "ok_tlv tag v \<Longrightarrow> take_expected tag (der_tlv tag v) = Inr (mk_tlv tag v, [])"
  by (simp_all add: take_expected_def)

lemma take_expected_iff:
  "take_expected tag inp = Inr (t, rest) \<longleftrightarrow>
     (\<exists>v. t = mk_tlv tag v \<and> inp = der_tlv tag v @ rest \<and> ok_tlv tag v)"
proof
  assume "take_expected tag inp = Inr (t, rest)"
  then show "\<exists>v. t = mk_tlv tag v \<and> inp = der_tlv tag v @ rest \<and> ok_tlv tag v"
    by (auto simp: take_expected_def take_tlv_iff split: if_splits)
qed auto

lemma parse_single_mk [simp]: "ok_tlv tag v \<Longrightarrow> parse_single tag (der_tlv tag v) = Inr (mk_tlv tag v)"
  by (simp add: parse_single_def)

lemma parse_single_iff:
  "parse_single tag inp = Inr t \<longleftrightarrow>
     (\<exists>v. t = mk_tlv tag v \<and> inp = der_tlv tag v \<and> ok_tlv tag v)"
proof
  assume "parse_single tag inp = Inr t"
  then show "\<exists>v. t = mk_tlv tag v \<and> inp = der_tlv tag v \<and> ok_tlv tag v"
    by (auto simp: parse_single_def take_expected_iff split: if_splits)
qed auto

definition tbs_prefix :: "(u8 \<times> bytes) list \<Rightarrow> bytes" where
  "tbs_prefix ps = concat (map (\<lambda>(t, v). der_tlv t v) ps)"

definition valid_request_extensions :: "bytes \<Rightarrow> bool" where
  "valid_request_extensions ext \<longleftrightarrow>
     ext = [] \<or> (\<exists>es. ext = der_tlv 0xa2 (der_tlv 0x30 es) \<and> validate_extensions es = Inr ())"

lemma der_tlv_neq_Nil [simp]: "der_tlv t v \<noteq> []"
  by (simp add: der_tlv_def)

lemma length_der_tlv_inner: "length v < length (der_tlv t v)"
  by simp

lemma low_tags [simp]:
  "(0x30 :: u8) AND 0x1f \<noteq> 0x1f" "(0xa0 :: u8) AND 0x1f \<noteq> 0x1f"
  "(0xa1 :: u8) AND 0x1f \<noteq> 0x1f" "(0xa2 :: u8) AND 0x1f \<noteq> 0x1f"
  by simp_all

lemma tbs_loop_skip:
  assumes "t = 0xa0 \<or> t = 0xa1" and "length (der_tlv t v) < 2 ^ 64"
  shows "tbs_loop (der_tlv t v @ rest) = tbs_loop rest"
proof -
  have "take_tlv (der_tlv t v @ rest) = Inr (mk_tlv t v, rest)"
    using assms by (intro take_tlv_mk) (auto simp: ok_tlv_def)
  with assms(1) show ?thesis
    by (subst tbs_loop.simps) auto
qed

lemma after_request_list_iff:
  assumes "length rest < 2 ^ 64"
  shows "after_request_list rest = Inr u \<longleftrightarrow> valid_request_extensions rest"
  (is "?lhs \<longleftrightarrow> ?rhs")
proof
  assume ?lhs
  then show ?rhs
    by (auto simp: after_request_list_def take_expected_iff parse_single_iff valid_request_extensions_def split: if_splits)
next
  assume r: ?rhs
  show ?lhs
  proof (cases "rest = []")
    case True
    with r show ?thesis by (simp add: after_request_list_def)
  next
    case False
    with r obtain es where es: "rest = der_tlv 0xa2 (der_tlv 0x30 es)"
      "validate_extensions es = Inr ()"
      by (auto simp: valid_request_extensions_def)
    then have "ok_tlv 0xa2 (der_tlv 0x30 es)" "ok_tlv 0x30 es"
      using assms by (simp_all add: ok_tlv_def)
    with es show ?thesis by (simp add: after_request_list_def)
  qed
qed

lemma tbs_loop_list:
  assumes "length (der_tlv 0x30 l @ rest) < 2 ^ 64"
  shows "tbs_loop (der_tlv 0x30 l @ rest) = Inr raw \<longleftrightarrow>
     raw = der_tlv 0x30 l \<and> validate_request_list l = Inr () \<and> valid_request_extensions rest"
proof -
  have "take_tlv (der_tlv 0x30 l @ rest) = Inr (mk_tlv 0x30 l, rest)"
    using assms by (intro take_tlv_mk) (simp add: ok_tlv_def)
  moreover have "length rest < 2 ^ 64" using assms by simp
  ultimately show ?thesis
    by (subst tbs_loop.simps) (auto simp: after_request_list_iff)
qed

lemma tbs_prefix_Cons [simp]: "tbs_prefix ((t, v) # ps) = der_tlv t v @ tbs_prefix ps"
  by (simp add: tbs_prefix_def)

lemma tbs_loop_prefix:
  "list_all (\<lambda>(t, v). t = 0xa0 \<or> t = 0xa1) ps \<Longrightarrow> length (tbs_prefix ps @ rest) < 2 ^ 64 \<Longrightarrow>
   tbs_loop (tbs_prefix ps @ rest) = tbs_loop rest"
proof (induction ps)
  case (Cons p ps)
  obtain t v where p: "p = (t, v)" by (cases p)
  from Cons.prems p have "tbs_loop (tbs_prefix (p # ps) @ rest) = tbs_loop (tbs_prefix ps @ rest)"
    using tbs_loop_skip [of t v "tbs_prefix ps @ rest"] by simp
  with Cons show ?case using p by simp
qed (simp add: tbs_prefix_def)

lemma tbs_loop_inv:
  "tbs_loop fs = Inr raw \<Longrightarrow> length fs < 2 ^ 64 \<Longrightarrow>
   \<exists>ps l rest. fs = tbs_prefix ps @ der_tlv 0x30 l @ rest \<and>
     list_all (\<lambda>(t, v). t = 0xa0 \<or> t = 0xa1) ps"
proof (induction fs rule: tbs_loop.induct)
  case (1 fs)
  from "1.prems"(1) obtain f rest where f: "take_tlv fs = Inr (f, rest)" "fs \<noteq> []"
    by (subst (asm) tbs_loop.simps) (auto split: if_splits sum.splits)
  then obtain tag v where tv: "f = mk_tlv tag v" "fs = der_tlv tag v @ rest" "ok_tlv tag v"
    by (auto simp: take_tlv_iff)
  consider (skip) "tag = 0xa0 \<or> tag = 0xa1" | (lst) "tag = 0x30"
    using "1.prems"(1) f tv by (subst (asm) tbs_loop.simps) (auto split: if_splits)
  then show ?case
  proof cases
    case skip
    then have "tbs_loop rest = Inr raw"
      using "1.prems"(1) f tv by (subst (asm) tbs_loop.simps) auto
    then obtain ps l r where "rest = tbs_prefix ps @ der_tlv 0x30 l @ r"
        "list_all (\<lambda>(t, v). t = 0xa0 \<or> t = 0xa1) ps"
      using "1.IH" [OF f(2) f(1)] skip tv "1.prems"(2) by auto
    then have "fs = tbs_prefix ((tag, v) # ps) @ der_tlv 0x30 l @ r \<and>
        list_all (\<lambda>(t, v). t = 0xa0 \<or> t = 0xa1) ((tag, v) # ps)"
      using tv skip by simp
    then show ?thesis by blast
  next
    case lst
    then have "fs = tbs_prefix [] @ der_tlv 0x30 v @ rest"
      using tv by (simp add: tbs_prefix_def)
    then show ?thesis using list.pred_inject(1) by blast
  qed
qed

lemma tbs_loop_iff:
  assumes "length fs < 2 ^ 64"
  shows "tbs_loop fs = Inr raw \<longleftrightarrow>
     (\<exists>ps l rest. fs = tbs_prefix ps @ der_tlv 0x30 l @ rest \<and>
       list_all (\<lambda>(t, v). t = 0xa0 \<or> t = 0xa1) ps \<and>
       validate_request_list l = Inr () \<and> valid_request_extensions rest \<and> raw = der_tlv 0x30 l)"
    (is "?lhs \<longleftrightarrow> ?rhs")
proof
  assume l: ?lhs
  then obtain ps l rest where d: "fs = tbs_prefix ps @ der_tlv 0x30 l @ rest"
      "list_all (\<lambda>(t, v). t = 0xa0 \<or> t = 0xa1) ps"
    using tbs_loop_inv assms by blast
  with l assms show ?rhs
    using tbs_loop_prefix [of ps] tbs_loop_list [of l rest raw] by auto
next
  assume ?rhs
  then show ?lhs using assms tbs_loop_prefix tbs_loop_list by (auto simp del: length_der_tlv)
qed

text \<open>C38: The OCSP request reader accepts exactly the well-formed OCSPRequests (version and
  requestorName fields, a valid non-empty requestList, then nothing or one well-formed
  requestExtensions field), and the cache key is the digest of the requestList alone: neither the
  extensions (and so the nonce), nor the version and requestor, nor what follows the TBSRequest
  enters it.\<close>

theorem parse_request_exact:
  "parse_request E req = Inr r \<longleftrightarrow>
     (\<exists>ps l exts sig.
        req = der_tlv 0x30 (der_tlv 0x30 (tbs_prefix ps @ der_tlv 0x30 l @ exts) @ sig) \<and>
        length req < 2 ^ 64 \<and> list_all (\<lambda>(t, v). t = 0xa0 \<or> t = 0xa1) ps \<and>
        validate_request_list l = Inr () \<and> valid_request_extensions exts \<and>
        cache_key r = x_hex_encode E (x_sha256 E (der_tlv 0x30 l)))"
    (is "?lhs \<longleftrightarrow> ?rhs")
proof
  assume ?lhs
  then obtain v w sig raw where *: "req = der_tlv 0x30 v" "ok_tlv 0x30 v"
      "v = der_tlv 0x30 w @ sig" "tbs_loop w = Inr raw"
      "cache_key r = x_hex_encode E (x_sha256 E raw)"
    by (auto simp: parse_request_def parse_single_iff take_expected_iff)
  then have "length w < 2 ^ 64" by (simp add: ok_tlv_def)
  with * show ?rhs unfolding tbs_loop_iff [OF \<open>length w < 2 ^ 64\<close>]
    by (auto simp: ok_tlv_def)
next
  assume ?rhs
  then obtain ps l exts sig w where
    req: "req = der_tlv 0x30 (der_tlv 0x30 w @ sig)" "length req < 2 ^ 64"
    and w: "w = tbs_prefix ps @ der_tlv 0x30 l @ exts"
      "list_all (\<lambda>(t, v). t = 0xa0 \<or> t = 0xa1) ps"
      "validate_request_list l = Inr ()" "valid_request_extensions exts"
    and key: "cache_key r = x_hex_encode E (x_sha256 E (der_tlv 0x30 l))" by blast
  have ok: "ok_tlv 0x30 (der_tlv 0x30 w @ sig)" "ok_tlv 0x30 w" and "length w < 2 ^ 64"
    using req by (simp_all add: ok_tlv_def)
  then have "tbs_loop w = Inr (der_tlv 0x30 l)" using w tbs_loop_iff by blast
  with ok req key show ?lhs by (simp add: parse_request_def)
qed

section \<open>The cache deadline\<close>

definition signed_deadline :: "int \<Rightarrow> response_validity \<Rightarrow> int" where
  "signed_deadline default_ttl v =
     (case next_update v of
        Some t \<Rightarrow> t
      | None \<Rightarrow> max I64_MIN (min I64_MAX (this_update v + default_ttl)))"

lemma expiry_loop_iff:
  "expiry_loop now d e vs = Inr x \<longleftrightarrow>
     (\<forall>v\<in>set vs. \<not> unknown v \<and> this_update v \<le> now) \<and>
     x = Min (insert e (signed_deadline d ` set vs))"
proof (induction vs arbitrary: e)
  case (Cons v vs)
  have "Min (insert e (signed_deadline d ` set (v # vs))) =
      Min (insert (min e (signed_deadline d v)) (signed_deadline d ` set vs))"
    by (cases "vs = []") (simp_all add: min.assoc)
  then show ?case
    by (auto simp: Cons.IH signed_deadline_def Let_def)
qed auto

text \<open>C39: A cache deadline accepted for an OCSP response is the earliest of the configured cap and
  the signed validity of every single response (\<open>nextUpdate\<close>, or \<open>thisUpdate\<close> plus the default TTL);
  it lies strictly in the future and never past the cap, and no response with an unknown certificate
  status or a \<open>thisUpdate\<close> in the future gets one.\<close>

theorem response_cache_expiry_bounds:
  assumes "response_cache_expiry E resp now max_ttl default_ttl = Inr e"
  shows "\<exists>vs. response_validity_of E resp = Inr vs \<and>
      uint e = Min (insert (now + uint max_ttl) (signed_deadline (uint default_ttl) ` set vs)) \<and>
      now < uint e \<and> uint e \<le> now + uint max_ttl \<and>
      (\<forall>v\<in>set vs. \<not> unknown v \<and> this_update v \<le> now \<and> uint e \<le> signed_deadline (uint default_ttl) v)"
proof -
  from assms obtain vs x where vs: "response_validity_of E resp = Inr vs"
    and cap: "now + uint max_ttl \<le> I64_MAX"
    and loop: "expiry_loop now (uint default_ttl) (now + uint max_ttl) vs = Inr x"
    and x: "now < x" "0 \<le> x" "e = word_of_int x"
    by (auto simp: response_cache_expiry_def split: if_splits)
  let ?M = "insert (now + uint max_ttl) (signed_deadline (uint default_ttl) ` set vs)"
  from loop have good: "\<forall>v\<in>set vs. \<not> unknown v \<and> this_update v \<le> now" and min: "x = Min ?M"
    by (simp_all add: expiry_loop_iff)
  have le: "x \<le> y" if "y \<in> ?M" for y
    unfolding min using that by (intro Min_le) auto
  then have "x \<le> now + uint max_ttl" by simp
  then have "x < 2 ^ 64" using cap by (simp add: I64_MAX_def)
  then have "uint e = x" using x by (simp add: uint_word_of_int take_bit_int_eq_self)
  with vs good min le x show ?thesis by auto
qed

definition sample_ocsp_response :: bytes where
  "sample_ocsp_response = [48, 48, 10, 1, 0, 160, 43, 48, 41, 6, 9, 43, 6, 1, 5, 5, 7, 48, 1, 1, 4, 28, 48, 26, 48, 20, 161, 0, 24, 0, 48, 14, 48, 12, 48, 0, 128, 0, 24, 1, 48, 160, 3, 24, 1, 57, 48, 0, 3, 0]"

theorem response_cache_expiry_bounds_witness:
  "\<exists>vs. response_validity_of sample_ext sample_ocsp_response = Inr vs \<and>
      uint (9 :: u64) = Min (insert (3 + uint (100 :: u64)) (signed_deadline (uint (10 :: u64)) ` set vs)) \<and>
      3 < uint (9 :: u64) \<and> uint (9 :: u64) \<le> 3 + uint (100 :: u64) \<and>
      (\<forall>v\<in>set vs. \<not> unknown v \<and> this_update v \<le> 3 \<and>
         uint (9 :: u64) \<le> signed_deadline (uint (10 :: u64)) v)"
proof -
  have "response_cache_expiry sample_ext sample_ocsp_response 3 100 10 = Inr 9"
    by code_simp
  then show ?thesis by (rule response_cache_expiry_bounds)
qed

end
