(* ===== verification/Validate.thy ===== *)
theory Validate
  imports Errors Json
begin

text \<open>
  \<^verbatim>\<open>src/validate.rs\<close>: request parameters and body schemas. A query string becomes a map, a JSON
  body is checked field by field in the order of the source; every rejection is \<open>INVALID_REQ\<close>.
  Log messages are not modelled.
\<close>

section \<open>Query parameters\<close>

definition is_hex :: "string \<Rightarrow> nat \<Rightarrow> bool" where
  "is_hex v expected_len \<longleftrightarrow> length v = expected_len \<and> list_all is_ascii_hexdigit v"

definition is_hex_or_empty :: "string \<Rightarrow> nat \<Rightarrow> bool" where
  "is_hex_or_empty v expected_len \<longleftrightarrow> v = [] \<or> is_hex v expected_len"

fun percent_decode_raw :: "string \<Rightarrow> string" where
  "percent_decode_raw (c # h # l # r) =
     (if c = CHR ''%'' then
        (case (to_digit16 h, to_digit16 l) of
           (Some hi, Some lo) \<Rightarrow> char_of (hi * 16 + lo) # percent_decode_raw r
         | _ \<Rightarrow> c # percent_decode_raw (h # l # r))
      else c # percent_decode_raw (h # l # r))"
| "percent_decode_raw (c # r) = c # percent_decode_raw r"
| "percent_decode_raw [] = []"

definition percent_decode :: "string \<Rightarrow> string" where
  "percent_decode s = from_utf8_lossy (as_bytes (percent_decode_raw s))"

definition query_decode :: "string \<Rightarrow> string" where
  "query_decode s = percent_decode (map (\<lambda>c. if c = CHR ''+'' then CHR '' '' else c) s)"

definition insert_pair :: "(string \<rightharpoonup> string) \<Rightarrow> string \<Rightarrow> (string \<rightharpoonup> string)" where
  "insert_pair out pair =
     (if pair = [] then out
      else
        (let (raw_key, raw_value) =
               (case split_once (CHR ''='') pair of Some kv \<Rightarrow> kv | None \<Rightarrow> (pair, []));
             key = query_decode raw_key
         in case out key of
              None \<Rightarrow> out(key \<mapsto> query_decode raw_value)
            | Some _ \<Rightarrow> out))"

definition query_params :: "string option \<Rightarrow> (string \<rightharpoonup> string) res" where
  "query_params query =
     (case opt_filter (\<lambda>q. q \<noteq> []) query of
        None \<Rightarrow> Inr Map.empty
      | Some q \<Rightarrow> Inr (foldl insert_pair Map.empty (split_on (CHR ''&'') q)))"

definition require_hex :: "string option \<Rightarrow> nat \<Rightarrow> string res" where
  "require_hex v expected_len =
     (case opt_filter (\<lambda>s. s \<noteq> []) v of
        None \<Rightarrow> Inl INVALID_REQ
      | Some s \<Rightarrow> if \<not> is_hex s expected_len then Inl INVALID_REQ else Inr (to_ascii_uppercase s))"

definition v_fmspc :: "string option \<Rightarrow> string res" where
  "v_fmspc v = require_hex v 12"

definition v_cpusvn :: "string option \<Rightarrow> string res" where
  "v_cpusvn v = require_hex v 32"

definition v_pcesvn :: "string option \<Rightarrow> string res" where
  "v_pcesvn v = require_hex v 4"

definition v_pceid :: "string option \<Rightarrow> string res" where
  "v_pceid v = require_hex v 4"

definition v_encrypted_ppid :: "string option \<Rightarrow> string option res" where
  "v_encrypted_ppid v =
     (case v of
        None \<Rightarrow> Inr None
      | Some s \<Rightarrow> and_then (require_hex (Some s) 768) (\<lambda>x. Inr (Some x)))"

definition QEID_MAX :: nat where "QEID_MAX = 260"

definition v_qeid :: "string option \<Rightarrow> string res" where
  "v_qeid v =
     (case opt_filter (\<lambda>s. s \<noteq> []) v of
        None \<Rightarrow> Inl INVALID_REQ
      | Some s \<Rightarrow> if length s > QEID_MAX then Inl INVALID_REQ else Inr (to_ascii_uppercase s))"

datatype update_type = Standard | Early | All

fun update_str :: "update_type \<Rightarrow> string" where
  "update_str Standard = ''STANDARD''"
| "update_str Early = ''EARLY''"
| "update_str All = ''ALL''"

definition v_update_type :: "string option \<Rightarrow> bool \<Rightarrow> update_type res" where
  "v_update_type v can_be_all =
     (let raw = to_ascii_uppercase (unwrap_or ''STANDARD'' v)
      in if raw = ''STANDARD'' then Inr Standard
         else if raw = ''EARLY'' then Inr Early
         else if raw = ''ALL'' \<and> can_be_all then Inr All
         else Inl INVALID_REQ)"

definition v_pck_ca :: "string option \<Rightarrow> string res" where
  "v_pck_ca v =
     (let ca = to_ascii_uppercase (unwrap_or [] v)
      in if ca \<noteq> ''PROCESSOR'' \<and> ca \<noteq> ''PLATFORM'' then Inl INVALID_REQ else Inr ca)"

fun api_version_from_url :: "string \<Rightarrow> u32 res" where
  "api_version_from_url [] = Inl INVALID_REQ"
| "api_version_from_url (c # rest) =
     (if length (c # rest) < 4 then Inl INVALID_REQ
      else if c = CHR ''/'' \<and> rest ! 0 = CHR ''v'' \<and> is_ascii_digit (rest ! 1) \<and> rest ! 1 \<noteq> CHR ''0''
      then
        (let digits = takeWhile is_ascii_digit (drop 1 rest);
             after = dropWhile is_ascii_digit (drop 1 rest)
         in if after \<noteq> [] \<and> hd after = CHR ''/'' then
              (case parse_uint (2 ^ 32) digits of
                 Some ver \<Rightarrow>
                   if ver = 3 \<or> ver = 4 then Inr (word_of_int ver) else api_version_from_url rest
               | None \<Rightarrow> api_version_from_url rest)
            else api_version_from_url rest)
      else api_version_from_url rest)"

section \<open>CRL URIs\<close>

definition alnum_dash :: "string \<Rightarrow> bool" where
  "alnum_dash s \<longleftrightarrow> list_all (\<lambda>b. is_ascii_alphanumeric b \<or> b = CHR ''-'') s"

definition is_root_crl_uri :: "string \<Rightarrow> bool" where
  "is_root_crl_uri uri =
     (case strip_prefix uri ''https://'' of
        None \<Rightarrow> False
      | Some rest \<Rightarrow>
          (case split_once (CHR ''/'') rest of
             None \<Rightarrow> False
           | Some (host, path) \<Rightarrow>
               (let host_ok =
                      host = ''certprx.adsdcsp.com'' \<or>
                      (ends_with host ''certificates.trustedservices.intel.com'' \<and>
                       alnum_dash (take (length host - length ''certificates.trustedservices.intel.com'') host))
                in host_ok \<and> starts_with path ''IntelSGXRootCA.'' \<and>
                   length path > length ''IntelSGXRootCA.'')))"

definition is_intermediate_host :: "string \<Rightarrow> bool" where
  "is_intermediate_host host =
     (if host = ''api.trustedservices.intel.com'' \<or>
         ends_with host ''.api.trustedservices.intel.com''
      then
        (let pre = unwrap_or [] (strip_suffix host ''api.trustedservices.intel.com'');
             pre = unwrap_or pre (strip_suffix pre ''.'')
         in alnum_dash pre)
      else
        (case strip_suffix host ''.az.sgxprod.adsdcsp.com'' of
           Some left \<Rightarrow> left \<noteq> [] \<and> alnum_dash left
         | None \<Rightarrow>
             (case strip_suffix host ''.az.sgxnp.adsdcsp.com'' of
                Some left \<Rightarrow> left \<noteq> [] \<and> alnum_dash left
              | None \<Rightarrow> False)))"

definition is_intermediate_crl_uri :: "string \<Rightarrow> bool" where
  "is_intermediate_crl_uri uri =
     (case strip_prefix uri ''https://'' of
        None \<Rightarrow> False
      | Some rest \<Rightarrow>
          (case split_once (CHR ''/'') rest of
             None \<Rightarrow> False
           | Some (host, path_q) \<Rightarrow>
               if \<not> is_intermediate_host host then False
               else
                 (case split_once (CHR ''?'') path_q of
                    None \<Rightarrow> False
                  | Some (path, query) \<Rightarrow>
                      if query = [] then False
                      else
                        (case strip_prefix path ''sgx/certification/v'' of
                           None \<Rightarrow> False
                         | Some ver_and_rest \<Rightarrow>
                             (case split_once (CHR ''/'') ver_and_rest of
                                None \<Rightarrow> False
                              | Some (ver, tail) \<Rightarrow>
                                  if tail \<noteq> ''pckcrl'' then False
                                  else ver \<noteq> [] \<and> hd ver \<noteq> CHR ''0'' \<and>
                                       list_all is_ascii_digit ver)))))"

definition is_valid_crl_uri :: "string \<Rightarrow> bool" where
  "is_valid_crl_uri uri =
     (if uri = [] \<or> length uri > 2048 then False
      else is_root_crl_uri uri \<or> is_intermediate_crl_uri uri)"

datatype platforms_source = Reg | RegNa | Fmspc "string list"

definition v_platforms_source :: "string option \<Rightarrow> platforms_source res" where
  "v_platforms_source source =
     (case source of
        None \<Rightarrow> Inr Reg
      | Some s \<Rightarrow>
          if s = [] \<or> s = ''reg'' then Inr Reg
          else if s = ''reg_na'' then Inr RegNa
          else if length s < 2 \<or> \<not> starts_with s ''['' \<or> \<not> ends_with s '']'' then Inl INVALID_REQ
          else
            (let inner = trim (take (length s - 2) (drop 1 s))
             in if inner = [] then Inr (Fmspc [])
                else and_then (try_map (\<lambda>part. v_fmspc (Some (trim part))) (split_on (CHR '','') inner))
                       (\<lambda>out. Inr (Fmspc out))))"

section \<open>Body schemas\<close>

definition opt_str :: "json \<Rightarrow> string \<Rightarrow> string option res" where
  "opt_str v key =
     (case jget v key of
        None \<Rightarrow> Inr None
      | Some JNull \<Rightarrow> Inr None
      | Some (JStr s) \<Rightarrow> Inr (Some s)
      | Some _ \<Rightarrow> Inl INVALID_REQ)"

definition req_str :: "json \<Rightarrow> string \<Rightarrow> string res" where
  "req_str v key = and_then (opt_str v key) (\<lambda>s. ok_or INVALID_REQ s)"

definition guard :: "bool \<Rightarrow> unit res" where
  "guard b = (if b then Inr () else Inl INVALID_REQ)"

record platform_reg =
  pr_qe_id :: string
  pr_pce_id :: string
  pr_cpu_svn :: string
  pr_pce_svn :: string
  pr_enc_ppid :: string
  pr_platform_manifest :: string

definition v_platform_reg :: "json \<Rightarrow> platform_reg res" where
  "v_platform_reg body =
     and_then (guard (is_object body)) (\<lambda>_.
     and_then (req_str body ''qe_id'') (\<lambda>qe_id.
     and_then (guard (\<not> (qe_id = [] \<or> length qe_id > 260))) (\<lambda>_.
     and_then (req_str body ''pce_id'') (\<lambda>pce_id.
     and_then (guard (is_hex pce_id 4)) (\<lambda>_.
     and_then (opt_str body ''cpu_svn'') (\<lambda>cpu_svn_o.
     and_then (opt_str body ''pce_svn'') (\<lambda>pce_svn_o.
     and_then (opt_str body ''enc_ppid'') (\<lambda>enc_ppid_o.
     let cpu_svn = unwrap_or [] cpu_svn_o; pce_svn = unwrap_or [] pce_svn_o;
         enc_ppid = unwrap_or [] enc_ppid_o
     in
     and_then (guard (\<not> (jget body ''cpu_svn'' \<noteq> None \<and> \<not> is_hex cpu_svn 32))) (\<lambda>_.
     and_then (guard (\<not> (jget body ''pce_svn'' \<noteq> None \<and> \<not> is_hex pce_svn 4))) (\<lambda>_.
     and_then (guard (\<not> (jget body ''enc_ppid'' \<noteq> None \<and> \<not> is_hex enc_ppid 768))) (\<lambda>_.
     and_then (opt_str body ''platform_manifest'') (\<lambda>manifest_o.
     let manifest = unwrap_or [] manifest_o
     in if manifest = [] then
          and_then (guard (\<not> (cpu_svn = [] \<or> pce_svn = [] \<or> enc_ppid = []))) (\<lambda>_.
            Inr \<lparr>pr_qe_id = to_ascii_uppercase qe_id, pr_pce_id = to_ascii_uppercase pce_id,
                 pr_cpu_svn = to_ascii_uppercase cpu_svn, pr_pce_svn = to_ascii_uppercase pce_svn,
                 pr_enc_ppid = to_ascii_uppercase enc_ppid, pr_platform_manifest = []\<rparr>)
        else
          Inr \<lparr>pr_qe_id = to_ascii_uppercase qe_id, pr_pce_id = to_ascii_uppercase pce_id,
               pr_cpu_svn = [], pr_pce_svn = [], pr_enc_ppid = [],
               pr_platform_manifest = manifest\<rparr>))))))))))))"

text \<open>\<open>PLATFORM_COLLATERAL_SCHEMA_V3/V4\<close>, one definition per loop body of the source.\<close>

definition check_qe_pce :: "json \<Rightarrow> unit res" where
  "check_qe_pce p =
     and_then (req_str p ''qe_id'') (\<lambda>qe_id.
     and_then (guard (\<not> (qe_id = [] \<or> length qe_id > 260))) (\<lambda>_.
     and_then (req_str p ''pce_id'') (\<lambda>pce_id. guard (is_hex pce_id 4))))"

definition check_opt_hex :: "json \<Rightarrow> string \<times> nat \<Rightarrow> unit res" where
  "check_opt_hex p kl =
     and_then (opt_str p (fst kl)) (\<lambda>v.
       case v of None \<Rightarrow> Inr () | Some s \<Rightarrow> guard (is_hex_or_empty s (snd kl)))"

definition check_platform_entry :: "json \<Rightarrow> unit res" where
  "check_platform_entry p =
     and_then (guard (is_object p)) (\<lambda>_.
     and_then (check_qe_pce p) (\<lambda>_.
     and_then (try_each (check_opt_hex p) [(''cpu_svn'', 32), (''pce_svn'', 4), (''enc_ppid'', 768)])
       (\<lambda>_. and_then (opt_str p ''platform_manifest'') (\<lambda>_. Inr ()))))"

definition check_cert_entry :: "json \<Rightarrow> unit res" where
  "check_cert_entry c =
     and_then (guard (is_object c)) (\<lambda>_.
     and_then (guard (case jget c ''tcb'' of None \<Rightarrow> False | Some t \<Rightarrow> is_object t)) (\<lambda>_.
     and_then (req_str c ''tcbm'') (\<lambda>tcbm.
     and_then (guard (is_hex tcbm 36)) (\<lambda>_.
     and_then (req_str c ''cert'') (\<lambda>cert. guard (cert \<noteq> []))))))"

definition check_pck_certs_entry :: "json \<Rightarrow> unit res" where
  "check_pck_certs_entry pc =
     and_then (guard (is_object pc)) (\<lambda>_.
     and_then (check_qe_pce pc) (\<lambda>_.
     and_then (req_str pc ''enc_ppid'') (\<lambda>enc_ppid.
     and_then (guard (is_hex_or_empty enc_ppid 768)) (\<lambda>_.
     and_then (opt_str pc ''platform_manifest'') (\<lambda>_.
     and_then (ok_or INVALID_REQ (get_array pc ''certs'')) (\<lambda>certs.
       try_each check_cert_entry certs))))))"

definition check_tcbinfo_field :: "json \<Rightarrow> string \<Rightarrow> unit res" where
  "check_tcbinfo_field t field =
     (case jget t field of
        None \<Rightarrow> Inr ()
      | Some info \<Rightarrow>
          and_then (guard (is_object info)) (\<lambda>_.
          and_then (guard (case jget info ''tcbInfo'' of None \<Rightarrow> False | Some v \<Rightarrow> is_object v)) (\<lambda>_.
          and_then (req_str info ''signature'') (\<lambda>_. Inr ()))))"

definition check_tcbinfos_entry :: "u32 \<Rightarrow> json \<Rightarrow> unit res" where
  "check_tcbinfos_entry version t =
     and_then (guard (is_object t)) (\<lambda>_.
     and_then (req_str t ''fmspc'') (\<lambda>_.
       try_each (check_tcbinfo_field t)
         (if version < 4 then [''tcbinfo''] else [''sgx_tcbinfo'', ''tdx_tcbinfo''])))"

definition opt_strs :: "json \<Rightarrow> string list \<Rightarrow> unit res" where
  "opt_strs v ks = try_each (\<lambda>k. and_then (opt_str v k) (\<lambda>_. Inr ())) ks"

definition get_object :: "json \<Rightarrow> string \<Rightarrow> json res" where
  "get_object v k = ok_or INVALID_REQ (opt_filter is_object (jget v k))"

definition v_platform_collateral :: "json \<Rightarrow> u32 \<Rightarrow> unit res" where
  "v_platform_collateral body version =
     and_then (guard (is_object body)) (\<lambda>_.
     and_then (ok_or INVALID_REQ (get_array body ''platforms'')) (\<lambda>platforms.
     and_then (try_each check_platform_entry platforms) (\<lambda>_.
     and_then (get_object body ''collaterals'') (\<lambda>collaterals.
     and_then (guard (\<not> (version \<ge> 4 \<and> get_u64 collaterals ''version'' \<noteq> Some 4))) (\<lambda>_.
     and_then (ok_or INVALID_REQ (get_array collaterals ''pck_certs'')) (\<lambda>pck_certs.
     and_then (try_each check_pck_certs_entry pck_certs) (\<lambda>_.
     and_then (ok_or INVALID_REQ (get_array collaterals ''tcbinfos'')) (\<lambda>tcbinfos.
     and_then (try_each (check_tcbinfos_entry version) tcbinfos) (\<lambda>_.
     and_then (case jget collaterals ''pckcacrl'' of
                 None \<Rightarrow> Inr ()
               | Some crl \<Rightarrow>
                   and_then (guard (is_object crl)) (\<lambda>_. opt_strs crl [''processorCrl'', ''platformCrl'']))
       (\<lambda>_.
     and_then (opt_strs collaterals [''rootcacrl'', ''rootcacrl_cdp'']) (\<lambda>_.
     and_then (get_object collaterals ''certificates'') (\<lambda>certificates.
     and_then (get_object certificates ''SGX-PCK-Certificate-Issuer-Chain'') (\<lambda>issuer_chains.
     and_then (opt_strs issuer_chains [''PROCESSOR'', ''PLATFORM'']) (\<lambda>_.
       opt_strs certificates
         [''SGX-TCB-Info-Issuer-Chain'', ''TCB-Info-Issuer-Chain'',
          ''SGX-Enclave-Identity-Issuer-Chain'']))))))))))))))"

text \<open>Appraisal policies.\<close>

record appraisal_policy_reg =
  ap_is_default :: bool
  ap_fmspc :: string
  ap_policy :: string
  ap_policy_type :: u8

definition CLASS_ID_SGX :: string where
  "CLASS_ID_SGX = ''3123ec35-8d38-4ea5-87a5-d6c48b567570''"
definition CLASS_ID_TDX_10 :: string where
  "CLASS_ID_TDX_10 = ''9eec018b-7481-4b1c-8e1a-9f7c0c8c777f''"
definition CLASS_ID_TDX_15 :: string where
  "CLASS_ID_TDX_15 = ''f708b97f-0fb2-4e6b-8b03-8a5bcd1221d3''"
definition CLASS_ID_TDQE :: string where
  "CLASS_ID_TDQE = ''3769258c-75e6-4bc7-8d72-d2b0e224cad2''"

definition base64url_decode :: "ext \<Rightarrow> string \<Rightarrow> bytes option" where
  "base64url_decode E s = x_base64_url E (trim_end_matches (CHR ''='') s)"

fun class_id_loop :: "json list \<Rightarrow> u8 res" where
  "class_id_loop [] = Inl INVALID_REQ"
| "class_id_loop (policy # rest) =
     and_then (ok_or INVALID_REQ
       (Option.bind (jget policy ''environment'') (\<lambda>e. get_str e ''class_id''))) (\<lambda>c.
     let class_id = to_ascii_lowercase c
     in if class_id = CLASS_ID_SGX then Inr 0
        else if class_id = CLASS_ID_TDX_10 then Inr 1
        else if class_id = CLASS_ID_TDX_15 then Inr 2
        else if class_id = CLASS_ID_TDQE then class_id_loop rest
        else Inl INVALID_REQ)"

definition policy_type_by_class_id :: "ext \<Rightarrow> json \<Rightarrow> u8 res" where
  "policy_type_by_class_id E payload =
     and_then (ok_or INVALID_REQ (get_str payload ''policy_payload'')) (\<lambda>raw.
     and_then (ok_or INVALID_REQ (x_json_from_slice E (as_bytes raw))) (\<lambda>policy_payload.
     and_then (ok_or INVALID_REQ (get_array policy_payload ''policy_array'')) class_id_loop))"

definition v_appraisal_policy :: "ext \<Rightarrow> json \<Rightarrow> appraisal_policy_reg res" where
  "v_appraisal_policy E body =
     and_then (guard (is_object body)) (\<lambda>_.
     and_then (ok_or INVALID_REQ (Option.bind (jget body ''is_default'') as_bool)) (\<lambda>is_default.
     and_then (req_str body ''fmspc'') (\<lambda>fmspc_raw.
     and_then (guard (is_hex fmspc_raw 12)) (\<lambda>_.
     and_then (req_str body ''policy'') (\<lambda>policy.
     and_then (guard (policy \<noteq> [])) (\<lambda>_.
     and_then (guard (CHR ''.'' \<in> set policy)) (\<lambda>_.
     and_then (ok_or INVALID_REQ
       (base64url_decode E (case split_on (CHR ''.'') policy of _ # seg # _ \<Rightarrow> seg | _ \<Rightarrow> [])))
       (\<lambda>decoded.
     and_then (ok_or INVALID_REQ (x_json_from_slice E decoded)) (\<lambda>payload.
     and_then (policy_type_by_class_id E payload) (\<lambda>policy_type.
       Inr \<lparr>ap_is_default = is_default, ap_fmspc = to_ascii_uppercase fmspc_raw,
            ap_policy = policy, ap_policy_type = policy_type\<rparr>))))))))))"

section \<open>Shape of accepted parameters\<close>

lemma guard_Inr [simp]: "guard b = Inr u \<longleftrightarrow> b"
  by (simp add: guard_def)

lemma ascii_upper_cases:
  "code (ascii_upper c) = (if is_ascii_lowercase c then code c - 32 else code c)"
  by (auto simp: ascii_upper_def is_ascii_lowercase_def)

lemma is_ascii_hexdigit_upper [simp]: "is_ascii_hexdigit (ascii_upper c) \<longleftrightarrow> is_ascii_hexdigit c"
  by (auto simp: is_ascii_hexdigit_def ascii_upper_cases is_ascii_lowercase_def is_ascii_digit_def)

lemma is_hex_upper [simp]: "is_hex (to_ascii_uppercase s) n \<longleftrightarrow> is_hex s n"
  by (auto simp: is_hex_def to_ascii_uppercase_def list_all_iff)

definition is_upper_hex :: "string \<Rightarrow> nat \<Rightarrow> bool" where
  "is_upper_hex s n \<longleftrightarrow> is_hex s n \<and> to_ascii_uppercase s = s"

lemma require_hex_Inr:
  "0 < n \<Longrightarrow> require_hex v n = Inr r \<longleftrightarrow> (\<exists>s. v = Some s \<and> is_hex s n \<and> r = to_ascii_uppercase s)"
  by (cases v) (auto simp: require_hex_def is_hex_def)

lemma require_hex_upper_hex: "0 < n \<Longrightarrow> require_hex v n = Inr r \<Longrightarrow> is_upper_hex r n"
  by (auto simp: require_hex_Inr is_upper_hex_def)

section \<open>CRL URIs stay on the allowed hosts\<close>

definition host_chars :: "string \<Rightarrow> bool" where
  "host_chars s \<longleftrightarrow> list_all (\<lambda>b. is_ascii_alphanumeric b \<or> b = CHR ''-'' \<or> b = CHR ''.'') s"

definition trusted_host :: "string \<Rightarrow> bool" where
  "trusted_host host \<longleftrightarrow> host_chars host \<and>
     (ends_with host ''.trustedservices.intel.com'' \<or> host = ''api.trustedservices.intel.com'' \<or>
      ends_with host ''.adsdcsp.com'')"

lemma host_chars_append [simp]: "host_chars (s @ t) \<longleftrightarrow> host_chars s \<and> host_chars t"
  by (simp add: host_chars_def)

lemma alnum_dash_host_chars: "alnum_dash s \<Longrightarrow> host_chars s"
  by (auto simp: alnum_dash_def host_chars_def list_all_iff)

lemma host_chars_literals [simp]:
  "host_chars ''certprx.adsdcsp.com''"
  "host_chars ''certificates.trustedservices.intel.com''"
  "host_chars ''api.trustedservices.intel.com''"
  "host_chars ''.api.trustedservices.intel.com''"
  "host_chars ''.az.sgxprod.adsdcsp.com''"
  "host_chars ''.az.sgxnp.adsdcsp.com''"
  "host_chars ''.''"
  by code_simp+

lemma ends_with_appendI: "ends_with p q \<Longrightarrow> ends_with (s @ p) q"
  by (auto simp: ends_with_iff)

lemma trusted_suffixes:
  "ends_with ''certprx.adsdcsp.com'' ''.adsdcsp.com''"
  "ends_with ''certificates.trustedservices.intel.com'' ''.trustedservices.intel.com''"
  "ends_with ''.api.trustedservices.intel.com'' ''.trustedservices.intel.com''"
  "ends_with ''.az.sgxprod.adsdcsp.com'' ''.adsdcsp.com''"
  "ends_with ''.az.sgxnp.adsdcsp.com'' ''.adsdcsp.com''"
  by code_simp+

lemma trusted_hostI:
  "host_chars s \<Longrightarrow> host_chars p \<Longrightarrow> ends_with p ''.trustedservices.intel.com'' \<Longrightarrow> trusted_host (s @ p)"
  "host_chars s \<Longrightarrow> host_chars p \<Longrightarrow> ends_with p ''.adsdcsp.com'' \<Longrightarrow> trusted_host (s @ p)"
  by (auto simp: trusted_host_def intro: ends_with_appendI)

lemma root_crl_trusted:
  assumes "is_root_crl_uri uri"
  shows "\<exists>host path. uri = ''https://'' @ host @ CHR ''/'' # path \<and> trusted_host host"
proof -
  obtain rest host path where u: "uri = ''https://'' @ rest" "rest = host @ CHR ''/'' # path"
    and h: "host = ''certprx.adsdcsp.com'' \<or>
      (ends_with host ''certificates.trustedservices.intel.com'' \<and>
       alnum_dash (take (length host - length ''certificates.trustedservices.intel.com'') host))"
    using assms unfolding is_root_crl_uri_def Let_def
    by (auto split: option.splits prod.splits simp: split_once_Some simp del: append.simps list.size)
  from h have "trusted_host host"
  proof
    assume "host = ''certprx.adsdcsp.com''"
    then show ?thesis
      using trusted_hostI(2)[of "[]", OF _ host_chars_literals(1) trusted_suffixes(1)]
      by (simp add: host_chars_def)
  next
    assume *: "ends_with host ''certificates.trustedservices.intel.com'' \<and>
       alnum_dash (take (length host - length ''certificates.trustedservices.intel.com'') host)"
    then obtain s where s: "host = s @ ''certificates.trustedservices.intel.com''"
      unfolding ends_with_iff by blast
    then have "host_chars s" using * by (intro alnum_dash_host_chars) simp
    then show ?thesis
      unfolding s by (rule trusted_hostI(1)[OF _ host_chars_literals(2) trusted_suffixes(2)])
  qed
  with u show ?thesis by blast
qed

lemma intermediate_host_trusted:
  assumes "is_intermediate_host host"
  shows "trusted_host host"
proof -
  consider (api) "host = ''api.trustedservices.intel.com''"
    | (sub) s where "host = s @ ''.api.trustedservices.intel.com''" "alnum_dash s"
    | (prd) s where "host = s @ ''.az.sgxprod.adsdcsp.com''" "alnum_dash s"
    | (np) s where "host = s @ ''.az.sgxnp.adsdcsp.com''" "alnum_dash s"
  proof (cases "host = ''api.trustedservices.intel.com'' \<or> ends_with host ''.api.trustedservices.intel.com''")
    case True
    then show ?thesis
    proof
      assume "ends_with host ''.api.trustedservices.intel.com''"
      then obtain s where s: "host = s @ ''.api.trustedservices.intel.com''"
        unfolding ends_with_iff by blast
      then have "strip_suffix host ''api.trustedservices.intel.com'' = Some (s @ ''.'')"
        by simp
      moreover have "strip_suffix (s @ ''.'') ''.'' = Some s" by simp
      ultimately have "alnum_dash s"
        using assms True unfolding is_intermediate_host_def Let_def
        by (simp only: if_True unwrap_or_simps)
      with s show ?thesis by (rule sub)
    qed (rule api)
  next
    case False
    then show ?thesis
      using assms unfolding is_intermediate_host_def
      by (auto split: option.splits intro: prd np simp del: append.simps)
  qed
  then show ?thesis
  proof cases
    case api
    then show ?thesis by (simp add: trusted_host_def)
  next
    case sub
    then show ?thesis
      by (simp only: trusted_hostI(1)[OF alnum_dash_host_chars host_chars_literals(4) trusted_suffixes(3)])
  next
    case prd
    then show ?thesis
      by (simp only: trusted_hostI(2)[OF alnum_dash_host_chars host_chars_literals(5) trusted_suffixes(4)])
  next
    case np
    then show ?thesis
      by (simp only: trusted_hostI(2)[OF alnum_dash_host_chars host_chars_literals(6) trusted_suffixes(5)])
  qed
qed

lemma intermediate_crl_trusted:
  assumes "is_intermediate_crl_uri uri"
  shows "\<exists>host path. uri = ''https://'' @ host @ CHR ''/'' # path \<and> trusted_host host"
proof -
  obtain rest where rest: "strip_prefix uri ''https://'' = Some rest"
    using assms unfolding is_intermediate_crl_uri_def
    by (cases "strip_prefix uri ''https://''") auto
  obtain host path where hp: "split_once (CHR ''/'') rest = Some (host, path)"
    using assms unfolding is_intermediate_crl_uri_def rest
    by (cases "split_once (CHR ''/'') rest") auto
  have "is_intermediate_host host"
    using assms unfolding is_intermediate_crl_uri_def rest
    by (cases "is_intermediate_host host") (simp_all add: hp)
  moreover have "uri = ''https://'' @ host @ CHR ''/'' # path"
    using rest hp by (simp add: split_once_Some)
  ultimately show ?thesis using intermediate_host_trusted by blast
qed

text \<open>C40: a CRL URI that \<open>is_valid_crl_uri\<close> accepts is at most 2048 bytes long, starts with
  \<open>https://\<close>, and its authority part is a plain host name (letters, digits, dash, dot: no user
  information, no port, no escape) inside the two vendor domains. So the fetch that a caller can
  trigger through the \<open>uri\<close> parameter never leaves these hosts.\<close>

theorem is_valid_crl_uri_trusted:
  assumes "is_valid_crl_uri uri"
  shows "length uri \<le> 2048 \<and>
    (\<exists>host path. uri = ''https://'' @ host @ CHR ''/'' # path \<and> trusted_host host)"
  using assms root_crl_trusted intermediate_crl_trusted
  by (auto simp: is_valid_crl_uri_def simp del: append.simps split: if_splits)

theorem is_valid_crl_uri_trusted_witness:
  "is_valid_crl_uri ''https://certificates.trustedservices.intel.com/IntelSGXRootCA.der'' \<and>
   (\<exists>host path. ''https://certificates.trustedservices.intel.com/IntelSGXRootCA.der'' =
      ''https://'' @ host @ CHR ''/'' # path \<and> trusted_host host)"
proof -
  have "is_valid_crl_uri ''https://certificates.trustedservices.intel.com/IntelSGXRootCA.der''"
    by code_simp
  with is_valid_crl_uri_trusted show ?thesis by blast
qed

section \<open>Query maps and versions\<close>

definition pair_key :: "string \<Rightarrow> string" where
  "pair_key pair = query_decode (case split_once (CHR ''='') pair of Some (k, _) \<Rightarrow> k | None \<Rightarrow> pair)"

definition pair_value :: "string \<Rightarrow> string" where
  "pair_value pair = query_decode (case split_once (CHR ''='') pair of Some (_, v) \<Rightarrow> v | None \<Rightarrow> [])"

lemma insert_pair_spec:
  "insert_pair out pair =
     (if pair = [] \<or> out (pair_key pair) \<noteq> None then out
      else out(pair_key pair \<mapsto> pair_value pair))"
  by (auto simp: insert_pair_def pair_key_def pair_value_def split: option.splits prod.splits)

lemma foldl_insert_pair:
  "foldl insert_pair m ps k =
     or_else (m k) (map_option pair_value (find (\<lambda>p. p \<noteq> [] \<and> pair_key p = k) ps))"
  by (induction ps arbitrary: m) (auto simp: insert_pair_spec or_else_def split: option.splits)

text \<open>\<open>query_params\<close> never fails, and of several pairs with the same decoded name the first one
  in the query string gives the value; names that do not occur are absent.\<close>

theorem query_params_first_wins:
  "\<exists>m. query_params query = Inr m \<and>
     (\<forall>k. m k = map_option pair_value
        (find (\<lambda>p. p \<noteq> [] \<and> pair_key p = k) (split_on (CHR ''&'') (unwrap_or [] query))))"
  by (cases query) (auto simp: query_params_def foldl_insert_pair)

text \<open>An API version taken from a URL is 3 or 4, and the URL really has a path segment \<open>/v3/\<close> or
  \<open>/v4/\<close>: a slash, a \<open>v\<close>, digits that read as that number, and a slash.\<close>

theorem api_version_from_url_sound:
  assumes "api_version_from_url url = Inr v"
  shows "(v = 3 \<or> v = 4) \<and>
    (\<exists>pre digits post. url = pre @ ''/v'' @ digits @ ''/'' @ post \<and>
       list_all is_ascii_digit digits \<and> parse_uint (2 ^ 32) digits = Some (uint v))"
  using assms
proof (induction url)
  case (Cons c rest)
  show ?case
  proof (cases "api_version_from_url rest = Inr v")
    case True
    with Cons.IH show ?thesis by (metis append_Cons)
  next
    case False
    let ?d = "takeWhile is_ascii_digit (drop 1 rest)" and ?a = "dropWhile is_ascii_digit (drop 1 rest)"
    from False Cons.prems obtain ver where
      hd: "c = CHR ''/''" "rest ! 0 = CHR ''v''" "\<not> length (c # rest) < 4"
      and a: "?a \<noteq> []" "hd ?a = CHR ''/''" and p: "parse_uint (2 ^ 32) ?d = Some ver"
      and v: "ver = 3 \<or> ver = 4" "v = word_of_int ver"
      by (auto simp: Let_def simp del: One_nat_def split: if_splits option.splits)
    have "rest = CHR ''v'' # drop 1 rest"
      using hd by (cases rest) auto
    also have "drop 1 rest = ?d @ CHR ''/'' # tl ?a"
      using a by (metis list.collapse takeWhile_dropWhile_id)
    finally have "c # rest = [] @ ''/v'' @ ?d @ ''/'' @ tl ?a"
      using hd by simp
    moreover have "list_all is_ascii_digit ?d"
      by (auto simp: list_all_iff dest: set_takeWhileD)
    moreover have "uint v = ver" using v by auto
    ultimately show ?thesis using v p by (metis word_of_int_numeral)
  qed
qed simp

theorem api_version_from_url_sound_witness:
  "api_version_from_url ''https://localhost:8081/sgx/certification/v4/tcb'' = Inr 4 \<and>
   (\<exists>pre digits post. ''https://localhost:8081/sgx/certification/v4/tcb'' =
      pre @ ''/v'' @ digits @ ''/'' @ post \<and> list_all is_ascii_digit digits \<and>
      parse_uint (2 ^ 32) digits = Some (uint (4 :: u32)))"
proof -
  have "api_version_from_url ''https://localhost:8081/sgx/certification/v4/tcb'' = Inr 4"
    by code_simp
  with api_version_from_url_sound show ?thesis by blast
qed

section \<open>Registration bodies\<close>

definition platform_reg_ok :: "platform_reg \<Rightarrow> bool" where
  "platform_reg_ok r \<longleftrightarrow>
     pr_qe_id r \<noteq> [] \<and> length (pr_qe_id r) \<le> QEID_MAX \<and>
     to_ascii_uppercase (pr_qe_id r) = pr_qe_id r \<and> is_upper_hex (pr_pce_id r) 4 \<and>
     (if pr_platform_manifest r = [] then
        is_upper_hex (pr_cpu_svn r) 32 \<and> is_upper_hex (pr_pce_svn r) 4 \<and>
        is_upper_hex (pr_enc_ppid r) 768
      else pr_cpu_svn r = [] \<and> pr_pce_svn r = [] \<and> pr_enc_ppid r = [])"

lemma is_upper_hex_upper [simp]: "is_upper_hex (to_ascii_uppercase s) n \<longleftrightarrow> is_hex s n"
  by (simp add: is_upper_hex_def)

lemma opt_str_present: "opt_str v key = Inr o' \<Longrightarrow> unwrap_or [] o' \<noteq> [] \<Longrightarrow> jget v key \<noteq> None"
  by (auto simp: opt_str_def split: option.splits)

lemma to_ascii_uppercase_eq_Nil [simp]: "to_ascii_uppercase s = [] \<longleftrightarrow> s = []"
  by (simp add: to_ascii_uppercase_def)

text \<open>An accepted registration body is in the normal form the cache relies on: the QE id is not
  empty, at most 260 bytes and upper case, the PCE id four upper-case hex digits, and it carries
  either a platform manifest and no TCB data, or all of CPUSVN, PCESVN and encrypted PPID as
  upper-case hex of their exact lengths and no manifest.\<close>

theorem v_platform_reg_normal:
  assumes "v_platform_reg body = Inr r"
  shows "platform_reg_ok r"
proof -
  note facts = assms [unfolded v_platform_reg_def Let_def]
  from facts obtain qe pce cpu svn ppid rest where
    ids: "qe \<noteq> []" "length qe \<le> 260" "is_hex pce 4"
    and cpu: "opt_str body ''cpu_svn'' = Inr cpu" "jget body ''cpu_svn'' = None \<or> is_hex (unwrap_or [] cpu) 32"
    and svn: "opt_str body ''pce_svn'' = Inr svn" "jget body ''pce_svn'' = None \<or> is_hex (unwrap_or [] svn) 4"
    and ppid: "opt_str body ''enc_ppid'' = Inr ppid" "jget body ''enc_ppid'' = None \<or> is_hex (unwrap_or [] ppid) 768"
    and manifest: "(if unwrap_or [] rest = [] then
          and_then (guard (unwrap_or [] cpu \<noteq> [] \<and> unwrap_or [] svn \<noteq> [] \<and> unwrap_or [] ppid \<noteq> [])) (\<lambda>_.
            Inr \<lparr>pr_qe_id = to_ascii_uppercase qe, pr_pce_id = to_ascii_uppercase pce,
                 pr_cpu_svn = to_ascii_uppercase (unwrap_or [] cpu), pr_pce_svn = to_ascii_uppercase (unwrap_or [] svn),
                 pr_enc_ppid = to_ascii_uppercase (unwrap_or [] ppid), pr_platform_manifest = []\<rparr>)
        else Inr \<lparr>pr_qe_id = to_ascii_uppercase qe, pr_pce_id = to_ascii_uppercase pce, pr_cpu_svn = [],
               pr_pce_svn = [], pr_enc_ppid = [], pr_platform_manifest = unwrap_or [] rest\<rparr>) = Inr r"
    unfolding and_then_Inr guard_Inr de_Morgan_conj de_Morgan_disj not_not not_less
    by (elim exE conjE) (rule that; assumption)
  note hex = opt_str_present [OF cpu(1)] opt_str_present [OF svn(1)] opt_str_present [OF ppid(1)]
  show ?thesis
  proof (cases "unwrap_or [] rest = []")
    case True
    with manifest have r: "unwrap_or [] cpu \<noteq> []" "unwrap_or [] svn \<noteq> []" "unwrap_or [] ppid \<noteq> []" and
      "r = \<lparr>pr_qe_id = to_ascii_uppercase qe, pr_pce_id = to_ascii_uppercase pce,
           pr_cpu_svn = to_ascii_uppercase (unwrap_or [] cpu), pr_pce_svn = to_ascii_uppercase (unwrap_or [] svn),
           pr_enc_ppid = to_ascii_uppercase (unwrap_or [] ppid), pr_platform_manifest = []\<rparr>"
      by auto
    then show ?thesis
      using ids cpu(2) svn(2) ppid(2) hex by (simp add: platform_reg_ok_def QEID_MAX_def)
  next
    case False
    with manifest ids show ?thesis by (auto simp: platform_reg_ok_def QEID_MAX_def)
  qed
qed

definition sample_reg_body :: json where
  "sample_reg_body = JObj [(''qe_id'', JStr ''0f''), (''pce_id'', JStr ''0a0b''),
     (''platform_manifest'', JStr ''abcd'')]"

theorem v_platform_reg_normal_witness:
  "\<exists>r. v_platform_reg sample_reg_body = Inr r \<and> platform_reg_ok r \<and> pr_pce_id r = ''0A0B''"
proof -
  have "v_platform_reg sample_reg_body = Inr \<lparr>pr_qe_id = ''0F'', pr_pce_id = ''0A0B'',
      pr_cpu_svn = [], pr_pce_svn = [], pr_enc_ppid = [], pr_platform_manifest = ''abcd''\<rparr>"
    by code_simp
  with v_platform_reg_normal show ?thesis by fastforce
qed

end
