(* ===== verification/X509.thy ===== *)
theory X509
  imports Ocsp
begin

text \<open>
  \<^verbatim>\<open>src/selection.rs\<close>, first half: the TCB of a platform and its comparison, and the reader of the
  SGX extension of a PCK certificate. The error type of the source is a message string; here each
  message is a constructor, without the values the source formats into it. Base64 and hex come from
  \<open>ext\<close>. \<open>usize\<close> additions of the TLV walk stay below \<open>2 ^ 40\<close> past the buffer length and cannot
  overflow, so lengths are natural numbers.
\<close>

section \<open>Tcb\<close>

datatype sel_error =
    InvalidCpusvnLength | InvalidCpusvnFormat | InvalidPcesvnFormat
  | CertParseFailed | NoSgxExtension | InvalidTcbExtension | InvalidSgxExtension
  | NoCertificate | WrongTcbType | PceIdMissing | PceIdMismatch | EmptyTcbLevels
  | LevelMissingComponents | LevelInvalidPcesvn | InvalidTcbLevels | FmspcMissing
  | CertVersionMismatch | CertPceIdMismatch | CertFmspcMismatch | PpidMismatch
  | TdxTcbTypeNotInteger

record tcb =
  tcb_cpusvn :: string
  tcb_pcesvn :: u32
  components :: "u32 list"

datatype tcb_non_comparable = TcbNonComparable

definition CPUSVN_HEX_LEN :: nat where "CPUSVN_HEX_LEN = 16 * 2"

definition Tcb_new :: "string \<Rightarrow> u32 \<Rightarrow> sel_error + tcb" where
  "Tcb_new cpusvn pcesvn =
     (if length cpusvn \<noteq> CPUSVN_HEX_LEN then Inl InvalidCpusvnLength
      else if \<not> list_all is_ascii_hexdigit cpusvn then Inl InvalidCpusvnFormat
      else
        Inr \<lparr>tcb_cpusvn = to_ascii_uppercase cpusvn, tcb_pcesvn = pcesvn,
             components =
               map (\<lambda>i. of_nat (hex_value (take 2 (drop (i * 2) cpusvn)))) [0..<16] @ [pcesvn]\<rparr>)"

text \<open>\<open>le_hex.as_bytes().chunks(2).rev()\<close>.\<close>

fun rev_chunks2 :: "string \<Rightarrow> string" where
  "rev_chunks2 (a # b # rest) = rev_chunks2 rest @ [a, b]"
| "rev_chunks2 s = s"

definition little_endian_hex_to_int :: "string \<Rightarrow> u32 option" where
  "little_endian_hex_to_int le_hex =
     (if le_hex = [] \<or> length le_hex mod 2 \<noteq> 0 \<or> length le_hex > 8 then None
      else if \<not> list_all is_ascii_hexdigit le_hex then None
      else Some (of_nat (hex_value (rev_chunks2 le_hex))))"

definition Tcb_from_hex :: "string \<Rightarrow> string \<Rightarrow> sel_error + tcb" where
  "Tcb_from_hex cpusvn pcesvn_le_hex =
     and_then (ok_or InvalidPcesvnFormat (little_endian_hex_to_int pcesvn_le_hex)) (Tcb_new cpusvn)"

definition compare_step :: "tcb \<Rightarrow> tcb \<Rightarrow> bool \<times> bool \<Rightarrow> nat \<Rightarrow> bool \<times> bool" where
  "compare_step self other flags i =
     (if components self ! i < components other ! i then (True, snd flags)
      else if components self ! i > components other ! i then (fst flags, True)
      else flags)"

definition compare :: "tcb \<Rightarrow> tcb \<Rightarrow> tcb_non_comparable + int" where
  "compare self other =
     (case foldl (compare_step self other) (False, False) [0..<17] of
        (True, True) \<Rightarrow> Inl TcbNonComparable
      | (True, False) \<Rightarrow> Inr (- 1)
      | (False, True) \<Rightarrow> Inr 1
      | (False, False) \<Rightarrow> Inr 0)"

section \<open>The TLV walk\<close>

definition SGX_EXT_OID :: bytes where
  "SGX_EXT_OID = [0x2A, 0x86, 0x48, 0x86, 0xF8, 0x4D, 0x01, 0x0D, 0x01]"

definition sub_oid :: "u8 \<Rightarrow> bytes" where
  "sub_oid l = SGX_EXT_OID @ [l]"

record pck_cert_info =
  ci_version :: u32
  ci_fmspc :: string
  ci_pce_id :: string
  ci_ppid :: string
  ci_cpusvn :: string
  ci_pcesvn :: u32
  ci_ca :: string

text \<open>The length octets after the tag: content length and header size, \<open>None\<close> where the loop breaks.\<close>

definition tlv_len :: "bytes \<Rightarrow> (nat \<times> nat) option" where
  "tlv_len buf =
     (let first = buf ! 1
      in if first < 0x80 then Some (unat first, 2)
         else
           (let n = unat (first AND 0x7F)
            in if n = 0 \<or> n > 4 \<or> 2 + n > length buf then None
               else Some (foldl (\<lambda>v b. v * 256 + unat b) 0 (take n (drop 2 buf)), 2 + n)))"

function tlvs :: "bytes \<Rightarrow> (u8 \<times> bytes) list" where
  "tlvs buf =
     (if length buf < 2 then []
      else if buf ! 0 AND 0x1F = 0x1F then []
      else
        (case tlv_len buf of
           None \<Rightarrow> []
         | Some (len, hdr) \<Rightarrow>
             if hdr + len > length buf then []
             else (buf ! 0, take len (drop hdr buf)) # tlvs (drop (hdr + len) buf)))"
  by pat_completeness auto

lemma tlv_len_hdr: "tlv_len buf = Some (len, hdr) \<Longrightarrow> 2 \<le> hdr"
  by (auto simp: tlv_len_def Let_def split: if_splits)

termination tlvs
  by (relation "measure length") (auto dest: tlv_len_hdr)

declare tlvs.simps [simp del]

definition is_constructed :: "u8 \<Rightarrow> bool" where
  "is_constructed tag \<longleftrightarrow> tag AND 0x20 \<noteq> 0"

text \<open>The walk never reads a byte twice: two header bytes and the content of every element fit.\<close>

lemma tlvs_size: "(\<Sum>(t, c) \<leftarrow> tlvs buf. length c + 2) \<le> length buf"
proof (induction buf rule: tlvs.induct)
  case (1 buf)
  show ?case
  proof (cases "tlvs buf = []")
    case False
    then obtain len hdr where *: "\<not> length buf < 2" "buf ! 0 AND 0x1F \<noteq> 0x1F"
        "tlv_len buf = Some (len, hdr)" "\<not> hdr + len > length buf"
      by (auto simp: tlvs.simps [of buf] split: if_splits option.splits)
    from "1.IH" [OF *(1,2,3) refl *(4)] * tlv_len_hdr [OF *(3)] show ?thesis
      by (simp add: tlvs.simps [of buf])
  qed simp
qed

definition ext_value :: "bytes \<Rightarrow> u8 \<times> bytes \<Rightarrow> bytes option" where
  "ext_value oid tc =
     (if fst tc = 0x30 then
        (let kids = tlvs (snd tc)
         in if length kids \<ge> 2 \<and> fst (kids ! 0) = 0x06 \<and> snd (kids ! 0) = oid \<and> fst (last kids) = 0x04
            then Some (snd (last kids)) else None)
      else None)"

text \<open>\<open>find_extension\<close>: the loop over the elements, descending into the constructed ones.\<close>

function find_ext :: "bytes \<Rightarrow> (u8 \<times> bytes) list \<Rightarrow> bytes option" where
  "find_ext oid [] = None"
| "find_ext oid (tc # rest) =
     (case ext_value oid tc of
        Some value \<Rightarrow> Some value
      | None \<Rightarrow>
          (case (if is_constructed (fst tc) then find_ext oid (tlvs (snd tc)) else None) of
             Some found \<Rightarrow> Some found
           | None \<Rightarrow> find_ext oid rest))"
  by pat_completeness auto
termination
proof (relation "measure (\<lambda>(oid, items). \<Sum>(t, c) \<leftarrow> items. length c + 1)")
  fix oid :: bytes and tc :: "u8 \<times> bytes" and rest :: "(u8 \<times> bytes) list"
  have "(\<Sum>(t, c) \<leftarrow> tlvs (snd tc). length c + 1) \<le> (\<Sum>(t, c) \<leftarrow> tlvs (snd tc). length c + 2)"
    by (rule sum_list_mono) auto
  also have "\<dots> \<le> length (snd tc)" by (rule tlvs_size)
  finally show "((oid, tlvs (snd tc)), oid, tc # rest)
      \<in> measure (\<lambda>(oid, items). \<Sum>(t, c) \<leftarrow> items. length c + 1)"
    by (simp add: case_prod_beta)
qed (auto simp: case_prod_beta)

definition find_extension :: "bytes \<Rightarrow> bytes \<Rightarrow> bytes option" where
  "find_extension buf oid = find_ext oid (tlvs buf)"

definition der_int :: "bytes \<Rightarrow> u32 option" where
  "der_int bs =
     (if bs = [] \<or> length bs > 5 \<or> bs ! 0 AND 0x80 \<noteq> 0 then None
      else
        (let v = foldl (\<lambda>v b. v * 256 + uint b) (0 :: int) bs
         in if v < 2 ^ 32 then Some (word_of_int v) else None))"

section \<open>PCK certificates\<close>

definition pem_to_der :: "ext \<Rightarrow> string \<Rightarrow> bytes option" where
  "pem_to_der E pem =
     (case split_once_str ''-----BEGIN CERTIFICATE-----'' pem of
        None \<Rightarrow> None
      | Some (_, after) \<Rightarrow>
          (let until = (\<lambda>p s. case split_once_str p s of Some (x, _) \<Rightarrow> x | None \<Rightarrow> s);
               body = until ''-----BEGIN CERTIFICATE-----'' after
           in x_base64_std E
                (filter (\<lambda>c. \<not> is_ascii_whitespace c) (until ''-----END CERTIFICATE-----'' body))))"

definition find_seq :: "u8 \<Rightarrow> bytes \<Rightarrow> sel_error + bytes" where
  "find_seq tag buf =
     ok_or CertParseFailed (map_option snd (find (\<lambda>(t, _). t = tag) (tlvs buf)))"

definition issuer_ca :: "(u8 \<times> bytes) list \<Rightarrow> nat \<Rightarrow> string" where
  "issuer_ca tbs_kids issuer_index =
     (if issuer_index < length tbs_kids then
        (let text = from_utf8_lossy (snd (tbs_kids ! issuer_index))
         in if contains_str text ''Platform'' then ''PLATFORM''
            else if contains_str text ''Processor'' then ''PROCESSOR''
            else [])
      else [])"

record sgx_fields =
  sg_fmspc :: string
  sg_pce_id :: string
  sg_ppid :: string
  sg_cpusvn :: string
  sg_pcesvn :: "u32 option"

text \<open>One item of the SGX extension: the body of the \<open>for\<close> loop.\<close>

definition sgx_item :: "ext \<Rightarrow> sgx_fields \<Rightarrow> u8 \<times> bytes \<Rightarrow> sel_error + sgx_fields" where
  "sgx_item E st tc =
     (if fst tc \<noteq> 0x30 then Inr st
      else
        (let kids = tlvs (snd tc)
         in if length kids < 2 \<or> fst (kids ! 0) \<noteq> 0x06 then Inr st
            else
              (let oid = snd (kids ! 0); val = snd (kids ! 1)
               in if oid = sub_oid 0x04 then Inr (st\<lparr>sg_fmspc := x_hex_encode_upper E val\<rparr>)
                  else if oid = sub_oid 0x03 then Inr (st\<lparr>sg_pce_id := x_hex_encode_upper E val\<rparr>)
                  else if oid = sub_oid 0x01 then Inr (st\<lparr>sg_ppid := x_hex_encode_upper E val\<rparr>)
                  else if oid = sub_oid 0x02 then
                    (let items = tlvs val;
                         field = (\<lambda>idx. let kids = tlvs (snd (items ! idx))
                                        in if 1 < length kids then Some (snd (kids ! 1)) else None)
                     in if length items < 18 then Inl InvalidTcbExtension
                        else
                          Inr (st\<lparr>sg_pcesvn := Option.bind (field 16) der_int,
                                  sg_cpusvn := unwrap_or [] (map_option (x_hex_encode_upper E) (field 17))\<rparr>))
                  else Inr st)))"

fun sgx_items :: "ext \<Rightarrow> sgx_fields \<Rightarrow> (u8 \<times> bytes) list \<Rightarrow> sel_error + sgx_fields" where
  "sgx_items E st [] = Inr st"
| "sgx_items E st (tc # rest) = and_then (sgx_item E st tc) (\<lambda>st. sgx_items E st rest)"

definition parse_version :: "(u8 \<times> bytes) list \<Rightarrow> sel_error + (u32 \<times> nat)" where
  "parse_version tbs_kids =
     (case tbs_kids of
        (t, v) # _ \<Rightarrow>
          if t = 0xA0 then
            and_then (ok_or CertParseFailed
              (Option.bind (find (\<lambda>(t, _). t = 0x02) (tlvs v)) (\<lambda>(_, b). der_int b)))
              (\<lambda>raw. Inr (raw + 1, 3))
          else Inr (1, 2)
      | [] \<Rightarrow> Inr (1, 2))"

definition parse_pck_cert :: "ext \<Rightarrow> string \<Rightarrow> sel_error + pck_cert_info" where
  "parse_pck_cert E pem =
     and_then (ok_or CertParseFailed (pem_to_der E pem)) (\<lambda>der.
     and_then (find_seq 0x30 der) (\<lambda>cert.
     and_then (find_seq 0x30 cert) (\<lambda>tbs.
     let tbs_kids = tlvs tbs in
     and_then (parse_version tbs_kids) (\<lambda>(version, issuer_index).
     let ca = issuer_ca tbs_kids issuer_index in
     and_then (ok_or NoSgxExtension (find_extension der SGX_EXT_OID)) (\<lambda>sgx.
     let items = (case tlvs sgx of [(t, inner)] \<Rightarrow> if t = 0x30 then tlvs inner else [(t, inner)]
                  | other \<Rightarrow> other) in
     and_then (sgx_items E \<lparr>sg_fmspc = [], sg_pce_id = [], sg_ppid = [], sg_cpusvn = [],
                            sg_pcesvn = None\<rparr> items) (\<lambda>st.
     and_then (ok_or InvalidTcbExtension (sg_pcesvn st)) (\<lambda>pcesvn.
     if sg_cpusvn st = [] \<or> sg_fmspc st = [] \<or> sg_pce_id st = [] then Inl InvalidSgxExtension
     else Inr \<lparr>ci_version = version, ci_fmspc = sg_fmspc st, ci_pce_id = sg_pce_id st,
               ci_ppid = sg_ppid st, ci_cpusvn = sg_cpusvn st, ci_pcesvn = pcesvn,
               ci_ca = ca\<rparr>)))))))"

section \<open>The comparison decides the component order\<close>

text \<open>The order the comparison is about: every one of the 17 components is at most the other's.\<close>

definition tcb_le :: "tcb \<Rightarrow> tcb \<Rightarrow> bool" where
  "tcb_le a b \<longleftrightarrow> list_all (\<lambda>i. components a ! i \<le> components b ! i) [0..<17]"

lemma tcb_leI: "(\<And>i. i < 17 \<Longrightarrow> components a ! i \<le> components b ! i) \<Longrightarrow> tcb_le a b"
  by (simp add: tcb_le_def list_all_iff)

lemma tcb_leD: "tcb_le a b \<Longrightarrow> i < 17 \<Longrightarrow> components a ! i \<le> components b ! i"
  by (simp add: tcb_le_def list_all_iff)

lemma tcb_le_refl [simp]: "tcb_le a a"
  by (simp add: tcb_le_def list_all_iff)

lemma tcb_le_trans [trans]: "tcb_le a b \<Longrightarrow> tcb_le b c \<Longrightarrow> tcb_le a c"
  by (meson order_trans tcb_leD tcb_leI)

lemma compare_flags:
  "foldl (compare_step a b) (l, r) is =
     (l \<or> (\<exists>i\<in>set is. components a ! i < components b ! i),
      r \<or> (\<exists>i\<in>set is. components b ! i < components a ! i))"
  by (induction "is" arbitrary: l r) (auto simp: compare_step_def)

lemma compare_tcb_le:
  "compare a b =
     (if tcb_le a b then (if tcb_le b a then Inr 0 else Inr (- 1))
      else (if tcb_le b a then Inr 1 else Inl TcbNonComparable))"
proof -
  have 1: "tcb_le b a \<longleftrightarrow> \<not> (\<exists>i\<in>set [0..<17]. components a ! i < components b ! i)"
    by (force simp: tcb_le_def list_all_iff)
  have 2: "tcb_le a b \<longleftrightarrow> \<not> (\<exists>i\<in>set [0..<17]. components b ! i < components a ! i)"
    by (force simp: tcb_le_def list_all_iff)
  show ?thesis unfolding compare_def compare_flags 1 2 by (simp split: prod.splits bool.splits)
qed

lemma compare_nonneg: "(\<exists>n. compare a b = Inr n \<and> n \<ge> 0) \<longleftrightarrow> tcb_le b a"
  by (auto simp: compare_tcb_le)

lemma compare_Inr: "compare a b = Inr n \<Longrightarrow> n \<ge> 0 \<longleftrightarrow> tcb_le b a"
  by (auto simp: compare_tcb_le split: if_splits)

lemma Tcb_new_components: "Tcb_new c p = Inr t \<Longrightarrow> length (components t) = 17"
  by (auto simp: Tcb_new_def split: if_splits)

text \<open>On two TCBs built by the constructor, \<open>compare\<close> decides the component-wise partial order on
  the 16 CPUSVN bytes and the PCESVN: 0 exactly when all 17 components agree, -1 or 1 exactly when
  one TCB is below the other in every component and they differ, and the non-comparable error
  exactly when neither is below the other.\<close>

theorem compare_decides_order:
  assumes "Tcb_new c1 p1 = Inr a" "Tcb_new c2 p2 = Inr b"
  shows "(compare a b = Inr 0 \<longleftrightarrow> components a = components b) \<and>
    (compare a b = Inr (- 1) \<longleftrightarrow> tcb_le a b \<and> components a \<noteq> components b) \<and>
    (compare a b = Inr 1 \<longleftrightarrow> tcb_le b a \<and> components a \<noteq> components b) \<and>
    (compare a b = Inl TcbNonComparable \<longleftrightarrow> \<not> tcb_le a b \<and> \<not> tcb_le b a)"
proof -
  have "components a = components b" if "tcb_le a b" "tcb_le b a"
    using assms [THEN Tcb_new_components] tcb_leD [OF that(1)] tcb_leD [OF that(2)]
    by (auto intro!: nth_equalityI simp: order_antisym)
  then have eq: "tcb_le a b \<and> tcb_le b a \<longleftrightarrow> components a = components b"
    by (auto intro: tcb_leI)
  show ?thesis unfolding compare_tcb_le using eq by auto
qed

theorem compare_decides_order_witness:
  "\<exists>a b. Tcb_new ''01000000000000000000000000000000'' 11 = Inr a \<and>
     Tcb_new ''02000000000000000000000000000000'' 10 = Inr b \<and>
     compare a b = Inl TcbNonComparable \<and> \<not> tcb_le a b"
proof -
  obtain a b where *: "Tcb_new ''01000000000000000000000000000000'' 11 = Inr a"
      "Tcb_new ''02000000000000000000000000000000'' 10 = Inr b"
    and n: "compare a b = Inl TcbNonComparable"
  proof -
    have "(case (Tcb_new ''01000000000000000000000000000000'' 11,
                 Tcb_new ''02000000000000000000000000000000'' 10) of
             (Inr a, Inr b) \<Rightarrow> compare a b = Inl TcbNonComparable | _ \<Rightarrow> False)"
      by code_simp
    then show ?thesis by (auto split: sum.splits intro: that)
  qed
  then show ?thesis using compare_decides_order [OF *] by blast
qed

section \<open>The TLV walk reads back DER\<close>

definition der_item_ok :: "u8 \<times> bytes \<Rightarrow> bool" where
  "der_item_ok tc \<longleftrightarrow> fst tc AND 0x1F \<noteq> 0x1F \<and> length (snd tc) < 2 ^ 32"

lemma tlv_len_der:
  assumes "length v < 2 ^ 32"
  shows "tlv_len (der_tlv t v @ rest) = Some (length v, 1 + length (der_len (length v)))"
proof (cases "length v < 128")
  case True
  then have "unat (of_nat (length v) :: u8) = length v" by (simp add: unat_of_nat)
  moreover from this True have "(of_nat (length v) :: u8) < 0x80" by (simp add: word_less_nat_alt)
  ultimately show ?thesis
    using True by (simp add: tlv_len_def der_tlv_def der_len_def)
next
  case False
  let ?b = "be_min (length v)"
  have n: "length ?b \<le> 4" using assms by (intro length_be_min) simp
  have "?b \<noteq> []" using False by auto
  then have n0: "length ?b > 0" by simp
  have u: "unat (128 + of_nat (length ?b) :: u8) = 128 + length ?b"
    using n by (intro unat_128_plus) simp
  have f: "unat ((128 + of_nat (length ?b) :: u8) AND 0x7F) = length ?b"
    using n unfolding u8_and_7f u by simp
  have "\<not> (128 + of_nat (length ?b) :: u8) < 0x80"
    using u by (simp add: word_less_nat_alt)
  moreover have "foldl (\<lambda>v b. v * 256 + unat b) 0 ?b = length v"
    using len_fold_be_min [of "length v"] by (simp add: len_fold_def)
  ultimately show ?thesis
    using False n n0 f by (simp add: tlv_len_def der_tlv_def der_len_def Let_def)
qed

lemma tlvs_der_tlv:
  assumes "der_item_ok (t, v)"
  shows "tlvs (der_tlv t v @ rest) = (t, v) # tlvs rest"
proof -
  have "der_len (length v) \<noteq> []" by (simp add: der_len_def)
  then have len: "\<not> length (der_tlv t v @ rest) < 2" by (simp add: der_tlv_def neq_Nil_conv)
  have "drop (1 + length (der_len (length v))) (der_tlv t v @ rest) = v @ rest"
    by (simp add: der_tlv_def)
  moreover have "drop (1 + length (der_len (length v)) + length v) (der_tlv t v @ rest) = rest"
    by (simp add: der_tlv_def)
  ultimately show ?thesis
    using assms len unfolding tlvs.simps [of "der_tlv t v @ rest"]
    by (simp add: der_item_ok_def tlv_len_der) (simp add: der_tlv_def)
qed

text \<open>The certificate reader's TLV walk inverts the DER encoding: on the concatenation of the
  encodings of any elements with one-byte tags and contents below 4 GiB it returns exactly these
  elements, in order and complete.\<close>

theorem tlvs_roundtrip:
  assumes "list_all der_item_ok items"
  shows "tlvs (concat (map (\<lambda>(t, v). der_tlv t v) items)) = items"
  using assms
proof (induction items)
  case Nil
  then show ?case by (simp add: tlvs.simps)
next
  case (Cons tv items)
  then show ?case by (cases tv) (simp add: tlvs_der_tlv)
qed

theorem tlvs_roundtrip_witness:
  "tlvs (concat (map (\<lambda>(t, v). der_tlv t v) [(0x02, [7]), (0x30, [0x04, 0x01, 0x09])])) =
     [(0x02, [7]), (0x30, [0x04, 0x01, 0x09])]"
proof (rule tlvs_roundtrip)
  show "list_all der_item_ok [(0x02, [7]), (0x30, [0x04, 0x01, 0x09])]"
    by (simp add: der_item_ok_def)
qed

end
