(* ===== verification/Selection.thy ===== *)
theory Selection
  imports X509 "HOL-Library.Multiset"
begin

text \<open>
  \<^verbatim>\<open>src/selection.rs\<close>, second half: the port of Intel's PCK certificate selection. The certificates of
  a platform are parsed, checked against the TCB info, distributed over one bucket per TCB level
  and searched, best bucket first, for one that the raw TCB of the platform reaches.
\<close>

section \<open>Input validation\<close>

definition PCK_CERT_VERSION :: u32 where "PCK_CERT_VERSION = 3"

record parsed_cert =
  pc_tcbm :: string
  pc_cert :: string
  pc_info :: pck_cert_info
  pc_tcb :: tcb

record bucket =
  b_tcb :: "tcb option"
  b_certs :: "nat list"

definition parse_pck_certs :: "ext \<Rightarrow> (string \<times> string) list \<Rightarrow> sel_error + parsed_cert list" where
  "parse_pck_certs E certs =
     try_map (\<lambda>(tcbm, cert).
       and_then (parse_pck_cert E cert) (\<lambda>info.
       and_then (Tcb_new (ci_cpusvn info) (ci_pcesvn info)) (\<lambda>tcb.
         Inr \<lparr>pc_tcbm = to_ascii_uppercase tcbm, pc_cert = cert, pc_info = info, pc_tcb = tcb\<rparr>)))
       certs"

text \<open>The component values of one TCB level as CPUSVN hex, in the v4 or the v3 spelling.\<close>

definition svn_hex :: "json option \<Rightarrow> string option" where
  "svn_hex v =
     Option.bind (Option.bind v as_u64) (\<lambda>svn.
       if svn > 255 then None else Some (hex_pad_upper 2 (unat svn)))"

fun concat_opts :: "string option list \<Rightarrow> string option" where
  "concat_opts [] = Some []"
| "concat_opts (x # xs) = Option.bind x (\<lambda>s. map_option ((@) s) (concat_opts xs))"

definition pad2 :: "nat \<Rightarrow> string" where
  "pad2 i = (if i < 10 then ''0'' else []) @ dec_string i"

definition level_cpusvn :: "json \<Rightarrow> string option" where
  "level_cpusvn tcb =
     (case Option.bind (jget tcb ''sgxtcbcomponents'') as_array of
        Some comps \<Rightarrow>
          if length comps \<noteq> 16 then None
          else concat_opts (map (\<lambda>c. svn_hex (jget c ''svn'')) comps)
      | None \<Rightarrow>
          concat_opts (map (\<lambda>i. svn_hex (jget tcb (''sgxtcbcomp'' @ pad2 i @ ''svn''))) [1..<17]))"

definition check_level :: "json \<Rightarrow> sel_error + unit" where
  "check_level level =
     and_then (ok_or LevelMissingComponents (jget level ''tcb'')) (\<lambda>tcb.
     if level_cpusvn tcb = None then Inl LevelMissingComponents
     else (case get_u64 tcb ''pcesvn'' of Some _ \<Rightarrow> Inr () | None \<Rightarrow> Inl LevelInvalidPcesvn))"

fun check_certs :: "string \<Rightarrow> string \<Rightarrow> string option \<Rightarrow> parsed_cert list \<Rightarrow> sel_error + unit" where
  "check_certs pce_id fmspc ppid [] = Inr ()"
| "check_certs pce_id fmspc ppid (cert # rest) =
     (if ci_version (pc_info cert) \<noteq> PCK_CERT_VERSION then Inl CertVersionMismatch
      else if ci_pce_id (pc_info cert) \<noteq> to_ascii_uppercase pce_id then Inl CertPceIdMismatch
      else if ci_fmspc (pc_info cert) \<noteq> fmspc then Inl CertFmspcMismatch
      else
        (case ppid of
           None \<Rightarrow> check_certs pce_id fmspc (Some (ci_ppid (pc_info cert))) rest
         | Some p \<Rightarrow>
             if p \<noteq> ci_ppid (pc_info cert) then Inl PpidMismatch
             else check_certs pce_id fmspc ppid rest))"

definition validate_platform_metadata :: "string \<Rightarrow> parsed_cert list \<Rightarrow> json \<Rightarrow> sel_error + unit" where
  "validate_platform_metadata pce_id certs tcb_info =
     and_then (ok_or PceIdMissing (get_str tcb_info ''pceId'')) (\<lambda>info_pceid.
     if \<not> eq_ignore_ascii_case info_pceid pce_id then Inl PceIdMismatch
     else
       and_then (ok_or EmptyTcbLevels (opt_filter (\<lambda>a. a \<noteq> []) (get_array tcb_info ''tcbLevels'')))
         (\<lambda>levels.
       and_then (try_each check_level levels) (\<lambda>_.
       and_then (ok_or FmspcMissing (get_str tcb_info ''fmspc'')) (\<lambda>f.
         check_certs pce_id (to_ascii_uppercase f) None certs))))"

definition validate_input :: "string \<Rightarrow> parsed_cert list \<Rightarrow> json \<Rightarrow> sel_error + unit" where
  "validate_input pce_id certs tcb_info =
     (if Option.bind (jget tcb_info ''tcbType'') as_i64 \<noteq> Some 0 then Inl WrongTcbType
      else validate_platform_metadata pce_id certs tcb_info)"

section \<open>V8's sort\<close>

text \<open>
  \<open>v8_sort_desc\<close> in the comparator it uses: the initial run is counted (and reversed when strictly
  descending), then every further element goes to the place a binary search finds.
\<close>

function run_while :: "('a \<Rightarrow> 'a \<Rightarrow> bool) \<Rightarrow> 'a list \<Rightarrow> nat \<Rightarrow> nat" where
  "run_while p bs run =
     (if run < length bs \<and> p (bs ! run) (bs ! (run - 1)) then run_while p bs (run + 1) else run)"
  by pat_completeness auto
termination
  by (relation "measure (\<lambda>(p, bs, run). length bs - run)") auto

function bin_search :: "('a \<Rightarrow> 'a \<Rightarrow> int) \<Rightarrow> 'a list \<Rightarrow> nat \<Rightarrow> nat \<Rightarrow> nat \<Rightarrow> nat" where
  "bin_search cmp bs start left right =
     (if left < right then
        (let mid = left + (right - left) div 2
         in if cmp (bs ! start) (bs ! mid) < 0 then bin_search cmp bs start left mid
            else bin_search cmp bs start (mid + 1) right)
      else left)"
  by pat_completeness auto
termination
proof (relation "measure (\<lambda>(cmp, bs, start, left, right). right - left)", goal_cases)
  case (3 cmp bs start left right mid)
  then show ?case by (auto simp: less_Suc_eq_le)
qed auto

declare run_while.simps [simp del] bin_search.simps [simp del]

definition rotate_into :: "nat \<Rightarrow> nat \<Rightarrow> 'a list \<Rightarrow> 'a list" where
  "rotate_into left start bs =
     take left bs @ bs ! start # drop left (take start bs) @ drop (start + 1) bs"

definition insertion_step :: "('a \<Rightarrow> 'a \<Rightarrow> int) \<Rightarrow> 'a list \<Rightarrow> nat \<Rightarrow> 'a list" where
  "insertion_step cmp bs start = rotate_into (bin_search cmp bs start 0 start) start bs"

definition initial_run :: "('a \<Rightarrow> 'a \<Rightarrow> int) \<Rightarrow> 'a list \<Rightarrow> nat \<times> 'a list" where
  "initial_run cmp bs =
     (if cmp (bs ! 1) (bs ! 0) < 0 then
        (let run = run_while (\<lambda>x y. cmp x y < 0) bs 2
         in (run, rev (take run bs) @ drop run bs))
      else (run_while (\<lambda>x y. cmp x y \<ge> 0) bs 1, bs))"

definition v8_sort :: "('a \<Rightarrow> 'a \<Rightarrow> int) \<Rightarrow> 'a list \<Rightarrow> 'a list" where
  "v8_sort cmp bs =
     (if length bs < 2 then bs
      else
        (case initial_run cmp bs of
           (run, bs') \<Rightarrow> foldl (insertion_step cmp) bs' [run..<length bs]))"

definition bucket_cmp :: "bucket \<Rightarrow> bucket \<Rightarrow> int" where
  "bucket_cmp x y =
     (case (b_tcb x, b_tcb y) of
        (Some xt, Some yt) \<Rightarrow> (case compare yt xt of Inr n \<Rightarrow> n | Inl _ \<Rightarrow> 0)
      | _ \<Rightarrow> 0)"

definition v8_sort_desc :: "bucket list \<Rightarrow> bucket list" where
  "v8_sort_desc buckets = v8_sort bucket_cmp buckets"

section \<open>Buckets and selection\<close>

definition level_bucket :: "json \<Rightarrow> sel_error + bucket" where
  "level_bucket level =
     and_then (ok_or InvalidTcbLevels (jget level ''tcb'')) (\<lambda>tcb.
     and_then (ok_or InvalidTcbLevels (level_cpusvn tcb)) (\<lambda>cpusvn.
     and_then (ok_or InvalidTcbLevels (get_u64 tcb ''pcesvn'')) (\<lambda>pcesvn.
     if pcesvn > 0xFFFFFFFF then Inl InvalidTcbLevels
     else and_then (Tcb_new cpusvn (ucast pcesvn)) (\<lambda>t. Inr \<lparr>b_tcb = Some t, b_certs = []\<rparr>))))"

definition create_buckets :: "json \<Rightarrow> sel_error + bucket list" where
  "create_buckets tcb_info =
     and_then (ok_or EmptyTcbLevels (get_array tcb_info ''tcbLevels'')) (\<lambda>levels.
     and_then (try_map level_bucket levels) (\<lambda>buckets. Inr (v8_sort_desc buckets)))"

fun find_insert_loop :: "int \<Rightarrow> nat list \<Rightarrow> parsed_cert list \<Rightarrow> parsed_cert \<Rightarrow> int" where
  "find_insert_loop index [] parsed cert = - 1"
| "find_insert_loop index (slot # rest) parsed cert =
     (case compare (pc_tcb cert) (pc_tcb (parsed ! slot)) of
        Inr n \<Rightarrow> if n \<ge> 0 then index else find_insert_loop (index + 1) rest parsed cert
      | Inl _ \<Rightarrow> find_insert_loop index rest parsed cert)"

definition find_insert_index :: "nat list \<Rightarrow> parsed_cert list \<Rightarrow> parsed_cert \<Rightarrow> int" where
  "find_insert_index bucket_certs parsed cert = find_insert_loop 0 bucket_certs parsed cert"

definition insert_cert :: "parsed_cert list \<Rightarrow> nat \<Rightarrow> bucket \<Rightarrow> bucket" where
  "insert_cert parsed i b =
     (let index = find_insert_index (b_certs b) parsed (parsed ! i)
      in if index = - 1 then b\<lparr>b_certs := b_certs b @ [i]\<rparr>
         else b\<lparr>b_certs := take (nat index) (b_certs b) @ i # drop (nat index) (b_certs b)\<rparr>)"

text \<open>The loop over the buckets for one certificate: the buckets after it, and \<open>was_added\<close>.\<close>

fun place_cert :: "parsed_cert list \<Rightarrow> nat \<Rightarrow> bucket list \<Rightarrow> bucket list \<times> bool" where
  "place_cert parsed i [] = ([], False)"
| "place_cert parsed i (b # bs) =
     (let skip = (case place_cert parsed i bs of (bs', added) \<Rightarrow> (b # bs', added))
      in case b_tcb b of
           None \<Rightarrow> skip
         | Some btcb \<Rightarrow>
             (case compare (pc_tcb (parsed ! i)) btcb of
                Inr n \<Rightarrow> if n \<ge> 0 then (insert_cert parsed i b # bs, True) else skip
              | Inl _ \<Rightarrow> skip))"

definition place_step ::
  "parsed_cert list \<Rightarrow> bucket list \<times> nat list \<Rightarrow> nat \<Rightarrow> bucket list \<times> nat list" where
  "place_step parsed st i =
     (case place_cert parsed i (fst st) of
        (bs, was_added) \<Rightarrow> (bs, if was_added then snd st else snd st @ [i]))"

definition fill_buckets :: "parsed_cert list \<Rightarrow> bucket list \<Rightarrow> bucket list" where
  "fill_buckets parsed buckets =
     (case foldl (place_step parsed) (buckets, []) [0..<length parsed] of
        (bs, not_matching) \<Rightarrow> bs @ [\<lparr>b_tcb = None, b_certs = not_matching\<rparr>])"

definition reaches :: "tcb \<Rightarrow> parsed_cert \<Rightarrow> bool" where
  "reaches raw cert =
     (case compare raw (pc_tcb cert) of Inr n \<Rightarrow> n \<ge> 0 | Inl _ \<Rightarrow> False)"

definition pick :: "tcb \<Rightarrow> parsed_cert list \<Rightarrow> bucket list \<Rightarrow> nat option" where
  "pick raw parsed buckets =
     find (\<lambda>slot. reaches raw (parsed ! slot)) (concat (map b_certs buckets))"

definition validate_pck_cert_pool ::
  "ext \<Rightarrow> string \<Rightarrow> (string \<times> string) list \<Rightarrow> json \<Rightarrow> sel_error + unit" where
  "validate_pck_cert_pool E pce_id certs tcb_info =
     (if certs = [] then Inl NoCertificate
      else
        and_then (parse_pck_certs E certs) (\<lambda>parsed.
        and_then (validate_input pce_id parsed tcb_info) (\<lambda>_.
        and_then (create_buckets tcb_info) (\<lambda>_. Inr ()))))"

definition validate_tdx_pck_cert_pool ::
  "ext \<Rightarrow> string \<Rightarrow> (string \<times> string) list \<Rightarrow> json \<Rightarrow> sel_error + unit" where
  "validate_tdx_pck_cert_pool E pce_id certs tcb_info =
     (if certs = [] then Inl NoCertificate
      else if (case jget tcb_info ''tcbType'' of
                 None \<Rightarrow> False | Some typ \<Rightarrow> as_i64 typ = None \<and> as_u64 typ = None)
      then Inl TdxTcbTypeNotInteger
      else
        and_then (parse_pck_certs E certs) (\<lambda>parsed.
          validate_platform_metadata pce_id parsed tcb_info))"

definition select_best_pck_cert ::
  "ext \<Rightarrow> string \<Rightarrow> string \<Rightarrow> string \<Rightarrow> (string \<times> string) list \<Rightarrow> json \<Rightarrow>
   sel_error + (string \<times> string)" where
  "select_best_pck_cert E raw_cpusvn raw_pcesvn pce_id certs tcb_info =
     (if certs = [] then Inl NoCertificate
      else
        and_then (parse_pck_certs E certs) (\<lambda>parsed.
        and_then (validate_input pce_id parsed tcb_info) (\<lambda>_.
        and_then (create_buckets tcb_info) (\<lambda>buckets.
        and_then (Tcb_from_hex raw_cpusvn raw_pcesvn) (\<lambda>raw.
          case pick raw parsed (fill_buckets parsed buckets) of
            Some slot \<Rightarrow> Inr (pc_tcbm (parsed ! slot), pc_cert (parsed ! slot))
          | None \<Rightarrow> Inl NoCertificate)))))"

section \<open>What the sort promises\<close>

lemma run_while_spec:
  "r \<le> length bs \<Longrightarrow> r \<le> run_while p bs r \<and> run_while p bs r \<le> length bs \<and>
     (\<forall>i. r \<le> i \<and> i < run_while p bs r \<longrightarrow> p (bs ! i) (bs ! (i - 1)))"
proof (induction p bs r rule: run_while.induct)
  case (1 p bs r)
  show ?case
  proof (cases "r < length bs \<and> p (bs ! r) (bs ! (r - 1))")
    case True
    then have IH: "r + 1 \<le> run_while p bs (r + 1)" "run_while p bs (r + 1) \<le> length bs"
      "\<And>i. r + 1 \<le> i \<Longrightarrow> i < run_while p bs (r + 1) \<Longrightarrow> p (bs ! i) (bs ! (i - 1))"
      using "1.IH" by simp_all
    have "p (bs ! i) (bs ! (i - 1))" if "r \<le> i" "i < run_while p bs (r + 1)" for i
      using True IH(3) [of i] that by (cases "i = r") simp_all
    with IH True show ?thesis by (simp add: run_while.simps [of p bs r])
  next
    case False
    then have "run_while p bs r = r" by (subst run_while.simps) (simp only: if_False)
    then show ?thesis using "1.prems" by auto
  qed
qed

lemma bin_search_bound: "l \<le> r \<Longrightarrow> l \<le> bin_search cmp bs s l r \<and> bin_search cmp bs s l r \<le> r"
proof (induction "r - l" arbitrary: l r rule: less_induct)
  case less
  define mid where "mid = l + (r - l) div 2"
  show ?case
  proof (cases "l < r")
    case True
    then have m: "l \<le> mid" "mid < r" by (simp_all add: mid_def)
    have "l \<le> bin_search cmp bs s l mid \<and> bin_search cmp bs s l mid \<le> mid"
      using m True by (intro less) auto
    moreover have "mid + 1 \<le> bin_search cmp bs s (mid + 1) r \<and> bin_search cmp bs s (mid + 1) r \<le> r"
      using m True by (intro less) auto
    ultimately show ?thesis
      using True m by (simp add: bin_search.simps [of cmp bs s l r] Let_def flip: mid_def)
  next
    case False
    then have "bin_search cmp bs s l r = l" by (subst bin_search.simps) simp
    with less.prems show ?thesis by simp
  qed
qed

lemma mset_rotate_into: "l \<le> s \<Longrightarrow> s < length bs \<Longrightarrow> mset (rotate_into l s bs) = mset bs"
proof -
  assume *: "l \<le> s" "s < length bs"
  have "bs = take l bs @ drop l (take s bs) @ bs ! s # drop (Suc s) bs"
    using * by (metis append.assoc append_take_drop_id id_take_nth_drop min.absorb1 take_take)
  then have "mset bs = mset (take l bs @ drop l (take s bs) @ bs ! s # drop (Suc s) bs)" by simp
  then show ?thesis by (simp add: rotate_into_def)
qed

lemma length_rotate_into [simp]: "l \<le> s \<Longrightarrow> s < length bs \<Longrightarrow> length (rotate_into l s bs) = length bs"
  by (metis mset_rotate_into size_mset)

lemma insertion_step_mset:
  "s < length bs \<Longrightarrow> mset (insertion_step cmp bs s) = mset bs"
  using bin_search_bound [of 0 s cmp bs s] by (simp add: insertion_step_def mset_rotate_into)

lemma insertion_step_length [simp]:
  "s < length bs \<Longrightarrow> length (insertion_step cmp bs s) = length bs"
  by (metis insertion_step_mset size_mset)

lemma insertion_fold_mset:
  "n \<le> length bs \<Longrightarrow> mset (foldl (insertion_step cmp) bs [m..<n]) = mset bs \<and>
     length (foldl (insertion_step cmp) bs [m..<n]) = length bs"
proof (induction n)
  case (Suc n)
  then show ?case by (auto simp: insertion_step_mset)
qed simp

lemma initial_run_mset: "initial_run cmp bs = (run, bs') \<Longrightarrow> mset bs' = mset bs"
proof -
  have "mset (rev (take n bs) @ drop n bs) = mset bs" for n
    by (metis append_take_drop_id mset_append mset_rev)
  then show "initial_run cmp bs = (run, bs') \<Longrightarrow> mset bs' = mset bs"
    by (auto simp: initial_run_def Let_def split: if_splits)
qed

lemma v8_sort_mset: "mset (v8_sort cmp bs) = mset bs"
proof (cases "initial_run cmp bs")
  case (Pair run bs')
  then have "length bs' = length bs" by (metis initial_run_mset size_mset)
  with Pair show ?thesis
    using insertion_fold_mset [of "length bs" bs' cmp run] initial_run_mset [OF Pair]
    by (simp add: v8_sort_def)
qed

text \<open>
  The contract of the comparator: it is antisymmetric in its arguments. That is all the comparator of
  the source gives in general; where it is also transitive on the elements, the result is sorted.
\<close>

locale v8_comparator =
  fixes cmp :: "'a \<Rightarrow> 'a \<Rightarrow> int"
  assumes flip: "cmp y x = - cmp x y"
begin

definition chain :: "'a set \<Rightarrow> bool" where
  "chain S \<longleftrightarrow> (\<forall>x\<in>S. \<forall>y\<in>S. \<forall>z\<in>S. cmp x y \<le> 0 \<longrightarrow> cmp y z \<le> 0 \<longrightarrow> cmp x z \<le> 0)"

lemma refl0: "cmp x x \<le> 0"
  using flip [of x x] by linarith

lemma chainD: "chain S \<Longrightarrow> x \<in> S \<Longrightarrow> y \<in> S \<Longrightarrow> z \<in> S \<Longrightarrow> cmp x y \<le> 0 \<Longrightarrow> cmp y z \<le> 0 \<Longrightarrow> cmp x z \<le> 0"
  unfolding chain_def by blast

lemma chain_subset: "chain S \<Longrightarrow> T \<subseteq> S \<Longrightarrow> chain T"
  unfolding chain_def by blast

lemma adjacent_sorted:
  assumes "chain (set xs)" "\<And>i. Suc i < length xs \<Longrightarrow> cmp (xs ! i) (xs ! Suc i) \<le> 0"
  shows "sorted_wrt (\<lambda>x y. cmp x y \<le> 0) xs"
proof -
  have "cmp (xs ! i) (xs ! (i + d)) \<le> 0" if "i + d < length xs" for i d
    using that
  proof (induction d)
    case (Suc d)
    then have "cmp (xs ! i) (xs ! (i + d)) \<le> 0" "cmp (xs ! (i + d)) (xs ! (i + Suc d)) \<le> 0"
      using assms(2) [of "i + d"] by simp_all
    then show ?case
      by (rule chainD [OF assms(1), of _ "xs ! (i + d)", rotated 3]) (use Suc.prems in simp_all)
  qed (simp add: refl0)
  then show ?thesis
    unfolding sorted_wrt_iff_nth_less by (metis le_add_diff_inverse less_imp_le)
qed

lemma bin_search_split:
  assumes "chain (set bs)" "sorted_wrt (\<lambda>x y. cmp x y \<le> 0) (take s bs)" "s < length bs"
    and "l \<le> r" "r \<le> s"
    and "\<And>i. i < l \<Longrightarrow> cmp (bs ! i) (bs ! s) \<le> 0"
    and "\<And>i. r \<le> i \<Longrightarrow> i < s \<Longrightarrow> cmp (bs ! s) (bs ! i) \<le> 0"
  defines "k \<equiv> bin_search cmp bs s l r"
  shows "(\<forall>i<k. cmp (bs ! i) (bs ! s) \<le> 0) \<and> (\<forall>i. k \<le> i \<and> i < s \<longrightarrow> cmp (bs ! s) (bs ! i) \<le> 0)"
  using assms(4-7) unfolding k_def
proof (induction "r - l" arbitrary: l r rule: less_induct)
  case less
  define mid where "mid = l + (r - l) div 2"
  have sorted: "cmp (bs ! i) (bs ! j) \<le> 0" if "i \<le> j" "j < s" for i j
    using assms(2,3) that refl0 by (cases "i = j") (auto simp: sorted_wrt_iff_nth_less)
  note trans = chainD [OF assms(1)]
  consider (stop) "\<not> l < r" | (lower) "l < r" "cmp (bs ! s) (bs ! mid) < 0"
    | (upper) "l < r" "\<not> cmp (bs ! s) (bs ! mid) < 0"
    by blast
  then show ?case
  proof cases
    case stop
    then have "bin_search cmp bs s l r = l" by (subst bin_search.simps) simp
    with stop less.prems show ?thesis by simp
  next
    case lower
    then have m: "l \<le> mid" "mid < r" by (simp_all add: mid_def)
    have up: "cmp (bs ! s) (bs ! i) \<le> 0" if "mid \<le> i" "i < s" for i
      by (rule trans [of _ "bs ! mid"])
        (use lower(2) sorted [OF that] that m less.prems assms(3) in simp_all)
    have eq: "bin_search cmp bs s l r = bin_search cmp bs s l mid"
      using lower by (simp add: bin_search.simps [of cmp bs s l r] Let_def flip: mid_def)
    show ?thesis unfolding eq
      by (rule less.hyps) (use m less.prems(1,2) in \<open>auto intro: up less.prems(3)\<close>)
  next
    case upper
    then have m: "l \<le> mid" "mid < r" by (simp_all add: mid_def)
    have "cmp (bs ! mid) (bs ! s) \<le> 0" using upper(2) unfolding flip [of "bs ! mid" "bs ! s"] by linarith
    then have low: "cmp (bs ! i) (bs ! s) \<le> 0" if "i < mid + 1" for i
      by (rule trans [of _ "bs ! mid", rotated -1])
        (use sorted [of i mid] that m less.prems assms(3) in simp_all)
    have eq: "bin_search cmp bs s l r = bin_search cmp bs s (mid + 1) r"
      using upper by (simp add: bin_search.simps [of cmp bs s l r] Let_def flip: mid_def)
    show ?thesis unfolding eq
      by (rule less.hyps) (use m less.prems(1,2) in \<open>auto intro: low less.prems(4)\<close>)
  qed
qed

lemma insertion_step_sorted:
  assumes "chain (set bs)" "sorted_wrt (\<lambda>x y. cmp x y \<le> 0) (take s bs)" "s < length bs"
  shows "sorted_wrt (\<lambda>x y. cmp x y \<le> 0) (take (Suc s) (insertion_step cmp bs s))"
proof -
  let ?k = "bin_search cmp bs s 0 s"
  have k: "?k \<le> s" using bin_search_bound [of 0 s cmp bs s] by simp
  have "take (Suc s) (insertion_step cmp bs s) = take ?k bs @ bs ! s # drop ?k (take s bs)"
    using k assms(3) by (simp add: insertion_step_def rotate_into_def Suc_diff_le)
  moreover have "take s bs = take ?k bs @ drop ?k (take s bs)"
    using k by (metis append_take_drop_id min.absorb1 take_take)
  moreover have "\<forall>x\<in>set (take ?k bs). cmp x (bs ! s) \<le> 0"
    "\<forall>x\<in>set (drop ?k (take s bs)). cmp (bs ! s) x \<le> 0"
    using bin_search_split [OF assms, of 0 s] k assms(3)
    by (auto simp: in_set_conv_nth)
  ultimately show ?thesis
    using assms(2) by (simp add: sorted_wrt_append) (metis sorted_wrt_append)
qed

lemma insertion_fold_sorted:
  assumes "chain (set bs)" "sorted_wrt (\<lambda>x y. cmp x y \<le> 0) (take m bs)" "m \<le> n" "n \<le> length bs"
  shows "sorted_wrt (\<lambda>x y. cmp x y \<le> 0) (take n (foldl (insertion_step cmp) bs [m..<n]))"
  using assms(3,4)
proof (induction n rule: dec_induct)
  case (step n)
  let ?b = "foldl (insertion_step cmp) bs [m..<n]"
  have "mset ?b = mset bs" "length ?b = length bs"
    using step insertion_fold_mset [of n bs cmp m] by simp_all
  then show ?case
    using step assms(1) insertion_step_sorted [of ?b n] by (auto dest: mset_eq_setD)
qed (simp add: assms)

lemma initial_run_sorted:
  assumes "chain (set bs)" "2 \<le> length bs" "initial_run cmp bs = (run, bs')"
  shows "sorted_wrt (\<lambda>x y. cmp x y \<le> 0) (take run bs') \<and> run \<le> length bs"
proof (cases "cmp (bs ! 1) (bs ! 0) < 0")
  case True
  let ?r = "run_while (\<lambda>x y. cmp x y < 0) bs 2"
  note spec = run_while_spec [OF assms(2), of "\<lambda>x y. cmp x y < 0"]
  have r: "cmp (bs ! i) (bs ! (i - 1)) < 0" if "1 \<le> i" "i < ?r" for i
    using spec that True by (cases "i = 1", simp_all)
  have rl: "?r \<le> length bs" using spec by simp
  have "cmp (rev (take ?r bs) ! i) (rev (take ?r bs) ! Suc i) \<le> 0" if "Suc i < ?r" for i
  proof -
    have "1 \<le> ?r - Suc i" using that by simp
    from r [OF this] show ?thesis using that rl by (simp add: rev_nth min_absorb2 Suc_diff_Suc)
  qed
  then have "sorted_wrt (\<lambda>x y. cmp x y \<le> 0) (rev (take ?r bs))"
    using rl by (intro adjacent_sorted chain_subset [OF assms(1)]) (auto dest: in_set_takeD)
  with assms(3) True rl show ?thesis by (auto simp: initial_run_def Let_def)
next
  case False
  let ?r = "run_while (\<lambda>x y. cmp x y \<ge> 0) bs 1"
  have r: "?r \<le> length bs" "\<And>i. 1 \<le> i \<Longrightarrow> i < ?r \<Longrightarrow> cmp (bs ! i) (bs ! (i - 1)) \<ge> 0"
    using run_while_spec [of 1 bs "\<lambda>x y. cmp x y \<ge> 0"] assms(2) by force+
  have "cmp (take ?r bs ! i) (take ?r bs ! Suc i) \<le> 0" if "Suc i < ?r" for i
    using r(2) [of "Suc i"] that flip [of "bs ! Suc i" "bs ! i"] by (simp add: that)
  then have "sorted_wrt (\<lambda>x y. cmp x y \<le> 0) (take ?r bs)"
    using r(1) by (intro adjacent_sorted chain_subset [OF assms(1)]) (auto dest: in_set_takeD)
  with assms(3) False r(1) show ?thesis by (auto simp: initial_run_def)
qed

lemma v8_sort_sorted:
  assumes "chain (set bs)"
  shows "sorted_wrt (\<lambda>x y. cmp x y \<le> 0) (v8_sort cmp bs)"
proof (cases "length bs < 2")
  case True
  then show ?thesis by (cases bs) (auto simp: v8_sort_def)
next
  case False
  obtain run bs' where ir: "initial_run cmp bs = (run, bs')" by fastforce
  then have m: "mset bs' = mset bs" by (rule initial_run_mset)
  then have "set bs' = set bs" "length bs' = length bs" by (auto dest: mset_eq_setD mset_eq_length)
  then show ?thesis
    using insertion_fold_sorted [of bs' run "length bs"] initial_run_sorted [OF assms _ ir] assms False
      insertion_fold_mset [of "length bs" bs' cmp run]
    by (simp add: v8_sort_def ir)
qed

end

lemma bucket_cmp_flip: "bucket_cmp y x = - bucket_cmp x y"
  by (simp add: bucket_cmp_def compare_tcb_le split: option.splits)

interpretation level_sort: v8_comparator bucket_cmp
  by unfold_locales (rule bucket_cmp_flip)

section \<open>Where the certificates go\<close>

lemma insert_cert_tcb [simp]: "b_tcb (insert_cert parsed i b) = b_tcb b"
  by (simp add: insert_cert_def Let_def)

lemma mset_take_drop: "mset (take n xs) + mset (drop n xs) = mset xs"
  by (metis append_take_drop_id mset_append)

lemma insert_cert_mset [simp]:
  "mset (b_certs (insert_cert parsed i b)) = add_mset i (mset (b_certs b))"
  by (simp add: insert_cert_def Let_def mset_take_drop)

lemma insert_cert_set [simp]: "set (b_certs (insert_cert parsed i b)) = insert i (set (b_certs b))"
  by (metis insert_cert_mset set_mset_add_mset_insert set_mset_mset)

text \<open>A level admits a certificate whose TCB is at least the level's TCB.\<close>

definition admits :: "parsed_cert list \<Rightarrow> bucket \<Rightarrow> nat \<Rightarrow> bool" where
  "admits parsed b i \<longleftrightarrow> (\<exists>t. b_tcb b = Some t \<and> tcb_le t (pc_tcb (parsed ! i)))"

lemma place_cert_Cons:
  "place_cert parsed i (b # bs) =
     (if admits parsed b i then (insert_cert parsed i b # bs, True)
      else (b # fst (place_cert parsed i bs), snd (place_cert parsed i bs)))"
  by (auto simp: admits_def compare_tcb_le Let_def split: option.splits prod.splits)

declare place_cert.simps(2) [simp del]
declare place_cert_Cons [simp]

lemma place_cert_split:
  "(\<exists>pre b post. bs = pre @ b # post \<and> (\<forall>p\<in>set pre. \<not> admits parsed p i) \<and> admits parsed b i \<and>
      place_cert parsed i bs = (pre @ insert_cert parsed i b # post, True)) \<or>
   ((\<forall>b\<in>set bs. \<not> admits parsed b i) \<and> place_cert parsed i bs = (bs, False))"
proof (induction bs)
  case (Cons b bs)
  show ?case
  proof (cases "admits parsed b i")
    case True
    then show ?thesis by (intro disjI1 exI [of _ "[]"]) simp
  next
    case False
    with Cons show ?thesis
    proof (elim disjE exE conjE)
      fix pre c post
      assume *: "bs = pre @ c # post" "\<forall>p\<in>set pre. \<not> admits parsed p i" "admits parsed c i"
        "place_cert parsed i bs = (pre @ insert_cert parsed i c # post, True)"
      with False show ?thesis by (intro disjI1 exI [of _ "b # pre"]) simp
    qed simp
  qed
qed simp

definition placed_slots :: "bucket list \<times> nat list \<Rightarrow> nat multiset" where
  "placed_slots st = mset (concat (map b_certs (fst st))) + mset (snd st)"

lemma pool_place_step: "placed_slots (place_step parsed st i) = add_mset i (placed_slots st)"
  using place_cert_split [of "fst st" parsed i] by (auto simp: place_step_def placed_slots_def)

lemma pool_fold: "placed_slots (foldl (place_step parsed) st is) = mset is + placed_slots st"
  by (induction "is" arbitrary: st) (simp_all add: pool_place_step)

lemma fill_mset:
  assumes "list_all (\<lambda>b. b_certs b = []) buckets"
  shows "mset (concat (map b_certs (fill_buckets parsed buckets))) = mset [0..<length parsed]"
proof -
  have "concat (map b_certs buckets) = []" using assms by (simp add: list_all_iff)
  with pool_fold [of parsed "(buckets, [])" "[0..<length parsed]"] show ?thesis
    by (simp add: fill_buckets_def placed_slots_def case_prod_beta)
qed

section \<open>The order inside the buckets\<close>

definition comparable_pool :: "parsed_cert list \<Rightarrow> bool" where
  "comparable_pool parsed \<longleftrightarrow>
     list_all (\<lambda>c. list_all (\<lambda>d. compare (pc_tcb c) (pc_tcb d) \<noteq> Inl TcbNonComparable) parsed) parsed"

definition below :: "parsed_cert list \<Rightarrow> nat \<Rightarrow> nat \<Rightarrow> bool" where
  "below parsed i j \<longleftrightarrow> tcb_le (pc_tcb (parsed ! i)) (pc_tcb (parsed ! j))"

lemma below_trans: "below parsed i j \<Longrightarrow> below parsed j k \<Longrightarrow> below parsed i k"
  unfolding below_def by (rule tcb_le_trans)

lemma comparable_below:
  "comparable_pool parsed \<Longrightarrow> i < length parsed \<Longrightarrow> j < length parsed \<Longrightarrow>
   below parsed i j \<or> below parsed j i"
  unfolding comparable_pool_def list_all_length below_def compare_tcb_le by metis

lemma admits_below: "admits parsed b i \<Longrightarrow> below parsed i j \<Longrightarrow> admits parsed b j"
  by (auto simp: admits_def below_def intro: tcb_le_trans)

lemma find_insert_loop_comparable:
  assumes "comparable_pool parsed" "i < length parsed" "\<forall>j\<in>set xs. j < length parsed"
  shows "find_insert_loop n xs parsed (parsed ! i) =
    (if \<exists>j\<in>set xs. below parsed j i then n + int (length (takeWhile (\<lambda>j. \<not> below parsed j i) xs))
     else - 1)"
  using assms(3)
proof (induction xs arbitrary: n)
  case (Cons x xs)
  then have "below parsed x i \<or> below parsed i x" using comparable_below assms(1,2) by simp
  with Cons show ?case by (auto simp: compare_tcb_le below_def)
qed simp

lemma insert_cert_comparable:
  assumes "comparable_pool parsed" "i < length parsed" "\<forall>j\<in>set (b_certs b). j < length parsed"
  shows "b_certs (insert_cert parsed i b) =
    takeWhile (\<lambda>j. \<not> below parsed j i) (b_certs b) @ i # dropWhile (\<lambda>j. \<not> below parsed j i) (b_certs b)"
proof (cases "\<exists>j\<in>set (b_certs b). below parsed j i")
  case True
  then show ?thesis
    using find_insert_loop_comparable [OF assms, of 0]
    by (simp add: insert_cert_def find_insert_index_def Let_def takeWhile_eq_take [symmetric]
        dropWhile_eq_drop [symmetric])
next
  case False
  then have "takeWhile (\<lambda>j. \<not> below parsed j i) (b_certs b) = b_certs b"
    "dropWhile (\<lambda>j. \<not> below parsed j i) (b_certs b) = []" by auto
  moreover have "find_insert_loop 0 (b_certs b) parsed (parsed ! i) = - 1"
    using False find_insert_loop_comparable [OF assms, of 0] by auto
  ultimately show ?thesis
    by (simp only: insert_cert_def find_insert_index_def Let_def) simp
qed

lemma insert_sorted_desc:
  assumes "sorted_wrt (\<lambda>i j. R j i) xs" "\<And>i j k. R i j \<Longrightarrow> R j k \<Longrightarrow> R i k"
    and "\<forall>j\<in>set xs. R i j \<or> R j i"
  shows "sorted_wrt (\<lambda>i j. R j i) (takeWhile (\<lambda>j. \<not> R j i) xs @ i # dropWhile (\<lambda>j. \<not> R j i) xs)"
  using assms(1,3)
proof (induction xs)
  case (Cons x xs)
  show ?case
  proof (cases "R x i")
    case True
    have "R y i" if "y \<in> set xs" for y
      by (rule assms(2) [OF _ True]) (use Cons.prems(1) that in simp)
    with True Cons.prems(1) show ?thesis by simp
  next
    case False
    have "y \<in> set xs" if "y \<in> set (takeWhile (\<lambda>j. \<not> R j i) xs) \<or> y \<in> set (dropWhile (\<lambda>j. \<not> R j i) xs)"
      for y using that by (auto dest: set_takeWhileD set_dropWhileD)
    with False Cons show ?thesis by auto
  qed
qed simp

fun placed :: "parsed_cert list \<Rightarrow> bucket list \<Rightarrow> bool" where
  "placed parsed [] \<longleftrightarrow> True"
| "placed parsed (b # bs) \<longleftrightarrow>
     (\<forall>i\<in>set (b_certs b). admits parsed b i \<and> i < length parsed) \<and>
     (\<forall>c\<in>set bs. \<forall>i\<in>set (b_certs c). \<not> admits parsed b i) \<and>
     sorted_wrt (\<lambda>i j. below parsed j i) (b_certs b) \<and> placed parsed bs"

lemma place_cert_certs:
  "c \<in> set (fst (place_cert parsed i bs)) \<Longrightarrow> j \<in> set (b_certs c) \<Longrightarrow>
   j = i \<or> (\<exists>b\<in>set bs. j \<in> set (b_certs b))"
  by (induction bs) (auto split: if_splits)

lemma place_cert_placed:
  assumes "comparable_pool parsed" "i < length parsed"
  shows "placed parsed bs \<Longrightarrow> placed parsed (fst (place_cert parsed i bs))"
proof (induction bs)
  case (Cons b bs)
  show ?case
  proof (cases "admits parsed b i")
    case True
    have "sorted_wrt (\<lambda>i j. below parsed j i) (b_certs (insert_cert parsed i b))"
      using Cons.prems comparable_below [OF assms]
      by (subst insert_cert_comparable [OF assms])
        (auto intro!: insert_sorted_desc intro: below_trans)
    moreover have "admits parsed (insert_cert parsed i b) j \<longleftrightarrow> admits parsed b j" for j
      by (simp add: admits_def)
    ultimately show ?thesis using True Cons.prems assms by auto
  next
    case False
    then show ?thesis using Cons by (auto dest: place_cert_certs)
  qed
qed simp

lemma admits_place_cert:
  "(\<forall>b\<in>set (fst (place_cert parsed i bs)). \<not> admits parsed b j) \<longleftrightarrow> (\<forall>b\<in>set bs. \<not> admits parsed b j)"
  by (induction bs) (auto simp: admits_def)

lemma place_cert_not_added: "\<not> snd (place_cert parsed i bs) \<Longrightarrow> \<forall>b\<in>set bs. \<not> admits parsed b i"
  by (induction bs) (auto split: if_splits)

lemma fill_invariant:
  assumes "comparable_pool parsed" "placed parsed buckets"
  defines "st n \<equiv> foldl (place_step parsed) (buckets, []) [0..<n]"
  shows "n \<le> length parsed \<Longrightarrow> placed parsed (fst (st n)) \<and>
    (\<forall>j\<in>set (snd (st n)). \<forall>b\<in>set (fst (st n)). \<not> admits parsed b j)"
proof (induction n)
  case (Suc n)
  have st: "st (Suc n) = place_step parsed (st n) n" by (simp add: st_def)
  from Suc have "placed parsed (fst (st (Suc n)))"
    using place_cert_placed [OF assms(1)] by (simp add: st place_step_def case_prod_beta)
  with Suc show ?case
    by (auto simp: st place_step_def case_prod_beta admits_place_cert dest: place_cert_not_added split: if_splits)
qed (simp add: st_def assms)

lemma placed_concat_sorted:
  assumes "comparable_pool parsed"
  shows "placed parsed bs \<Longrightarrow> sorted_wrt (\<lambda>i j. below parsed j i) (concat (map b_certs bs)) \<and>
    (\<forall>b\<in>set bs. \<forall>i\<in>set (b_certs b). i < length parsed)"
proof (induction bs)
  case (Cons b bs)
  have "below parsed j i" if "i \<in> set (b_certs b)" "c \<in> set bs" "j \<in> set (b_certs c)" for i j c
    using Cons that comparable_below [OF assms, of i j] admits_below [of parsed b i j] by auto
  with Cons show ?case by (auto simp: sorted_wrt_append)
qed simp

section \<open>Properties of the selection\<close>

lemma level_bucket_certs: "level_bucket level = Inr b \<Longrightarrow> b_certs b = [] \<and> b_tcb b \<noteq> None"
  by (auto simp: level_bucket_def split: if_splits)

lemma create_buckets_certs:
  assumes "create_buckets tcb_info = Inr buckets"
  shows "\<forall>b\<in>set buckets. b_certs b = [] \<and> b_tcb b \<noteq> None"
proof -
  obtain levels bs where bs: "try_map level_bucket levels = Inr bs" "buckets = v8_sort_desc bs"
    using assms by (auto simp: create_buckets_def)
  then have "set buckets = set bs" by (simp add: v8_sort_desc_def v8_sort_mset flip: set_mset_mset)
  moreover have "\<forall>b\<in>set bs. \<exists>l. level_bucket l = Inr b"
    using bs(1) by (metis (no_types, lifting) in_set_conv_nth try_map_length try_map_nth)
  ultimately show ?thesis using level_bucket_certs by blast
qed

lemma reaches_iff: "reaches raw c \<longleftrightarrow> tcb_le (pc_tcb c) raw"
  by (auto simp: reaches_def compare_tcb_le)

lemma parse_pck_certs_nth:
  assumes "parse_pck_certs E certs = Inr parsed" "i < length parsed"
  shows "i < length certs \<and> pc_tcbm (parsed ! i) = to_ascii_uppercase (fst (certs ! i)) \<and>
    pc_cert (parsed ! i) = snd (certs ! i)"
proof -
  have "length parsed = length certs" using assms(1) unfolding parse_pck_certs_def by (rule try_map_length)
  with assms(2) have "i < length certs" by simp
  with try_map_nth [OF assms(1) [unfolded parse_pck_certs_def] this] show ?thesis
    by (auto simp: case_prod_beta dest!: sym [of _ "parsed ! i"])
qed

lemma find_Some_first:
  "find P xs = Some x \<Longrightarrow> \<exists>ys zs. xs = ys @ x # zs \<and> P x \<and> (\<forall>y\<in>set ys. \<not> P y)"
proof (induction xs)
  case (Cons a xs)
  show ?case
  proof (cases "P a")
    case True
    with Cons.prems have "a # xs = [] @ x # xs" "P x" by simp_all
    then show ?thesis by force
  next
    case False
    with Cons obtain ys zs where "xs = ys @ x # zs" "P x" "\<forall>y\<in>set ys. \<not> P y" by auto
    with False have "a # xs = (a # ys) @ x # zs" "\<forall>y\<in>set (a # ys). \<not> P y" by simp_all
    with \<open>P x\<close> show ?thesis by blast
  qed
qed simp

text \<open>The environment of a call that passes its checks.\<close>

definition selection_input ::
  "ext \<Rightarrow> string \<Rightarrow> string \<Rightarrow> string \<Rightarrow> (string \<times> string) list \<Rightarrow> json \<Rightarrow>
   parsed_cert list \<Rightarrow> bucket list \<Rightarrow> tcb \<Rightarrow> bool" where
  "selection_input E raw_cpusvn raw_pcesvn pce_id certs tcb_info parsed buckets raw \<longleftrightarrow>
     certs \<noteq> [] \<and> parse_pck_certs E certs = Inr parsed \<and>
     validate_input pce_id parsed tcb_info = Inr () \<and> create_buckets tcb_info = Inr buckets \<and>
     Tcb_from_hex raw_cpusvn raw_pcesvn = Inr raw"

lemma select_unfold:
  assumes "selection_input E rc rp pce_id certs tcb_info parsed buckets raw"
  shows "select_best_pck_cert E rc rp pce_id certs tcb_info =
    (case pick raw parsed (fill_buckets parsed buckets) of
       Some slot \<Rightarrow> Inr (pc_tcbm (parsed ! slot), pc_cert (parsed ! slot))
     | None \<Rightarrow> Inl NoCertificate)"
  using assms by (simp add: selection_input_def select_best_pck_cert_def)

lemma fill_slots:
  assumes "selection_input E rc rp pce_id certs tcb_info parsed buckets raw"
  shows "set (concat (map b_certs (fill_buckets parsed buckets))) = {0..<length parsed}"
proof -
  have "list_all (\<lambda>b. b_certs b = []) buckets"
    using assms create_buckets_certs by (auto simp: selection_input_def list_all_iff)
  from fill_mset [OF this, of parsed] show ?thesis
    by (metis set_mset_mset set_upt)
qed

text \<open>C1: once the inputs pass the checks, the selection succeeds exactly when the platform reaches
  the TCB of some certificate of the pool. The result is then a certificate of the pool, with its
  TCBM in upper case, whose 17 TCB components are all at most the platform's; otherwise no
  certificate of the pool is reached and the error is the one for a platform without certificate.
  Nothing is assumed about the TCB levels: they may be pairwise incomparable.\<close>

theorem select_best_pck_cert_correct:
  assumes "selection_input E rc rp pce_id certs tcb_info parsed buckets raw"
  shows "case select_best_pck_cert E rc rp pce_id certs tcb_info of
      Inr (tcbm, pem) \<Rightarrow>
        (\<exists>i<length certs. tcbm = to_ascii_uppercase (fst (certs ! i)) \<and> pem = snd (certs ! i) \<and>
           tcb_le (pc_tcb (parsed ! i)) raw)
    | Inl e \<Rightarrow> e = NoCertificate \<and> (\<forall>c\<in>set parsed. \<not> tcb_le (pc_tcb c) raw)"
proof (cases "pick raw parsed (fill_buckets parsed buckets)")
  case None
  then have "\<forall>c\<in>set parsed. \<not> tcb_le (pc_tcb c) raw"
    using fill_slots [OF assms] unfolding pick_def find_None_iff reaches_iff
    by (metis atLeastLessThan_iff in_set_conv_nth le0)
  with None show ?thesis using select_unfold [OF assms] by simp
next
  case (Some slot)
  have "slot \<in> set (concat (map b_certs (fill_buckets parsed buckets)))"
    and le: "tcb_le (pc_tcb (parsed ! slot)) raw"
    using find_Some_first [OF Some [unfolded pick_def]] by (auto simp: reaches_iff simp del: set_concat)
  then have "slot < length parsed" unfolding fill_slots [OF assms] by simp
  then have "slot < length certs \<and> pc_tcbm (parsed ! slot) = to_ascii_uppercase (fst (certs ! slot)) \<and>
      pc_cert (parsed ! slot) = snd (certs ! slot)"
    using assms parse_pck_certs_nth by (auto simp: selection_input_def)
  with Some le show ?thesis using select_unfold [OF assms] by auto
qed

lemma place_cert_tcbs: "map b_tcb (fst (place_cert parsed i bs)) = map b_tcb bs"
  by (induction bs) auto

lemma fill_tcbs: "map b_tcb (fst (foldl (place_step parsed) st is)) = map b_tcb (fst st)"
  by (induction "is" arbitrary: st) (simp_all add: place_step_def case_prod_beta place_cert_tcbs)

lemma find_append: "find P (xs @ ys) = (case find P xs of None \<Rightarrow> find P ys | Some x \<Rightarrow> Some x)"
  by (induction xs) auto

lemma placed_empty: "\<forall>b\<in>set bs. b_certs b = [] \<Longrightarrow> placed parsed bs"
  by (induction bs) auto


section \<open>A concrete platform\<close>

text \<open>Two version-3 certificates with the SGX extension, PCESVN 10 and 12, and a TCB info with one
  level at PCESVN 11. The PEM bodies \<open>A\<close> and \<open>B\<close> stand for their DER.\<close>

definition sample_cert_der :: "u8 \<Rightarrow> bytes" where
  "sample_cert_der pcesvn =
     (let pair = (\<lambda>oid v. der_tlv 0x30 (der_tlv 0x06 oid @ v));
          tcb = concat (replicate 16 (pair [1] (der_tlv 0x02 [1]))) @
                pair [1] (der_tlv 0x02 [pcesvn]) @ pair [1] (der_tlv 0x04 (replicate 16 1));
          sgx = der_tlv 0x30
                  (pair (sub_oid 1) (der_tlv 0x04 [0xAA]) @ pair (sub_oid 2) (der_tlv 0x30 tcb) @
                   pair (sub_oid 3) (der_tlv 0x04 [0, 0]) @
                   pair (sub_oid 4) (der_tlv 0x04 [0, 1, 2, 3, 4, 5]))
      in der_tlv 0x30 (der_tlv 0x30 (der_tlv 0xA0 (der_tlv 0x02 [2]) @
           pair SGX_EXT_OID (der_tlv 0x04 sgx))))"

definition cert_ext :: ext where
  "cert_ext = sample_ext\<lparr>
     x_hex_encode_upper := (\<lambda>b. concat (map (\<lambda>x. hex_pad_upper 2 (unat x)) b)),
     x_base64_std := (\<lambda>s. if s = ''A'' then Some (sample_cert_der 10)
                          else if s = ''B'' then Some (sample_cert_der 12) else None)\<rparr>"

definition sample_pem :: "string \<Rightarrow> string" where
  "sample_pem body = ''-----BEGIN CERTIFICATE-----'' @ body @ ''-----END CERTIFICATE-----''"

definition sample_pool :: "(string \<times> string) list" where
  "sample_pool = [(''aa'', sample_pem ''A''), (''bb'', sample_pem ''B'')]"

definition sample_level :: json where
  "sample_level = JObj [(''tcb'', JObj [
     (''sgxtcbcomponents'', JArr (replicate 16 (JObj [(''svn'', JNum (PosInt 1))]))),
     (''pcesvn'', JNum (PosInt 11))])]"

definition sample_tcb_info :: json where
  "sample_tcb_info = JObj [(''tcbType'', JNum (PosInt 0)), (''pceId'', JStr ''0000''),
     (''fmspc'', JStr ''000102030405''), (''tcbLevels'', JArr [sample_level])]"

definition sample_tcb :: "u32 \<Rightarrow> tcb" where
  "sample_tcb svn = \<lparr>tcb_cpusvn = concat (replicate 16 ''01''), tcb_pcesvn = svn,
     components = replicate 16 1 @ [svn]\<rparr>"

definition sample_bucket :: bucket where
  "sample_bucket = \<lparr>b_tcb = Some (sample_tcb 11), b_certs = []\<rparr>"

definition sample_parsed :: "parsed_cert list" where
  "sample_parsed = map (\<lambda>(tcbm, body, svn).
     \<lparr>pc_tcbm = tcbm, pc_cert = sample_pem body,
      pc_info = \<lparr>ci_version = 3, ci_fmspc = ''000102030405'', ci_pce_id = ''0000'', ci_ppid = ''AA'',
                 ci_cpusvn = concat (replicate 16 ''01''), ci_pcesvn = svn, ci_ca = []\<rparr>,
      pc_tcb = sample_tcb svn\<rparr>)
     [(''AA'', ''A'', 10), (''BB'', ''B'', 12)]"

lemma sample_parse: "parse_pck_certs cert_ext sample_pool = Inr sample_parsed"
  by code_simp

lemma sample_validate: "validate_input ''0000'' sample_parsed sample_tcb_info = Inr ()"
  by code_simp

lemma sample_create: "create_buckets sample_tcb_info = Inr [sample_bucket]"
proof -
  have 1: "level_bucket sample_level = Inr sample_bucket" by code_simp
  have 2: "v8_sort_desc [sample_bucket] = [sample_bucket]" by (simp add: v8_sort_desc_def v8_sort_def)
  show ?thesis
    by (simp add: create_buckets_def sample_tcb_info_def get_array_def as_array_def 1 2)
qed

lemma sample_raw: "Tcb_from_hex (concat (replicate 16 ''01'')) ''0C00'' = Inr (sample_tcb 12)"
  by code_simp

lemma sample_input:
  "selection_input cert_ext (concat (replicate 16 ''01'')) ''0C00'' ''0000'' sample_pool sample_tcb_info
     sample_parsed [sample_bucket] (sample_tcb 12)"
  unfolding selection_input_def using sample_parse sample_validate sample_create sample_raw
  by (simp add: sample_pool_def)

lemma sample_tcb_le: "tcb_le (sample_tcb a) (sample_tcb b) \<longleftrightarrow> a \<le> b"
proof
  assume "tcb_le (sample_tcb a) (sample_tcb b)"
  from tcb_leD [OF this, of 16] show "a \<le> b" by (simp add: sample_tcb_def nth_append)
next
  assume "a \<le> b"
  then show "tcb_le (sample_tcb a) (sample_tcb b)"
    by (intro tcb_leI) (auto simp: sample_tcb_def nth_append)
qed

lemma sample_nth:
  "length sample_parsed = 2" "pc_tcb (sample_parsed ! 0) = sample_tcb 10"
  "pc_tcb (sample_parsed ! 1) = sample_tcb 12"
  by (simp_all add: sample_parsed_def)

theorem select_best_pck_cert_correct_witness:
  "\<exists>tcbm pem. select_best_pck_cert cert_ext (concat (replicate 16 ''01'')) ''0C00'' ''0000''
     sample_pool sample_tcb_info = Inr (tcbm, pem)"
proof -
  have "tcb_le (pc_tcb (sample_parsed ! 1)) (sample_tcb 12)"
    by (simp only: sample_nth sample_tcb_le order_refl)
  moreover have "sample_parsed ! 1 \<in> set sample_parsed" using sample_nth(1) by simp
  ultimately show ?thesis
    using select_best_pck_cert_correct [OF sample_input] by (force split: sum.splits)
qed


text \<open>Sorting the TCB levels never loses, duplicates or invents a level, although the comparator
  scores incomparable levels as equal and is not a total order; and where the levels are
  pairwise comparable the result is in descending TCB order, as the selection expects.\<close>

theorem v8_sort_desc_correct:
  assumes "\<forall>x\<in>set levels. b_tcb x \<noteq> None"
  shows "mset (v8_sort_desc levels) = mset levels \<and>
    ((\<forall>x\<in>set levels. \<forall>y\<in>set levels. compare (the (b_tcb x)) (the (b_tcb y)) \<noteq> Inl TcbNonComparable) \<longrightarrow>
     sorted_wrt (\<lambda>x y. tcb_le (the (b_tcb y)) (the (b_tcb x))) (v8_sort_desc levels))"
proof (intro conjI impI)
  show m: "mset (v8_sort_desc levels) = mset levels"
    by (simp add: v8_sort_desc_def v8_sort_mset)
  assume comp: "\<forall>x\<in>set levels. \<forall>y\<in>set levels. compare (the (b_tcb x)) (the (b_tcb y)) \<noteq> Inl TcbNonComparable"
  have le: "bucket_cmp x y \<le> 0 \<longleftrightarrow> tcb_le (the (b_tcb y)) (the (b_tcb x))"
    if l: "x \<in> set levels" "y \<in> set levels" for x y
  proof -
    obtain xt where x: "b_tcb x = Some xt" using assms l(1) by fastforce
    obtain yt where y: "b_tcb y = Some yt" using assms l(2) by fastforce
    have "compare yt xt \<noteq> Inl TcbNonComparable" using comp [rule_format, OF l(2,1)] x y by simp
    with x y show ?thesis by (auto simp: bucket_cmp_def compare_tcb_le split: if_splits)
  qed
  have "level_sort.chain (set levels)"
    unfolding level_sort.chain_def using le tcb_le_trans by blast
  then have s: "sorted_wrt (\<lambda>x y. bucket_cmp x y \<le> 0) (v8_sort_desc levels)"
    unfolding v8_sort_desc_def by (rule level_sort.v8_sort_sorted)
  show "sorted_wrt (\<lambda>x y. tcb_le (the (b_tcb y)) (the (b_tcb x))) (v8_sort_desc levels)"
    by (rule sorted_wrt_mono_rel [OF _ s]) (use le mset_eq_setD [OF m] in simp)
qed

theorem v8_sort_desc_correct_witness:
  "mset (v8_sort_desc [sample_bucket, sample_bucket]) = mset [sample_bucket, sample_bucket]"
proof -
  have "\<forall>x\<in>set [sample_bucket, sample_bucket]. b_tcb x \<noteq> None" by (simp add: sample_bucket_def)
  from v8_sort_desc_correct [OF this] show ?thesis by simp
qed

end
