(* ===== verification/Rocks.thy ===== *)
theory Rocks
  imports Errors Keys
begin

text \<open>
  The key-value store under \<^verbatim>\<open>src/store.rs\<close>. RocksDB and the serde codecs are not part of the
  repository: they are records of operations that every store operation takes as an argument. What
  the code relies on is stated by predicates: \<open>rocks_ok\<close> (a read returns what was last written, a batch
  is applied as a whole or not at all, an iterator lists the keys from its start in bytewise order
  until it ends or fails), \<open>reads_reliable\<close> and \<open>writes_reliable\<close> (no I/O error), \<open>codec_ok\<close> (a value
  that was serialised reads back). An in-memory instance shows that they can hold together.
\<close>

section \<open>Operations\<close>

datatype batch_op = Put bytes bytes | Del bytes

record 'db rocks =
  rk_get :: "'db \<Rightarrow> bytes \<Rightarrow> unit + bytes option"
  rk_put :: "'db \<Rightarrow> bytes \<Rightarrow> bytes \<Rightarrow> unit + 'db"
  rk_delete :: "'db \<Rightarrow> bytes \<Rightarrow> unit + 'db"
  rk_write :: "'db \<Rightarrow> batch_op list \<Rightarrow> unit + 'db"
  rk_iter :: "'db \<Rightarrow> bytes \<Rightarrow> (unit + bytes \<times> bytes) list"

record 'a codec =
  enc :: "'a \<Rightarrow> bytes option"
  dec :: "bytes \<Rightarrow> 'a option"

type_synonym kv = "bytes \<rightharpoonup> bytes"

section \<open>What the code relies on\<close>

fun apply_op :: "kv \<Rightarrow> batch_op \<Rightarrow> kv" where
  "apply_op m (Put k v) = m(k \<mapsto> v)"
| "apply_op m (Del k) = m(k := None)"

definition apply_batch :: "kv \<Rightarrow> batch_op list \<Rightarrow> kv" where
  "apply_batch m ops = foldl apply_op m ops"

definition keys_from :: "kv \<Rightarrow> bytes \<Rightarrow> bytes list" where
  "keys_from m p = sorted_list_of_set {k \<in> dom m. p \<le> k}"

definition iter_of :: "kv \<Rightarrow> bytes \<Rightarrow> (unit + bytes \<times> bytes) list" where
  "iter_of m p = map (\<lambda>k. Inr (k, the (m k))) (keys_from m p)"

definition rocks_ok :: "'db rocks \<Rightarrow> ('db \<Rightarrow> kv) \<Rightarrow> bool" where
  "rocks_ok R view \<longleftrightarrow>
     (\<forall>d. finite (dom (view d))) \<and>
     (\<forall>d k v. rk_get R d k = Inr v \<longrightarrow> view d k = v) \<and>
     (\<forall>d k v d'. rk_put R d k v = Inr d' \<longrightarrow> view d' = (view d)(k \<mapsto> v)) \<and>
     (\<forall>d k d'. rk_delete R d k = Inr d' \<longrightarrow> view d' = (view d)(k := None)) \<and>
     (\<forall>d ops d'. rk_write R d ops = Inr d' \<longrightarrow> view d' = apply_batch (view d) ops) \<and>
     (\<forall>d p. rk_iter R d p = iter_of (view d) p \<or>
        (\<exists>n rest. rk_iter R d p = take n (iter_of (view d) p) @ Inl () # rest))"

definition reads_reliable :: "'db rocks \<Rightarrow> bool" where
  "reads_reliable R \<longleftrightarrow>
     (\<forall>d k. rk_get R d k \<noteq> Inl ()) \<and> (\<forall>d p. Inl () \<notin> set (rk_iter R d p))"

definition writes_reliable :: "'db rocks \<Rightarrow> bool" where
  "writes_reliable R \<longleftrightarrow>
     (\<forall>d k v. rk_put R d k v \<noteq> Inl ()) \<and> (\<forall>d k. rk_delete R d k \<noteq> Inl ()) \<and>
     (\<forall>d ops. rk_write R d ops \<noteq> Inl ())"

definition codec_ok :: "'a codec \<Rightarrow> bool" where
  "codec_ok C \<longleftrightarrow> (\<forall>v b. enc C v = Some b \<longrightarrow> dec C b = Some v)"

lemma rocks_okD:
  assumes "rocks_ok R view"
  shows "finite (dom (view d))"
    and "rk_get R d k = Inr v \<Longrightarrow> view d k = v"
    and "rk_put R d k b = Inr d' \<Longrightarrow> view d' = (view d)(k \<mapsto> b)"
    and "rk_delete R d k = Inr d' \<Longrightarrow> view d' = (view d)(k := None)"
    and "rk_write R d ops = Inr d' \<Longrightarrow> view d' = apply_batch (view d) ops"
  using assms unfolding rocks_ok_def by blast+

lemma rk_get_reliable: "rocks_ok R view \<Longrightarrow> reads_reliable R \<Longrightarrow> rk_get R d k = Inr (view d k)"
  by (cases "rk_get R d k") (auto simp: reads_reliable_def dest: rocks_okD(2))

lemma rk_iter_reliable:
  assumes "rocks_ok R view" "reads_reliable R"
  shows "rk_iter R d p = iter_of (view d) p"
proof -
  have "Inl () \<notin> set (rk_iter R d p)" using assms(2) by (simp add: reads_reliable_def)
  moreover have "rk_iter R d p = iter_of (view d) p \<or>
      (\<exists>n rest. rk_iter R d p = take n (iter_of (view d) p) @ Inl () # rest)"
    using assms(1) by (simp add: rocks_ok_def)
  ultimately show ?thesis by auto
qed

lemma rk_write_cases:
  assumes "rocks_ok R view"
  obtains (fail) "rk_write R d ops = Inl ()" "\<not> writes_reliable R"
    | (done') d' where "rk_write R d ops = Inr d'" "view d' = apply_batch (view d) ops"
  using assms by (cases "rk_write R d ops") (auto simp: writes_reliable_def dest: rocks_okD(5))

lemma apply_batch_simps [simp]:
  "apply_batch m [] = m"
  "apply_batch m (op # ops) = apply_batch (apply_op m op) ops"
  "apply_batch m (ops @ ops') = apply_batch (apply_batch m ops) ops'"
  by (simp_all add: apply_batch_def)

fun op_key :: "batch_op \<Rightarrow> bytes" where
  "op_key (Put k v) = k"
| "op_key (Del k) = k"

lemma apply_batch_frame: "k \<notin> op_key ` set ops \<Longrightarrow> apply_batch m ops k = m k"
proof (induction ops arbitrary: m)
  case (Cons op ops)
  then show ?case by (cases op) auto
qed simp

section \<open>Store helpers\<close>

text \<open>\<open>get_json\<close>, \<open>read_json\<close> (the same up to the timing histogram), \<open>put_json\<close>, \<open>write_batch\<close>,
  \<open>scan_prefix\<close> and \<open>be_u64\<close> of \<^verbatim>\<open>store.rs\<close>.\<close>

definition get_json :: "'db rocks \<Rightarrow> 'a codec \<Rightarrow> 'db \<Rightarrow> string \<Rightarrow> 'a option" where
  "get_json R C db key =
     Option.bind (Option.bind (ok_opt (rk_get R db (as_bytes key))) id) (dec C)"

definition read_json :: "'db rocks \<Rightarrow> 'a codec \<Rightarrow> 'db \<Rightarrow> string \<Rightarrow> 'a option" where
  "read_json R C db key =
     Option.bind (Option.bind (ok_opt (rk_get R db (as_bytes key))) id) (dec C)"

definition put_json :: "'db rocks \<Rightarrow> 'a codec \<Rightarrow> 'db \<Rightarrow> string \<Rightarrow> 'a \<Rightarrow> 'db res" where
  "put_json R C db key val =
     and_then (ok_or INTERNAL_ERROR (enc C val)) (\<lambda>bs.
       map_err (\<lambda>_. INTERNAL_ERROR) (rk_put R db (as_bytes key) bs))"

definition write_batch :: "'db rocks \<Rightarrow> 'db \<Rightarrow> batch_op list \<Rightarrow> 'db res" where
  "write_batch R db batch = map_err (\<lambda>_. INTERNAL_ERROR) (rk_write R db batch)"

fun scan_loop :: "bytes \<Rightarrow> (unit + bytes \<times> bytes) list \<Rightarrow> (string \<times> bytes) list" where
  "scan_loop p [] = []"
| "scan_loop p (Inl _ # _) = []"
| "scan_loop p (Inr (k, v) # rest) =
     (if \<not> starts_with k p then [] else (from_utf8_lossy k, v) # scan_loop p rest)"

definition scan_prefix :: "'db rocks \<Rightarrow> 'db \<Rightarrow> string \<Rightarrow> (string \<times> bytes) list" where
  "scan_prefix R db p = scan_loop (as_bytes p) (rk_iter R db (as_bytes p))"

definition be_u64 :: "bytes \<Rightarrow> u64 option" where
  "be_u64 bs = (if length bs = 8 then Some (from_be_bytes bs) else None)"

lemma be_u64_to_be_bytes [simp]: "be_u64 (to_be_bytes w) = Some w"
  by (simp add: be_u64_def)

lemma read_json_view:
  "rocks_ok R view \<Longrightarrow> read_json R C d k = Some r \<Longrightarrow> \<exists>b. view d (as_bytes k) = Some b \<and> dec C b = Some r"
  using rocks_okD(2) [of R view d "as_bytes k"] by (auto simp: read_json_def bind_eq_Some_conv)

lemma read_json_reliable:
  "rocks_ok R view \<Longrightarrow> reads_reliable R \<Longrightarrow>
   read_json R C d k = Option.bind (view d (as_bytes k)) (dec C)"
  by (simp add: read_json_def rk_get_reliable)

lemma get_json_read_json: "get_json R C d k = read_json R C d k"
  by (simp add: get_json_def read_json_def)

lemma put_json_view:
  "rocks_ok R view \<Longrightarrow> put_json R C d k val = Inr d' \<Longrightarrow>
   \<exists>b. enc C val = Some b \<and> view d' = (view d)(as_bytes k \<mapsto> b)"
  by (auto simp: put_json_def dest: rocks_okD(3))

lemma write_batch_view:
  "rocks_ok R view \<Longrightarrow> write_batch R d batch = Inr d' \<Longrightarrow> view d' = apply_batch (view d) batch"
  by (auto simp: write_batch_def dest: rocks_okD(5))

lemma starts_with_as_bytes [simp]: "starts_with (as_bytes s) (as_bytes p) \<longleftrightarrow> starts_with s p"
  unfolding starts_with_def by (metis as_bytes_def as_bytes_inj length_as_bytes take_map)

section \<open>Ordered iteration\<close>

text \<open>The keys that extend a prefix are the first keys of an iterator that starts there.\<close>

lemma prefix_le [simp]: "p \<le> p @ (s :: 'a::linorder list)"
  by (induction p) auto

lemma between_prefix: "p \<le> y \<Longrightarrow> y \<le> p @ s \<Longrightarrow> starts_with y (p :: 'a::linorder list)"
proof (induction p arbitrary: y)
  case Nil
  then show ?case by (simp add: starts_with_iff)
next
  case (Cons a p)
  then obtain b y' where "y = b # y'" by (cases y) auto
  with Cons show ?case by (auto simp: starts_with_iff)
qed

lemma sorted_prefix_first:
  assumes "sorted_wrt (<) ks" "\<forall>k\<in>set ks. (p :: 'a::linorder list) \<le> k"
  shows "takeWhile (\<lambda>k. starts_with k p) ks = filter (\<lambda>k. starts_with k p) ks"
  using assms
proof (induction ks)
  case (Cons k ks)
  show ?case
  proof (cases "starts_with k p")
    case False
    have "\<not> starts_with x p" if "x \<in> set ks" for x
    proof
      assume "starts_with x p"
      moreover have "k \<le> x" using Cons.prems that by auto
      ultimately show False using between_prefix [of p k] Cons.prems False
        by (auto simp: starts_with_iff)
    qed
    with False show ?thesis by (simp add: filter_empty_conv)
  qed (use Cons in simp)
qed simp

definition keys_with :: "kv \<Rightarrow> bytes \<Rightarrow> bytes list" where
  "keys_with m p = sorted_list_of_set {k \<in> dom m. starts_with k p}"

lemma sorted_strict_unique:
  "sorted_wrt (<) xs \<Longrightarrow> sorted_wrt (<) ys \<Longrightarrow> set xs = set ys \<Longrightarrow> xs = (ys :: 'a::linorder list)"
  by (metis strict_sorted_equal)

lemma takeWhile_keys_from:
  assumes "finite (dom m)"
  shows "takeWhile (\<lambda>k. starts_with k p) (keys_from m p) = keys_with m p"
proof -
  have fin: "finite {k \<in> dom m. p \<le> k}" "finite {k \<in> dom m. starts_with k p}"
    using assms by auto
  have "takeWhile (\<lambda>k. starts_with k p) (keys_from m p) = filter (\<lambda>k. starts_with k p) (keys_from m p)"
    using fin by (intro sorted_prefix_first) (auto simp: keys_from_def)
  also have "\<dots> = keys_with m p"
    using fin by (intro sorted_strict_unique)
      (auto simp: keys_from_def keys_with_def sorted_wrt_filter starts_with_iff)
  finally show ?thesis .
qed

lemma scan_loop_reliable:
  "scan_loop p (map (\<lambda>k. Inr (k, f k)) ks) =
     map (\<lambda>k. (from_utf8_lossy k, f k)) (takeWhile (\<lambda>k. starts_with k p) ks)"
  by (induction ks) auto

lemma scan_prefix_reliable:
  assumes "rocks_ok R view" "reads_reliable R"
  shows "scan_prefix R d p =
    map (\<lambda>k. (from_utf8_lossy k, the (view d k))) (keys_with (view d) (as_bytes p))"
  using takeWhile_keys_from [OF rocks_okD(1) [OF assms(1)]]
  by (simp add: scan_prefix_def rk_iter_reliable [OF assms] iter_of_def scan_loop_reliable)

section \<open>An in-memory instance\<close>

type_synonym mem = "(bytes \<times> bytes) list"

fun mem_op :: "mem \<Rightarrow> batch_op \<Rightarrow> mem" where
  "mem_op d (Put k v) = (k, v) # d"
| "mem_op d (Del k) = filter (\<lambda>kv. fst kv \<noteq> k) d"

definition mem_rocks :: "mem rocks" where
  "mem_rocks =
     \<lparr>rk_get = (\<lambda>d k. Inr (map_of d k)),
      rk_put = (\<lambda>d k v. Inr ((k, v) # d)),
      rk_delete = (\<lambda>d k. Inr (filter (\<lambda>kv. fst kv \<noteq> k) d)),
      rk_write = (\<lambda>d ops. Inr (foldl mem_op d ops)),
      rk_iter = (\<lambda>d p. map (\<lambda>k. Inr (k, the (map_of d k)))
                   (sort (remdups (filter ((\<le>) p) (map fst d)))))\<rparr>"

lemma map_of_filter_key: "map_of (filter (\<lambda>kv. fst kv \<noteq> k) d) = (map_of d)(k := None)"
  by (induction d) (auto simp: fun_eq_iff)

lemma map_of_mem_op: "map_of (mem_op d op) = apply_op (map_of d) op"
  by (cases op) (auto simp: map_of_filter_key fun_eq_iff)

lemma map_of_mem_ops: "map_of (foldl mem_op d ops) = apply_batch (map_of d) ops"
  by (induction ops arbitrary: d) (simp_all add: map_of_mem_op)

lemma mem_iter: "sort (remdups (filter ((\<le>) p) (map fst d))) = keys_from (map_of d) p"
  unfolding keys_from_def
  by (rule sorted_strict_unique)
    (auto simp: strict_sorted_iff dom_map_of_conv_image_fst)

lemma mem_rocks_ok: "rocks_ok mem_rocks map_of"
  by (simp add: rocks_ok_def mem_rocks_def map_of_filter_key map_of_mem_ops mem_iter iter_of_def
      finite_dom_map_of)

lemma mem_reliable: "reads_reliable mem_rocks" "writes_reliable mem_rocks"
  by (auto simp: reads_reliable_def writes_reliable_def mem_rocks_def)

lemma mem_get [simp]: "rk_get mem_rocks d k = Inr (map_of d k)"
  by (simp add: mem_rocks_def)

text \<open>A codec given by a finite table, for concrete records.\<close>

definition table_codec :: "('a \<times> bytes) list \<Rightarrow> 'a codec" where
  "table_codec xs = \<lparr>enc = map_of xs, dec = map_of (map (\<lambda>(v, b). (b, v)) xs)\<rparr>"

lemma table_codec_ok: "distinct (map snd xs) \<Longrightarrow> codec_ok (table_codec xs)"
  unfolding codec_ok_def table_codec_def
  by (auto intro!: map_of_is_SomeI simp: comp_def case_prod_unfold dest!: map_of_SomeD intro: rev_image_eqI)

end
