(* ===== verification/Store.thy ===== *)
theory Store
  imports Rocks Validate
begin

text \<open>
  \<^verbatim>\<open>src/store.rs\<close>: the record types, their codecs, and the plain typed slots (PCK certificates,
  platform pools, TCB info, identities, CRLs): one key per record, and a reader that checks the
  record it finds against the request. Locks make every operation atomic, so an operation is a
  function of the database; one that ends in a single write returns the new database or an error.
\<close>

section \<open>Records\<close>

record pckcert_record =
  pk_qeid :: string
  pk_pceid :: string
  pk_cpusvn :: string
  pk_pcesvn :: string
  pk_cert :: string
  pk_tcbm :: string
  pk_fmspc :: string
  pk_ca :: string
  pk_issuer_chain :: string
  pk_encrypted_ppid :: "string option"
  pk_platform_manifest :: string

record tcb_record =
  tr_prod_type :: u8
  tr_fmspc :: string
  tr_version :: u32
  tr_update_type :: string
  tr_tcbinfo :: json
  tr_raw_body :: string
  tr_issuer_chain :: string

record identity_record =
  ir_enclave_id :: u8
  ir_version :: u32
  ir_update_type :: string
  ir_identity :: json
  ir_raw_body :: string
  ir_issuer_chain :: string

record pckcrl_record =
  pl_ca :: string
  pl_pckcrl :: bytes
  pl_issuer_chain :: string

record crl_record =
  cr_uri :: string
  cr_crl :: bytes

record amd_kds_record =
  ar_url :: string
  ar_body :: bytes
  ar_content_type :: "string option"
  ar_content_disposition :: "string option"
  ar_fetched_at :: u64

record nvidia_ocsp_record =
  or_cache_key :: string
  or_body :: bytes
  or_content_type :: "string option"
  or_fetched_at :: u64
  or_expires_at :: u64

record platform_record =
  pf_qe_id :: string
  pf_pce_id :: string
  pf_cpu_svn :: string
  pf_pce_svn :: string
  pf_enc_ppid :: string
  pf_platform_manifest :: string

record platform_cert =
  pt_tcbm :: string
  pt_cert :: string

record raw_tcb =
  rt_cpu_svn :: string
  rt_pce_svn :: string
  rt_tcbm :: string

record platform_pool =
  pp_qe_id :: string
  pp_pce_id :: string
  pp_enc_ppid :: string
  pp_platform_manifest :: string
  pp_fmspc :: string
  pp_ca :: string
  pp_issuer_chain :: string
  pp_certs :: "platform_cert list"
  pp_raw_tcbs :: "raw_tcb list"

record platform_credentials =
  cd_enc_ppid :: string
  cd_platform_manifest :: string

datatype platform_publication =
    Observed "platform_credentials option"
  | AbsentGet string string

definition pool_credentials :: "platform_pool \<Rightarrow> platform_credentials" where
  "pool_credentials pool =
     \<lparr>cd_enc_ppid = pp_enc_ppid pool, cd_platform_manifest = pp_platform_manifest pool\<rparr>"

definition cert_pairs :: "platform_pool \<Rightarrow> (string \<times> string) list" where
  "cert_pairs pool = map (\<lambda>c. (pt_tcbm c, pt_cert c)) (pp_certs pool)"

record registered_platform =
  rg_qe_id :: string
  rg_pce_id :: string
  rg_cpu_svn :: string
  rg_pce_svn :: string
  rg_enc_ppid :: string
  rg_platform_manifest :: string
  rg_state :: u8

record appraisal_policy =
  po_id :: string
  po_fmspc :: string
  po_is_default :: bool
  po_policy :: string
  po_policy_type :: u8

text \<open>The codecs derived by serde for these types; \<open>sd_stamp\<close> reads only \<open>fetched_at\<close>.\<close>

record serde =
  sd_pckcert :: "pckcert_record codec"
  sd_platform :: "platform_pool codec"
  sd_tcb :: "tcb_record codec"
  sd_identity :: "identity_record codec"
  sd_pckcrl :: "pckcrl_record codec"
  sd_rootcacrl :: "bytes codec"
  sd_crl :: "crl_record codec"
  sd_url :: "amd_kds_record codec"
  sd_ocsp :: "nvidia_ocsp_record codec"
  sd_reg :: "registered_platform codec"
  sd_appraisal :: "appraisal_policy list codec"
  sd_stamp :: "bytes \<Rightarrow> u64 option"

definition serde_ok :: "serde \<Rightarrow> bool" where
  "serde_ok S \<longleftrightarrow>
     codec_ok (sd_pckcert S) \<and> codec_ok (sd_platform S) \<and> codec_ok (sd_tcb S) \<and>
     codec_ok (sd_identity S) \<and> codec_ok (sd_pckcrl S) \<and> codec_ok (sd_rootcacrl S) \<and>
     codec_ok (sd_crl S) \<and> codec_ok (sd_url S) \<and> codec_ok (sd_ocsp S) \<and> codec_ok (sd_reg S) \<and>
     codec_ok (sd_appraisal S)"

datatype kind =
    Pckcert | Pckcrl | SgxTcb | TdxTcb | QeIdentity | QveIdentity | TdqeIdentity | Rootcacrl | Crl
  | AmdKds | NvidiaRim | NvidiaOcsp

definition tcb_kind :: "u8 \<Rightarrow> kind" where
  "tcb_kind prod_type = (if prod_type = 1 then TdxTcb else SgxTcb)"

definition identity_kind :: "u8 \<Rightarrow> kind" where
  "identity_kind enclave_id =
     (if enclave_id = 2 then QveIdentity else if enclave_id = 3 then TdqeIdentity else QeIdentity)"

section \<open>Typed slots\<close>

definition pckcert_matches :: "string \<Rightarrow> string \<Rightarrow> string \<Rightarrow> string \<Rightarrow> pckcert_record \<Rightarrow> bool" where
  "pckcert_matches qeid cpusvn pcesvn pceid r \<longleftrightarrow>
     eq_ignore_ascii_case (pk_qeid r) qeid \<and> eq_ignore_ascii_case (pk_pceid r) pceid \<and>
     eq_ignore_ascii_case (pk_cpusvn r) cpusvn \<and> eq_ignore_ascii_case (pk_pcesvn r) pcesvn"

definition get_pckcert ::
  "'db rocks \<Rightarrow> serde \<Rightarrow> 'db \<Rightarrow> string \<Rightarrow> string \<Rightarrow> string \<Rightarrow> string \<Rightarrow> pckcert_record option" where
  "get_pckcert R S db qeid cpusvn pcesvn pceid =
     (case read_json R (sd_pckcert S) db (key_pckcert qeid pceid cpusvn pcesvn) of
        None \<Rightarrow> None
      | Some r \<Rightarrow> if \<not> pckcert_matches qeid cpusvn pcesvn pceid r then None else Some r)"

definition put_pckcert :: "'db rocks \<Rightarrow> serde \<Rightarrow> 'db \<Rightarrow> pckcert_record \<Rightarrow> 'db res" where
  "put_pckcert R S db r =
     put_json R (sd_pckcert S) db (key_pckcert (pk_qeid r) (pk_pceid r) (pk_cpusvn r) (pk_pcesvn r)) r"

definition get_platform_pool :: "'db rocks \<Rightarrow> serde \<Rightarrow> 'db \<Rightarrow> string \<Rightarrow> string \<Rightarrow> platform_pool option" where
  "get_platform_pool R S db qeid pceid =
     (case read_json R (sd_platform S) db (key_platform qeid pceid) of
        None \<Rightarrow> None
      | Some pool \<Rightarrow>
          if \<not> eq_ignore_ascii_case (pp_qe_id pool) qeid \<or> \<not> eq_ignore_ascii_case (pp_pce_id pool) pceid
          then None else Some pool)"

definition put_platform_pool :: "'db rocks \<Rightarrow> serde \<Rightarrow> 'db \<Rightarrow> platform_pool \<Rightarrow> 'db res" where
  "put_platform_pool R S db pool =
     put_json R (sd_platform S) db (key_platform (pp_qe_id pool) (pp_pce_id pool)) pool"

definition has_platform :: "'db rocks \<Rightarrow> 'db \<Rightarrow> string \<Rightarrow> string \<Rightarrow> bool" where
  "has_platform R db qeid pceid \<longleftrightarrow>
     Option.bind (ok_opt (rk_get R db (as_bytes (key_platform qeid pceid)))) id \<noteq> None"

definition list_records :: "'db rocks \<Rightarrow> 'a codec \<Rightarrow> 'db \<Rightarrow> string \<Rightarrow> 'a list" where
  "list_records R C db p = List.map_filter (\<lambda>(_, v). dec C v) (scan_prefix R db p)"

definition list_platform_pools :: "'db rocks \<Rightarrow> serde \<Rightarrow> 'db \<Rightarrow> platform_pool list" where
  "list_platform_pools R S db = list_records R (sd_platform S) db PLATFORM"

definition get_tcb ::
  "'db rocks \<Rightarrow> serde \<Rightarrow> 'db \<Rightarrow> u8 \<Rightarrow> string \<Rightarrow> u32 \<Rightarrow> update_type \<Rightarrow> tcb_record option" where
  "get_tcb R S db prod_type fmspc version update =
     (case read_json R (sd_tcb S) db (key_tcb (prod_name prod_type) version fmspc (update_str update)) of
        None \<Rightarrow> None
      | Some r \<Rightarrow>
          if tr_prod_type r \<noteq> prod_type \<or> tr_version r \<noteq> version \<or>
             \<not> eq_ignore_ascii_case (tr_fmspc r) fmspc \<or>
             \<not> eq_ignore_ascii_case (tr_update_type r) (update_str update)
          then None else Some r)"

definition put_tcb :: "'db rocks \<Rightarrow> serde \<Rightarrow> 'db \<Rightarrow> tcb_record \<Rightarrow> 'db res" where
  "put_tcb R S db r =
     put_json R (sd_tcb S) db
       (key_tcb (prod_name (tr_prod_type r)) (tr_version r) (tr_fmspc r) (tr_update_type r)) r"

definition list_tcbs :: "'db rocks \<Rightarrow> serde \<Rightarrow> 'db \<Rightarrow> tcb_record list" where
  "list_tcbs R S db = list_records R (sd_tcb S) db TCB"

definition get_identity ::
  "'db rocks \<Rightarrow> serde \<Rightarrow> 'db \<Rightarrow> u8 \<Rightarrow> u32 \<Rightarrow> update_type \<Rightarrow> identity_record option" where
  "get_identity R S db enclave_id version update =
     (case read_json R (sd_identity S) db
             (key_identity (identity_name enclave_id) version (update_str update)) of
        None \<Rightarrow> None
      | Some r \<Rightarrow>
          if ir_enclave_id r \<noteq> enclave_id \<or> ir_version r \<noteq> version \<or>
             \<not> eq_ignore_ascii_case (ir_update_type r) (update_str update)
          then None else Some r)"

definition put_identity :: "'db rocks \<Rightarrow> serde \<Rightarrow> 'db \<Rightarrow> identity_record \<Rightarrow> 'db res" where
  "put_identity R S db r =
     put_json R (sd_identity S) db
       (key_identity (identity_name (ir_enclave_id r)) (ir_version r) (ir_update_type r)) r"

definition list_identities :: "'db rocks \<Rightarrow> serde \<Rightarrow> 'db \<Rightarrow> identity_record list" where
  "list_identities R S db = list_records R (sd_identity S) db IDENTITY"

definition get_pckcrl :: "'db rocks \<Rightarrow> serde \<Rightarrow> 'db \<Rightarrow> string \<Rightarrow> pckcrl_record option" where
  "get_pckcrl R S db ca =
     (case read_json R (sd_pckcrl S) db (key_pckcrl ca) of
        None \<Rightarrow> None
      | Some r \<Rightarrow> if \<not> eq_ignore_ascii_case (pl_ca r) ca then None else Some r)"

definition put_pckcrl :: "'db rocks \<Rightarrow> serde \<Rightarrow> 'db \<Rightarrow> pckcrl_record \<Rightarrow> 'db res" where
  "put_pckcrl R S db r = put_json R (sd_pckcrl S) db (key_pckcrl (pl_ca r)) r"

definition list_pckcrls :: "'db rocks \<Rightarrow> serde \<Rightarrow> 'db \<Rightarrow> pckcrl_record list" where
  "list_pckcrls R S db = list_records R (sd_pckcrl S) db PCKCRL"

definition get_rootcacrl :: "'db rocks \<Rightarrow> serde \<Rightarrow> 'db \<Rightarrow> bytes option" where
  "get_rootcacrl R S db = read_json R (sd_rootcacrl S) db key_rootcacrl"

definition put_rootcacrl :: "'db rocks \<Rightarrow> serde \<Rightarrow> 'db \<Rightarrow> bytes \<Rightarrow> 'db res" where
  "put_rootcacrl R S db crl = put_json R (sd_rootcacrl S) db key_rootcacrl crl"

definition get_crl :: "'db rocks \<Rightarrow> serde \<Rightarrow> 'db \<Rightarrow> string \<Rightarrow> bytes option" where
  "get_crl R S db uri = map_option cr_crl (read_json R (sd_crl S) db (key_crl uri))"

definition put_crl :: "'db rocks \<Rightarrow> serde \<Rightarrow> 'db \<Rightarrow> string \<Rightarrow> bytes \<Rightarrow> 'db res" where
  "put_crl R S db uri crl = put_json R (sd_crl S) db (key_crl uri) \<lparr>cr_uri = uri, cr_crl = crl\<rparr>"

definition list_crls :: "'db rocks \<Rightarrow> serde \<Rightarrow> 'db \<Rightarrow> crl_record list" where
  "list_crls R S db = list_records R (sd_crl S) db CRL"

definition get_amd_kds :: "'db rocks \<Rightarrow> serde \<Rightarrow> 'db \<Rightarrow> string \<Rightarrow> amd_kds_record option" where
  "get_amd_kds R S db url =
     (case read_json R (sd_url S) db (key_amd_kds url) of
        None \<Rightarrow> None
      | Some r \<Rightarrow> if ar_url r \<noteq> url then None else Some r)"

definition get_nvidia_rim :: "'db rocks \<Rightarrow> serde \<Rightarrow> 'db \<Rightarrow> string \<Rightarrow> amd_kds_record option" where
  "get_nvidia_rim R S db url =
     (case read_json R (sd_url S) db (key_nvidia_rim url) of
        None \<Rightarrow> None
      | Some r \<Rightarrow> if ar_url r \<noteq> url then None else Some r)"

definition get_nvidia_ocsp :: "'db rocks \<Rightarrow> serde \<Rightarrow> 'db \<Rightarrow> string \<Rightarrow> nvidia_ocsp_record option" where
  "get_nvidia_ocsp R S db ckey =
     (case read_json R (sd_ocsp S) db (key_nvidia_ocsp ckey) of
        None \<Rightarrow> None
      | Some r \<Rightarrow> if or_cache_key r \<noteq> ckey then None else Some r)"

section \<open>The contract of a slot\<close>

text \<open>
  What the cache relies on: a record written under its own key is what a matching request reads
  back, a request never receives a record that does not match it (even when two keys collide), and a
  write leaves the requests with another key alone. A slot provides the keys of requests and
  records and the match; the one law is that a match implies equal keys.
\<close>

definition checked_get :: "'db rocks \<Rightarrow> 'r codec \<Rightarrow> 'db \<Rightarrow> string \<Rightarrow> ('r \<Rightarrow> bool) \<Rightarrow> 'r option" where
  "checked_get R C db key ok = opt_filter ok (read_json R C db key)"

locale record_slot =
  fixes qkey :: "'q \<Rightarrow> string"
    and rkey :: "'r \<Rightarrow> string"
    and matches :: "'q \<Rightarrow> 'r \<Rightarrow> bool"
  assumes key_agrees: "matches q r \<Longrightarrow> qkey q = rkey r"
begin

lemma get_matches: "checked_get R C db (qkey q) (matches q) = Some r \<Longrightarrow> matches q r"
  by (simp add: checked_get_def)

lemma get_after_write:
  assumes "rocks_ok R view" "reads_reliable R" "codec_ok C" "enc C r = Some b"
    and "view db (as_bytes (rkey r)) = Some b" "matches q r"
  shows "checked_get R C db (qkey q) (matches q) = Some r"
  using assms key_agrees [OF assms(6)]
  by (simp add: checked_get_def read_json_reliable codec_ok_def)

lemma get_after_put:
  assumes "rocks_ok R view" "reads_reliable R" "codec_ok C"
    and "put_json R C db (rkey r) r = Inr db'" "matches q r"
  shows "checked_get R C db' (qkey q) (matches q) = Some r"
proof -
  obtain b where "enc C r = Some b" "view db' = (view db)(as_bytes (rkey r) \<mapsto> b)"
    using put_json_view [OF assms(1,4)] by blast
  with get_after_write [OF assms(1-3) _ _ assms(5)] show ?thesis by simp
qed

lemma get_unchanged:
  assumes "rocks_ok R view" "reads_reliable R" "view db' (as_bytes (qkey q)) = view db (as_bytes (qkey q))"
  shows "checked_get R C db' (qkey q) (matches q) = checked_get R C db (qkey q) (matches q)"
  using assms by (simp add: checked_get_def read_json_reliable)

lemma get_other_key:
  assumes "rocks_ok R view" "reads_reliable R"
    and "put_json R C' db k v = Inr db'" "k \<noteq> qkey q"
  shows "checked_get R C db' (qkey q) (matches q) = checked_get R C db (qkey q) (matches q)"
  using put_json_view [OF assms(1,3)] assms(4) by (intro get_unchanged [OF assms(1,2)]) auto

lemma put_not_found:
  assumes "rocks_ok R view" "reads_reliable R" "codec_ok C"
    and "put_json R C db (rkey r) r = Inr db'" "\<not> matches q r" "qkey q = rkey r"
  shows "checked_get R C db' (qkey q) (matches q) = None"
proof -
  obtain b where "enc C r = Some b" "view db' = (view db)(as_bytes (rkey r) \<mapsto> b)"
    using put_json_view [OF assms(1,4)] by blast
  then show ?thesis
    using assms by (simp add: checked_get_def read_json_reliable codec_ok_def)
qed

end

lemma eq_ignore_lower: "eq_ignore_ascii_case a b \<longleftrightarrow> to_ascii_lowercase a = to_ascii_lowercase b"
  by (simp add: eq_ignore_ascii_case_def)

lemmas slot_keys = key_defs join_lower_def eq_ignore_lower

interpretation pckcert_slot: record_slot
  "\<lambda>(qeid, cpusvn, pcesvn, pceid). key_pckcert qeid pceid cpusvn pcesvn"
  "\<lambda>r. key_pckcert (pk_qeid r) (pk_pceid r) (pk_cpusvn r) (pk_pcesvn r)"
  "\<lambda>(qeid, cpusvn, pcesvn, pceid). pckcert_matches qeid cpusvn pcesvn pceid"
  by unfold_locales (auto simp: pckcert_matches_def slot_keys)

definition platform_matches :: "string \<times> string \<Rightarrow> platform_pool \<Rightarrow> bool" where
  "platform_matches q pool \<longleftrightarrow>
     eq_ignore_ascii_case (pp_qe_id pool) (fst q) \<and> eq_ignore_ascii_case (pp_pce_id pool) (snd q)"

interpretation platform_slot: record_slot
  "\<lambda>q. key_platform (fst q) (snd q)" "\<lambda>p. key_platform (pp_qe_id p) (pp_pce_id p)" platform_matches
  by unfold_locales (auto simp: platform_matches_def slot_keys)

definition tcb_matches :: "u8 \<times> string \<times> u32 \<times> update_type \<Rightarrow> tcb_record \<Rightarrow> bool" where
  "tcb_matches q r = (case q of (prod_type, fmspc, version, update) \<Rightarrow>
     tr_prod_type r = prod_type \<and> tr_version r = version \<and> eq_ignore_ascii_case (tr_fmspc r) fmspc \<and>
     eq_ignore_ascii_case (tr_update_type r) (update_str update))"

interpretation tcb_slot: record_slot
  "\<lambda>(prod_type, fmspc, version, update). key_tcb (prod_name prod_type) version fmspc (update_str update)"
  "\<lambda>r. key_tcb (prod_name (tr_prod_type r)) (tr_version r) (tr_fmspc r) (tr_update_type r)"
  tcb_matches
  by unfold_locales (auto simp: tcb_matches_def slot_keys)

definition identity_matches :: "u8 \<times> u32 \<times> update_type \<Rightarrow> identity_record \<Rightarrow> bool" where
  "identity_matches q r = (case q of (enclave_id, version, update) \<Rightarrow>
     ir_enclave_id r = enclave_id \<and> ir_version r = version \<and>
     eq_ignore_ascii_case (ir_update_type r) (update_str update))"

interpretation identity_slot: record_slot
  "\<lambda>(enclave_id, version, update). key_identity (identity_name enclave_id) version (update_str update)"
  "\<lambda>r. key_identity (identity_name (ir_enclave_id r)) (ir_version r) (ir_update_type r)"
  identity_matches
  by unfold_locales (auto simp: identity_matches_def slot_keys)

interpretation pckcrl_slot: record_slot
  key_pckcrl "\<lambda>r. key_pckcrl (pl_ca r)" "\<lambda>ca r. eq_ignore_ascii_case (pl_ca r) ca"
  by unfold_locales (auto simp: slot_keys)

interpretation amd_kds_slot: record_slot key_amd_kds "\<lambda>r. key_amd_kds (ar_url r)" "\<lambda>url r. ar_url r = url"
  by unfold_locales simp

interpretation nvidia_rim_slot: record_slot
  key_nvidia_rim "\<lambda>r. key_nvidia_rim (ar_url r)" "\<lambda>url r. ar_url r = url"
  by unfold_locales simp

interpretation nvidia_ocsp_slot: record_slot
  key_nvidia_ocsp "\<lambda>r. key_nvidia_ocsp (or_cache_key r)" "\<lambda>k r. or_cache_key r = k"
  by unfold_locales simp

lemma get_pckcert_slot:
  "get_pckcert R S db qeid cpusvn pcesvn pceid =
     checked_get R (sd_pckcert S) db (key_pckcert qeid pceid cpusvn pcesvn)
       (pckcert_matches qeid cpusvn pcesvn pceid)"
  by (simp add: get_pckcert_def checked_get_def split: option.splits)

lemma get_platform_slot:
  "get_platform_pool R S db qeid pceid =
     checked_get R (sd_platform S) db (key_platform qeid pceid) (platform_matches (qeid, pceid))"
  by (auto simp: get_platform_pool_def checked_get_def platform_matches_def split: option.splits)

lemma get_tcb_slot:
  "get_tcb R S db prod_type fmspc version update =
     checked_get R (sd_tcb S) db (key_tcb (prod_name prod_type) version fmspc (update_str update))
       (tcb_matches (prod_type, fmspc, version, update))"
  by (auto simp: get_tcb_def checked_get_def tcb_matches_def split: option.splits)

lemma get_identity_slot:
  "get_identity R S db enclave_id version update =
     checked_get R (sd_identity S) db (key_identity (identity_name enclave_id) version (update_str update))
       (identity_matches (enclave_id, version, update))"
  by (auto simp: get_identity_def checked_get_def identity_matches_def split: option.splits)

lemma get_pckcrl_slot:
  "get_pckcrl R S db ca =
     checked_get R (sd_pckcrl S) db (key_pckcrl ca) (\<lambda>r. eq_ignore_ascii_case (pl_ca r) ca)"
  by (auto simp: get_pckcrl_def checked_get_def split: option.splits)

lemma get_readthrough_slot:
  "get_amd_kds R S db url = checked_get R (sd_url S) db (key_amd_kds url) (\<lambda>r. ar_url r = url)"
  "get_nvidia_rim R S db url = checked_get R (sd_url S) db (key_nvidia_rim url) (\<lambda>r. ar_url r = url)"
  "get_nvidia_ocsp R S db ckey =
     checked_get R (sd_ocsp S) db (key_nvidia_ocsp ckey) (\<lambda>r. or_cache_key r = ckey)"
  by (auto simp: get_amd_kds_def get_nvidia_rim_def get_nvidia_ocsp_def checked_get_def split: option.splits)

section \<open>Reading back what was written\<close>

lemma read_after_put_json:
  assumes "rocks_ok R view" "reads_reliable R" "codec_ok C" "put_json R C db k v = Inr db'"
  shows "read_json R C db' k = Some v"
proof -
  obtain b where "enc C v = Some b" "view db' = (view db)(as_bytes k \<mapsto> b)"
    using put_json_view [OF assms(1,4)] by blast
  then show ?thesis
    using assms(3) by (simp add: read_json_reliable [OF assms(1,2)] codec_ok_def)
qed

lemma serde_okD:
  "serde_ok S \<Longrightarrow> codec_ok (sd_pckcert S)" "serde_ok S \<Longrightarrow> codec_ok (sd_platform S)"
  "serde_ok S \<Longrightarrow> codec_ok (sd_tcb S)" "serde_ok S \<Longrightarrow> codec_ok (sd_identity S)"
  "serde_ok S \<Longrightarrow> codec_ok (sd_pckcrl S)" "serde_ok S \<Longrightarrow> codec_ok (sd_rootcacrl S)"
  "serde_ok S \<Longrightarrow> codec_ok (sd_crl S)" "serde_ok S \<Longrightarrow> codec_ok (sd_url S)"
  "serde_ok S \<Longrightarrow> codec_ok (sd_ocsp S)" "serde_ok S \<Longrightarrow> codec_ok (sd_reg S)"
  "serde_ok S \<Longrightarrow> codec_ok (sd_appraisal S)"
  by (simp_all add: serde_ok_def)

context record_slot
begin

lemma get_after_put_exact:
  assumes "rocks_ok R view" "reads_reliable R" "codec_ok C" "put_json R C db (rkey r) r = Inr db'"
  shows "checked_get R C db' (qkey q) (matches q) =
    (if matches q r then Some r else if qkey q = rkey r then None
     else checked_get R C db (qkey q) (matches q))"
  using get_after_put [OF assms] put_not_found [OF assms] get_other_key [OF assms(1,2,4)] by auto

end

text \<open>After a PCK certificate record is stored, a request for it (in any ASCII case) returns exactly
  that record; a request whose key collides with it without matching its QE id, PCE id, CPUSVN and
  PCESVN is a miss, never another platform's certificate; and every other request reads what
  it read before.\<close>

theorem get_pckcert_after_put:
  assumes "rocks_ok R view" "reads_reliable R" "serde_ok S" "put_pckcert R S db r = Inr db'"
  shows "get_pckcert R S db' qeid cpusvn pcesvn pceid =
    (if pckcert_matches qeid cpusvn pcesvn pceid r then Some r
     else if key_pckcert qeid pceid cpusvn pcesvn =
       key_pckcert (pk_qeid r) (pk_pceid r) (pk_cpusvn r) (pk_pcesvn r) then None
     else get_pckcert R S db qeid cpusvn pcesvn pceid)"
  using pckcert_slot.get_after_put_exact [OF assms(1,2) serde_okD(1) [OF assms(3)]
      assms(4) [unfolded put_pckcert_def], where q = "(qeid, cpusvn, pcesvn, pceid)"]
  by (simp add: get_pckcert_slot)

definition empty_serde :: serde where
  "empty_serde =
     \<lparr>sd_pckcert = table_codec [], sd_platform = table_codec [], sd_tcb = table_codec [],
      sd_identity = table_codec [], sd_pckcrl = table_codec [], sd_rootcacrl = table_codec [],
      sd_crl = table_codec [], sd_url = table_codec [], sd_ocsp = table_codec [],
      sd_reg = table_codec [], sd_appraisal = table_codec [], sd_stamp = (\<lambda>_. None)\<rparr>"

lemma empty_serde_ok: "serde_ok empty_serde"
  by (simp add: serde_ok_def empty_serde_def table_codec_ok)

definition sample_pck :: pckcert_record where
  "sample_pck = \<lparr>pk_qeid = ''AB'', pk_pceid = ''0000'', pk_cpusvn = ''01'', pk_pcesvn = ''0D00'',
     pk_cert = ''pem'', pk_tcbm = ''01'', pk_fmspc = ''00'', pk_ca = ''PLATFORM'',
     pk_issuer_chain = ''chain'', pk_encrypted_ppid = None, pk_platform_manifest = []\<rparr>"

definition pck_serde :: serde where
  "pck_serde = empty_serde\<lparr>sd_pckcert := table_codec [(sample_pck, [7])]\<rparr>"

lemma pck_serde_ok: "serde_ok pck_serde"
  using empty_serde_ok by (simp add: pck_serde_def serde_ok_def table_codec_ok)

theorem get_pckcert_after_put_witness:
  "\<exists>db'. put_pckcert mem_rocks pck_serde [] sample_pck = Inr db' \<and>
     get_pckcert mem_rocks pck_serde db' ''ab'' ''01'' ''0d00'' ''0000'' = Some sample_pck"
proof -
  let ?k = "as_bytes (key_pckcert ''AB'' ''0000'' ''01'' ''0D00'')"
  have put: "put_pckcert mem_rocks pck_serde [] sample_pck = Inr [(?k, [7])]"
    by (simp add: put_pckcert_def put_json_def pck_serde_def table_codec_def mem_rocks_def)
      (simp add: sample_pck_def)
  have "pckcert_matches ''ab'' ''01'' ''0d00'' ''0000'' sample_pck" by code_simp
  then show ?thesis
    using get_pckcert_after_put [OF mem_rocks_ok mem_reliable(1) pck_serde_ok put] put by auto
qed



end
