(* ===== verification/Fifo.thy ===== *)
theory Fifo
  imports Store "HOL-Library.Product_Lexorder"
begin

text \<open>
  \<^verbatim>\<open>src/store.rs\<close>: the bounded read-through kinds. Next to its record, an entry of such a kind has an
  order row (kind, write time, entry) and a position row, and the kind has a count row. Writing,
  deleting and sweeping keep the rows in step in one batch; writing also evicts the oldest
  entries above the cap. \<open>fifo_inv\<close> relates the rows to a queue of (write time, entry) pairs, and each
  operation is shown to implement the corresponding operation on queues.
\<close>

section \<open>Index rows\<close>

definition BOUNDED_KINDS :: "string list" where
  "BOUNDED_KINDS = [AMD_KDS, NVIDIA_RIM, NVIDIA_OCSP]"

definition fifo_order_prefix :: "string \<Rightarrow> bytes" where
  "fifo_order_prefix kind = as_bytes (FIFO_ORDER @ kind)"

definition fifo_order_key :: "string \<Rightarrow> u64 \<Rightarrow> bytes \<Rightarrow> bytes" where
  "fifo_order_key kind written_at entry = fifo_order_prefix kind @ to_be_bytes written_at @ entry"

definition fifo_pos_key :: "bytes \<Rightarrow> bytes" where
  "fifo_pos_key entry = as_bytes FIFO_POS @ entry"

definition fifo_count_key :: "string \<Rightarrow> bytes" where
  "fifo_count_key kind = as_bytes (FIFO_COUNT @ kind)"

text \<open>The part of \<open>Store\<close> that the operations change: the database, the last index time under
  \<open>fifo_lock\<close>, and the cap.\<close>

record 'db store =
  st_db :: 'db
  st_last :: u64
  st_max :: u64

definition saturating_add :: "u64 \<Rightarrow> u64 \<Rightarrow> u64" where
  "saturating_add a b = (if a > - 1 - b then - 1 else a + b)"

definition saturating_sub :: "u64 \<Rightarrow> u64 \<Rightarrow> u64" where
  "saturating_sub a b = (if a < b then 0 else a - b)"

definition saturating_mul :: "u64 \<Rightarrow> u64 \<Rightarrow> u64" where
  "saturating_mul a b = (if uint a * uint b < 2 ^ 64 then a * b else - 1)"

definition set_readthrough_max_entries :: "'db store \<Rightarrow> u64 \<Rightarrow> 'db store" where
  "set_readthrough_max_entries st max_entries = st\<lparr>st_max := max max_entries 1\<rparr>"

definition readthrough_count :: "'db rocks \<Rightarrow> 'db \<Rightarrow> string \<Rightarrow> u64" where
  "readthrough_count R db kind =
     unwrap_or 0 (Option.bind (Option.bind (ok_opt (rk_get R db (fifo_count_key kind))) id) be_u64)"

section \<open>Writing with eviction\<close>

fun evict_loop ::
  "bytes \<Rightarrow> bytes \<Rightarrow> u64 \<Rightarrow> u64 \<Rightarrow> batch_op list \<Rightarrow> (unit + bytes \<times> bytes) list \<Rightarrow>
   (batch_op list \<times> u64) res" where
  "evict_loop pre entry excess count batch [] = Inr (batch, count)"
| "evict_loop pre entry excess count batch (Inl _ # _) = Inl INTERNAL_ERROR"
| "evict_loop pre entry excess count batch (Inr (order_key, _) # rest) =
     (if excess = 0 \<or> \<not> starts_with order_key pre then Inr (batch, count)
      else if length order_key < length pre + 8 then evict_loop pre entry excess count batch rest
      else
        (let victim = drop (length pre + 8) order_key
         in if victim = entry then evict_loop pre entry excess count batch rest
            else evict_loop pre entry (excess - 1) (count - 1)
                   (batch @ [Del victim, Del (fifo_pos_key victim), Del order_key]) rest))"

definition bounded_batch ::
  "'db rocks \<Rightarrow> 'db \<Rightarrow> u64 \<Rightarrow> string \<Rightarrow> bytes \<Rightarrow> bytes \<Rightarrow> u64 \<Rightarrow> batch_op list res" where
  "bounded_batch R db max_entries kind entry bs written_at =
     (let pos_key = fifo_pos_key entry; count = readthrough_count R db kind
      in and_then (map_err (\<lambda>_. INTERNAL_ERROR) (rk_get R db pos_key)) (\<lambda>pos.
         let (batch, count) =
               (case pos of
                  Some old \<Rightarrow>
                    (case be_u64 old of
                       Some old \<Rightarrow> ([Del (fifo_order_key kind old entry)], count)
                     | None \<Rightarrow> ([], count))
                | None \<Rightarrow> ([], count + 1));
             batch = batch @ [Put entry bs, Put pos_key (to_be_bytes written_at),
                              Put (fifo_order_key kind written_at entry) []]
         in and_then
              (if count > max_entries then
                 (let pre = fifo_order_prefix kind
                  in evict_loop pre entry (count - max_entries) count batch (rk_iter R db pre))
               else Inr (batch, count)) (\<lambda>(batch, count).
              Inr (batch @ [Put (fifo_count_key kind) (to_be_bytes count)]))))"

text \<open>\<open>put_bounded\<close>; \<open>now\<close> is the wall clock in microseconds. The last index time moves even when a
  read or the write then fails.\<close>

definition put_bounded ::
  "'db rocks \<Rightarrow> 'r codec \<Rightarrow> u64 \<Rightarrow> 'db store \<Rightarrow> string \<Rightarrow> string \<Rightarrow> 'r \<Rightarrow> unit res \<times> 'db store" where
  "put_bounded R C now st kind entry_key val =
     (case enc C val of
        None \<Rightarrow> (Inl INTERNAL_ERROR, st)
      | Some bs \<Rightarrow>
          (let written_at = max now (saturating_add (st_last st) 1);
               st = st\<lparr>st_last := written_at\<rparr>
           in case and_then
                     (bounded_batch R (st_db st) (st_max st) kind (as_bytes entry_key) bs written_at)
                     (write_batch R (st_db st)) of
                Inl e \<Rightarrow> (Inl e, st)
              | Inr db \<Rightarrow> (Inr (), st\<lparr>st_db := db\<rparr>)))"

definition put_amd_kds ::
  "'db rocks \<Rightarrow> serde \<Rightarrow> u64 \<Rightarrow> 'db store \<Rightarrow> amd_kds_record \<Rightarrow> unit res \<times> 'db store" where
  "put_amd_kds R S now st r = put_bounded R (sd_url S) now st AMD_KDS (key_amd_kds (ar_url r)) r"

definition put_nvidia_rim ::
  "'db rocks \<Rightarrow> serde \<Rightarrow> u64 \<Rightarrow> 'db store \<Rightarrow> amd_kds_record \<Rightarrow> unit res \<times> 'db store" where
  "put_nvidia_rim R S now st r = put_bounded R (sd_url S) now st NVIDIA_RIM (key_nvidia_rim (ar_url r)) r"

definition put_nvidia_ocsp ::
  "'db rocks \<Rightarrow> serde \<Rightarrow> u64 \<Rightarrow> 'db store \<Rightarrow> nvidia_ocsp_record \<Rightarrow> unit res \<times> 'db store" where
  "put_nvidia_ocsp R S now st r =
     put_bounded R (sd_ocsp S) now st NVIDIA_OCSP (key_nvidia_ocsp (or_cache_key r)) r"

section \<open>Deleting and sweeping\<close>

text \<open>\<open>unindex\<close>: the deletions it queues and whether the entry had index rows.\<close>

definition unindex :: "'db rocks \<Rightarrow> 'db \<Rightarrow> string \<Rightarrow> bytes \<Rightarrow> batch_op list \<times> bool" where
  "unindex R db kind entry =
     (case rk_get R db (fifo_pos_key entry) of
        Inr (Some pos) \<Rightarrow>
          ((case be_u64 pos of
              Some written_at \<Rightarrow> [Del (fifo_order_key kind written_at entry)] | None \<Rightarrow> []) @
           [Del (fifo_pos_key entry)], True)
      | _ \<Rightarrow> ([], False))"

definition delete_key :: "'db rocks \<Rightarrow> 'db \<Rightarrow> string \<Rightarrow> 'db res" where
  "delete_key R db key =
     (case find (\<lambda>kind. starts_with key kind) BOUNDED_KINDS of
        None \<Rightarrow> map_err (\<lambda>_. INTERNAL_ERROR) (rk_delete R db (as_bytes key))
      | Some kind \<Rightarrow>
          (case unindex R db kind (as_bytes key) of
             (ops, indexed) \<Rightarrow>
               write_batch R db
                 (Del (as_bytes key) # ops @
                  (if indexed then
                     [Put (fifo_count_key kind)
                        (to_be_bytes (saturating_sub (readthrough_count R db kind) 1))]
                   else []))))"

fun sweep_loop ::
  "'db rocks \<Rightarrow> 'db \<Rightarrow> (bytes \<Rightarrow> bool) \<Rightarrow> bytes \<Rightarrow> string option \<Rightarrow> batch_op list \<Rightarrow> nat \<Rightarrow> u64 \<Rightarrow>
   (unit + bytes \<times> bytes) list \<Rightarrow> (batch_op list \<times> nat \<times> u64) res" where
  "sweep_loop R db dead pre kind batch swept unindexed [] = Inr (batch, swept, unindexed)"
| "sweep_loop R db dead pre kind batch swept unindexed (Inl _ # _) = Inl INTERNAL_ERROR"
| "sweep_loop R db dead pre kind batch swept unindexed (Inr (k, v) # rest) =
     (if \<not> starts_with k pre then Inr (batch, swept, unindexed)
      else if dead v then
        (case (case kind of Some kd \<Rightarrow> unindex R db kd k | None \<Rightarrow> ([], False)) of
           (ops, indexed) \<Rightarrow>
             sweep_loop R db dead pre kind (batch @ Del k # ops) (swept + 1)
               (if indexed then unindexed + 1 else unindexed) rest)
      else sweep_loop R db dead pre kind batch swept unindexed rest)"

definition is_dead :: "'r codec \<Rightarrow> ('r \<Rightarrow> bool) \<Rightarrow> bytes \<Rightarrow> bool" where
  "is_dead C expired v = (case dec C v of Some r \<Rightarrow> expired r | None \<Rightarrow> False)"

definition sweep_prefix ::
  "'db rocks \<Rightarrow> 'r codec \<Rightarrow> 'db \<Rightarrow> string \<Rightarrow> ('r \<Rightarrow> bool) \<Rightarrow> (nat \<times> 'db) res" where
  "sweep_prefix R C db pre expired =
     (let kind = find (\<lambda>kind. kind = pre) BOUNDED_KINDS
      in and_then (sweep_loop R db (is_dead C expired) (as_bytes pre) kind [] 0 0 (rk_iter R db (as_bytes pre)))
           (\<lambda>(batch, swept, unindexed).
             if swept > 0 then
               and_then
                 (write_batch R db
                    (batch @
                     (case opt_filter (\<lambda>_. unindexed > 0) kind of
                        Some kd \<Rightarrow>
                          [Put (fifo_count_key kd)
                             (to_be_bytes (saturating_sub (readthrough_count R db kd) unindexed))]
                      | None \<Rightarrow> [])))
                 (\<lambda>db. Inr (swept, db))
             else Inr (swept, db)))"

section \<open>Indexing at start-up\<close>

definition index_rows :: "string \<Rightarrow> (u64 \<times> bytes) list \<Rightarrow> (u64 \<times> bytes) list" where
  "index_rows kind entries =
     map (\<lambda>(i, fetched_at, key). (saturating_add (saturating_mul fetched_at 1000000) (of_nat i), key))
       (zip [0..<length entries] entries)"

definition index_batch :: "string \<Rightarrow> (u64 \<times> bytes) list \<Rightarrow> batch_op list" where
  "index_batch kind entries =
     concat (map (\<lambda>(written_at, key).
       [Put (fifo_order_key kind written_at key) [], Put (fifo_pos_key key) (to_be_bytes written_at)])
       (index_rows kind entries)) @
     [Put (fifo_count_key kind) (to_be_bytes (of_nat (length entries)))]"

definition index_kind :: "'db rocks \<Rightarrow> serde \<Rightarrow> 'db \<Rightarrow> string \<Rightarrow> unit + 'db" where
  "index_kind R S db kind =
     and_then (rk_get R db (fifo_count_key kind)) (\<lambda>has_count.
     if has_count \<noteq> None then Inr db
     else
       (let entries = map (\<lambda>(key, val). (unwrap_or 0 (sd_stamp S val), as_bytes key))
                        (scan_prefix R db kind)
        in if entries = [] then Inr db
           else rk_write R db (index_batch kind (sort entries))))"

fun index_kinds :: "'db rocks \<Rightarrow> serde \<Rightarrow> 'db \<Rightarrow> string list \<Rightarrow> (unit + unit) \<times> 'db" where
  "index_kinds R S db [] = (Inr (), db)"
| "index_kinds R S db (kind # kinds) =
     (case index_kind R S db kind of
        Inl e \<Rightarrow> (Inl e, db)
      | Inr db \<Rightarrow> index_kinds R S db kinds)"

definition index_unindexed_entries :: "'db rocks \<Rightarrow> serde \<Rightarrow> 'db \<Rightarrow> (unit + unit) \<times> 'db" where
  "index_unindexed_entries R S db = index_kinds R S db BOUNDED_KINDS"

section \<open>The rows do not overlap\<close>

lemma index_prefix_bytes:
  "as_bytes FIFO_ORDER = [102, 105, 102, 111, 47]"
  "as_bytes FIFO_POS = [102, 105, 102, 111, 45, 112, 111, 115, 47]"
  "as_bytes FIFO_COUNT = [102, 105, 102, 111, 45, 99, 111, 117, 110, 116, 47]"
  by code_simp+

lemma kind_bytes:
  "as_bytes AMD_KDS = [97, 109, 100, 45, 107, 100, 115, 47]"
  "as_bytes NVIDIA_RIM = [110, 118, 105, 100, 105, 97, 45, 114, 105, 109, 47]"
  "as_bytes NVIDIA_OCSP = [110, 118, 105, 100, 105, 97, 45, 111, 99, 115, 112, 47]"
  by code_simp+

lemma bounded_kind_cases:
  "kind \<in> set BOUNDED_KINDS \<longleftrightarrow> kind = AMD_KDS \<or> kind = NVIDIA_RIM \<or> kind = NVIDIA_OCSP"
  by (auto simp: BOUNDED_KINDS_def)

lemmas row_defs = fifo_order_key_def fifo_order_prefix_def fifo_pos_key_def fifo_count_key_def
  index_prefix_bytes

lemma rows_apart [simp]:
  "fifo_pos_key x \<noteq> fifo_order_key k t y" "fifo_order_key k t y \<noteq> fifo_pos_key x"
  "fifo_count_key k \<noteq> fifo_order_key k' t y" "fifo_order_key k' t y \<noteq> fifo_count_key k"
  "fifo_count_key k \<noteq> fifo_pos_key x" "fifo_pos_key x \<noteq> fifo_count_key k"
  "\<not> starts_with (fifo_pos_key x) (fifo_order_prefix k)"
  "\<not> starts_with (fifo_count_key k') (fifo_order_prefix k)"
  by (simp_all add: row_defs starts_with_iff)

lemma entry_apart:
  assumes "kind \<in> set BOUNDED_KINDS" "starts_with e (as_bytes kind)"
  shows "e \<noteq> fifo_pos_key x" "e \<noteq> fifo_order_key k t x" "e \<noteq> fifo_count_key k"
    "\<not> starts_with e (fifo_order_prefix k)"
  using assms by (auto simp: bounded_kind_cases kind_bytes row_defs starts_with_iff)

lemma row_not_entry:
  assumes "kind \<in> set BOUNDED_KINDS"
  shows "\<not> starts_with (fifo_pos_key x) (as_bytes kind)" "\<not> starts_with (fifo_order_key k t x) (as_bytes kind)"
    "\<not> starts_with (fifo_count_key k) (as_bytes kind)"
  using assms by (auto simp: bounded_kind_cases kind_bytes row_defs starts_with_iff)

lemma order_key_inj [simp]: "fifo_order_key k t x = fifo_order_key k s y \<longleftrightarrow> t = s \<and> x = y"
  by (simp add: fifo_order_key_def)

lemma pos_key_inj [simp]: "fifo_pos_key x = fifo_pos_key y \<longleftrightarrow> x = y"
  by (simp add: fifo_pos_key_def)

lemma order_key_prefix [simp]: "starts_with (fifo_order_key k t x) (fifo_order_prefix k)"
  by (simp add: fifo_order_key_def)

lemma order_key_drop [simp]: "drop (length (fifo_order_prefix k) + 8) (fifo_order_key k t x) = x"
  by (simp add: fifo_order_key_def)

lemma order_key_length [simp]: "\<not> length (fifo_order_key k t x) < length (fifo_order_prefix k) + 8"
  by (simp add: fifo_order_key_def)

section \<open>The queue behind the rows\<close>

type_synonym queue = "(u64 \<times> bytes) list"

definition okey :: "string \<Rightarrow> u64 \<times> bytes \<Rightarrow> bytes" where
  "okey kind te = fifo_order_key kind (fst te) (snd te)"

definition pos_of :: "queue \<Rightarrow> bytes \<Rightarrow> u64 option" where
  "pos_of Q e = map_of (map prod.swap Q) e"

definition fifo_inv :: "string \<Rightarrow> kv \<Rightarrow> queue \<Rightarrow> bool" where
  "fifo_inv kind m Q \<longleftrightarrow>
     sorted_wrt (<) (map (okey kind) Q) \<and> distinct (map snd Q) \<and>
     (\<forall>te\<in>set Q. starts_with (snd te) (as_bytes kind)) \<and>
     (\<forall>k. starts_with k (fifo_order_prefix kind) \<longrightarrow> (m k \<noteq> None \<longleftrightarrow> k \<in> okey kind ` set Q)) \<and>
     (\<forall>e. starts_with e (as_bytes kind) \<longrightarrow> m (fifo_pos_key e) = map_option to_be_bytes (pos_of Q e)) \<and>
     (\<forall>e. starts_with e (as_bytes kind) \<longrightarrow> (m e \<noteq> None \<longleftrightarrow> e \<in> snd ` set Q)) \<and>
     (m (fifo_count_key kind) = Some (to_be_bytes (of_nat (length Q))) \<or>
      m (fifo_count_key kind) = None \<and> Q = []) \<and>
     length Q < 2 ^ 64"

lemma fifo_invD:
  assumes "fifo_inv kind m Q"
  shows "sorted_wrt (<) (map (okey kind) Q)" "distinct (map snd Q)"
    and "te \<in> set Q \<Longrightarrow> starts_with (snd te) (as_bytes kind)"
    and "starts_with k (fifo_order_prefix kind) \<Longrightarrow> m k \<noteq> None \<longleftrightarrow> k \<in> okey kind ` set Q"
    and "starts_with e (as_bytes kind) \<Longrightarrow> m (fifo_pos_key e) = map_option to_be_bytes (pos_of Q e)"
    and "starts_with e (as_bytes kind) \<Longrightarrow> m e \<noteq> None \<longleftrightarrow> e \<in> snd ` set Q"
    and "m (fifo_count_key kind) = Some (to_be_bytes (of_nat (length Q))) \<or>
      m (fifo_count_key kind) = None \<and> Q = []"
    and "length Q < 2 ^ 64"
  using assms by (simp_all add: fifo_inv_def)

lemma pos_of_Some: "distinct (map snd Q) \<Longrightarrow> pos_of Q e = Some t \<longleftrightarrow> (t, e) \<in> set Q"
  unfolding pos_of_def by (subst map_of_eq_Some_iff) (force simp: comp_def prod.swap_def)+

lemma snd_unique:
  "distinct (map snd Q) \<Longrightarrow> (s, e) \<in> set (Q :: queue) \<Longrightarrow> te \<in> set Q \<Longrightarrow> snd te = e \<Longrightarrow> te = (s, e)"
  using pos_of_Some [of Q e s] pos_of_Some [of Q e "fst te"] by (cases te) simp

lemma snd_class:
  assumes "distinct (map snd Q)" "(s, e) \<in> set (Q :: queue)"
  shows "{te \<in> set Q. snd te = e} = {(s, e)}"
proof (intro equalityI subsetI)
  fix te assume "te \<in> {te \<in> set Q. snd te = e}"
  then show "te \<in> {(s, e)}" using snd_unique [OF assms, of te] by simp
qed (use assms in simp)

lemma pos_of_None: "pos_of Q e = None \<longleftrightarrow> e \<notin> snd ` set Q"
  by (force simp: pos_of_def map_of_eq_None_iff)

lemma okey_inj [simp]: "okey kind x = okey kind y \<longleftrightarrow> x = y"
  by (auto simp: okey_def prod_eq_iff)

lemma okey_prefix [simp]: "starts_with (okey kind te) (fifo_order_prefix kind)"
  by (simp add: okey_def)

lemma okey_drop [simp]: "drop (length (fifo_order_prefix kind) + 8) (okey kind te) = snd te"
  by (simp add: okey_def)

lemma okey_length [simp]: "\<not> length (okey kind te) < length (fifo_order_prefix kind) + 8"
  by (simp add: okey_def)

lemma inj_okey [simp]: "inj (okey kind)"
  by (simp add: inj_def)

lemma fifo_count:
  assumes "rocks_ok R view" "reads_reliable R" "fifo_inv kind (view db) Q"
  shows "readthrough_count R db kind = of_nat (length Q)"
  using fifo_invD(7) [OF assms(3)] by (auto simp: readthrough_count_def rk_get_reliable [OF assms(1,2)])

text \<open>The iterator over the order rows lists the queue, oldest first.\<close>

lemma fifo_listing:
  assumes "fifo_inv kind m Q" "finite (dom m)"
  shows "keys_with m (fifo_order_prefix kind) = map (okey kind) Q"
proof (rule sorted_strict_unique)
  have fin: "finite {k \<in> dom m. starts_with k (fifo_order_prefix kind)}" using assms(2) by simp
  show "sorted_wrt (<) (keys_with m (fifo_order_prefix kind))"
    by (simp add: keys_with_def)
  show "sorted_wrt (<) (map (okey kind) Q)" by (rule fifo_invD(1) [OF assms(1)])
  show "set (keys_with m (fifo_order_prefix kind)) = set (map (okey kind) Q)"
    using fifo_invD(4) [OF assms(1)] fin by (auto simp: keys_with_def dom_def)
qed

section \<open>Eviction\<close>

definition victim_rows :: "string \<Rightarrow> u64 \<times> bytes \<Rightarrow> bytes list" where
  "victim_rows kind te = [snd te, fifo_pos_key (snd te), okey kind te]"

definition deletions :: "string \<Rightarrow> queue \<Rightarrow> batch_op list" where
  "deletions kind V = map Del (concat (map (victim_rows kind) V))"

lemma deletions_simps [simp]:
  "deletions kind [] = []"
  "deletions kind (te # V) = Del (snd te) # Del (fifo_pos_key (snd te)) # Del (okey kind te) # deletions kind V"
  by (simp_all add: deletions_def victim_rows_def)

lemma apply_dels: "apply_batch m (map Del ks) k = (if k \<in> set ks then None else m k)"
  by (induction ks arbitrary: m) auto

lemma apply_deletions:
  "apply_batch m (deletions kind V) k =
     (if \<exists>te\<in>set V. k = snd te \<or> k = fifo_pos_key (snd te) \<or> k = okey kind te then None else m k)"
  unfolding deletions_def apply_dels by (auto simp: victim_rows_def)

lemma u64_unat_of_nat: "n < 2 ^ 64 \<Longrightarrow> unat (of_nat n :: u64) = n"
  by (simp add: unat_of_nat)

lemma u64_of_nat_0: "n < 2 ^ 64 \<Longrightarrow> (of_nat n :: u64) = 0 \<longleftrightarrow> n = 0"
  using u64_unat_of_nat [of n] unat_eq_0 [of "of_nat n :: u64"] by metis

definition others :: "bytes \<Rightarrow> queue \<Rightarrow> queue" where
  "others e Q = filter (\<lambda>te. snd te \<noteq> e) Q"

lemma evict_loop_stop:
  "rest = [] \<or> \<not> starts_with (hd rest) (fifo_order_prefix kind) \<Longrightarrow>
   evict_loop (fifo_order_prefix kind) e x c batch (map (\<lambda>k. Inr (k, f k)) rest) = Inr (batch, c)"
  by (cases rest) auto

lemma evict_loop_queue:
  assumes "rest = [] \<or> \<not> starts_with (hd rest) (fifo_order_prefix kind)" "n < 2 ^ 64"
  shows "evict_loop (fifo_order_prefix kind) e (of_nat n) c batch
      (map (\<lambda>k. Inr (k, f k)) (map (okey kind) Q @ rest)) =
    Inr (batch @ deletions kind (take n (others e Q)), c - of_nat (length (take n (others e Q))))"
  using assms(2)
proof (induction Q arbitrary: n c batch)
  case Nil
  then show ?case using evict_loop_stop [OF assms(1)] by (simp add: others_def)
next
  case (Cons te Q)
  show ?case
  proof (cases n)
    case 0
    then show ?thesis by simp
  next
    case (Suc n')
    then have nz: "(of_nat n :: u64) \<noteq> 0" using Cons.prems u64_of_nat_0 by blast
    have minus: "(of_nat n :: u64) - 1 = of_nat n'" using Suc by simp
    have IH: "evict_loop (fifo_order_prefix kind) e (of_nat k) c' b
        (map (\<lambda>k. Inr (k, f k)) (map (okey kind) Q @ rest)) =
      Inr (b @ deletions kind (take k (others e Q)), c' - of_nat (length (take k (others e Q))))"
      if "k \<le> n" for k c' b using Cons.IH [of k c' b] Cons.prems that by simp
    show ?thesis
    proof (cases "snd te = e")
      case True
      then have "others e (te # Q) = others e Q" by (simp add: others_def)
      then show ?thesis
        using nz True IH [of n c batch] by simp
    next
      case False
      then have "others e (te # Q) = te # others e Q" by (simp add: others_def)
      then show ?thesis
        using nz False minus Suc IH [of n' "c - 1"] by (simp add: algebra_simps Let_def)
    qed
  qed
qed

lemma others_notin: "e \<notin> snd ` set Q \<Longrightarrow> others e Q = Q"
  unfolding others_def by (force intro!: filter_True)

lemma length_others:
  assumes "distinct (map snd Q)" "e \<in> snd ` set Q"
  shows "length Q = length (others e Q) + 1"
  using assms
proof (induction Q)
  case (Cons te Q)
  then show ?case by (cases "snd te = e") (auto simp: others_def others_notin [unfolded others_def] image_iff)
qed simp

lemma set_others: "set (others e Q) = {te \<in> set Q. snd te \<noteq> e}"
  by (simp add: others_def)

lemma distinct_others: "distinct (map snd Q) \<Longrightarrow> distinct (map snd (others e Q))"
  by (simp add: others_def distinct_map_filter)

lemma fifo_iter:
  assumes "rocks_ok R view" "reads_reliable R" "fifo_inv kind (view db) Q"
  shows "\<exists>rest. rk_iter R db (fifo_order_prefix kind) =
      map (\<lambda>k. Inr (k, the (view db k))) (map (okey kind) Q @ rest) \<and>
    (rest = [] \<or> \<not> starts_with (hd rest) (fifo_order_prefix kind))"
proof -
  let ?p = "fifo_order_prefix kind" and ?ks = "keys_from (view db) (fifo_order_prefix kind)"
  have fin: "finite (dom (view db))" by (rule rocks_okD(1) [OF assms(1)])
  have "takeWhile (\<lambda>k. starts_with k ?p) ?ks = map (okey kind) Q"
    using takeWhile_keys_from [OF fin] fifo_listing [OF assms(3) fin] by simp
  then have ks: "?ks = map (okey kind) Q @ dropWhile (\<lambda>k. starts_with k ?p) ?ks"
    by (metis takeWhile_dropWhile_id)
  have "rk_iter R db ?p = map (\<lambda>k. Inr (k, the (view db k))) ?ks"
    by (simp add: rk_iter_reliable [OF assms(1,2)] iter_of_def)
  then have "rk_iter R db ?p = map (\<lambda>k. Inr (k, the (view db k)))
      (map (okey kind) Q @ dropWhile (\<lambda>k. starts_with k ?p) ?ks)"
    by (subst (asm) ks)
  moreover have "dropWhile (\<lambda>k. starts_with k ?p) ?ks = [] \<or>
      \<not> starts_with (hd (dropWhile (\<lambda>k. starts_with k ?p) ?ks)) ?p"
    using hd_dropWhile by blast
  ultimately show ?thesis by blast
qed

definition new_count :: "u64 \<Rightarrow> bytes \<Rightarrow> queue \<Rightarrow> nat" where
  "new_count max_entries e Q = min (length (others e Q) + 1) (unat max_entries)"

definition victims :: "u64 \<Rightarrow> bytes \<Rightarrow> queue \<Rightarrow> queue" where
  "victims max_entries e Q = take (length (others e Q) + 1 - unat max_entries) (others e Q)"

definition superseded :: "string \<Rightarrow> bytes \<Rightarrow> queue \<Rightarrow> batch_op list" where
  "superseded kind e Q = (case pos_of Q e of Some s \<Rightarrow> [Del (okey kind (s, e))] | None \<Rightarrow> [])"

lemma evicted_word:
  assumes "c < 2 ^ 64"
  shows "(of_nat c :: u64) > w \<longleftrightarrow> c > unat w"
    and "c > unat w \<Longrightarrow> (of_nat c :: u64) - w = of_nat (c - unat w)"
proof -
  have u: "unat (of_nat c :: u64) = c" by (rule u64_unat_of_nat [OF assms])
  show "(of_nat c :: u64) > w \<longleftrightarrow> c > unat w" by (simp add: word_less_nat_alt u)
  show "(of_nat c :: u64) - w = of_nat (c - unat w)" if "c > unat w"
    using that by (simp add: of_nat_diff)
qed

lemma bounded_batch_queue:
  assumes "rocks_ok R view" "reads_reliable R" "fifo_inv kind (view db) Q"
    and "starts_with e (as_bytes kind)" "length Q + 1 < 2 ^ 64" "1 \<le> unat max_entries"
  shows "bounded_batch R db max_entries kind e bs t =
    Inr (superseded kind e Q @
         [Put e bs, Put (fifo_pos_key e) (to_be_bytes t), Put (okey kind (t, e)) []] @
         deletions kind (victims max_entries e Q) @
         [Put (fifo_count_key kind) (to_be_bytes (of_nat (new_count max_entries e Q)))])"
proof -
  define c where "c = length (others e Q) + 1"
  define batch where "batch = superseded kind e Q @
    [Put e bs, Put (fifo_pos_key e) (to_be_bytes t), Put (okey kind (t, e)) []]"
  have dist: "distinct (map snd Q)" by (rule fifo_invD(2) [OF assms(3)])
  have c: "c < 2 ^ 64" using assms(5) by (simp add: c_def others_def le_less_trans [OF length_filter_le])
  have pos: "rk_get R db (fifo_pos_key e) = Inr (map_option to_be_bytes (pos_of Q e))"
    using rk_get_reliable [OF assms(1,2)] fifo_invD(5) [OF assms(3,4)] by simp
  have cnt: "(case pos_of Q e of Some s \<Rightarrow> of_nat (length Q) | None \<Rightarrow> of_nat (length Q) + 1) = (of_nat c :: u64)"
  proof (cases "pos_of Q e")
    case None
    then have "others e Q = Q" using others_notin pos_of_None by blast
    with None show ?thesis by (simp add: c_def)
  next
    case (Some s)
    then have "e \<in> snd ` set Q" using pos_of_None [of Q e] by simp
    then have "length Q = c" using length_others [OF dist] by (simp add: c_def)
    with Some show ?thesis by simp
  qed
  have step: "bounded_batch R db max_entries kind e bs t =
     and_then (if of_nat c > max_entries then
                 evict_loop (fifo_order_prefix kind) e (of_nat c - max_entries) (of_nat c) batch
                   (rk_iter R db (fifo_order_prefix kind))
               else Inr (batch, of_nat c)) (\<lambda>(batch, count).
       Inr (batch @ [Put (fifo_count_key kind) (to_be_bytes count)]))"
    using cnt by (cases "pos_of Q e")
      (simp_all add: bounded_batch_def pos fifo_count [OF assms(1-3)] Let_def batch_def superseded_def okey_def)
  show ?thesis
  proof (cases "c > unat max_entries")
    case False
    then have "victims max_entries e Q = []" "new_count max_entries e Q = c"
      by (simp_all add: victims_def new_count_def c_def)
    with False show ?thesis
      unfolding step evicted_word(1) [OF c] by (simp add: batch_def)
  next
    case True
    obtain rest where it: "rk_iter R db (fifo_order_prefix kind) =
        map (\<lambda>k. Inr (k, the (view db k))) (map (okey kind) Q @ rest)"
      and rest: "rest = [] \<or> \<not> starts_with (hd rest) (fifo_order_prefix kind)"
      using fifo_iter [OF assms(1-3)] by blast
    have n: "c - unat max_entries < 2 ^ 64" using c by simp
    have len: "length (take (c - unat max_entries) (others e Q)) = c - unat max_entries"
      using assms(6) by (simp add: c_def)
    have nc: "new_count max_entries e Q = unat max_entries"
      and v: "victims max_entries e Q = take (c - unat max_entries) (others e Q)"
      using True by (simp_all add: new_count_def victims_def c_def)
    have "(of_nat c :: u64) - of_nat (c - unat max_entries) = of_nat (unat max_entries)"
      using True by (simp add: of_nat_diff)
    then show ?thesis
      unfolding step evicted_word(1) [OF c] evicted_word(2) [OF c True] it evict_loop_queue [OF rest n] len nc v
      using True by (simp add: batch_def)
  qed
qed

section \<open>Writing implements the queue operation\<close>

text \<open>The abstract operation: forget the older row of the entry, drop the oldest entries that do not
  fit beside the new one, and file the new row by its time.\<close>

definition fifo_put :: "u64 \<Rightarrow> string \<Rightarrow> u64 \<Rightarrow> bytes \<Rightarrow> queue \<Rightarrow> queue" where
  "fifo_put max_entries kind t e Q =
     insort_key (okey kind) (t, e) (drop (length (others e Q) + 1 - unat max_entries) (others e Q))"

lemma set_drop_distinct: "distinct xs \<Longrightarrow> set (drop n xs) = set xs - set (take n xs)"
proof -
  assume "distinct xs"
  then have "set (take n xs) \<inter> set (drop n xs) = {}" by (intro set_take_disj_set_drop_if_distinct) auto
  moreover have "set xs = set (take n xs) \<union> set (drop n xs)" by (metis append_take_drop_id set_append)
  ultimately show ?thesis by blast
qed

lemma set_fifo_put:
  assumes "distinct (map snd Q)"
  shows "set (fifo_put max_entries kind t e Q) =
    insert (t, e) ({te \<in> set Q. snd te \<noteq> e} - set (victims max_entries e Q))"
proof -
  have "distinct (others e Q)" using distinct_others [OF assms] by (simp add: distinct_map)
  then show ?thesis
    by (simp add: fifo_put_def victims_def set_insort_key set_drop_distinct set_others)
qed

lemma victims_subset: "te \<in> set (victims max_entries e Q) \<Longrightarrow> te \<in> set Q \<and> snd te \<noteq> e"
  by (auto simp: victims_def others_def dest: in_set_takeD)

lemma length_fifo_put:
  "1 \<le> unat max_entries \<Longrightarrow> length (fifo_put max_entries kind t e Q) = new_count max_entries e Q"
  by (auto simp: fifo_put_def new_count_def)

lemma superseded_effect:
  "apply_batch m (superseded kind e Q) k =
     (if \<exists>s. pos_of Q e = Some s \<and> k = okey kind (s, e) then None else m k)"
  by (auto simp: superseded_def split: option.splits)

lemma put_batch_effect:
  "apply_batch m (superseded kind e Q @
      [Put e bs, Put (fifo_pos_key e) x, Put (okey kind (t, e)) []] @ deletions kind V @
      [Put (fifo_count_key kind) z]) k =
   (if k = fifo_count_key kind then Some z
    else if \<exists>te\<in>set V. k = snd te \<or> k = fifo_pos_key (snd te) \<or> k = okey kind te then None
    else if k = okey kind (t, e) then Some []
    else if k = fifo_pos_key e then Some x
    else if k = e then Some bs
    else if \<exists>s. pos_of Q e = Some s \<and> k = okey kind (s, e) then None
    else m k)"
  by (simp add: apply_deletions superseded_effect)

lemma distinct_map_insort:
  "distinct (map g (insort_key f x xs)) \<longleftrightarrow> g x \<notin> g ` set xs \<and> distinct (map g xs)"
  by (induction xs) (auto simp: set_insort_key)

lemma sorted_fifo_put:
  assumes "sorted_wrt (<) (map (okey kind) Q)" "distinct (map snd Q)"
  shows "sorted_wrt (<) (map (okey kind) (fifo_put max_entries kind t e Q))"
    and "distinct (map snd (fifo_put max_entries kind t e Q))"
proof -
  let ?D = "drop (length (others e Q) + 1 - unat max_entries) (others e Q)"
  have notin: "e \<notin> snd ` set ?D" by (auto simp: others_def dest: in_set_dropD)
  have d: "distinct (map snd ?D)"
    using distinct_others [OF assms(2)] by (simp flip: drop_map)
  have "sorted_wrt (<) (map (okey kind) (others e Q))"
    using assms(1) by (simp add: others_def sorted_wrt_map sorted_wrt_filter)
  then have s: "sorted_wrt (<) (map (okey kind) ?D)"
    by (simp add: sorted_wrt_drop flip: drop_map)
  show d': "distinct (map snd (fifo_put max_entries kind t e Q))"
    unfolding fifo_put_def distinct_map_insort using notin d by simp
  have "sorted (map (okey kind) ?D)" using s by (simp add: strict_sorted_iff)
  then have "sorted (map (okey kind) (fifo_put max_entries kind t e Q))"
    unfolding fifo_put_def by (rule sorted_insort_key [THEN iffD2])
  moreover have "distinct (map (okey kind) (fifo_put max_entries kind t e Q))"
    using d' by (simp add: distinct_map inj_on_def)
  ultimately show "sorted_wrt (<) (map (okey kind) (fifo_put max_entries kind t e Q))"
    by (simp add: strict_sorted_iff)
qed

lemma pos_of_eqI: "(\<And>t. pos_of Q e = Some t \<longleftrightarrow> x = Some t) \<Longrightarrow> pos_of Q e = x"
  by (metis option.exhaust)

lemma pos_of_fifo_put:
  assumes "sorted_wrt (<) (map (okey kind) Q)" "distinct (map snd Q)"
  shows "pos_of (fifo_put max_entries kind t e Q) x =
    (if x = e then Some t else if x \<in> snd ` set (victims max_entries e Q) then None else pos_of Q x)"
proof (rule pos_of_eqI)
  fix s
  have v: "(s', x) \<in> set (victims max_entries e Q) \<longleftrightarrow> (s', x) \<in> set Q"
    if xv: "x \<in> snd ` set (victims max_entries e Q)" for s'
  proof -
    obtain s'' where s: "(s'', x) \<in> set (victims max_entries e Q)" using xv by auto
    then have "(s'', x) \<in> set Q" using victims_subset by blast
    then show ?thesis using s victims_subset pos_of_Some [OF assms(2)] by (metis option.inject)
  qed
  show "pos_of (fifo_put max_entries kind t e Q) x = Some s \<longleftrightarrow>
      (if x = e then Some t else if x \<in> snd ` set (victims max_entries e Q) then None else pos_of Q x) = Some s"
    unfolding pos_of_Some [OF sorted_fifo_put(2) [OF assms]] set_fifo_put [OF assms(2)]
    using v victims_subset by (force simp: pos_of_Some [OF assms(2)])
qed

definition put_batch :: "u64 \<Rightarrow> string \<Rightarrow> bytes \<Rightarrow> bytes \<Rightarrow> u64 \<Rightarrow> queue \<Rightarrow> batch_op list" where
  "put_batch max_entries kind e bs t Q =
     superseded kind e Q @
     [Put e bs, Put (fifo_pos_key e) (to_be_bytes t), Put (okey kind (t, e)) []] @
     deletions kind (victims max_entries e Q) @
     [Put (fifo_count_key kind) (to_be_bytes (of_nat (new_count max_entries e Q)))]"

lemma okey_apart [simp]:
  "okey kind te \<noteq> fifo_pos_key x" "fifo_pos_key x \<noteq> okey kind te"
  "okey kind te \<noteq> fifo_count_key k" "fifo_count_key k \<noteq> okey kind te"
  by (simp_all add: okey_def)

lemma put_batch_inv:
  assumes inv: "fifo_inv kind m Q" and kind: "kind \<in> set BOUNDED_KINDS"
    and e: "starts_with e (as_bytes kind)" and mx: "1 \<le> unat max_entries" "length Q + 1 < 2 ^ 64"
  shows "fifo_inv kind (apply_batch m (put_batch max_entries kind e bs t Q)) (fifo_put max_entries kind t e Q)"
    and "apply_batch m (put_batch max_entries kind e bs t Q) e = Some bs"
proof -
  let ?m = "apply_batch m (put_batch max_entries kind e bs t Q)" and ?V = "victims max_entries e Q"
    and ?Q = "fifo_put max_entries kind t e Q"
  note I = fifo_invD [OF inv]
  have V: "te \<in> set Q" "snd te \<noteq> e" "starts_with (snd te) (as_bytes kind)" if "te \<in> set ?V" for te
    using victims_subset [OF that] I(3) by auto
  note apart = entry_apart [OF kind]
  have eff: "?m k = (if k = fifo_count_key kind then Some (to_be_bytes (of_nat (new_count max_entries e Q)))
    else if \<exists>te\<in>set ?V. k = snd te \<or> k = fifo_pos_key (snd te) \<or> k = okey kind te then None
    else if k = okey kind (t, e) then Some []
    else if k = fifo_pos_key e then Some (to_be_bytes t)
    else if k = e then Some bs
    else if \<exists>s. pos_of Q e = Some s \<and> k = okey kind (s, e) then None
    else m k)" for k
    unfolding put_batch_def by (rule put_batch_effect)
  have "\<not> (\<exists>te\<in>set ?V. e = snd te \<or> e = fifo_pos_key (snd te) \<or> e = okey kind te)"
    using V(2) apart(1,2) [OF e] unfolding okey_def by blast
  then show me: "?m e = Some bs"
    using apart(1-3) [OF e] by (simp add: eff okey_def)
  have order: "?m k \<noteq> None \<longleftrightarrow> k \<in> okey kind ` set ?Q" if "starts_with k (fifo_order_prefix kind)" for k
  proof -
    have k: "k \<noteq> fifo_count_key kind" "k \<noteq> fifo_pos_key x" "k \<noteq> e" for x using that apart [OF e] by auto
    have kV: "k \<noteq> snd te" if "te \<in> set ?V" for te using apart(4) [OF V(3) [OF that]] \<open>starts_with k _\<close> by auto
    have te: "(s, e) \<notin> set ?V" for s using V(2) by force
    show ?thesis
      unfolding eff set_fifo_put [OF I(2)] using k kV I(4) [OF that] V(1) te
      by (auto simp: pos_of_Some [OF I(2)])
  qed
  have entry: "?m x \<noteq> None \<longleftrightarrow> x \<in> snd ` set ?Q" if x: "starts_with x (as_bytes kind)" for x
  proof -
    have "?m x = (if x \<in> snd ` set ?V then None else if x = e then Some bs else m x)"
      unfolding eff using apart(1-3) [OF x] by (auto simp: okey_def)
    moreover have "x \<in> snd ` set ?Q \<longleftrightarrow> x = e \<or> x \<notin> snd ` set ?V \<and> x \<in> snd ` set Q"
      using pos_of_None pos_of_fifo_put [OF I(1,2)] by (metis not_None_eq)
    ultimately show ?thesis using I(6) [OF x] V(2) by auto
  qed
  have pos: "?m (fifo_pos_key x) = map_option to_be_bytes (pos_of ?Q x)" if x: "starts_with x (as_bytes kind)" for x
  proof -
    have kV: "fifo_pos_key x \<noteq> snd te" if "te \<in> set ?V" for te using apart(1) [OF V(3) [OF that], of x] by simp
    have kE: "fifo_pos_key x \<noteq> e" using apart(1) [OF e, of x] by simp
    have "?m (fifo_pos_key x) =
        (if x \<in> snd ` set ?V then None else if x = e then Some (to_be_bytes t) else m (fifo_pos_key x))"
      unfolding eff using kV kE by auto
    then show ?thesis
      unfolding pos_of_fifo_put [OF I(1,2)] using I(5) [OF x] V(2) by auto
  qed
  have "length ?Q < 2 ^ 64"
    unfolding length_fifo_put [OF mx(1)] new_count_def using unsigned_less [of max_entries, where ?'a = nat] by simp
  moreover have "?m (fifo_count_key kind) = Some (to_be_bytes (of_nat (length ?Q)))"
    by (simp add: eff length_fifo_put [OF mx(1)])
  moreover have "\<forall>te\<in>set ?Q. starts_with (snd te) (as_bytes kind)"
    unfolding set_fifo_put [OF I(2)] using e I(3) by auto
  ultimately show "fifo_inv kind ?m ?Q"
    unfolding fifo_inv_def using sorted_fifo_put [OF I(1,2)] order entry pos by blast
qed

section \<open>Frames\<close>

text \<open>The keys that the index of a kind and its entries live under.\<close>

definition fifo_area :: "string \<Rightarrow> bytes \<Rightarrow> bool" where
  "fifo_area kind k \<longleftrightarrow>
     starts_with k (fifo_order_prefix kind) \<or> starts_with k (as_bytes kind) \<or> k = fifo_count_key kind \<or>
     (\<exists>e. k = fifo_pos_key e \<and> starts_with e (as_bytes kind))"

lemma fifo_inv_frame:
  assumes "fifo_inv kind m Q" "\<And>k. fifo_area kind k \<Longrightarrow> m' k = m k"
  shows "fifo_inv kind m' Q"
proof -
  have "m' k = m k" if "starts_with k (fifo_order_prefix kind)" for k
    using assms(2) that by (simp add: fifo_area_def)
  moreover have "m' (fifo_pos_key e) = m (fifo_pos_key e)" "m' e = m e" if "starts_with e (as_bytes kind)" for e
    using assms(2) that by (auto simp: fifo_area_def)
  moreover have "m' (fifo_count_key kind) = m (fifo_count_key kind)"
    using assms(2) by (simp add: fifo_area_def)
  ultimately show ?thesis
    using assms(1) unfolding fifo_inv_def by simp
qed

lemma bounded_kinds_apart:
  assumes "kind \<in> set BOUNDED_KINDS" "kind' \<in> set BOUNDED_KINDS" "kind \<noteq> kind'"
  shows "\<not> (starts_with k (as_bytes kind) \<and> starts_with k (as_bytes kind'))"
  using assms by (auto simp: bounded_kind_cases kind_bytes starts_with_iff)

lemma order_prefix_apart:
  assumes "kind \<in> set BOUNDED_KINDS" "kind' \<in> set BOUNDED_KINDS" "kind \<noteq> kind'"
  shows "\<not> (starts_with k (fifo_order_prefix kind) \<and> starts_with k (fifo_order_prefix kind'))"
proof -
  have "starts_with k (fifo_order_prefix x) \<Longrightarrow> starts_with (drop 5 k) (as_bytes x)" for x
    by (auto simp: fifo_order_prefix_def index_prefix_bytes starts_with_iff)
  then show ?thesis using bounded_kinds_apart [OF assms] by blast
qed

lemma count_key_inj [simp]: "fifo_count_key k = fifo_count_key k' \<longleftrightarrow> k = k'"
  by (simp add: fifo_count_key_def)

lemma fifo_area_apart:
  assumes "kind \<in> set BOUNDED_KINDS" "kind' \<in> set BOUNDED_KINDS" "kind \<noteq> kind'" "fifo_area kind k"
  shows "\<not> fifo_area kind' k"
  using assms(4) unfolding fifo_area_def
  using bounded_kinds_apart [OF assms(1-3)] order_prefix_apart [OF assms(1-3)] assms(3)
    entry_apart [OF assms(1)] entry_apart [OF assms(2)] rows_apart
  by (elim disjE) (metis pos_key_inj count_key_inj)+

lemma put_batch_area:
  assumes "fifo_inv kind m Q" "starts_with e (as_bytes kind)" "op \<in> set (put_batch max_entries kind e bs t Q)"
  shows "fifo_area kind (op_key op)"
proof -
  have "starts_with (snd te) (as_bytes kind)" if "te \<in> set (victims max_entries e Q)" for te
    using victims_subset [OF that] fifo_invD(3) [OF assms(1)] by blast
  then show ?thesis
    using assms(2,3)
    by (auto simp: put_batch_def deletions_def victim_rows_def fifo_area_def superseded_def split: option.splits)
qed

lemma fifo_inv_other:
  assumes "fifo_inv kind' m Q'" "kind \<in> set BOUNDED_KINDS" "kind' \<in> set BOUNDED_KINDS" "kind \<noteq> kind'"
    and "\<And>op. op \<in> set ops \<Longrightarrow> fifo_area kind (op_key op)"
  shows "fifo_inv kind' (apply_batch m ops) Q'"
proof (rule fifo_inv_frame [OF assms(1)])
  fix k assume "fifo_area kind' k"
  then have "k \<notin> op_key ` set ops" using assms(2-5) fifo_area_apart by blast
  then show "apply_batch m ops k = m k" by (rule apply_batch_frame)
qed

section \<open>Removing entries\<close>

lemma pos_of_filter:
  assumes "distinct (map snd Q)"
  shows "pos_of (filter P Q) x = (case pos_of Q x of Some s \<Rightarrow> if P (s, x) then Some s else None | None \<Rightarrow> None)"
proof (rule pos_of_eqI)
  fix t
  have "distinct (map snd (filter P Q))" using assms by (rule distinct_map_filter)
  then have "pos_of (filter P Q) x = Some t \<longleftrightarrow> pos_of Q x = Some t \<and> P (t, x)"
    by (simp add: pos_of_Some assms)
  then show "pos_of (filter P Q) x = Some t \<longleftrightarrow>
      (case pos_of Q x of Some s \<Rightarrow> if P (s, x) then Some s else None | None \<Rightarrow> None) = Some t"
    by (auto split: option.splits if_splits)
qed

lemma remove_inv:
  assumes inv: "fifo_inv kind m Q" and kind: "kind \<in> set BOUNDED_KINDS" and D: "D \<subseteq> set Q"
    and eff: "\<And>k. m' k = (if k = fifo_count_key kind
          then Some (to_be_bytes (of_nat (length (filter (\<lambda>te. te \<notin> D) Q))))
        else if \<exists>te\<in>D. k = snd te \<or> k = fifo_pos_key (snd te) \<or> k = okey kind te then None else m k)"
  shows "fifo_inv kind m' (filter (\<lambda>te. te \<notin> D) Q)"
proof -
  let ?Q = "filter (\<lambda>te. te \<notin> D) Q"
  note I = fifo_invD [OF inv]
  note apart = entry_apart [OF kind]
  have Dk: "starts_with (snd te) (as_bytes kind)" if "te \<in> D" for te using that D I(3) by blast
  have uniq: "te = te'" if "te \<in> set Q" "te' \<in> set Q" "snd te = snd te'" for te te'
    using that I(2) by (auto simp: distinct_map inj_on_def)
  have order: "m' k \<noteq> None \<longleftrightarrow> k \<in> okey kind ` set ?Q" if k: "starts_with k (fifo_order_prefix kind)" for k
  proof -
    have "m' k = (if k \<in> okey kind ` D then None else m k)"
      unfolding eff using k apart(4) [OF Dk] by auto
    then show ?thesis using I(4) [OF k] D by auto
  qed
  have entry: "m' x \<noteq> None \<longleftrightarrow> x \<in> snd ` set ?Q" if x: "starts_with x (as_bytes kind)" for x
  proof -
    have "m' x = (if x \<in> snd ` D then None else m x)"
      unfolding eff using apart(1-3) [OF x] by (auto simp: okey_def)
    moreover have "x \<in> snd ` set ?Q \<longleftrightarrow> x \<in> snd ` set Q \<and> x \<notin> snd ` D"
      unfolding set_filter using D uniq by blast
    ultimately show ?thesis using I(6) [OF x] by simp
  qed
  have pos: "m' (fifo_pos_key x) = map_option to_be_bytes (pos_of ?Q x)" if x: "starts_with x (as_bytes kind)" for x
  proof -
    have kD: "fifo_pos_key x \<noteq> snd te" if "te \<in> D" for te using apart(1) [OF Dk [OF that], of x] by simp
    have "m' (fifo_pos_key x) = (if x \<in> snd ` D then None else m (fifo_pos_key x))"
      unfolding eff using kD by auto
    moreover have "x \<in> snd ` D \<longleftrightarrow> (s, x) \<in> D" if s: "pos_of Q x = Some s" for s
    proof
      assume "x \<in> snd ` D"
      then obtain te where te: "te \<in> D" "snd te = x" by blast
      moreover have "(s, x) \<in> set Q" using s pos_of_Some [OF I(2)] by blast
      ultimately show "(s, x) \<in> D" using uniq [of te "(s, x)"] D by auto
    next
      assume "(s, x) \<in> D"
      then show "x \<in> snd ` D" by force
    qed
    moreover have "x \<notin> snd ` D" if "pos_of Q x = None"
      using that D by (auto simp: pos_of_None)
    ultimately show ?thesis
      unfolding pos_of_filter [OF I(2)] using I(5) [OF x] by (auto split: option.splits)
  qed
  have "sorted_wrt (<) (map (okey kind) ?Q)" using I(1) by (simp add: sorted_wrt_map sorted_wrt_filter)
  moreover have "distinct (map snd ?Q)" using I(2) by (rule distinct_map_filter)
  moreover have "length ?Q < 2 ^ 64" using I(8) by (rule le_less_trans [OF length_filter_le])
  moreover have "m' (fifo_count_key kind) = Some (to_be_bytes (of_nat (length ?Q)))" by (simp add: eff)
  ultimately show ?thesis
    unfolding fifo_inv_def using order entry pos I(3) by simp
qed

section \<open>Deleting and sweeping implement the queue operations\<close>

lemma find_kind:
  assumes "kind \<in> set BOUNDED_KINDS" "starts_with key kind"
  shows "find (\<lambda>kind. starts_with key kind) BOUNDED_KINDS = Some kind"
proof -
  have "starts_with key kind' \<longleftrightarrow> kind' = kind" if "kind' \<in> set BOUNDED_KINDS" for kind'
    using bounded_kinds_apart [OF assms(1) that, of "as_bytes key"] assms(2) by auto
  then show ?thesis using assms(1) by (auto simp: BOUNDED_KINDS_def)
qed

lemma unindex_queue:
  assumes "rocks_ok R view" "reads_reliable R" "fifo_inv kind (view db) Q" "starts_with e (as_bytes kind)"
  shows "unindex R db kind e =
    (case pos_of Q e of
       Some s \<Rightarrow> ([Del (okey kind (s, e)), Del (fifo_pos_key e)], True) | None \<Rightarrow> ([], False))"
  using fifo_invD(5) [OF assms(3,4)]
  by (auto simp: unindex_def rk_get_reliable [OF assms(1,2)] okey_def split: option.splits)

lemma saturating_sub_of_nat:
  assumes "b \<le> a" "a < 2 ^ 64"
  shows "saturating_sub (of_nat a) (of_nat b) = of_nat (a - b)"
proof -
  have "unat (of_nat a :: u64) = a" "unat (of_nat b :: u64) = b"
    using assms by (simp_all add: u64_unat_of_nat)
  then have "\<not> (of_nat a :: u64) < of_nat b" using assms by (simp add: word_less_nat_alt)
  then show ?thesis using assms by (simp add: saturating_sub_def of_nat_diff)
qed

lemma others_filter: "others e Q = filter (\<lambda>te. te \<notin> {te \<in> set Q. snd te = e}) Q"
  by (simp add: others_def cong: filter_cong)

lemma delete_key_queue:
  assumes "rocks_ok R view" "reads_reliable R" "kind \<in> set BOUNDED_KINDS" "starts_with key kind"
    and inv: "fifo_inv kind (view db) Q"
  shows "\<exists>ops. delete_key R db key = write_batch R db ops \<and>
    (\<forall>op\<in>set ops. fifo_area kind (op_key op)) \<and> apply_batch (view db) ops (as_bytes key) = None \<and>
    fifo_inv kind (apply_batch (view db) ops) (others (as_bytes key) Q)"
proof -
  let ?e = "as_bytes key" and ?m = "view db"
  have e: "starts_with ?e (as_bytes kind)" using assms(4) by simp
  note I = fifo_invD [OF inv] and del = delete_key_def find_kind [OF assms(3,4)] unindex_queue [OF assms(1,2) inv e]
  show ?thesis
  proof (cases "pos_of Q ?e")
    case None
    then have q: "?e \<notin> snd ` set Q" by (simp add: pos_of_None)
    then have none: "?m ?e = None" using I(6) [OF e] by blast
    then have "apply_batch ?m [Del ?e] = ?m" by auto
    moreover have "delete_key R db key = write_batch R db [Del ?e]" using None by (simp add: del)
    ultimately show ?thesis
      using inv others_notin [OF q] e none by (intro exI [of _ "[Del ?e]"]) (simp add: fifo_area_def)
  next
    case (Some s)
    let ?ops = "[Del ?e, Del (okey kind (s, ?e)), Del (fifo_pos_key ?e),
      Put (fifo_count_key kind) (to_be_bytes (of_nat (length (others ?e Q))))]"
    have se: "(s, ?e) \<in> set Q" using Some pos_of_Some [OF I(2)] by blast
    then have len: "length Q = length (others ?e Q) + 1" using length_others [OF I(2)] by force
    have "delete_key R db key = write_batch R db ?ops"
      using Some saturating_sub_of_nat [of 1 "length Q"] len I(8)
      by (simp add: del fifo_count [OF assms(1,2) inv])
    moreover have D: "{te \<in> set Q. snd te = ?e} = {(s, ?e)}"
      by (rule snd_class [OF I(2) se])
    have fl: "filter (\<lambda>te. te \<notin> {(s, ?e)}) Q = others ?e Q"
      using others_filter [of ?e Q] unfolding D by simp
    have "fifo_inv kind (apply_batch ?m ?ops) (filter (\<lambda>te. te \<notin> {(s, ?e)}) Q)"
      by (rule remove_inv [OF inv assms(3)]) (use se fl in simp_all)
    then have "fifo_inv kind (apply_batch ?m ?ops) (others ?e Q)" unfolding fl .
    moreover have "apply_batch ?m ?ops ?e = None" using entry_apart(1-3) [OF assms(3) e] by (simp add: okey_def)
    ultimately show ?thesis
      using e by (intro exI [of _ ?ops]) (simp add: fifo_area_def)
  qed
qed

definition sweep_ops :: "'db rocks \<Rightarrow> 'db \<Rightarrow> string \<Rightarrow> bytes list \<Rightarrow> batch_op list" where
  "sweep_ops R db kind ks = concat (map (\<lambda>k. Del k # fst (unindex R db kind k)) ks)"

lemma sweep_loop_keys:
  assumes "\<forall>k\<in>set ks. starts_with k pre" "rest = [] \<or> \<not> starts_with (hd rest) pre"
  shows "sweep_loop R db dead pre (Some kind) batch swept unindexed (map (\<lambda>k. Inr (k, f k)) (ks @ rest)) =
    (let dk = filter (\<lambda>k. dead (f k)) ks
     in Inr (batch @ sweep_ops R db kind dk, swept + length dk,
             unindexed + of_nat (length (filter (\<lambda>k. snd (unindex R db kind k)) dk))))"
  using assms(1)
proof (induction ks arbitrary: batch swept unindexed)
  case Nil
  then show ?case using assms(2) by (cases rest) (auto simp: sweep_ops_def)
next
  case (Cons k ks)
  then show ?case
    by (cases "unindex R db kind k") (auto simp: Let_def sweep_ops_def algebra_simps)
qed

lemma iter_split:
  assumes "rocks_ok R view" "reads_reliable R"
  shows "\<exists>rest. rk_iter R db p = map (\<lambda>k. Inr (k, the (view db k))) (keys_with (view db) p @ rest) \<and>
    (rest = [] \<or> \<not> starts_with (hd rest) p)"
proof -
  let ?ks = "keys_from (view db) p" and ?rest = "dropWhile (\<lambda>k. starts_with k p) (keys_from (view db) p)"
  have "?ks = keys_with (view db) p @ ?rest"
    using takeWhile_keys_from [OF rocks_okD(1) [OF assms(1)]] by (metis takeWhile_dropWhile_id)
  moreover have "rk_iter R db p = map (\<lambda>k. Inr (k, the (view db k))) ?ks"
    by (simp add: rk_iter_reliable [OF assms] iter_of_def)
  ultimately have "rk_iter R db p = map (\<lambda>k. Inr (k, the (view db k))) (keys_with (view db) p @ ?rest)"
    by simp
  then show ?thesis using hd_dropWhile by blast
qed

definition dead_rows :: "(bytes \<Rightarrow> bool) \<Rightarrow> kv \<Rightarrow> queue \<Rightarrow> queue" where
  "dead_rows dead m Q = filter (\<lambda>te. dead (the (m (snd te)))) Q"

definition live_rows :: "(bytes \<Rightarrow> bool) \<Rightarrow> kv \<Rightarrow> queue \<Rightarrow> queue" where
  "live_rows dead m Q = filter (\<lambda>te. \<not> dead (the (m (snd te)))) Q"

lemma dead_keys_length:
  assumes "distinct (map snd Q)" "distinct ks" "set ks = snd ` set Q"
  shows "length (filter P ks) = length (filter (\<lambda>te. P (snd te)) Q)"
proof -
  have "length (filter P ks) = card (set (filter P ks))"
    using distinct_card [of "filter P ks"] assms(2) by (simp del: set_filter)
  also have "set (filter P ks) = snd ` set (filter (\<lambda>te. P (snd te)) Q)" using assms(3) by auto
  also have "card \<dots> = length (map snd (filter (\<lambda>te. P (snd te)) Q))"
    using distinct_card [of "map snd (filter (\<lambda>te. P (snd te)) Q)"] assms(1) by (simp add: distinct_map_filter)
  finally show ?thesis by simp
qed

lemma entry_listing:
  assumes "fifo_inv kind m Q" "finite (dom m)"
  shows "set (keys_with m (as_bytes kind)) = snd ` set Q" "distinct (keys_with m (as_bytes kind))"
proof -
  have fin: "finite {k \<in> dom m. starts_with k (as_bytes kind)}" using assms(2) by simp
  have "{k \<in> dom m. starts_with k (as_bytes kind)} = snd ` set Q"
  proof (intro set_eqI iffI)
    fix k assume "k \<in> {k \<in> dom m. starts_with k (as_bytes kind)}"
    then show "k \<in> snd ` set Q" using fifo_invD(6) [OF assms(1), of k] by blast
  next
    fix k assume k: "k \<in> snd ` set Q"
    then have "starts_with k (as_bytes kind)" using fifo_invD(3) [OF assms(1)] by blast
    with k show "k \<in> {k \<in> dom m. starts_with k (as_bytes kind)}" using fifo_invD(6) [OF assms(1), of k] by blast
  qed
  with fin show "set (keys_with m (as_bytes kind)) = snd ` set Q" by (simp add: keys_with_def)
  show "distinct (keys_with m (as_bytes kind))" by (simp add: keys_with_def)
qed

lemma sweep_ops_dels:
  assumes "rocks_ok R view" "reads_reliable R" "fifo_inv kind (view db) Q" "set ks \<subseteq> snd ` set Q"
  shows "\<exists>dels. sweep_ops R db kind ks = map Del dels \<and>
    set dels = (\<Union>te\<in>{te \<in> set Q. snd te \<in> set ks}. {snd te, fifo_pos_key (snd te), okey kind te}) \<and>
    (\<forall>k\<in>set ks. snd (unindex R db kind k))"
  using assms(4)
proof (induction ks)
  case Nil
  then show ?case by (simp add: sweep_ops_def)
next
  case (Cons k ks)
  then obtain dels where IH: "sweep_ops R db kind ks = map Del dels"
      "set dels = (\<Union>te\<in>{te \<in> set Q. snd te \<in> set ks}. {snd te, fifo_pos_key (snd te), okey kind te})"
      "\<forall>k\<in>set ks. snd (unindex R db kind k)" by auto
  obtain s where s: "(s, k) \<in> set Q" using Cons.prems by auto
  note I = fifo_invD [OF assms(3)]
  have k: "starts_with k (as_bytes kind)" using I(3) [OF s] by simp
  have "pos_of Q k = Some s" using s pos_of_Some [OF I(2)] by simp
  then have u: "unindex R db kind k = ([Del (okey kind (s, k)), Del (fifo_pos_key k)], True)"
    using unindex_queue [OF assms(1-3) k] by simp
  have "{te \<in> set Q. snd te \<in> set (k # ks)} = {te \<in> set Q. snd te = k} \<union> {te \<in> set Q. snd te \<in> set ks}"
    by auto
  also have "\<dots> = insert (s, k) {te \<in> set Q. snd te \<in> set ks}"
    unfolding snd_class [OF I(2) s] by simp
  finally have "{te \<in> set Q. snd te \<in> set (k # ks)} = insert (s, k) {te \<in> set Q. snd te \<in> set ks}" .
  then show ?case
    using IH u by (intro exI [of _ "[k, okey kind (s, k), fifo_pos_key k] @ dels"]) (auto simp: sweep_ops_def)
qed

lemma sweep_prefix_queue:
  fixes C :: "'r codec" and expired :: "'r \<Rightarrow> bool"
  assumes "rocks_ok R view" "reads_reliable R" "kind \<in> set BOUNDED_KINDS" and inv: "fifo_inv kind (view db) Q"
  defines "D \<equiv> dead_rows (is_dead C expired) (view db) Q" and "L \<equiv> live_rows (is_dead C expired) (view db) Q"
  shows "if D = [] then sweep_prefix R C db kind expired = Inr (0, db)
    else \<exists>ops. sweep_prefix R C db kind expired =
        and_then (write_batch R db ops) (\<lambda>db. Inr (length D, db)) \<and>
      (\<forall>op\<in>set ops. fifo_area kind (op_key op)) \<and> fifo_inv kind (apply_batch (view db) ops) L"
proof -
  let ?m = "view db" and ?ks = "keys_with (view db) (as_bytes kind)"
  let ?dk = "filter (\<lambda>k. is_dead C expired (the (?m k))) ?ks"
  note I = fifo_invD [OF inv] and fin = rocks_okD(1) [OF assms(1), of db]
  note ks = entry_listing [OF inv fin]
  have pre: "\<forall>k\<in>set ?ks. starts_with k (as_bytes kind)" unfolding ks(1) using I(3) by auto
  obtain rest where it: "rk_iter R db (as_bytes kind) = map (\<lambda>k. Inr (k, the (?m k))) (?ks @ rest)"
    and rest: "rest = [] \<or> \<not> starts_with (hd rest) (as_bytes kind)"
    using iter_split [OF assms(1,2)] by blast
  have sub: "set ?dk \<subseteq> snd ` set Q" using ks(1) by auto
  obtain dels where dels: "sweep_ops R db kind ?dk = map Del dels"
    "set dels = (\<Union>te\<in>{te \<in> set Q. snd te \<in> set ?dk}. {snd te, fifo_pos_key (snd te), okey kind te})"
    and ix: "\<forall>k\<in>set ?dk. snd (unindex R db kind k)"
    using sweep_ops_dels [OF assms(1,2) inv sub] by blast
  have Dset: "{te \<in> set Q. snd te \<in> set ?dk} = set D"
    using ks(1) by (auto simp: D_def dead_rows_def)
  have len: "length ?dk = length D"
    unfolding D_def dead_rows_def by (rule dead_keys_length [OF I(2) ks(2,1)])
  have fk: "find (\<lambda>k. k = kind) BOUNDED_KINDS = Some kind"
    using assms(3) by (auto simp: BOUNDED_KINDS_def)
  have loop: "sweep_loop R db (is_dead C expired) (as_bytes kind) (Some kind) [] 0 0 (rk_iter R db (as_bytes kind)) =
      Inr (map Del dels, length D, of_nat (length D))"
    unfolding it sweep_loop_keys [OF pre rest] Let_def filter_True [OF ix] dels(1) len by simp
  have DQ: "length D \<le> length Q" by (simp add: D_def dead_rows_def)
  show ?thesis
  proof (cases "D = []")
    case True
    then show ?thesis by (simp add: sweep_prefix_def fk loop)
  next
    case False
    let ?ops = "map Del dels @ [Put (fifo_count_key kind) (to_be_bytes (of_nat (length L)))]"
    have LD: "length L = length Q - length D"
      using sum_length_filter_compl [of "\<lambda>te. is_dead C expired (the (?m (snd te)))" Q]
      by (simp add: L_def D_def live_rows_def dead_rows_def)
    have "(of_nat (length D) :: u64) > 0"
      using False u64_of_nat_0 [of "length D"] DQ I(8) by (simp add: word_gt_0)
    then have "sweep_prefix R C db kind expired =
        and_then (write_batch R db ?ops) (\<lambda>db. Inr (length D, db))"
      using False saturating_sub_of_nat [OF DQ I(8)]
      by (simp add: sweep_prefix_def fk loop fifo_count [OF assms(1,2) inv] LD)
    moreover have area: "fifo_area kind (op_key op)" if "op \<in> set ?ops" for op
    proof -
      from that consider "op = Put (fifo_count_key kind) (to_be_bytes (of_nat (length L)))"
        | te where "te \<in> set Q" "op_key op \<in> {snd te, fifo_pos_key (snd te), okey kind te}"
        using dels(2) by auto
      then show ?thesis using I(3) by cases (auto simp: fifo_area_def)
    qed
    moreover have L: "L = filter (\<lambda>te. te \<notin> set D) Q"
      by (auto simp: L_def D_def live_rows_def dead_rows_def intro: filter_cong)
    have "fifo_inv kind (apply_batch ?m ?ops) L"
      unfolding L
    proof (rule remove_inv [OF inv assms(3)])
      show "set D \<subseteq> set Q" by (auto simp: D_def dead_rows_def)
      show "apply_batch ?m (map Del dels @ [Put (fifo_count_key kind)
            (to_be_bytes (of_nat (length (filter (\<lambda>te. te \<notin> set D) Q))))]) k =
          (if k = fifo_count_key kind then Some (to_be_bytes (of_nat (length (filter (\<lambda>te. te \<notin> set D) Q))))
           else if \<exists>te\<in>set D. k = snd te \<or> k = fifo_pos_key (snd te) \<or> k = okey kind te then None else ?m k)" for k
        using dels(2) [unfolded Dset] by (simp add: apply_dels)
    qed
    ultimately show ?thesis using False by auto
  qed
qed

section \<open>The bounded store\<close>

lemma bounded_batch_put_batch:
  assumes "rocks_ok R view" "reads_reliable R" "fifo_inv kind (view db) Q"
    and "starts_with e (as_bytes kind)" "length Q + 1 < 2 ^ 64" "1 \<le> unat max_entries"
  shows "bounded_batch R db max_entries kind e bs t = Inr (put_batch max_entries kind e bs t Q)"
  using bounded_batch_queue [OF assms] by (simp add: put_batch_def)

lemma put_bounded_unfold:
  fixes now :: u64
  assumes "rocks_ok R view" "reads_reliable R" "fifo_inv kind (view (st_db st)) Q"
    and "starts_with entry_key kind" "length Q + 1 < 2 ^ 64" "1 \<le> unat (st_max st)" "enc C val = Some bs"
  defines "t \<equiv> max now (saturating_add (st_last st) 1)"
  shows "put_bounded R C now st kind entry_key val =
    (case write_batch R (st_db st) (put_batch (st_max st) kind (as_bytes entry_key) bs t Q) of
       Inl e \<Rightarrow> (Inl e, st\<lparr>st_last := t\<rparr>)
     | Inr db \<Rightarrow> (Inr (), st\<lparr>st_last := t, st_db := db\<rparr>))"
proof -
  have e: "starts_with (as_bytes entry_key) (as_bytes kind)" using assms(4) by simp
  show ?thesis
    using bounded_batch_put_batch [OF assms(1,2,3) e assms(5,6), of bs t]
    by (simp add: put_bounded_def assms(7) Let_def flip: t_def)
qed


lemma empty_fifo_inv:
  "(\<And>k. fifo_area kind k \<Longrightarrow> m k = None) \<Longrightarrow> fifo_inv kind m []"
  by (simp add: fifo_inv_def fifo_area_def pos_of_def)

definition url_codec :: "amd_kds_record codec" where
  "url_codec = table_codec [(\<lparr>ar_url = ''u'', ar_body = [1], ar_content_type = None,
     ar_content_disposition = None, ar_fetched_at = 5\<rparr>, [42])]"


text \<open>The store as a state machine: the operations that touch a bounded kind, in any order, failed
  writes included.\<close>

inductive store_step :: "'db rocks \<Rightarrow> serde \<Rightarrow> 'db store \<Rightarrow> 'db store \<Rightarrow> bool" for R :: "'db rocks" and S where
  amd: "put_amd_kds R S now st r = (res, st') \<Longrightarrow> store_step R S st st'"
| rim: "put_nvidia_rim R S now st r = (res, st') \<Longrightarrow> store_step R S st st'"
| ocsp: "put_nvidia_ocsp R S now st o' = (res, st') \<Longrightarrow> store_step R S st st'"
| del: "kind \<in> set BOUNDED_KINDS \<Longrightarrow> starts_with key kind \<Longrightarrow> delete_key R (st_db st) key = Inr db \<Longrightarrow>
    store_step R S st (st\<lparr>st_db := db\<rparr>)"
| sweep_url: "kind \<in> {AMD_KDS, NVIDIA_RIM} \<Longrightarrow>
    sweep_prefix R (sd_url S) (st_db st) kind expired_url = Inr (n, db) \<Longrightarrow> store_step R S st (st\<lparr>st_db := db\<rparr>)"
| sweep_ocsp: "sweep_prefix R (sd_ocsp S) (st_db st) NVIDIA_OCSP expired_ocsp = Inr (n, db) \<Longrightarrow>
    store_step R S st (st\<lparr>st_db := db\<rparr>)"

definition store_inv :: "('db \<Rightarrow> kv) \<Rightarrow> 'db store \<Rightarrow> bool" where
  "store_inv view st \<longleftrightarrow>
     1 \<le> unat (st_max st) \<and> unat (st_max st) + 1 < 2 ^ 64 \<and>
     (\<forall>kind\<in>set BOUNDED_KINDS. \<exists>Q. fifo_inv kind (view (st_db st)) Q \<and> length Q \<le> unat (st_max st))"

lemma store_inv_batch:
  assumes "store_inv view st" "kind \<in> set BOUNDED_KINDS" "st_max st' = st_max st"
    and "view (st_db st') = apply_batch (view (st_db st)) ops"
    and "\<And>op. op \<in> set ops \<Longrightarrow> fifo_area kind (op_key op)"
    and "fifo_inv kind (view (st_db st')) Q" "length Q \<le> unat (st_max st)"
  shows "store_inv view st'"
proof -
  have "\<exists>Q. fifo_inv kind' (view (st_db st')) Q \<and> length Q \<le> unat (st_max st)"
    if k: "kind' \<in> set BOUNDED_KINDS" for kind'
  proof (cases "kind' = kind")
    case False
    obtain Q' where "fifo_inv kind' (view (st_db st)) Q'" "length Q' \<le> unat (st_max st)"
      using assms(1) k unfolding store_inv_def by blast
    then show ?thesis
      unfolding assms(4) using fifo_inv_other [OF _ assms(2) k _ assms(5)] False by blast
  qed (use assms(6,7) in blast)
  then show ?thesis using assms(1,3) by (simp add: store_inv_def)
qed

lemma store_inv_put:
  assumes "rocks_ok R view" "reads_reliable R" "store_inv view st" "kind \<in> set BOUNDED_KINDS"
    and "starts_with entry_key kind" "put_bounded R C now st kind entry_key val = (res, st')"
  shows "store_inv view st'"
proof (cases "enc C val")
  case None
  then show ?thesis using assms(3,6) by (simp add: put_bounded_def)
next
  case (Some bs)
  obtain Q where Q: "fifo_inv kind (view (st_db st)) Q" "length Q \<le> unat (st_max st)"
    and mx: "1 \<le> unat (st_max st)" "unat (st_max st) + 1 < 2 ^ 64"
    using assms(3,4) unfolding store_inv_def by blast
  let ?e = "as_bytes entry_key" and ?t = "max now (saturating_add (st_last st) 1)"
  let ?ops = "put_batch (st_max st) kind ?e bs ?t Q"
  have e: "starts_with ?e (as_bytes kind)" using assms(5) by simp
  have len: "length Q + 1 < 2 ^ 64" using Q(2) mx(2) by simp
  note unf = put_bounded_unfold [OF assms(1,2) Q(1) assms(5) len mx(1) Some, of now]
  show ?thesis
  proof (cases rule: rk_write_cases [OF assms(1), of "st_db st" ?ops])
    case 1
    then have "st' = st\<lparr>st_last := ?t\<rparr>" using assms(6) unf by (simp add: write_batch_def)
    then show ?thesis using assms(3) by (simp add: store_inv_def)
  next
    case (2 d')
    then have st': "st' = st\<lparr>st_last := ?t, st_db := d'\<rparr>" using assms(6) unf by (simp add: write_batch_def)
    show ?thesis
      by (rule store_inv_batch [OF assms(3,4), where ops = ?ops and Q = "fifo_put (st_max st) kind ?t ?e Q"])
        (use st' 2 put_batch_area [OF Q(1) e] put_batch_inv(1) [OF Q(1) assms(4) e mx(1) len]
           length_fifo_put [OF mx(1)] in \<open>simp_all add: new_count_def\<close>)
  qed
qed

lemma store_inv_delete:
  assumes "rocks_ok R view" "reads_reliable R" "store_inv view st" "kind \<in> set BOUNDED_KINDS"
    and "starts_with key kind" "delete_key R (st_db st) key = Inr db"
  shows "store_inv view (st\<lparr>st_db := db\<rparr>)"
proof -
  obtain Q where Q: "fifo_inv kind (view (st_db st)) Q" "length Q \<le> unat (st_max st)"
    using assms(3,4) unfolding store_inv_def by blast
  obtain ops where ops: "delete_key R (st_db st) key = write_batch R (st_db st) ops"
      "\<forall>op\<in>set ops. fifo_area kind (op_key op)"
      "fifo_inv kind (apply_batch (view (st_db st)) ops) (others (as_bytes key) Q)"
    using delete_key_queue [OF assms(1,2,4,5) Q(1)] by blast
  have v: "view db = apply_batch (view (st_db st)) ops"
    using ops(1) assms(6) write_batch_view [OF assms(1)] by simp
  have "length (others (as_bytes key) Q) \<le> unat (st_max st)"
    using Q(2) by (simp add: others_def le_trans [OF length_filter_le])
  with ops v show ?thesis
    by (intro store_inv_batch [OF assms(3,4), where ops = ops and Q = "others (as_bytes key) Q"]) auto
qed

lemma store_inv_sweep:
  assumes "rocks_ok R view" "reads_reliable R" "store_inv view st" "kind \<in> set BOUNDED_KINDS"
    and "sweep_prefix R C (st_db st) kind expired = Inr (n, db)"
  shows "store_inv view (st\<lparr>st_db := db\<rparr>)"
proof -
  obtain Q where Q: "fifo_inv kind (view (st_db st)) Q" "length Q \<le> unat (st_max st)"
    using assms(3,4) unfolding store_inv_def by blast
  let ?D = "dead_rows (is_dead C expired) (view (st_db st)) Q"
    and ?L = "live_rows (is_dead C expired) (view (st_db st)) Q"
  note sw = sweep_prefix_queue [OF assms(1,2,4) Q(1), of C expired]
  show ?thesis
  proof (cases "?D = []")
    case True
    then show ?thesis using sw assms(3,5) by simp
  next
    case False
    obtain ops where ops: "sweep_prefix R C (st_db st) kind expired =
        and_then (write_batch R (st_db st) ops) (\<lambda>db. Inr (length ?D, db))"
      "\<forall>op\<in>set ops. fifo_area kind (op_key op)" "fifo_inv kind (apply_batch (view (st_db st)) ops) ?L"
      using sw False by auto
    have "write_batch R (st_db st) ops = Inr db"
      using ops(1) assms(5) by (cases "write_batch R (st_db st) ops") simp_all
    then have v: "view db = apply_batch (view (st_db st)) ops" by (rule write_batch_view [OF assms(1)])
    have "length ?L \<le> unat (st_max st)"
      using Q(2) by (simp add: live_rows_def le_trans [OF length_filter_le])
    with ops v show ?thesis
      by (intro store_inv_batch [OF assms(3,4), where ops = ops and Q = ?L]) auto
  qed
qed

lemma readthrough_key_prefix:
  "starts_with (key_amd_kds u) AMD_KDS" "starts_with (key_nvidia_rim u) NVIDIA_RIM"
  "starts_with (key_nvidia_ocsp u) NVIDIA_OCSP"
  by (simp_all add: key_defs)

lemma store_step_inv:
  assumes "rocks_ok R view" "reads_reliable R" "store_step R S st st'" "store_inv view st"
  shows "store_inv view st'"
  using assms(3,4)
proof cases
  case amd
  then show ?thesis
    using store_inv_put [OF assms(1,2,4) _ readthrough_key_prefix(1)]
    by (auto simp: put_amd_kds_def BOUNDED_KINDS_def)
next
  case rim
  then show ?thesis
    using store_inv_put [OF assms(1,2,4) _ readthrough_key_prefix(2)]
    by (auto simp: put_nvidia_rim_def BOUNDED_KINDS_def)
next
  case ocsp
  then show ?thesis
    using store_inv_put [OF assms(1,2,4) _ readthrough_key_prefix(3)]
    by (auto simp: put_nvidia_ocsp_def BOUNDED_KINDS_def)
next
  case del
  then show ?thesis using store_inv_delete [OF assms(1,2,4)] by blast
next
  case (sweep_url kind)
  then show ?thesis
    using store_inv_sweep [OF assms(1,2,4), of kind] by (auto simp: BOUNDED_KINDS_def)
next
  case sweep_ocsp
  then show ?thesis
    using store_inv_sweep [OF assms(1,2,4), of NVIDIA_OCSP] by (auto simp: BOUNDED_KINDS_def)
qed



end
