(* ===== verification/Platform.thy ===== *)
theory Platform
  imports Store X509
begin

text \<open>
  \<^verbatim>\<open>src/store.rs\<close>: the platform pools. A pool holds what is known of one platform: the credentials
  its certificates were fetched with, the PCK certificates, and the raw TCB levels that requests have
  asked for, each mapped to the certificate selected for it. Every operation runs under
  \<open>platform_lock\<close>, reads the current pool, and publishes its changes in one write. The closures that
  select a certificate are arguments, as in the source.
\<close>

section \<open>Operations\<close>

text \<open>\<open>match xs.iter_mut().find(p) { Some(x) => f(x), None => xs.push(new) }\<close>.\<close>

fun update_or_push :: "('a \<Rightarrow> bool) \<Rightarrow> ('a \<Rightarrow> 'a) \<Rightarrow> 'a \<Rightarrow> 'a list \<Rightarrow> 'a list" where
  "update_or_push p f new [] = [new]"
| "update_or_push p f new (x # xs) = (if p x then f x # xs else x # update_or_push p f new xs)"

definition same_level :: "string \<Rightarrow> string \<Rightarrow> raw_tcb \<Rightarrow> bool" where
  "same_level cpusvn pcesvn r \<longleftrightarrow>
     eq_ignore_ascii_case (rt_cpu_svn r) cpusvn \<and> eq_ignore_ascii_case (rt_pce_svn r) pcesvn"

definition raw_of :: "pckcert_record \<Rightarrow> raw_tcb" where
  "raw_of r = \<lparr>rt_cpu_svn = to_ascii_uppercase (pk_cpusvn r), rt_pce_svn = to_ascii_uppercase (pk_pcesvn r),
     rt_tcbm = to_ascii_uppercase (pk_tcbm r)\<rparr>"

definition add_raw :: "pckcert_record \<Rightarrow> raw_tcb list \<Rightarrow> raw_tcb list" where
  "add_raw r raws =
     (let raw = raw_of r
      in update_or_push (same_level (rt_cpu_svn raw) (rt_pce_svn raw)) (\<lambda>_. raw) raw raws)"

definition replace_platform_certs ::
  "'db rocks \<Rightarrow> serde \<Rightarrow> 'db \<Rightarrow> platform_pool \<Rightarrow> (raw_tcb list \<times> 'db) res" where
  "replace_platform_certs R S db fresh =
     (let previous = unwrap_or [] (map_option pp_raw_tcbs
                       (get_platform_pool R S db (pp_qe_id fresh) (pp_pce_id fresh)))
      in and_then (put_platform_pool R S db (fresh\<lparr>pp_raw_tcbs := previous\<rparr>)) (\<lambda>db. Inr (previous, db)))"

definition put_op :: "'a codec \<Rightarrow> string \<Rightarrow> 'a \<Rightarrow> batch_op res" where
  "put_op C key v = and_then (ok_or INTERNAL_ERROR (enc C v)) (\<lambda>bs. Inr (Put (as_bytes key) bs))"

definition batch_pckcert :: "serde \<Rightarrow> pckcert_record \<Rightarrow> batch_op res" where
  "batch_pckcert S r =
     put_op (sd_pckcert S) (key_pckcert (pk_qeid r) (pk_pceid r) (pk_cpusvn r) (pk_pcesvn r)) r"

definition select_platform_cert ::
  "'db rocks \<Rightarrow> serde \<Rightarrow> 'db \<Rightarrow> string \<Rightarrow> string \<Rightarrow> bool \<Rightarrow> (platform_pool \<Rightarrow> pckcert_record res) \<Rightarrow>
   (pckcert_record \<times> 'db) res" where
  "select_platform_cert R S db qeid pceid persist select =
     and_then (ok_or NO_CACHE_DATA (get_platform_pool R S db qeid pceid)) (\<lambda>pool.
     and_then (select pool) (\<lambda>r.
     if persist then
       (let pool = pool\<lparr>pp_raw_tcbs := add_raw r (pp_raw_tcbs pool)\<rparr>
        in and_then (batch_pckcert S r) (\<lambda>op1.
           and_then (put_op (sd_platform S) (key_platform qeid pceid) pool) (\<lambda>op2.
           and_then (write_batch R db [op1, op2]) (\<lambda>db. Inr (r, db)))))
     else Inr (r, db)))"

definition check_platform_publication ::
  "platform_pool option \<Rightarrow> platform_publication \<Rightarrow> unit res" where
  "check_platform_publication current publication =
     (let matches =
            (case publication of
               Observed expected \<Rightarrow> map_option pool_credentials current = expected
             | AbsentGet enc_ppid platform_manifest \<Rightarrow>
                 (case current of
                    None \<Rightarrow> True
                  | Some pool \<Rightarrow>
                      eq_ignore_ascii_case (pp_enc_ppid pool) enc_ppid \<and>
                      pp_platform_manifest pool = platform_manifest))
      in if \<not> matches then Inl NO_CACHE_DATA else Inr ())"

text \<open>The loop over the known raw levels: the re-selected levels and the writes of their records.\<close>

fun reselect ::
  "serde \<Rightarrow> (raw_tcb \<Rightarrow> pckcert_record res) \<Rightarrow> raw_tcb list \<Rightarrow> (raw_tcb list \<times> batch_op list) res" where
  "reselect S select [] = Inr ([], [])"
| "reselect S select (raw # raws) =
     and_then (select raw) (\<lambda>r.
     and_then (batch_pckcert S r) (\<lambda>op.
     and_then (reselect S select raws) (\<lambda>(raws', ops).
       Inr (raw\<lparr>rt_tcbm := to_ascii_uppercase (pk_tcbm r)\<rparr> # raws', op # ops))))"

definition tcb_op :: "serde \<Rightarrow> tcb_record \<Rightarrow> batch_op res" where
  "tcb_op S r =
     put_op (sd_tcb S)
       (key_tcb (prod_name (tr_prod_type r)) (tr_version r) (tr_fmspc r) (tr_update_type r)) r"

definition replace_platform_certs_after_fetch ::
  "'db rocks \<Rightarrow> serde \<Rightarrow> 'db \<Rightarrow> platform_pool \<Rightarrow> platform_publication \<Rightarrow> tcb_record list \<Rightarrow>
   pckcert_record option \<Rightarrow> (platform_pool \<Rightarrow> raw_tcb \<Rightarrow> pckcert_record res) \<Rightarrow> 'db res" where
  "replace_platform_certs_after_fetch R S db fresh publication tcbs selected select =
     (let current = get_platform_pool R S db (pp_qe_id fresh) (pp_pce_id fresh)
      in and_then (check_platform_publication current publication) (\<lambda>_.
         and_then (reselect S (select fresh) (unwrap_or [] (map_option pp_raw_tcbs current))) (\<lambda>(raws, batch).
         and_then (case selected of
                     None \<Rightarrow> Inr (raws, batch)
                   | Some r \<Rightarrow> and_then (batch_pckcert S r) (\<lambda>op. Inr (add_raw r raws, batch @ [op])))
           (\<lambda>(raws, batch).
         and_then (try_map (tcb_op S) tcbs) (\<lambda>tcb_ops.
         let merged = fresh\<lparr>pp_raw_tcbs := raws\<rparr>
         in and_then (put_op (sd_platform S) (key_platform (pp_qe_id merged) (pp_pce_id merged)) merged)
              (\<lambda>op. write_batch R db (batch @ tcb_ops @ [op])))))))"

definition replace_platform_certs_with_selection ::
  "'db rocks \<Rightarrow> serde \<Rightarrow> 'db \<Rightarrow> platform_pool \<Rightarrow> platform_credentials option \<Rightarrow> tcb_record list \<Rightarrow>
   pckcert_record option \<Rightarrow> (platform_pool \<Rightarrow> raw_tcb \<Rightarrow> pckcert_record res) \<Rightarrow> 'db res" where
  "replace_platform_certs_with_selection R S db fresh expected tcbs selected select =
     replace_platform_certs_after_fetch R S db fresh (Observed expected) tcbs selected select"

definition new_pool :: "pckcert_record \<Rightarrow> platform_pool" where
  "new_pool r = \<lparr>pp_qe_id = pk_qeid r, pp_pce_id = pk_pceid r, pp_enc_ppid = [], pp_platform_manifest = [],
     pp_fmspc = [], pp_ca = [], pp_issuer_chain = [], pp_certs = [], pp_raw_tcbs = []\<rparr>"

definition known_ppids :: "ext \<Rightarrow> platform_pool \<Rightarrow> string list" where
  "known_ppids E pool =
     map ci_ppid (List.map_filter (\<lambda>c. ok_opt (parse_pck_cert E (pt_cert c))) (pp_certs pool))"

text \<open>The checks of \<open>merge_pckcert_after_fetch\<close> against the pool as it is cached.\<close>

definition merge_conflict :: "ext \<Rightarrow> platform_pool \<Rightarrow> pckcert_record \<Rightarrow> bool" where
  "merge_conflict E pool r \<longleftrightarrow>
     pp_fmspc pool \<noteq> [] \<and> \<not> eq_ignore_ascii_case (pp_fmspc pool) (pk_fmspc r) \<or>
     pp_ca pool \<noteq> [] \<and> \<not> eq_ignore_ascii_case (pp_ca pool) (pk_ca r) \<or>
     (case parse_pck_cert E (pk_cert r) of
        Inr cert \<Rightarrow>
          list_ex (\<lambda>ppid. \<not> eq_ignore_ascii_case ppid (ci_ppid cert)) (known_ppids E pool) \<or>
          \<not> eq_ignore_ascii_case (ci_pce_id cert) (pk_pceid r) \<or>
          \<not> eq_ignore_ascii_case (ci_fmspc cert) (pk_fmspc r) \<or>
          \<not> eq_ignore_ascii_case (ci_ca cert) (pk_ca r)
      | Inl _ \<Rightarrow> known_ppids E pool \<noteq> [])"

definition opt_nonempty :: "string \<Rightarrow> string option" where
  "opt_nonempty s = (if s = [] then None else Some s)"

text \<open>The cached record of a known raw level, brought in line with the merged pool.\<close>

definition refresh_cached :: "platform_pool \<Rightarrow> pckcert_record \<Rightarrow> pckcert_record \<Rightarrow> pckcert_record" where
  "refresh_cached pool r cached =
     (let cached = cached\<lparr>pk_fmspc := pp_fmspc pool, pk_ca := pp_ca pool,
            pk_issuer_chain := pp_issuer_chain pool, pk_encrypted_ppid := opt_nonempty (pp_enc_ppid pool),
            pk_platform_manifest := pp_platform_manifest pool\<rparr>
      in if eq_ignore_ascii_case (pk_tcbm cached) (pk_tcbm r) then cached\<lparr>pk_cert := pk_cert r\<rparr> else cached)"

definition cached_ops ::
  "'db rocks \<Rightarrow> serde \<Rightarrow> 'db \<Rightarrow> platform_pool \<Rightarrow> pckcert_record \<Rightarrow> batch_op list res" where
  "cached_ops R S db pool r =
     try_map (\<lambda>cached. batch_pckcert S (refresh_cached pool r cached))
       (List.map_filter
          (\<lambda>raw. get_pckcert R S db (pp_qe_id pool) (rt_cpu_svn raw) (rt_pce_svn raw) (pp_pce_id pool))
          (pp_raw_tcbs pool))"

text \<open>The pool with the certificate merged in, before its raw levels change.\<close>

definition merged_pool :: "platform_pool option \<Rightarrow> pckcert_record \<Rightarrow> platform_pool" where
  "merged_pool current r =
     (let pool = unwrap_or (new_pool r) current;
          pool = pool\<lparr>pp_fmspc := pk_fmspc r, pp_ca := to_ascii_uppercase (pk_ca r),
                      pp_issuer_chain := pk_issuer_chain r\<rparr>;
          pool = (if current = None
                  then pool\<lparr>pp_enc_ppid := unwrap_or [] (pk_encrypted_ppid r),
                            pp_platform_manifest := pk_platform_manifest r\<rparr>
                  else pool);
          cert = \<lparr>pt_tcbm = pk_tcbm r, pt_cert = pk_cert r\<rparr>
      in pool\<lparr>pp_certs := update_or_push (\<lambda>c. eq_ignore_ascii_case (pt_tcbm c) (pk_tcbm r))
                            (\<lambda>_. cert) cert (pp_certs pool)\<rparr>)"

definition merge_pckcert_after_fetch ::
  "'db rocks \<Rightarrow> serde \<Rightarrow> ext \<Rightarrow> 'db \<Rightarrow> pckcert_record \<Rightarrow> platform_publication \<Rightarrow> 'db res" where
  "merge_pckcert_after_fetch R S E db r publication =
     (let current = get_platform_pool R S db (pk_qeid r) (pk_pceid r)
      in and_then (check_platform_publication current publication) (\<lambda>_.
         if merge_conflict E (unwrap_or (new_pool r) current) r then Inl NO_CACHE_DATA
         else
           (let pool = merged_pool current r
            in and_then (cached_ops R S db pool r) (\<lambda>batch.
               let pool = pool\<lparr>pp_raw_tcbs := add_raw r (pp_raw_tcbs pool)\<rparr>;
                   selected = r\<lparr>pk_encrypted_ppid := opt_nonempty (pp_enc_ppid pool),
                                pk_platform_manifest := pp_platform_manifest pool\<rparr>
               in and_then (batch_pckcert S selected) (\<lambda>op1.
                  and_then (put_op (sd_platform S) (key_platform (pp_qe_id pool) (pp_pce_id pool)) pool)
                    (\<lambda>op2. write_batch R db (batch @ [op1, op2])))))))"

definition merge_pckcert ::
  "'db rocks \<Rightarrow> serde \<Rightarrow> ext \<Rightarrow> 'db \<Rightarrow> pckcert_record \<Rightarrow> platform_credentials option \<Rightarrow> 'db res" where
  "merge_pckcert R S E db r expected = merge_pckcert_after_fetch R S E db r (Observed expected)"

definition upsert_raw_tcb ::
  "'db rocks \<Rightarrow> serde \<Rightarrow> 'db \<Rightarrow> string \<Rightarrow> string \<Rightarrow> string \<Rightarrow> string \<Rightarrow> string \<Rightarrow> 'db res" where
  "upsert_raw_tcb R S db qeid pceid cpusvn pcesvn tcbm =
     (case get_platform_pool R S db qeid pceid of
        None \<Rightarrow> Inr db
      | Some pool \<Rightarrow>
          (let entry = \<lparr>rt_cpu_svn = to_ascii_uppercase cpusvn, rt_pce_svn = to_ascii_uppercase pcesvn,
                        rt_tcbm = to_ascii_uppercase tcbm\<rparr>
           in put_platform_pool R S db
                (pool\<lparr>pp_raw_tcbs :=
                   update_or_push
                     (\<lambda>r. rt_cpu_svn r = rt_cpu_svn entry \<and> rt_pce_svn r = rt_pce_svn entry)
                     (\<lambda>r. r\<lparr>rt_tcbm := rt_tcbm entry\<rparr>) entry (pp_raw_tcbs pool)\<rparr>)))"

definition remove_raw_tcb ::
  "'db rocks \<Rightarrow> serde \<Rightarrow> 'db \<Rightarrow> string \<Rightarrow> string \<Rightarrow> string \<Rightarrow> string \<Rightarrow> 'db res" where
  "remove_raw_tcb R S db qeid pceid cpusvn pcesvn =
     (case get_platform_pool R S db qeid pceid of
        None \<Rightarrow> Inr db
      | Some pool \<Rightarrow>
          put_platform_pool R S db
            (pool\<lparr>pp_raw_tcbs := filter (\<lambda>r. \<not> same_level cpusvn pcesvn r) (pp_raw_tcbs pool)\<rparr>))"

definition cached_platforms_by_fmspc ::
  "'db rocks \<Rightarrow> serde \<Rightarrow> 'db \<Rightarrow> string list \<Rightarrow> platform_record list" where
  "cached_platforms_by_fmspc R S db fmspcs =
     concat (map (\<lambda>pool.
       if fmspcs \<noteq> [] \<and> \<not> list_ex (\<lambda>f. eq_ignore_ascii_case f (pp_fmspc pool)) fmspcs then []
       else map (\<lambda>raw. \<lparr>pf_qe_id = pp_qe_id pool, pf_pce_id = pp_pce_id pool,
                        pf_cpu_svn = rt_cpu_svn raw, pf_pce_svn = rt_pce_svn raw,
                        pf_enc_ppid = pp_enc_ppid pool,
                        pf_platform_manifest = pp_platform_manifest pool\<rparr>) (pp_raw_tcbs pool))
       (list_platform_pools R S db))"

section \<open>Reading back a published batch\<close>

lemma put_op_Inr: "put_op C key v = Inr op \<longleftrightarrow> (\<exists>bs. enc C v = Some bs \<and> op = Put (as_bytes key) bs)"
  by (auto simp: put_op_def)

lemma put_op_key: "put_op C key v = Inr op \<Longrightarrow> op_key op = as_bytes key"
  by (auto simp: put_op_Inr)

context record_slot
begin

lemma get_after_batch:
  assumes "rocks_ok R view" "reads_reliable R" "codec_ok C" "write_batch R db (pre @ op # post) = Inr db'"
    and "put_op C (rkey r) r = Inr op" "matches q r" "\<And>op'. op' \<in> set post \<Longrightarrow> op_key op' \<noteq> as_bytes (rkey r)"
  shows "checked_get R C db' (qkey q) (matches q) = Some r"
proof -
  obtain bs where bs: "enc C r = Some bs" "op = Put (as_bytes (rkey r)) bs"
    using assms(5) by (auto simp: put_op_Inr)
  have "as_bytes (rkey r) \<notin> op_key ` set post" using assms(7) by force
  then have "view db' (as_bytes (rkey r)) = Some bs"
    unfolding write_batch_view [OF assms(1,4)] by (simp add: bs(2) apply_batch_frame)
  with get_after_write [OF assms(1-3) bs(1) _ assms(6)] show ?thesis by blast
qed

end

lemma get_platform_after_batch:
  assumes "rocks_ok R view" "reads_reliable R" "serde_ok S" "write_batch R db (pre @ [op]) = Inr db'"
    and "put_op (sd_platform S) (key_platform (pp_qe_id p) (pp_pce_id p)) p = Inr op" "platform_matches (q, c) p"
  shows "get_platform_pool R S db' q c = Some p"
  unfolding get_platform_slot
  using platform_slot.get_after_batch [OF assms(1,2) serde_okD(2) [OF assms(3)] assms(4,5,6)] by simp

lemma get_pckcert_after_batch:
  assumes "rocks_ok R view" "reads_reliable R" "serde_ok S" "write_batch R db (pre @ op # post) = Inr db'"
    and "batch_pckcert S r = Inr op" "pckcert_matches q cs ps c r"
    and "\<And>op'. op' \<in> set post \<Longrightarrow>
      op_key op' \<noteq> as_bytes (key_pckcert (pk_qeid r) (pk_pceid r) (pk_cpusvn r) (pk_pcesvn r))"
  shows "get_pckcert R S db' q cs ps c = Some r"
  unfolding get_pckcert_slot
  using pckcert_slot.get_after_batch [OF assms(1,2) serde_okD(1) [OF assms(3)] assms(4),
      where q = "(q, cs, ps, c)"] assms(5-7)
  by (simp add: batch_pckcert_def)

lemma keys_apart [simp]:
  "key_pckcert a b c d \<noteq> key_platform e f" "key_platform e f \<noteq> key_pckcert a b c d"
  "key_tcb x v f u \<noteq> key_pckcert a b c d" "key_pckcert a b c d \<noteq> key_tcb x v f u"
  by (simp_all add: key_defs prefix_defs)

lemma pckcert_matches_refl [simp]:
  "pckcert_matches (pk_qeid r) (pk_cpusvn r) (pk_pcesvn r) (pk_pceid r) r"
  by (simp add: pckcert_matches_def)

lemma platform_matches_refl [simp]: "platform_matches (pp_qe_id p, pp_pce_id p) p"
  by (simp add: platform_matches_def)

section \<open>What the list updates keep\<close>

lemma update_or_push_keeps:
  "x \<in> set xs \<Longrightarrow> \<not> p x \<Longrightarrow> x \<in> set (update_or_push p f new xs)"
  by (induction xs) auto

lemma update_or_push_hit: "(\<And>x. p x \<Longrightarrow> Q (f x)) \<Longrightarrow> Q new \<Longrightarrow> \<exists>y\<in>set (update_or_push p f new xs). Q y"
  by (induction xs) auto

lemma update_or_push_level:
  assumes "x \<in> set xs" "L x" "\<And>x. p x \<Longrightarrow> L x \<Longrightarrow> L (f x)"
  shows "\<exists>y\<in>set (update_or_push p f new xs). L y"
  using assms(1,2)
proof (induction xs)
  case (Cons a xs)
  then show ?case using assms(3) by auto
qed simp

lemma same_level_refl [simp]: "same_level (rt_cpu_svn r) (rt_pce_svn r) r"
  by (simp add: same_level_def)

lemma same_level_trans: "same_level a b r \<Longrightarrow> same_level (rt_cpu_svn r) (rt_pce_svn r) r' \<Longrightarrow> same_level a b r'"
  by (simp add: same_level_def eq_ignore_lower)

text \<open>A level that is known stays known when another one is added, up to its certificate.\<close>

lemma add_raw_keeps:
  assumes "raw \<in> set raws"
  shows "\<exists>raw'\<in>set (add_raw r raws). same_level (rt_cpu_svn raw) (rt_pce_svn raw) raw'"
  unfolding add_raw_def Let_def
  using assms
proof (rule update_or_push_level)
  show "same_level (rt_cpu_svn raw) (rt_pce_svn raw) (raw_of r)"
    if "same_level (rt_cpu_svn (raw_of r)) (rt_pce_svn (raw_of r)) x"
      "same_level (rt_cpu_svn raw) (rt_pce_svn raw) x" for x
    using that by (simp add: same_level_def eq_ignore_lower)
qed simp

lemma add_raw_new: "raw_of r \<in> set (add_raw r raws)"
  unfolding add_raw_def Let_def
  using update_or_push_hit [of _ "\<lambda>y. y = raw_of r" "\<lambda>_. raw_of r" "raw_of r" raws] by auto

lemma reselect_levels:
  "reselect S select raws = Inr (raws', ops) \<Longrightarrow>
   map rt_cpu_svn raws' = map rt_cpu_svn raws \<and> map rt_pce_svn raws' = map rt_pce_svn raws"
  by (induction raws arbitrary: raws' ops) auto

lemma reselect_keeps:
  assumes "reselect S select raws = Inr (raws', ops)" "raw \<in> set raws"
  shows "\<exists>raw'\<in>set raws'. same_level (rt_cpu_svn raw) (rt_pce_svn raw) raw'"
  using assms
proof (induction raws arbitrary: raws' ops)
  case (Cons a raws)
  then show ?case by (auto simp: same_level_def)
qed simp

section \<open>Properties\<close>



lemma replace_after_fetch_Inr:
  assumes "replace_platform_certs_after_fetch R S db fresh publication tcbs selected select = Inr db'"
  defines "current \<equiv> get_platform_pool R S db (pp_qe_id fresh) (pp_pce_id fresh)"
  obtains raws ops raws' ops' tops op
  where "check_platform_publication current publication = Inr ()"
    and "reselect S (select fresh) (unwrap_or [] (map_option pp_raw_tcbs current)) = Inr (raws, ops)"
    and "case selected of None \<Rightarrow> raws' = raws \<and> ops' = ops
         | Some r \<Rightarrow> \<exists>op. batch_pckcert S r = Inr op \<and> raws' = add_raw r raws \<and> ops' = ops @ [op]"
    and "try_map (tcb_op S) tcbs = Inr tops"
    and "put_op (sd_platform S) (key_platform (pp_qe_id fresh) (pp_pce_id fresh)) (fresh\<lparr>pp_raw_tcbs := raws'\<rparr>) = Inr op"
    and "write_batch R db ((ops' @ tops) @ [op]) = Inr db'"
  using assms(1) unfolding replace_platform_certs_after_fetch_def Let_def current_def [symmetric]
  by (cases selected) (auto simp: current_def)

lemma tcb_op_key:
  assumes "try_map (tcb_op S) tcbs = Inr tops" "op \<in> set tops"
  shows "op_key op \<noteq> as_bytes (key_pckcert a b c d)"
proof -
  obtain t where "tcb_op S t = Inr op"
    using assms by (metis (no_types, lifting) in_set_conv_nth try_map_length try_map_nth)
  then have "op_key op = as_bytes (key_tcb (prod_name (tr_prod_type t)) (tr_version t) (tr_fmspc t) (tr_update_type t))"
    unfolding tcb_op_def by (rule put_op_key)
  then show ?thesis by simp
qed

text \<open>A successful replacement of a platform's certificates publishes, in one write, the fresh
  pool together with every raw TCB level that was known before it (none is lost), and the newly
  selected certificate, when there is one, is what the next request for it reads. Readers therefore
  never see the new certificates with the raw levels missing.\<close>

theorem replace_keeps_raw_levels:
  assumes "rocks_ok R view" "reads_reliable R" "serde_ok S"
    and "replace_platform_certs_after_fetch R S db fresh publication tcbs selected select = Inr db'"
    and "get_platform_pool R S db (pp_qe_id fresh) (pp_pce_id fresh) = Some old" "raw \<in> set (pp_raw_tcbs old)"
  shows "\<exists>raws. get_platform_pool R S db' (pp_qe_id fresh) (pp_pce_id fresh) = Some (fresh\<lparr>pp_raw_tcbs := raws\<rparr>) \<and>
    (\<exists>raw'\<in>set raws. same_level (rt_cpu_svn raw) (rt_pce_svn raw) raw') \<and>
    (\<forall>r. selected = Some r \<longrightarrow> raw_of r \<in> set raws \<and>
       get_pckcert R S db' (pk_qeid r) (pk_cpusvn r) (pk_pcesvn r) (pk_pceid r) = Some r)"
proof -
  obtain raws ops raws' ops' tops op where
    re: "reselect S (select fresh) (pp_raw_tcbs old) = Inr (raws, ops)"
    and sel: "case selected of None \<Rightarrow> raws' = raws \<and> ops' = ops
         | Some r \<Rightarrow> \<exists>op. batch_pckcert S r = Inr op \<and> raws' = add_raw r raws \<and> ops' = ops @ [op]"
    and tops: "try_map (tcb_op S) tcbs = Inr tops"
    and op: "put_op (sd_platform S) (key_platform (pp_qe_id fresh) (pp_pce_id fresh))
        (fresh\<lparr>pp_raw_tcbs := raws'\<rparr>) = Inr op"
    and w: "write_batch R db ((ops' @ tops) @ [op]) = Inr db'"
    by (rule replace_after_fetch_Inr [OF assms(4)], rule that) (simp_all add: assms(5))
  let ?p = "fresh\<lparr>pp_raw_tcbs := raws'\<rparr>"
  have "get_platform_pool R S db' (pp_qe_id fresh) (pp_pce_id fresh) = Some ?p"
    using get_platform_after_batch [OF assms(1-3) w, of ?p] op by (simp add: platform_matches_def)
  moreover obtain raw1 where raw1: "raw1 \<in> set raws" "same_level (rt_cpu_svn raw) (rt_pce_svn raw) raw1"
    using reselect_keeps [OF re assms(6)] by blast
  have "\<exists>raw'\<in>set raws'. same_level (rt_cpu_svn raw) (rt_pce_svn raw) raw'"
  proof (cases selected)
    case None
    then show ?thesis using sel raw1 by auto
  next
    case (Some r)
    then have "raws' = add_raw r raws" using sel by auto
    then show ?thesis using add_raw_keeps [OF raw1(1)] raw1(2) same_level_trans by blast
  qed
  moreover have "raw_of r \<in> set raws' \<and> get_pckcert R S db' (pk_qeid r) (pk_cpusvn r) (pk_pcesvn r) (pk_pceid r) = Some r"
    if r: "selected = Some r" for r
  proof -
    obtain op1 where op1: "batch_pckcert S r = Inr op1" "raws' = add_raw r raws" "ops' = ops @ [op1]"
      using sel r by auto
    have w': "write_batch R db (ops @ op1 # tops @ [op]) = Inr db'" using w op1(3) by simp
    have "get_pckcert R S db' (pk_qeid r) (pk_cpusvn r) (pk_pcesvn r) (pk_pceid r) = Some r"
      by (rule get_pckcert_after_batch [OF assms(1-3) w' op1(1) pckcert_matches_refl])
        (use tcb_op_key [OF tops] put_op_key [OF op] in auto)
    then show ?thesis using add_raw_new op1(2) by simp
  qed
  ultimately show ?thesis by blast
qed

definition sample_platform :: platform_pool where
  "sample_platform = \<lparr>pp_qe_id = ''AB'', pp_pce_id = ''0000'', pp_enc_ppid = ''EE'',
     pp_platform_manifest = [], pp_fmspc = [], pp_ca = [], pp_issuer_chain = [], pp_certs = [],
     pp_raw_tcbs = [\<lparr>rt_cpu_svn = ''01'', rt_pce_svn = ''0D00'', rt_tcbm = ''01''\<rparr>]\<rparr>"

definition pool_serde :: serde where
  "pool_serde = pck_serde\<lparr>sd_platform := table_codec [(sample_platform, [1])]\<rparr>"

definition pool_db :: mem where
  "pool_db = [(as_bytes (key_platform ''AB'' ''0000''), [1])]"

lemma pool_serde_ok: "serde_ok pool_serde"
  using pck_serde_ok by (simp add: pool_serde_def serde_ok_def table_codec_ok)

lemma sample_platform_fields [simp]:
  "pp_qe_id sample_platform = ''AB''" "pp_pce_id sample_platform = ''0000''"
  "pp_raw_tcbs sample_platform = [\<lparr>rt_cpu_svn = ''01'', rt_pce_svn = ''0D00'', rt_tcbm = ''01''\<rparr>]"
  by (simp_all add: sample_platform_def)

lemma pool_db_get: "get_platform_pool mem_rocks pool_serde pool_db ''AB'' ''0000'' = Some sample_platform"
  by (simp add: get_platform_pool_def read_json_def pool_db_def pool_serde_def table_codec_def)

lemma sample_replace:
  "\<exists>db'. replace_platform_certs_after_fetch mem_rocks pool_serde pool_db sample_platform
     (Observed (Some (pool_credentials sample_platform))) [] None (\<lambda>_ _. Inr sample_pck) = Inr db'"
proof -
  have "pk_tcbm sample_pck = ''01''" by (simp add: sample_pck_def)
  moreover have "to_ascii_uppercase ''01'' = ''01''" by code_simp
  moreover have "enc (sd_pckcert pool_serde) sample_pck = Some [7]"
    by (simp add: pool_serde_def pck_serde_def table_codec_def)
  moreover have "enc (sd_platform pool_serde)
      (sample_platform\<lparr>pp_raw_tcbs := [\<lparr>rt_cpu_svn = ''01'', rt_pce_svn = ''0D00'', rt_tcbm = ''01''\<rparr>]\<rparr>) = Some [1]"
    by (simp add: pool_serde_def table_codec_def sample_platform_def)
  ultimately show ?thesis
    using pool_db_get by (simp add: replace_platform_certs_after_fetch_def check_platform_publication_def
        batch_pckcert_def put_op_def write_batch_def mem_rocks_def Let_def)
qed

theorem replace_keeps_raw_levels_witness:
  "\<exists>db' raws. get_platform_pool mem_rocks pool_serde db' ''AB'' ''0000'' = Some (sample_platform\<lparr>pp_raw_tcbs := raws\<rparr>) \<and>
     (\<exists>raw'\<in>set raws. same_level ''01'' ''0D00'' raw')"
proof -
  obtain db' where *: "replace_platform_certs_after_fetch mem_rocks pool_serde pool_db sample_platform
     (Observed (Some (pool_credentials sample_platform))) [] None (\<lambda>_ _. Inr sample_pck) = Inr db'"
    using sample_replace by blast
  have raw: "\<lparr>rt_cpu_svn = ''01'', rt_pce_svn = ''0D00'', rt_tcbm = ''01''\<rparr> \<in> set (pp_raw_tcbs sample_platform)"
    by simp
  from replace_keeps_raw_levels [OF mem_rocks_ok mem_reliable(1) pool_serde_ok * _ raw] pool_db_get
  show ?thesis by auto
qed

lemma merge_Inr:
  assumes "merge_pckcert_after_fetch R S E db r publication = Inr db'"
  defines "current \<equiv> get_platform_pool R S db (pk_qeid r) (pk_pceid r)"
  obtains ops op1 op2
  where "check_platform_publication current publication = Inr ()"
    and "\<not> merge_conflict E (unwrap_or (new_pool r) current) r"
    and "cached_ops R S db (merged_pool current r) r = Inr ops"
    and "batch_pckcert S (r\<lparr>pk_encrypted_ppid := opt_nonempty (pp_enc_ppid (merged_pool current r)),
                            pk_platform_manifest := pp_platform_manifest (merged_pool current r)\<rparr>) = Inr op1"
    and "put_op (sd_platform S)
           (key_platform (pp_qe_id (merged_pool current r)) (pp_pce_id (merged_pool current r)))
           ((merged_pool current r)\<lparr>pp_raw_tcbs := add_raw r (pp_raw_tcbs (merged_pool current r))\<rparr>) = Inr op2"
    and "write_batch R db (ops @ [op1, op2]) = Inr db'"
  using assms(1) unfolding merge_pckcert_after_fetch_def Let_def current_def [symmetric]
  by (auto split: if_splits)

lemma merged_pool_fields:
  "pp_qe_id (merged_pool (Some old) r) = pp_qe_id old" "pp_pce_id (merged_pool (Some old) r) = pp_pce_id old"
  "pp_raw_tcbs (merged_pool (Some old) r) = pp_raw_tcbs old"
  "pp_enc_ppid (merged_pool (Some old) r) = pp_enc_ppid old"
  "pp_platform_manifest (merged_pool (Some old) r) = pp_platform_manifest old"
  "pp_certs (merged_pool (Some old) r) =
     update_or_push (\<lambda>c. eq_ignore_ascii_case (pt_tcbm c) (pk_tcbm r))
       (\<lambda>_. \<lparr>pt_tcbm = pk_tcbm r, pt_cert = pk_cert r\<rparr>) \<lparr>pt_tcbm = pk_tcbm r, pt_cert = pk_cert r\<rparr> (pp_certs old)"
  by (simp_all add: merged_pool_def Let_def)


definition merged_sample :: platform_pool where
  "merged_sample = (merged_pool (Some sample_platform) sample_pck)\<lparr>
     pp_raw_tcbs := add_raw sample_pck (pp_raw_tcbs sample_platform)\<rparr>"

definition selected_sample :: pckcert_record where
  "selected_sample = sample_pck\<lparr>pk_encrypted_ppid := opt_nonempty (pp_enc_ppid sample_platform),
     pk_platform_manifest := pp_platform_manifest sample_platform\<rparr>"

definition merge_serde :: serde where
  "merge_serde = empty_serde\<lparr>sd_platform := table_codec [(merged_sample, [2]), (sample_platform, [1])],
     sd_pckcert := table_codec [(selected_sample, [7])]\<rparr>"

lemma merge_serde_ok: "serde_ok merge_serde"
  using empty_serde_ok by (simp add: merge_serde_def serde_ok_def table_codec_ok)

lemma merge_db_get:
  "get_platform_pool mem_rocks merge_serde pool_db (pk_qeid sample_pck) (pk_pceid sample_pck) = Some sample_platform"
  by (simp add: get_platform_pool_def read_json_def pool_db_def merge_serde_def table_codec_def sample_pck_def)

lemma sample_merge:
  "\<exists>db'. merge_pckcert_after_fetch mem_rocks merge_serde sample_ext pool_db sample_pck
     (Observed (Some (pool_credentials sample_platform))) = Inr db'"
proof -
  have c: "\<not> merge_conflict sample_ext sample_platform sample_pck" by code_simp
  have g: "get_pckcert mem_rocks merge_serde pool_db q cs ps p = None" for q cs ps p
    by (simp add: get_pckcert_def read_json_def pool_db_def as_bytes_inj)
  have ops: "cached_ops mem_rocks merge_serde pool_db (merged_pool (Some sample_platform) sample_pck) sample_pck = Inr []"
    by (simp add: cached_ops_def g merged_pool_fields List.map_filter_def)
  have "\<exists>x. enc (sd_platform merge_serde) merged_sample = Some x" "\<exists>x. enc (sd_pckcert merge_serde) selected_sample = Some x"
    by (simp_all add: merge_serde_def table_codec_def)
  then show ?thesis
    using merge_db_get ops c
    by (auto simp: merge_pckcert_after_fetch_def check_platform_publication_def batch_pckcert_def put_op_def
        write_batch_def Let_def merged_pool_fields merged_sample_def selected_sample_def) (simp add: mem_rocks_def)
qed


end
