(* ===== verification/Registration.thy ===== *)
theory Registration
  imports Platform
begin

text \<open>
  \<^verbatim>\<open>src/store.rs\<close>: the registration queue. Platforms announced by \<open>POST /platforms\<close> wait under the
  \<open>preg/\<close> prefix until an operator takes them (\<open>GET /platforms\<close>) or a fill succeeds. The
  queue is a map from the four identifying fields to a normalised record; \<open>reg_lock\<close> makes each
  operation one step.
\<close>

section \<open>Operations\<close>

definition normalize_reg :: "registered_platform \<Rightarrow> registered_platform" where
  "normalize_reg p =
     p\<lparr>rg_qe_id := to_ascii_uppercase (rg_qe_id p), rg_pce_id := to_ascii_uppercase (rg_pce_id p),
       rg_cpu_svn := to_ascii_uppercase (rg_cpu_svn p), rg_pce_svn := to_ascii_uppercase (rg_pce_svn p),
       rg_enc_ppid := to_ascii_uppercase (rg_enc_ppid p)\<rparr>"

definition register_platform :: "'db rocks \<Rightarrow> serde \<Rightarrow> 'db \<Rightarrow> registered_platform \<Rightarrow> 'db res" where
  "register_platform R S db p =
     (let p = normalize_reg p;
          key = key_preg (rg_qe_id p) (rg_pce_id p) (rg_cpu_svn p) (rg_pce_svn p)
      in put_json R (sd_reg S) db key p)"

definition delete_registered :: "'db rocks \<Rightarrow> 'db \<Rightarrow> registered_platform \<Rightarrow> 'db res" where
  "delete_registered R db p =
     (let key = key_preg (to_ascii_uppercase (rg_qe_id p)) (to_ascii_uppercase (rg_pce_id p))
                  (to_ascii_uppercase (rg_cpu_svn p)) (to_ascii_uppercase (rg_pce_svn p))
      in map_err (\<lambda>_. INTERNAL_ERROR) (rk_delete R db (as_bytes key)))"

fun take_loop ::
  "serde \<Rightarrow> u8 \<Rightarrow> (string \<times> bytes) list \<Rightarrow> registered_platform list \<times> batch_op list" where
  "take_loop S state [] = ([], [])"
| "take_loop S state ((k, v) # rest) =
     (let (taken, batch) = take_loop S state rest
      in case dec (sd_reg S) v of
           None \<Rightarrow> (taken, batch)
         | Some p \<Rightarrow> if rg_state p = state then (p # taken, Del (as_bytes k) # batch) else (taken, batch))"

definition take_registered ::
  "'db rocks \<Rightarrow> serde \<Rightarrow> 'db \<Rightarrow> u8 \<Rightarrow> (registered_platform list \<times> 'db) res" where
  "take_registered R S db state =
     (let (taken, batch) = take_loop S state (scan_prefix R db PREG)
      in and_then (write_batch R db batch) (\<lambda>db. Inr (taken, db)))"

section \<open>The queue as a map\<close>

text \<open>The abstract queue: which registration a key holds. \<open>preg_ok\<close> says that the prefix is used by
  registration keys only.\<close>

definition preg_ok :: "kv \<Rightarrow> bool" where
  "preg_ok m \<longleftrightarrow>
     (\<forall>k\<in>dom m. starts_with k (as_bytes PREG) \<longrightarrow> (\<exists>q c s p. k = as_bytes (key_preg q c s p)))"

definition reg_queue :: "serde \<Rightarrow> kv \<Rightarrow> bytes \<Rightarrow> registered_platform option" where
  "reg_queue S m k = (if starts_with k (as_bytes PREG) then Option.bind (m k) (dec (sd_reg S)) else None)"

definition reg_key :: "registered_platform \<Rightarrow> bytes" where
  "reg_key p = as_bytes (key_preg (rg_qe_id p) (rg_pce_id p) (rg_cpu_svn p) (rg_pce_svn p))"

definition pending :: "u8 \<Rightarrow> (bytes \<Rightarrow> registered_platform option) \<Rightarrow> bytes set" where
  "pending state Q = {k. \<exists>p. Q k = Some p \<and> rg_state p = state}"

lemma preg_ok_mono: "preg_ok m \<Longrightarrow> dom m' \<subseteq> dom m \<Longrightarrow> preg_ok m'"
  unfolding preg_ok_def by blast

lemma key_preg_upper [simp]:
  "key_preg (to_ascii_uppercase a) (to_ascii_uppercase b) (to_ascii_uppercase c) (to_ascii_uppercase d) =
     key_preg a b c d"
  by (simp add: key_defs join_lower_def)

lemma reg_key_prefix [simp]: "starts_with (key_preg a b c d) PREG"
  by (simp add: key_defs)

text \<open>Registration keys are ASCII, so the listing of the prefix returns them unchanged.\<close>

lemma from_utf8_lossy_ascii: "\<forall>b\<in>set bs. b < 128 \<Longrightarrow> from_utf8_lossy bs = of_bytes bs"
proof -
  have "\<forall>b\<in>set bs. b < 128 \<Longrightarrow> from_utf8_lossy_bytes bs = bs"
    by (induction bs) (simp_all add: utf8_extra_def)
  then show "\<forall>b\<in>set bs. b < 128 \<Longrightarrow> from_utf8_lossy bs = of_bytes bs"
    by (simp add: from_utf8_lossy_def)
qed

lemma lower_hex_ascii: "is_lower_hex c \<Longrightarrow> (of_char c :: u8) < 128"
  by (auto simp: is_lower_hex_def is_ascii_digit_def word_less_nat_alt unat_of_char)

lemma preg_key_ascii: "\<forall>b\<in>set (as_bytes (key_preg q c s p)). b < 128"
  using hash128_hex_lower_hex [of "as_bytes (join_lower [q, c, s, p])"] lower_hex_ascii
  by (auto simp: key_defs PREG_def as_bytes_def list_all_iff)

lemma preg_lossy:
  "preg_ok m \<Longrightarrow> k \<in> set (keys_with m (as_bytes PREG)) \<Longrightarrow> finite (dom m) \<Longrightarrow> as_bytes (from_utf8_lossy k) = k"
  using from_utf8_lossy_ascii [OF preg_key_ascii] by (fastforce simp: preg_ok_def keys_with_def)

lemma set_keys_with [simp]: "finite (dom m) \<Longrightarrow> set (keys_with m p) = {k \<in> dom m. starts_with k p}"
  by (simp add: keys_with_def)

lemma distinct_keys_with [simp]: "distinct (keys_with m p)"
  by (simp add: keys_with_def)

lemma take_loop_queue:
  assumes "\<forall>k\<in>set ks. as_bytes (from_utf8_lossy k) = k \<and> dec (sd_reg S) (f k) = Q k"
  shows "take_loop S state (map (\<lambda>k. (from_utf8_lossy k, f k)) ks) =
    (map (the \<circ> Q) (filter (\<lambda>k. k \<in> pending state Q) ks),
     map Del (filter (\<lambda>k. k \<in> pending state Q) ks))"
  using assms by (induction ks) (auto simp: pending_def split: option.splits)

lemma apply_Dels: "apply_batch m (map Del ks) = m |` (- set ks)"
  by (induction ks arbitrary: m) (auto simp: restrict_map_def fun_eq_iff)

section \<open>Refinement of the map\<close>

lemma register_platform_queue:
  assumes "rocks_ok R view" "serde_ok S" "register_platform R S db p = Inr db'"
  shows "reg_queue S (view db') = (reg_queue S (view db))(reg_key p \<mapsto> normalize_reg p)"
    and "preg_ok (view db) \<Longrightarrow> preg_ok (view db')"
    and "\<forall>k. k \<noteq> reg_key p \<longrightarrow> view db' k = view db k"
proof -
  have key: "as_bytes (key_preg (rg_qe_id (normalize_reg p)) (rg_pce_id (normalize_reg p))
      (rg_cpu_svn (normalize_reg p)) (rg_pce_svn (normalize_reg p))) = reg_key p"
    by (simp add: normalize_reg_def reg_key_def)
  obtain b where b: "enc (sd_reg S) (normalize_reg p) = Some b" "view db' = (view db)(reg_key p \<mapsto> b)"
    using put_json_view [OF assms(1) assms(3) [unfolded register_platform_def Let_def]] key by auto
  have "dec (sd_reg S) b = Some (normalize_reg p)"
    using serde_okD(10) [OF assms(2)] b(1) by (simp add: codec_ok_def)
  then show "reg_queue S (view db') = (reg_queue S (view db))(reg_key p \<mapsto> normalize_reg p)"
    by (auto simp: b(2) reg_queue_def reg_key_def fun_eq_iff)
  show "\<forall>k. k \<noteq> reg_key p \<longrightarrow> view db' k = view db k" by (simp add: b(2))
  show "preg_ok (view db')" if "preg_ok (view db)"
    using that by (auto simp: b(2) preg_ok_def reg_key_def)
qed

lemma delete_registered_queue:
  assumes "rocks_ok R view" "delete_registered R db p = Inr db'"
  shows "view db' = (view db)(reg_key p := None)"
  using assms(2) rocks_okD(4) [OF assms(1)] by (auto simp: delete_registered_def reg_key_def)

lemma take_registered_queue:
  assumes "rocks_ok R view" "reads_reliable R" "preg_ok (view db)" "take_registered R S db state = Inr (taken, db')"
  defines "Q \<equiv> reg_queue S (view db)"
  defines "ks \<equiv> filter (\<lambda>k. k \<in> pending state Q) (keys_with (view db) (as_bytes PREG))"
  shows "taken = map (the \<circ> Q) ks" "view db' = view db |` (- pending state Q)"
    and "set ks = pending state Q" "distinct ks"
proof -
  have fin: "finite (dom (view db))" by (rule rocks_okD(1) [OF assms(1)])
  have "take_loop S state (scan_prefix R db PREG) = (map (the \<circ> Q) ks, map Del ks)"
    unfolding scan_prefix_reliable [OF assms(1,2)] ks_def
    using preg_lossy [OF assms(3) _ fin] fin by (intro take_loop_queue) (auto simp: Q_def reg_queue_def)
  with assms(4) have t: "taken = map (the \<circ> Q) ks" "write_batch R db (map Del ks) = Inr db'"
    by (auto simp: take_registered_def)
  then show "taken = map (the \<circ> Q) ks" by simp
  show ks: "set ks = pending state Q"
    using fin by (auto simp: ks_def pending_def Q_def reg_queue_def bind_eq_Some_conv split: if_splits)
  show "distinct ks" by (simp add: ks_def)
  show "view db' = view db |` (- pending state Q)"
    using write_batch_view [OF assms(1) t(2)] by (simp add: apply_Dels ks)
qed

text \<open>C28: the stored queue implements a map from the case-folded key of a platform to its
  normalised registration. Registering updates one entry, deleting removes it, and taking a state
  returns every entry of that state exactly once and leaves the map restricted to the other
  entries; each operation keeps the key discipline that the next one relies on.\<close>

theorem registration_queue_refines:
  assumes "rocks_ok R view" "reads_reliable R" "serde_ok S" "preg_ok (view db)"
  shows "(register_platform R S db p = Inr db1 \<longrightarrow>
            reg_queue S (view db1) = (reg_queue S (view db))(reg_key p \<mapsto> normalize_reg p) \<and> preg_ok (view db1)) \<and>
         (delete_registered R db p = Inr db2 \<longrightarrow>
            reg_queue S (view db2) = (reg_queue S (view db))(reg_key p := None) \<and> preg_ok (view db2)) \<and>
         (take_registered R S db state = Inr (taken, db3) \<longrightarrow>
            (\<exists>ks. distinct ks \<and> set ks = pending state (reg_queue S (view db)) \<and>
                  taken = map (the \<circ> reg_queue S (view db)) ks) \<and>
            reg_queue S (view db3) = reg_queue S (view db) |` (- pending state (reg_queue S (view db))) \<and>
            preg_ok (view db3))"
proof (intro conjI impI)
  assume r: "register_platform R S db p = Inr db1"
  show "reg_queue S (view db1) = (reg_queue S (view db))(reg_key p \<mapsto> normalize_reg p)" "preg_ok (view db1)"
    using register_platform_queue(1,2) [OF assms(1,3) r] assms(4) by blast+
next
  assume "delete_registered R db p = Inr db2"
  note d = delete_registered_queue [OF assms(1) this]
  show "reg_queue S (view db2) = (reg_queue S (view db))(reg_key p := None)"
    by (auto simp: d reg_queue_def fun_eq_iff)
  show "preg_ok (view db2)" using d by (intro preg_ok_mono [OF assms(4)]) auto
next
  assume "take_registered R S db state = Inr (taken, db3)"
  note t = take_registered_queue [OF assms(1,2,4) this]
  show "\<exists>ks. distinct ks \<and> set ks = pending state (reg_queue S (view db)) \<and>
      taken = map (the \<circ> reg_queue S (view db)) ks"
    using t by blast
  show "reg_queue S (view db3) = reg_queue S (view db) |` (- pending state (reg_queue S (view db)))"
    by (auto simp: t(2) reg_queue_def fun_eq_iff restrict_map_def)
  show "preg_ok (view db3)" using t(2) by (intro preg_ok_mono [OF assms(4)]) auto
qed

definition sample_reg :: registered_platform where
  "sample_reg = \<lparr>rg_qe_id = ''ab'', rg_pce_id = ''0000'', rg_cpu_svn = ''01'', rg_pce_svn = ''02'',
     rg_enc_ppid = [], rg_platform_manifest = [], rg_state = 0\<rparr>"

definition reg_serde :: serde where
  "reg_serde = empty_serde\<lparr>sd_reg := table_codec [(normalize_reg sample_reg, [5])]\<rparr>"

lemma reg_serde_ok: "serde_ok reg_serde"
  using empty_serde_ok by (simp add: reg_serde_def serde_ok_def table_codec_ok)

lemma sample_register:
  "register_platform mem_rocks reg_serde [] sample_reg = Inr [(reg_key sample_reg, [5])]"
  by (simp add: register_platform_def Let_def put_json_def reg_serde_def table_codec_def mem_rocks_def reg_key_def)
    (simp add: normalize_reg_def)

theorem registration_queue_refines_witness:
  "reg_queue reg_serde (map_of [(reg_key sample_reg, [5])]) = [reg_key sample_reg \<mapsto> normalize_reg sample_reg]"
proof -
  have "preg_ok (map_of [])" "reg_queue reg_serde (map_of []) = Map.empty"
    by (auto simp: preg_ok_def reg_queue_def)
  with registration_queue_refines [OF mem_rocks_ok mem_reliable(1) reg_serde_ok, of "[]", THEN conjunct1,
      rule_format, OF _ sample_register]
  show ?thesis by simp
qed

lemma take_registered_succeeds:
  assumes "writes_reliable R"
  shows "\<exists>taken db'. take_registered R S db state = Inr (taken, db')"
  using assms by (cases "rk_write R db (snd (take_loop S state (scan_prefix R db PREG)))")
    (auto simp: take_registered_def write_batch_def writes_reliable_def case_prod_unfold)

text \<open>C29: a platform that was registered is handed out by the next request for its state, in
  normalised form, and by that request only: the one after it returns no platform of that state.\<close>

theorem registered_taken_once:
  assumes "rocks_ok R view" "reads_reliable R" "writes_reliable R" "serde_ok S" "preg_ok (view db)"
    and "register_platform R S db p = Inr db1"
  shows "\<exists>taken db2 db3. take_registered R S db1 (rg_state p) = Inr (taken, db2) \<and>
    normalize_reg p \<in> set taken \<and> take_registered R S db2 (rg_state p) = Inr ([], db3)"
proof -
  note q = register_platform_queue [OF assms(1,4,6)]
  obtain taken db2 where t: "take_registered R S db1 (rg_state p) = Inr (taken, db2)"
    using take_registered_succeeds [OF assms(3)] by blast
  note t1 = take_registered_queue [OF assms(1,2) q(2) [OF assms(5)] t]
  have "reg_key p \<in> pending (rg_state p) (reg_queue S (view db1))"
    by (simp add: q(1) pending_def normalize_reg_def)
  then have "normalize_reg p \<in> set taken"
    using t1(1,3) q(1) by (auto intro!: image_eqI [of _ _ "reg_key p"])
  have ok2: "preg_ok (view db2)"
    using t1(2) by (intro preg_ok_mono [OF q(2) [OF assms(5)]]) auto
  have empty: "pending (rg_state p) (reg_queue S (view db2)) = {}"
    unfolding t1(2) by (auto simp: pending_def reg_queue_def restrict_map_def bind_eq_Some_conv split: if_splits)
  obtain taken' db3 where t': "take_registered R S db2 (rg_state p) = Inr (taken', db3)"
    using take_registered_succeeds [OF assms(3)] by blast
  with take_registered_queue [OF assms(1,2) ok2 t'] empty have "taken' = []" by simp
  with t t' \<open>normalize_reg p \<in> set taken\<close> show ?thesis by blast
qed

theorem registered_taken_once_witness:
  "\<exists>taken db2 db3. take_registered mem_rocks reg_serde [(reg_key sample_reg, [5])] 0 = Inr (taken, db2) \<and>
    normalize_reg sample_reg \<in> set taken \<and> take_registered mem_rocks reg_serde db2 0 = Inr ([], db3)"
  using registered_taken_once [OF mem_rocks_ok mem_reliable reg_serde_ok _ sample_register]
  by (simp add: preg_ok_def sample_reg_def)

end
