(* ===== verification/Appraisal.thy ===== *)
theory Appraisal
  imports Platform
begin

text \<open>
  \<^verbatim>\<open>src/store.rs\<close>: appraisal policies. All policies of one FMSPC are one record: a list keyed by the
  SHA-384 digest of the policy text, of which at most one is the default. \<open>appraisal_lock\<close> makes
  every operation one step.
\<close>

section \<open>Operations\<close>

definition sha384_hex :: "ext \<Rightarrow> string \<Rightarrow> string" where
  "sha384_hex E s = x_hex_encode E (x_sha384 E (as_bytes s))"

definition clear_defaults :: "appraisal_policy list \<Rightarrow> appraisal_policy list" where
  "clear_defaults ps = map (\<lambda>p. p\<lparr>po_is_default := False\<rparr>) ps"

definition upsert_policy :: "appraisal_policy \<Rightarrow> appraisal_policy list \<Rightarrow> appraisal_policy list" where
  "upsert_policy entry ps =
     (let ps = (if po_is_default entry then clear_defaults ps else ps)
      in update_or_push (\<lambda>p. po_id p = po_id entry) (\<lambda>_. entry) entry ps)"

definition put_appraisal_policy ::
  "'db rocks \<Rightarrow> serde \<Rightarrow> ext \<Rightarrow> 'db \<Rightarrow> json \<Rightarrow> (string \<times> 'db) res" where
  "put_appraisal_policy R S E db body =
     and_then (v_appraisal_policy E body) (\<lambda>reg.
     let pid = sha384_hex E (ap_policy reg);
         key = key_appraisal (ap_fmspc reg);
         ps = unwrap_or [] (get_json R (sd_appraisal S) db key);
         entry = \<lparr>po_id = pid, po_fmspc = ap_fmspc reg, po_is_default = ap_is_default reg,
                  po_policy = ap_policy reg, po_policy_type = ap_policy_type reg\<rparr>
     in and_then (put_json R (sd_appraisal S) db key (upsert_policy entry ps)) (\<lambda>db. Inr (pid, db)))"

text \<open>\<open>let _ = self.put(..)\<close>: a failed write is ignored.\<close>

definition ignoring :: "'db \<Rightarrow> 'db res \<Rightarrow> 'db" where
  "ignoring db r = (case r of Inl _ \<Rightarrow> db | Inr db' \<Rightarrow> db')"

definition upsert_appraisal_policy_raw ::
  "'db rocks \<Rightarrow> serde \<Rightarrow> ext \<Rightarrow> 'db \<Rightarrow> string \<Rightarrow> string \<Rightarrow> bool \<Rightarrow> 'db" where
  "upsert_appraisal_policy_raw R S E db fmspc policy is_default =
     (let fmspc = to_ascii_uppercase fmspc;
          key = key_appraisal fmspc;
          ps = unwrap_or [] (get_json R (sd_appraisal S) db key);
          entry = \<lparr>po_id = sha384_hex E policy, po_fmspc = fmspc, po_is_default = is_default,
                   po_policy = policy, po_policy_type = 0\<rparr>
      in ignoring db (put_json R (sd_appraisal S) db key (upsert_policy entry ps)))"

definition get_default_policies :: "'db rocks \<Rightarrow> serde \<Rightarrow> 'db \<Rightarrow> string \<Rightarrow> string res" where
  "get_default_policies R S db fmspc =
     and_then (ok_or NO_CACHE_DATA (get_json R (sd_appraisal S) db (key_appraisal fmspc))) (\<lambda>ps.
     let defaults = map po_policy (filter po_is_default ps)
     in if defaults = [] then Inl NO_CACHE_DATA else Inr (join '','' defaults))"

section \<open>At most one default\<close>

lemma ignoring_simps [simp]: "ignoring db (Inl e) = db" "ignoring db (Inr db') = db'"
  by (simp_all add: ignoring_def)

text \<open>A policy list as the operations leave it: no digest twice, at most one default.\<close>

definition policies_ok :: "appraisal_policy list \<Rightarrow> bool" where
  "policies_ok ps \<longleftrightarrow> distinct (map po_id ps) \<and> length (filter po_is_default ps) \<le> 1"

lemma map_update_or_push:
  "(\<And>x. p x \<longleftrightarrow> g x = g new) \<Longrightarrow> (\<And>x. p x \<Longrightarrow> g (f x) = g x) \<Longrightarrow>
   map g (update_or_push p f new xs) = (if g new \<in> g ` set xs then map g xs else map g xs @ [g new])"
  by (induction xs) (auto split: if_splits)

lemma upsert_policy_ids:
  "distinct (map po_id ps) \<Longrightarrow> distinct (map po_id (upsert_policy entry ps))"
proof -
  have ids: "map po_id (clear_defaults ps) = map po_id ps" "po_id ` set (clear_defaults ps) = po_id ` set ps"
    by (simp_all add: clear_defaults_def image_image comp_def)
  assume "distinct (map po_id ps)"
  then show ?thesis
    unfolding upsert_policy_def Let_def
    by (subst map_update_or_push) (auto simp: ids)
qed

lemma filter_update_or_push:
  "length (filter D (update_or_push p (\<lambda>_. new) new xs)) \<le> length (filter D xs) + (if D new then 1 else 0)"
  by (induction xs) auto

lemma filter_clear_defaults [simp]: "filter po_is_default (clear_defaults ps) = []"
  by (simp add: clear_defaults_def filter_empty_conv)

lemma upsert_policy_ok: "policies_ok ps \<Longrightarrow> policies_ok (upsert_policy entry ps)"
  using filter_update_or_push [of po_is_default "\<lambda>p. po_id p = po_id entry" entry
      "if po_is_default entry then clear_defaults ps else ps"] upsert_policy_ids [of ps entry]
  by (auto simp: policies_ok_def upsert_policy_def Let_def split: if_splits)

lemma upsert_policy_default:
  assumes "po_is_default entry"
  shows "filter po_is_default (upsert_policy entry ps) = [entry]"
proof -
  have "filter po_is_default (update_or_push p (\<lambda>_. entry) entry qs) = [entry]"
    if "filter po_is_default qs = []" for p qs
    using that assms by (induction qs) (auto split: if_splits)
  with assms show ?thesis by (simp add: upsert_policy_def)
qed

definition appraisal_inv :: "serde \<Rightarrow> kv \<Rightarrow> bool" where
  "appraisal_inv S m \<longleftrightarrow>
     (\<forall>fmspc bs ps. m (as_bytes (key_appraisal fmspc)) = Some bs \<longrightarrow> dec (sd_appraisal S) bs = Some ps \<longrightarrow>
        policies_ok ps)"

lemma put_policies_inv:
  assumes "rocks_ok R view" "serde_ok S" "appraisal_inv S (view db)"
    and "put_json R (sd_appraisal S) db (key_appraisal fmspc)
           (upsert_policy entry (unwrap_or [] (get_json R (sd_appraisal S) db (key_appraisal fmspc)))) = Inr db'"
  shows "appraisal_inv S (view db')"
proof -
  let ?old = "unwrap_or [] (get_json R (sd_appraisal S) db (key_appraisal fmspc))"
  have "policies_ok ?old"
  proof (cases "get_json R (sd_appraisal S) db (key_appraisal fmspc)")
    case (Some ps)
    then obtain b where "view db (as_bytes (key_appraisal fmspc)) = Some b" "dec (sd_appraisal S) b = Some ps"
      using read_json_view [OF assms(1) Some [unfolded get_json_read_json]] by blast
    with assms(3) Some show ?thesis unfolding appraisal_inv_def by auto
  qed (simp add: policies_ok_def)
  then have new: "policies_ok (upsert_policy entry ?old)" by (rule upsert_policy_ok)
  obtain b where b: "enc (sd_appraisal S) (upsert_policy entry ?old) = Some b"
    "view db' = (view db)(as_bytes (key_appraisal fmspc) \<mapsto> b)"
    using put_json_view [OF assms(1,4)] by blast
  have "dec (sd_appraisal S) b = Some (upsert_policy entry ?old)"
    using serde_okD(11) [OF assms(2)] b(1) by (simp add: codec_ok_def)
  with new assms(3) show ?thesis unfolding appraisal_inv_def b(2) by (auto split: if_splits)
qed

text \<open>C30: every write of a policy, by request or from the seed file, keeps the policies of each
  FMSPC free of duplicate digests and with at most one default; and the policy a request makes the
  default is from then on the one that is served for its FMSPC, in whatever case that is asked for.\<close>

theorem appraisal_single_default:
  assumes "rocks_ok R view" "reads_reliable R" "serde_ok S" "appraisal_inv S (view db)"
  shows "appraisal_inv S (view (upsert_appraisal_policy_raw R S E db fmspc policy is_default)) \<and>
    (put_appraisal_policy R S E db body = Inr (pid, db') \<longrightarrow> v_appraisal_policy E body = Inr reg \<longrightarrow>
       appraisal_inv S (view db') \<and> pid = sha384_hex E (ap_policy reg) \<and>
       (ap_is_default reg \<longrightarrow> eq_ignore_ascii_case f (ap_fmspc reg) \<longrightarrow>
          get_default_policies R S db' f = Inr (ap_policy reg)))"
proof (intro conjI impI)
  show "appraisal_inv S (view (upsert_appraisal_policy_raw R S E db fmspc policy is_default))"
    using put_policies_inv [OF assms(1,3,4), of "to_ascii_uppercase fmspc"] assms(4)
    by (auto simp: upsert_appraisal_policy_raw_def Let_def ignoring_def split: sum.splits)
next
  assume *: "put_appraisal_policy R S E db body = Inr (pid, db')" "v_appraisal_policy E body = Inr reg"
  define entry where "entry = \<lparr>po_id = sha384_hex E (ap_policy reg), po_fmspc = ap_fmspc reg,
    po_is_default = ap_is_default reg, po_policy = ap_policy reg, po_policy_type = ap_policy_type reg\<rparr>"
  define ps where "ps = unwrap_or [] (get_json R (sd_appraisal S) db (key_appraisal (ap_fmspc reg)))"
  have put: "put_json R (sd_appraisal S) db (key_appraisal (ap_fmspc reg)) (upsert_policy entry ps) = Inr db'"
    and "pid = sha384_hex E (ap_policy reg)"
    using * by (auto simp: put_appraisal_policy_def Let_def entry_def ps_def)
  then show "pid = sha384_hex E (ap_policy reg)" by simp
  show "appraisal_inv S (view db')" by (rule put_policies_inv [OF assms(1,3,4) put [unfolded ps_def]])
  assume d: "ap_is_default reg" and f: "eq_ignore_ascii_case f (ap_fmspc reg)"
  have key: "key_appraisal f = key_appraisal (ap_fmspc reg)"
    using f by (simp add: key_defs join_lower_def eq_ignore_lower)
  have "po_is_default entry" using d by (simp add: entry_def)
  from upsert_policy_default [OF this, of ps]
  show "get_default_policies R S db' f = Inr (ap_policy reg)"
    using read_after_put_json [OF assms(1,2) serde_okD(11) [OF assms(3)] put]
    by (simp add: get_default_policies_def get_json_read_json key entry_def)
qed

text \<open>A concrete policy body: its payload names the SGX class.\<close>

definition policy_ext :: ext where
  "policy_ext = sample_ext\<lparr>x_json_from_slice :=
     (\<lambda>b. if b = as_bytes ''p'' then Some (JObj [(''policy_payload'', JStr ''q'')])
          else Some (JObj [(''policy_array'', JArr [JObj [(''environment'', JObj [(''class_id'', JStr CLASS_ID_SGX)])]])]))\<rparr>"

definition policy_body :: json where
  "policy_body = JObj [(''policy'', JStr ''h.p.s''), (''is_default'', JBool True), (''fmspc'', JStr ''00606a000000'')]"

definition policy_reg :: appraisal_policy_reg where
  "policy_reg = \<lparr>ap_is_default = True, ap_fmspc = ''00606A000000'', ap_policy = ''h.p.s'', ap_policy_type = 0\<rparr>"

definition policy_list :: "appraisal_policy list" where
  "policy_list = [\<lparr>po_id = ''h.p.s'', po_fmspc = ''00606A000000'', po_is_default = True,
     po_policy = ''h.p.s'', po_policy_type = 0\<rparr>]"

definition policy_serde :: serde where
  "policy_serde = empty_serde\<lparr>sd_appraisal := table_codec [(policy_list, [6])]\<rparr>"

lemma policy_serde_ok: "serde_ok policy_serde"
  using empty_serde_ok by (simp add: policy_serde_def serde_ok_def table_codec_ok)

lemma sample_policy_reg: "v_appraisal_policy policy_ext policy_body = Inr policy_reg"
  by code_simp

lemma sample_policy_put:
  "put_appraisal_policy mem_rocks policy_serde policy_ext [] policy_body =
     Inr (''h.p.s'', [(as_bytes (key_appraisal ''00606A000000''), [6])])"
  by (simp add: put_appraisal_policy_def sample_policy_reg)
    (simp add: policy_reg_def sha384_hex_def policy_ext_def sample_ext_def get_json_def
      upsert_policy_def clear_defaults_def put_json_def policy_serde_def table_codec_def mem_rocks_def policy_list_def)

theorem appraisal_single_default_witness:
  "get_default_policies mem_rocks policy_serde [(as_bytes (key_appraisal ''00606A000000''), [6])] ''00606a000000'' =
     Inr ''h.p.s''"
proof -
  have "appraisal_inv policy_serde (map_of [])" by (simp add: appraisal_inv_def)
  from appraisal_single_default [OF mem_rocks_ok mem_reliable(1) policy_serde_ok this, THEN conjunct2,
      rule_format, OF sample_policy_put sample_policy_reg]
  have "\<And>f. ap_is_default policy_reg \<Longrightarrow> eq_ignore_ascii_case f (ap_fmspc policy_reg) \<Longrightarrow>
    get_default_policies mem_rocks policy_serde [(as_bytes (key_appraisal ''00606A000000''), [6])] f =
      Inr (ap_policy policy_reg)" by blast
  moreover have "ap_is_default policy_reg" "eq_ignore_ascii_case ''00606a000000'' (ap_fmspc policy_reg)"
    "ap_policy policy_reg = ''h.p.s''" by code_simp+
  ultimately show ?thesis by metis
qed

end
