(* ===== verification/Headers.thy ===== *)
theory Headers
  imports Errors
begin

text \<open>\<^verbatim>\<open>src/headers.rs\<close>: the header names of the Intel PCS and PCCS responses.\<close>

definition REQUEST_ID :: string where "REQUEST_ID = ''Request-ID''"
definition WARNING :: string where "WARNING = ''Warning''"
definition USER_TOKEN :: string where "USER_TOKEN = ''user-token''"
definition ADMIN_TOKEN :: string where "ADMIN_TOKEN = ''admin-token''"
definition PLATFORM_COUNT :: string where "PLATFORM_COUNT = ''platform-count''"
definition SGX_TCBM :: string where "SGX_TCBM = ''SGX-TCBm''"
definition SGX_FMSPC :: string where "SGX_FMSPC = ''SGX-FMSPC''"
definition SGX_PCK_CERTIFICATE_CA_TYPE :: string where
  "SGX_PCK_CERTIFICATE_CA_TYPE = ''SGX-PCK-Certificate-CA-Type''"
definition SGX_PCK_CERTIFICATE_ISSUER_CHAIN :: string where
  "SGX_PCK_CERTIFICATE_ISSUER_CHAIN = ''SGX-PCK-Certificate-Issuer-Chain''"
definition TCB_INFO_ISSUER_CHAIN :: string where "TCB_INFO_ISSUER_CHAIN = ''TCB-Info-Issuer-Chain''"
definition SGX_TCB_INFO_ISSUER_CHAIN :: string where
  "SGX_TCB_INFO_ISSUER_CHAIN = ''SGX-TCB-Info-Issuer-Chain''"
definition SGX_ENCLAVE_IDENTITY_ISSUER_CHAIN :: string where
  "SGX_ENCLAVE_IDENTITY_ISSUER_CHAIN = ''SGX-Enclave-Identity-Issuer-Chain''"
definition SGX_PCK_CRL_ISSUER_CHAIN :: string where
  "SGX_PCK_CRL_ISSUER_CHAIN = ''SGX-PCK-CRL-Issuer-Chain''"
definition CONTENT_TYPE_PEM :: string where "CONTENT_TYPE_PEM = ''application/x-pem-file''"
definition CONTENT_TYPE_JSON :: string where "CONTENT_TYPE_JSON = ''application/json''"
definition CONTENT_TYPE_JSON_UTF8 :: string where
  "CONTENT_TYPE_JSON_UTF8 = ''application/json; charset=utf-8''"
definition CONTENT_TYPE_CRL :: string where "CONTENT_TYPE_CRL = ''application/pkix-crl''"

definition V3_EOL_WARNING :: string where
  "V3_EOL_WARNING = ''299 - '' @ [CHR 0x22] @
     ''PCS API version 3 is no longer available. Cached collateral downloaded from API version 3 is deprecated, will not be refreshed, and may expire. Please migrate to API version 4.'' @
     [CHR 0x22]"

definition tcb_issuer_chain_name :: "u32 \<Rightarrow> string" where
  "tcb_issuer_chain_name version =
     (if version = 3 then SGX_TCB_INFO_ISSUER_CHAIN else TCB_INFO_ISSUER_CHAIN)"

end
