(* ===== verification/Seed.thy ===== *)
theory Seed
  imports Appraisal Selection Headers
begin

text \<open>
  \<^verbatim>\<open>src/store.rs\<close>: bulk writes. \<open>load_seed_value\<close> fills the cache from an operator's seed document and
  ignores what it cannot store; \<open>put_platform_collateral\<close> validates a collateral document, writes
  its TCB infos, identities and CRLs one after the other, and publishes the certificates of all its
  platforms in one batch.
\<close>

section \<open>JSON helpers\<close>

definition raw_json :: "ext \<Rightarrow> json \<Rightarrow> string" where
  "raw_json E v = x_json_to_string E v"

definition upper :: "json \<Rightarrow> string \<Rightarrow> string" where
  "upper v key = to_ascii_uppercase (unwrap_or [] (get_str v key))"

fun first_upper :: "json \<Rightarrow> string list \<Rightarrow> string" where
  "first_upper v [] = []"
| "first_upper v (k # ks) =
     (case get_str v k of Some s \<Rightarrow> to_ascii_uppercase s | None \<Rightarrow> first_upper v ks)"

text \<open>\<open>Value::pointer\<close>: the tokens after each \<open>/\<close>, with \<open>~1\<close> and then \<open>~0\<close> unescaped.\<close>

fun replace2 :: "char \<Rightarrow> char \<Rightarrow> char \<Rightarrow> string \<Rightarrow> string" where
  "replace2 a b r (x # y # s) =
     (if x = a \<and> y = b then r # replace2 a b r s else x # replace2 a b r (y # s))"
| "replace2 a b r s = s"

definition pointer_step :: "json option \<Rightarrow> string \<Rightarrow> json option" where
  "pointer_step v token =
     (case v of
        Some (JObj kvs) \<Rightarrow> map_of kvs token
      | Some (JArr xs) \<Rightarrow>
          if starts_with token ''+'' \<or> starts_with token ''0'' \<and> length token \<noteq> 1 then None
          else (case parse_uint (2 ^ 64) token of
                  Some i \<Rightarrow> if nat i < length xs then Some (xs ! nat i) else None
                | None \<Rightarrow> None)
      | _ \<Rightarrow> None)"

definition pointer :: "json \<Rightarrow> string \<Rightarrow> json option" where
  "pointer v p =
     (if p = [] then Some v
      else if \<not> starts_with p ''/'' then None
      else foldl pointer_step (Some v)
             (map (\<lambda>t. replace2 (CHR ''~'') (CHR ''0'') (CHR ''~'') (replace2 (CHR ''~'') (CHR ''1'') (CHR ''/'') t))
                (tl (split_on (CHR ''/'') p))))"

fun first_str :: "json \<Rightarrow> string list \<Rightarrow> string option" where
  "first_str v [] = None"
| "first_str v (p # ps) =
     (case (if CHR ''.'' \<in> set p
            then Option.bind (pointer v (''/'' @ map (\<lambda>c. if c = CHR ''.'' then CHR ''/'' else c) p)) as_str
            else get_str v p) of
        Some s \<Rightarrow> Some s
      | None \<Rightarrow> first_str v ps)"

definition collateral_tcb_info :: "json \<Rightarrow> u32 \<Rightarrow> json option" where
  "collateral_tcb_info tcbinfo version =
     (let inner = (\<lambda>f. Option.bind (jget tcbinfo f) (\<lambda>v. jget v ''tcbInfo''))
      in if version < 4 then or_else (inner ''tcbinfo_early'') (inner ''tcbinfo'')
         else or_else (inner ''sgx_tcbinfo_early'') (inner ''sgx_tcbinfo''))"

definition default_pool :: platform_pool where
  "default_pool = \<lparr>pp_qe_id = [], pp_pce_id = [], pp_enc_ppid = [], pp_platform_manifest = [], pp_fmspc = [],
     pp_ca = [], pp_issuer_chain = [], pp_certs = [], pp_raw_tcbs = []\<rparr>"

section \<open>The seed document\<close>

definition seed_record :: "json \<Rightarrow> pckcert_record option" where
  "seed_record item =
     (let qeid = first_upper item [''qeid'', ''qe_id''];
          cpusvn = first_upper item [''cpusvn'', ''cpu_svn''];
          pcesvn = first_upper item [''pcesvn'', ''pce_svn''];
          pceid = first_upper item [''pceid'', ''pce_id'']
      in if qeid = [] \<or> cpusvn = [] \<or> pcesvn = [] \<or> pceid = [] then None
         else Some \<lparr>pk_qeid = qeid, pk_pceid = pceid, pk_cpusvn = cpusvn, pk_pcesvn = pcesvn,
           pk_cert = unwrap_or [] (get_str item ''cert''), pk_tcbm = upper item ''tcbm'', pk_fmspc = upper item ''fmspc'',
           pk_ca = to_ascii_uppercase (unwrap_or ''PROCESSOR'' (get_str item ''ca'')),
           pk_issuer_chain = unwrap_or [] (get_str item ''issuer_chain''),
           pk_encrypted_ppid = map_option to_ascii_uppercase
             (Option.bind (or_else (jget item ''encrypted_ppid'') (jget item ''enc_ppid'')) as_str),
           pk_platform_manifest = unwrap_or [] (get_str item ''platform_manifest'')\<rparr>)"

definition seed_pool :: "platform_pool option \<Rightarrow> pckcert_record \<Rightarrow> platform_pool" where
  "seed_pool current r =
     (let pool = unwrap_or
            \<lparr>pp_qe_id = pk_qeid r, pp_pce_id = pk_pceid r, pp_enc_ppid = unwrap_or [] (pk_encrypted_ppid r),
             pp_platform_manifest = pk_platform_manifest r, pp_fmspc = pk_fmspc r, pp_ca = pk_ca r,
             pp_issuer_chain = pk_issuer_chain r, pp_certs = [], pp_raw_tcbs = []\<rparr> current;
          pool = (if pk_tcbm r \<noteq> [] \<and> \<not> list_ex (\<lambda>c. pt_tcbm c = pk_tcbm r) (pp_certs pool)
                  then pool\<lparr>pp_certs := pp_certs pool @ [\<lparr>pt_tcbm = pk_tcbm r, pt_cert = pk_cert r\<rparr>]\<rparr> else pool)
      in if \<not> list_ex (\<lambda>raw. rt_cpu_svn raw = pk_cpusvn r \<and> rt_pce_svn raw = pk_pcesvn r) (pp_raw_tcbs pool)
         then pool\<lparr>pp_raw_tcbs := pp_raw_tcbs pool @
                [\<lparr>rt_cpu_svn = pk_cpusvn r, rt_pce_svn = pk_pcesvn r, rt_tcbm = pk_tcbm r\<rparr>]\<rparr>
         else pool)"

definition upsert_pckcert_from_json :: "'db rocks \<Rightarrow> serde \<Rightarrow> 'db \<Rightarrow> json \<Rightarrow> 'db" where
  "upsert_pckcert_from_json R S db item =
     (case seed_record item of
        None \<Rightarrow> db
      | Some r \<Rightarrow>
          (let pool = seed_pool (get_platform_pool R S db (pk_qeid r) (pk_pceid r)) r;
               db = ignoring db (put_platform_pool R S db pool)
           in ignoring db (put_pckcert R S db r)))"

definition fill :: "string \<Rightarrow> string \<Rightarrow> string" where
  "fill old new = (if old = [] then new else old)"

definition upsert_seed_platform :: "'db rocks \<Rightarrow> serde \<Rightarrow> 'db \<Rightarrow> json \<Rightarrow> 'db" where
  "upsert_seed_platform R S db item =
     (let qe_id = first_upper item [''qe_id'', ''qeid''];
          pce_id = first_upper item [''pce_id'', ''pceid'']
      in if qe_id = [] \<or> pce_id = [] then db
         else
           (let enc_ppid = first_upper item [''enc_ppid'', ''encrypted_ppid''];
                manifest = to_ascii_uppercase (unwrap_or [] (get_str item ''platform_manifest''));
                cpu_svn = first_upper item [''cpu_svn'', ''cpusvn''];
                pce_svn = first_upper item [''pce_svn'', ''pcesvn''];
                pool = unwrap_or (default_pool\<lparr>pp_qe_id := qe_id, pp_pce_id := pce_id\<rparr>)
                         (get_platform_pool R S db qe_id pce_id);
                pool = pool\<lparr>pp_enc_ppid := fill (pp_enc_ppid pool) enc_ppid,
                            pp_platform_manifest := fill (pp_platform_manifest pool) manifest,
                            pp_fmspc := fill (pp_fmspc pool) (upper item ''fmspc'')\<rparr>;
                pool = (if cpu_svn \<noteq> [] \<and> pce_svn \<noteq> [] \<and>
                           \<not> list_ex (\<lambda>r. rt_cpu_svn r = cpu_svn \<and> rt_pce_svn r = pce_svn) (pp_raw_tcbs pool)
                        then pool\<lparr>pp_raw_tcbs := pp_raw_tcbs pool @
                               [\<lparr>rt_cpu_svn = cpu_svn, rt_pce_svn = pce_svn, rt_tcbm = []\<rparr>]\<rparr>
                        else pool)
            in ignoring db (put_platform_pool R S db pool)))"

definition upsert_tcb_from_json :: "'db rocks \<Rightarrow> serde \<Rightarrow> ext \<Rightarrow> 'db \<Rightarrow> json \<Rightarrow> 'db" where
  "upsert_tcb_from_json R S E db item =
     (let prd = unwrap_or ''sgx'' (get_str item ''prod_type'');
          fmspc = upper item ''fmspc''
      in if fmspc = [] then db
         else ignoring db (put_tcb R S db
           \<lparr>tr_prod_type = (if prd = ''tdx'' \<or> prd = ''TDX'' then 1 else 0), tr_fmspc = fmspc,
            tr_version = ucast (unwrap_or 4 (get_u64 item ''version'')),
            tr_update_type = to_ascii_uppercase (unwrap_or ''STANDARD'' (get_str item ''update_type'')),
            tr_tcbinfo = unwrap_or JNull (jget item ''tcbinfo''),
            tr_raw_body = unwrap_or [] (map_option (raw_json E) (jget item ''tcbinfo'')),
            tr_issuer_chain = unwrap_or [] (get_str item ''issuer_chain'')\<rparr>))"

definition upsert_identity_from_json :: "'db rocks \<Rightarrow> serde \<Rightarrow> ext \<Rightarrow> 'db \<Rightarrow> json \<Rightarrow> 'db" where
  "upsert_identity_from_json R S E db item =
     ignoring db (put_identity R S db
       \<lparr>ir_enclave_id = ucast (unwrap_or 1 (get_u64 item ''enclave_id'')),
        ir_version = ucast (unwrap_or 4 (get_u64 item ''version'')),
        ir_update_type = to_ascii_uppercase (unwrap_or ''STANDARD'' (get_str item ''update_type'')),
        ir_identity = unwrap_or JNull (jget item ''identity''),
        ir_raw_body = unwrap_or [] (map_option (raw_json E) (jget item ''identity'')),
        ir_issuer_chain = unwrap_or [] (get_str item ''issuer_chain'')\<rparr>)"

definition seed_pckcrl :: "'db rocks \<Rightarrow> serde \<Rightarrow> ext \<Rightarrow> 'db \<Rightarrow> json \<Rightarrow> 'db" where
  "seed_pckcrl R S E db item =
     (case x_hex_decode E (unwrap_or [] (get_str item ''pckcrl_hex'')) of
        None \<Rightarrow> db
      | Some bs \<Rightarrow> ignoring db (put_pckcrl R S db
          \<lparr>pl_ca = to_ascii_uppercase (unwrap_or ''PROCESSOR'' (get_str item ''ca'')), pl_pckcrl = bs,
           pl_issuer_chain = unwrap_or [] (get_str item ''issuer_chain'')\<rparr>))"

definition seed_crl :: "'db rocks \<Rightarrow> serde \<Rightarrow> ext \<Rightarrow> 'db \<Rightarrow> json \<Rightarrow> 'db" where
  "seed_crl R S E db item =
     (let uri = unwrap_or [] (get_str item ''uri'')
      in if uri = [] then db
         else (case x_hex_decode E (unwrap_or [] (get_str item ''crl_hex'')) of
                 None \<Rightarrow> db | Some bs \<Rightarrow> ignoring db (put_crl R S db uri bs)))"

definition seed_policy :: "'db rocks \<Rightarrow> serde \<Rightarrow> ext \<Rightarrow> 'db \<Rightarrow> json \<Rightarrow> 'db" where
  "seed_policy R S E db item =
     (let fmspc = to_ascii_uppercase (unwrap_or [] (get_str item ''fmspc''));
          policy = unwrap_or [] (get_str item ''policy'');
          is_default = unwrap_or True (Option.bind (jget item ''is_default'') as_bool)
      in if fmspc \<noteq> [] \<and> policy \<noteq> [] then upsert_appraisal_policy_raw R S E db fmspc policy is_default else db)"

definition seed_section :: "json \<Rightarrow> string \<Rightarrow> ('db \<Rightarrow> json \<Rightarrow> 'db) \<Rightarrow> 'db \<Rightarrow> 'db" where
  "seed_section v name f db = (case get_array v name of None \<Rightarrow> db | Some arr \<Rightarrow> foldl f db arr)"

definition load_seed_value :: "'db rocks \<Rightarrow> serde \<Rightarrow> ext \<Rightarrow> 'db \<Rightarrow> json \<Rightarrow> 'db" where
  "load_seed_value R S E db v =
     (let db = seed_section v ''pckcerts'' (upsert_pckcert_from_json R S) db;
          db = seed_section v ''platforms'' (upsert_seed_platform R S) db;
          db = seed_section v ''tcbinfo'' (upsert_tcb_from_json R S E) db;
          db = seed_section v ''identities'' (upsert_identity_from_json R S E) db;
          db = seed_section v ''pckcrls'' (seed_pckcrl R S E) db;
          db = (case Option.bind (get_str v ''rootcacrl_hex'') (x_hex_decode E) of
                  None \<Rightarrow> db | Some bs \<Rightarrow> ignoring db (put_rootcacrl R S db bs));
          db = seed_section v ''crls'' (seed_crl R S E) db
      in seed_section v ''appraisal_policies'' (seed_policy R S E) db)"

text \<open>The file content is an argument: \<open>None\<close> when it cannot be read.\<close>

definition load_seed_file :: "'db rocks \<Rightarrow> serde \<Rightarrow> ext \<Rightarrow> 'db \<Rightarrow> string option \<Rightarrow> unit + 'db" where
  "load_seed_file R S E db content =
     and_then (ok_or () content) (\<lambda>data.
     and_then (ok_or () (x_json_from_slice E (as_bytes data))) (\<lambda>v. Inr (load_seed_value R S E db v)))"

definition find_seed_path :: "string option \<Rightarrow> string option" where
  "find_seed_path explicit = explicit"

section \<open>Seeding never loses a platform\<close>

definition pool_keeps :: "platform_pool \<Rightarrow> platform_pool \<Rightarrow> bool" where
  "pool_keeps p p' \<longleftrightarrow>
     pp_qe_id p' = pp_qe_id p \<and> pp_pce_id p' = pp_pce_id p \<and> pp_ca p' = pp_ca p \<and>
     pp_issuer_chain p' = pp_issuer_chain p \<and> pp_enc_ppid p' = fill (pp_enc_ppid p) (pp_enc_ppid p') \<and>
     pp_platform_manifest p' = fill (pp_platform_manifest p) (pp_platform_manifest p') \<and>
     pp_fmspc p' = fill (pp_fmspc p) (pp_fmspc p') \<and>
     prefix (pp_certs p) (pp_certs p') \<and> prefix (pp_raw_tcbs p) (pp_raw_tcbs p')"

definition holds_pool :: "'db rocks \<Rightarrow> serde \<Rightarrow> string \<times> string \<Rightarrow> platform_pool \<Rightarrow> 'db \<Rightarrow> bool" where
  "holds_pool R S q pool db \<longleftrightarrow>
     (\<exists>pool'. get_platform_pool R S db (fst q) (snd q) = Some pool' \<and> pool_keeps pool pool')"

lemma pool_keeps_refl [simp]: "pool_keeps p p"
  by (simp add: pool_keeps_def fill_def)

lemma pool_keeps_trans: "pool_keeps p q \<Longrightarrow> pool_keeps q r \<Longrightarrow> pool_keeps p r"
  unfolding pool_keeps_def fill_def by (auto split: if_splits intro: prefix_order.trans)

lemma seed_pool_keeps: "pool_keeps pool (seed_pool (Some pool) r)"
  by (simp add: seed_pool_def Let_def pool_keeps_def fill_def)

lemma holds_pool_other:
  assumes "rocks_ok R view" "reads_reliable R" "k \<noteq> key_platform (fst q) (snd q)" "holds_pool R S q pool db"
  shows "holds_pool R S q pool (ignoring db (put_json R C db k v))"
proof (cases "put_json R C db k v")
  case (Inr db')
  with platform_slot.get_other_key [OF assms(1,2) Inr assms(3)] assms(4) show ?thesis
    by (simp add: holds_pool_def get_platform_slot)
qed (use assms(4) in simp)

lemma get_platform_matches: "get_platform_pool R S db a b = Some p \<Longrightarrow> platform_matches (a, b) p"
  unfolding get_platform_slot by (rule platform_slot.get_matches [where q = "(a, b)", simplified])

lemma holds_pool_put:
  assumes "rocks_ok R view" "reads_reliable R" "serde_ok S" "holds_pool R S q pool db"
    and "\<And>p. get_platform_pool R S db (fst q) (snd q) = Some p \<Longrightarrow>
      key_platform (pp_qe_id new) (pp_pce_id new) = key_platform (fst q) (snd q) \<Longrightarrow> pool_keeps p new"
  shows "holds_pool R S q pool (ignoring db (put_platform_pool R S db new))"
proof (cases "key_platform (pp_qe_id new) (pp_pce_id new) = key_platform (fst q) (snd q)")
  case True
  obtain p where p: "get_platform_pool R S db (fst q) (snd q) = Some p" "pool_keeps pool p"
    using assms(4) by (auto simp: holds_pool_def)
  have keeps: "pool_keeps p new" by (rule assms(5) [OF p(1) True])
  then have "platform_matches (fst q, snd q) new"
    using get_platform_matches [OF p(1)] by (simp add: platform_matches_def pool_keeps_def)
  then have "get_platform_pool R S db' (fst q) (snd q) = Some new"
    if "put_platform_pool R S db new = Inr db'" for db'
    using platform_slot.get_after_put [OF assms(1,2) serde_okD(2) [OF assms(3)]
        that [unfolded put_platform_pool_def], where q = q] by (simp add: get_platform_slot)
  with p keeps show ?thesis
    by (cases "put_platform_pool R S db new") (auto simp: holds_pool_def intro: pool_keeps_trans)
next
  case False
  then show ?thesis
    using holds_pool_other [OF assms(1,2) False assms(4)] by (simp add: put_platform_pool_def)
qed

text \<open>The identifiers a seed item writes to, and that they do not collide with another platform's key.\<close>

definition seed_ids :: "json \<Rightarrow> string \<times> string" where
  "seed_ids item = (first_upper item [''qe_id'', ''qeid''], first_upper item [''pce_id'', ''pceid''])"

definition cert_ids :: "json \<Rightarrow> string \<times> string" where
  "cert_ids item = (first_upper item [''qeid'', ''qe_id''], first_upper item [''pceid'', ''pce_id''])"

definition same_platform :: "string \<times> string \<Rightarrow> string \<times> string \<Rightarrow> bool" where
  "same_platform a b \<longleftrightarrow> eq_ignore_ascii_case (fst a) (fst b) \<and> eq_ignore_ascii_case (snd a) (snd b)"

definition no_collision :: "string \<times> string \<Rightarrow> string \<times> string \<Rightarrow> bool" where
  "no_collision q a \<longleftrightarrow> (key_platform (fst a) (snd a) = key_platform (fst q) (snd q) \<longrightarrow> same_platform a q)"

lemma get_platform_same:
  "same_platform a q \<Longrightarrow> get_platform_pool R S db (fst a) (snd a) = get_platform_pool R S db (fst q) (snd q)"
proof -
  assume a: "same_platform a q"
  then have "platform_matches a = platform_matches q"
    by (simp add: fun_eq_iff platform_matches_def same_platform_def eq_ignore_lower)
  with a show ?thesis
    by (simp add: get_platform_slot checked_get_def same_platform_def slot_keys)
qed

lemma other_keys_not_platform [simp]:
  "key_pckcert a b c d \<noteq> key_platform q p" "key_tcb x v f u \<noteq> key_platform q p"
  "key_identity n v u \<noteq> key_platform q p" "key_pckcrl ca \<noteq> key_platform q p"
  "key_rootcacrl \<noteq> key_platform q p" "key_crl uri \<noteq> key_platform q p" "key_appraisal f \<noteq> key_platform q p"
  by (simp_all add: key_defs prefix_defs)

lemma seed_cert_holds:
  assumes ok: "rocks_ok R view" "reads_reliable R" "serde_ok S"
    and hold: "holds_pool R S q pool db" "no_collision q (cert_ids item)"
  shows "holds_pool R S q pool (upsert_pckcert_from_json R S db item)"
proof (cases "seed_record item")
  case (Some r)
  have ids: "(pk_qeid r, pk_pceid r) = cert_ids item"
    using Some by (auto simp: seed_record_def cert_ids_def Let_def split: if_splits)
  let ?cur = "get_platform_pool R S db (pk_qeid r) (pk_pceid r)"
  let ?new = "seed_pool ?cur r"
  have new_ids: "key_platform (pp_qe_id ?new) (pp_pce_id ?new) = key_platform (pk_qeid r) (pk_pceid r)"
  proof (cases ?cur)
    case (Some p)
    with get_platform_matches [OF Some] show ?thesis
      by (auto simp: seed_pool_def Let_def platform_matches_def slot_keys)
  qed (simp add: seed_pool_def Let_def)
  have "pool_keeps p ?new"
    if p: "get_platform_pool R S db (fst q) (snd q) = Some p"
      and k: "key_platform (pp_qe_id ?new) (pp_pce_id ?new) = key_platform (fst q) (snd q)" for p
  proof -
    have "same_platform (pk_qeid r, pk_pceid r) q"
      using hold(2) k new_ids by (simp add: no_collision_def flip: ids)
    from get_platform_same [OF this, of R S db] p have "?cur = Some p" by simp
    then show ?thesis by (simp add: seed_pool_keeps)
  qed
  from holds_pool_put [OF ok hold(1) this]
  have "holds_pool R S q pool (ignoring db (put_platform_pool R S db ?new))" by blast
  with Some show ?thesis
    by (simp add: upsert_pckcert_from_json_def put_pckcert_def Let_def holds_pool_other [OF ok(1,2)])
qed (simp add: upsert_pckcert_from_json_def hold(1))

lemma seed_platform_holds:
  assumes ok: "rocks_ok R view" "reads_reliable R" "serde_ok S"
    and hold: "holds_pool R S q pool db" "no_collision q (seed_ids item)"
  shows "holds_pool R S q pool (upsert_seed_platform R S db item)"
proof -
  let ?a = "seed_ids item"
  let ?cur = "get_platform_pool R S db (fst ?a) (snd ?a)"
  have "holds_pool R S q pool (ignoring db (put_platform_pool R S db new))"
    if new: "pool_keeps (unwrap_or (default_pool\<lparr>pp_qe_id := fst ?a, pp_pce_id := snd ?a\<rparr>) ?cur) new" for new
  proof (rule holds_pool_put [OF ok hold(1)])
    have new_ids: "key_platform (pp_qe_id new) (pp_pce_id new) = key_platform (fst ?a) (snd ?a)"
    proof (cases ?cur)
      case (Some p)
      with get_platform_matches [OF Some] new show ?thesis
        by (simp add: pool_keeps_def platform_matches_def slot_keys)
    qed (use new in \<open>simp add: pool_keeps_def\<close>)
    fix p assume p: "get_platform_pool R S db (fst q) (snd q) = Some p"
      and "key_platform (pp_qe_id new) (pp_pce_id new) = key_platform (fst q) (snd q)"
    then have "same_platform ?a q" using hold(2) new_ids by (simp add: no_collision_def)
    from get_platform_same [OF this, of R S db] p new show "pool_keeps p new" by simp
  qed
  then show ?thesis
    unfolding upsert_seed_platform_def Let_def
    using hold(1) by (auto simp: pool_keeps_def fill_def seed_ids_def)
qed

lemma seed_others_hold:
  assumes ok: "rocks_ok R view" "reads_reliable R" and hold: "holds_pool R S q pool db"
  shows "holds_pool R S q pool (upsert_tcb_from_json R S E db item)"
    and "holds_pool R S q pool (upsert_identity_from_json R S E db item)"
    and "holds_pool R S q pool (seed_pckcrl R S E db item)"
    and "holds_pool R S q pool (ignoring db (put_rootcacrl R S db bs))"
    and "holds_pool R S q pool (seed_crl R S E db item)"
    and "holds_pool R S q pool (seed_policy R S E db item)"
  unfolding upsert_tcb_from_json_def upsert_identity_from_json_def seed_pckcrl_def put_rootcacrl_def
    put_crl_def put_tcb_def put_identity_def put_pckcrl_def seed_crl_def seed_policy_def
    upsert_appraisal_policy_raw_def Let_def
  by (auto intro!: holds_pool_other [OF ok _ hold] hold split: option.splits)

lemma foldl_holds:
  assumes "P db" "\<And>db x. P db \<Longrightarrow> x \<in> set xs \<Longrightarrow> P (f db x)"
  shows "P (foldl f db xs)"
  using assms by (induction xs arbitrary: db) auto

lemma seed_section_holds:
  assumes "P db" "\<And>db item. P db \<Longrightarrow> item \<in> set (unwrap_or [] (get_array v name)) \<Longrightarrow> P (f db item)"
  shows "P (seed_section v name f db)"
  using assms by (cases "get_array v name") (auto simp: seed_section_def intro: foldl_holds)

text \<open>C24: loading a seed document never loses what is cached of a platform. Whatever the document
  contains (and whichever of its writes fail), a platform that was cached before is cached
  after, with its certificates and raw TCB levels kept in order and at most extended, and no
  non-blank field overwritten, provided no seeded platform's key collides with its own.\<close>

theorem load_seed_keeps_platforms:
  assumes "rocks_ok R view" "reads_reliable R" "serde_ok S"
    and "get_platform_pool R S db qe_id pce_id = Some pool"
    and "\<forall>item\<in>set (unwrap_or [] (get_array v ''pckcerts'')). no_collision (qe_id, pce_id) (cert_ids item)"
    and "\<forall>item\<in>set (unwrap_or [] (get_array v ''platforms'')). no_collision (qe_id, pce_id) (seed_ids item)"
  shows "\<exists>pool'. get_platform_pool R S (load_seed_value R S E db v) qe_id pce_id = Some pool' \<and>
    pool_keeps pool pool'"
proof -
  let ?P = "holds_pool R S (qe_id, pce_id) pool"
  note ok = assms(1,2) and ok3 = assms(1-3)
  have "?P db" using assms(4) by (simp add: holds_pool_def)
  define d1 where "d1 = seed_section v ''pckcerts'' (upsert_pckcert_from_json R S) db"
  define d2 where "d2 = seed_section v ''platforms'' (upsert_seed_platform R S) d1"
  from \<open>?P db\<close> have "?P d1" unfolding d1_def
    by (rule seed_section_holds) (simp add: seed_cert_holds [OF ok3] assms(5))
  then have "?P d2" unfolding d2_def
    by (rule seed_section_holds) (simp add: seed_platform_holds [OF ok3] assms(6))
  then have "?P (load_seed_value R S E db v)"
    unfolding load_seed_value_def Let_def d1_def [symmetric] d2_def [symmetric]
    by (auto intro!: seed_section_holds [where P = ?P] seed_others_hold [OF ok] split: option.splits)
  then show ?thesis by (simp add: holds_pool_def)
qed

definition seed_doc :: json where
  "seed_doc = JObj [(''platforms'', JArr [JObj [(''qe_id'', JStr ''AB''), (''pce_id'', JStr ''0000''),
     (''enc_ppid'', JStr ''FF''), (''fmspc'', JStr ''00'')]])]"

theorem load_seed_keeps_platforms_witness:
  "\<exists>pool'. get_platform_pool mem_rocks pool_serde (load_seed_value mem_rocks pool_serde sample_ext pool_db seed_doc)
      ''AB'' ''0000'' = Some pool' \<and> pool_keeps sample_platform pool'"
proof (rule load_seed_keeps_platforms [OF mem_rocks_ok mem_reliable(1) pool_serde_ok pool_db_get])
  have "get_array seed_doc ''pckcerts'' = None" by (simp add: seed_doc_def get_array_def)
  then show "\<forall>item\<in>set (unwrap_or [] (get_array seed_doc ''pckcerts'')). no_collision (''AB'', ''0000'') (cert_ids item)"
    by simp
  have "map seed_ids (unwrap_or [] (get_array seed_doc ''platforms'')) = [(''AB'', ''0000'')]" by code_simp
  then show "\<forall>item\<in>set (unwrap_or [] (get_array seed_doc ''platforms'')). no_collision (''AB'', ''0000'') (seed_ids item)"
    by (auto simp: no_collision_def same_platform_def)
qed

end
