(* ===== verification/Collateral.thy ===== *)
theory Collateral
  imports Seed
begin

text \<open>
  \<^verbatim>\<open>src/store.rs\<close>: \<open>put_platform_collateral\<close>. The request's TCB infos, identities and CRLs are written
  one by one, so a later failure leaves the earlier writes in place: the model returns the outcome
  together with the database. The certificates of all platforms are gathered first and written as one
  batch.
\<close>

section \<open>Writes that stop at the first failure\<close>

type_synonym 'db outcome = "unit res \<times> 'db"

definition attempt :: "'db \<Rightarrow> 'db res \<Rightarrow> 'db outcome" where
  "attempt db r = (case r of Inl e \<Rightarrow> (Inl e, db) | Inr db' \<Rightarrow> (Inr (), db'))"

definition next_step :: "'db outcome \<Rightarrow> ('db \<Rightarrow> 'db outcome) \<Rightarrow> 'db outcome" where
  "next_step o1 f = (case o1 of (Inl e, db) \<Rightarrow> (Inl e, db) | (Inr _, db) \<Rightarrow> f db)"

fun each_step :: "('a \<Rightarrow> 'db \<Rightarrow> 'db outcome) \<Rightarrow> 'a list \<Rightarrow> 'db \<Rightarrow> 'db outcome" where
  "each_step f [] db = (Inr (), db)"
| "each_step f (x # xs) db = next_step (f x db) (each_step f xs)"

section \<open>TCB infos, identities, CRLs\<close>

definition early_str :: "bool \<Rightarrow> string" where
  "early_str early = (if early then ''EARLY'' else ''STANDARD'')"

definition tcb_fields :: "u32 \<Rightarrow> (string \<times> u8 \<times> bool) list" where
  "tcb_fields version =
     (if version < 4 then [(''tcbinfo'', 0, False), (''tcbinfo_early'', 0, True)]
      else [(''sgx_tcbinfo'', 0, False), (''sgx_tcbinfo_early'', 0, True),
            (''tdx_tcbinfo'', 1, False), (''tdx_tcbinfo_early'', 1, True)])"

definition put_tcb_field ::
  "'db rocks \<Rightarrow> serde \<Rightarrow> ext \<Rightarrow> u32 \<Rightarrow> string \<Rightarrow> json \<Rightarrow> string \<Rightarrow> string \<times> u8 \<times> bool \<Rightarrow> 'db \<Rightarrow> 'db outcome" where
  "put_tcb_field R S E version issuer t fmspc field db =
     (case field of (name, prd, early) \<Rightarrow>
        (case jget t name of
           None \<Rightarrow> (Inr (), db)
         | Some info \<Rightarrow> attempt db (put_tcb R S db
             \<lparr>tr_prod_type = prd, tr_fmspc = fmspc, tr_version = version, tr_update_type = early_str early,
              tr_tcbinfo = info, tr_raw_body = raw_json E info, tr_issuer_chain = issuer\<rparr>)))"

definition put_tcb_infos ::
  "'db rocks \<Rightarrow> serde \<Rightarrow> ext \<Rightarrow> u32 \<Rightarrow> json \<Rightarrow> json \<Rightarrow> 'db \<Rightarrow> 'db outcome" where
  "put_tcb_infos R S E version certificates collaterals db =
     (let issuer = unwrap_or [] (first_str certificates
            [tcb_issuer_chain_name version, TCB_INFO_ISSUER_CHAIN, SGX_TCB_INFO_ISSUER_CHAIN])
      in case get_array collaterals ''tcbinfos'' of
           None \<Rightarrow> (Inr (), db)
         | Some tcbs \<Rightarrow> each_step (\<lambda>t db.
             let fmspc = upper t ''fmspc''
             in if fmspc = [] then (Inr (), db)
                else each_step (put_tcb_field R S E version issuer t fmspc) (tcb_fields version) db) tcbs db)"

definition identity_fields :: "(string \<times> u8 \<times> bool) list" where
  "identity_fields =
     [(''qeidentity'', 1, False), (''qeidentity_early'', 1, True), (''qveidentity'', 2, False),
      (''qveidentity_early'', 2, True), (''tdqeidentity'', 3, False), (''tdqeidentity_early'', 3, True)]"

definition put_identity_field ::
  "'db rocks \<Rightarrow> serde \<Rightarrow> ext \<Rightarrow> u32 \<Rightarrow> string \<Rightarrow> json \<Rightarrow> string \<times> u8 \<times> bool \<Rightarrow> 'db \<Rightarrow> 'db outcome" where
  "put_identity_field R S E version issuer collaterals field db =
     (case field of (name, eid, early) \<Rightarrow>
        (case jget collaterals name of
           None \<Rightarrow> (Inr (), db)
         | Some ident \<Rightarrow>
             (let (identity, raw_body) =
                    (case as_str ident of
                       Some s \<Rightarrow> (unwrap_or ident (x_json_from_slice E (as_bytes s)), s)
                     | None \<Rightarrow> (ident, raw_json E ident))
              in attempt db (put_identity R S db
                   \<lparr>ir_enclave_id = eid, ir_version = version, ir_update_type = early_str early,
                    ir_identity = identity, ir_raw_body = raw_body, ir_issuer_chain = issuer\<rparr>))))"

definition put_identities ::
  "'db rocks \<Rightarrow> serde \<Rightarrow> ext \<Rightarrow> u32 \<Rightarrow> json \<Rightarrow> json \<Rightarrow> 'db \<Rightarrow> 'db outcome" where
  "put_identities R S E version certificates collaterals db =
     each_step (put_identity_field R S E version
         (unwrap_or [] (get_str certificates SGX_ENCLAVE_IDENTITY_ISSUER_CHAIN)) collaterals)
       identity_fields db"

definition pck_chain :: "json \<Rightarrow> string \<Rightarrow> string" where
  "pck_chain certificates ca =
     unwrap_or [] (Option.bind
       (pointer certificates (''/'' @ SGX_PCK_CERTIFICATE_ISSUER_CHAIN @ ''/'' @ ca)) as_str)"

definition put_pck_crls ::
  "'db rocks \<Rightarrow> serde \<Rightarrow> ext \<Rightarrow> json \<Rightarrow> json \<Rightarrow> 'db \<Rightarrow> 'db outcome" where
  "put_pck_crls R S E certificates collaterals db =
     (case jget collaterals ''pckcacrl'' of
        None \<Rightarrow> (Inr (), db)
      | Some crl \<Rightarrow> each_step (\<lambda>(name, ca) db.
          case Option.bind (get_str crl name) (x_hex_decode E) of
            None \<Rightarrow> (Inr (), db)
          | Some bs \<Rightarrow> attempt db (put_pckcrl R S db
              \<lparr>pl_ca = ca, pl_pckcrl = bs, pl_issuer_chain = pck_chain certificates ca\<rparr>))
          [(''processorCrl'', ''PROCESSOR''), (''platformCrl'', ''PLATFORM'')] db)"

definition put_root_crl :: "'db rocks \<Rightarrow> serde \<Rightarrow> ext \<Rightarrow> json \<Rightarrow> 'db \<Rightarrow> 'db outcome" where
  "put_root_crl R S E collaterals db =
     (case Option.bind (get_str collaterals ''rootcacrl'') (x_hex_decode E) of
        None \<Rightarrow> (Inr (), db)
      | Some bs \<Rightarrow> next_step (attempt db (put_rootcacrl R S db bs)) (\<lambda>db.
          case get_str collaterals ''rootcacrl_cdp'' of
            None \<Rightarrow> (Inr (), db)
          | Some cdp \<Rightarrow> attempt db (put_crl R S db cdp bs)))"

section \<open>Platforms\<close>

definition entry_certs :: "json \<Rightarrow> (string \<times> string) list" where
  "entry_certs pc =
     (case get_array pc ''certs'' of
        None \<Rightarrow> []
      | Some arr \<Rightarrow> map (\<lambda>c. (upper c ''tcbm'', percent_decode (unwrap_or [] (get_str c ''cert'')))) arr)"

fun request_levels :: "json list \<Rightarrow> (string \<times> string) list \<Rightarrow> (string \<times> string) list" where
  "request_levels [] raws = raws"
| "request_levels (p # ps) raws =
     (let cpu = first_upper p [''cpu_svn'', ''cpusvn''];
          pce = first_upper p [''pce_svn'', ''pcesvn'']
      in request_levels ps
           (if cpu \<noteq> [] \<and> pce \<noteq> [] \<and> (cpu, pce) \<notin> set raws then raws @ [(cpu, pce)] else raws))"

text \<open>The selection loop: one record and one batch entry per raw level.\<close>

fun select_levels ::
  "serde \<Rightarrow> ext \<Rightarrow> string \<Rightarrow> string \<Rightarrow> platform_pool \<Rightarrow> (string \<times> string) list \<Rightarrow> json \<Rightarrow> string \<Rightarrow>
   (string \<times> string) list \<Rightarrow> (raw_tcb list \<times> batch_op list) res" where
  "select_levels S E qe_id pce_id pool certs tcb_info issuer [] = Inr ([], [])"
| "select_levels S E qe_id pce_id pool certs tcb_info issuer ((cpu_svn, pce_svn) # raws) =
     and_then (map_err (\<lambda>_. INVALID_REQ)
        (select_best_pck_cert E cpu_svn pce_svn pce_id certs tcb_info)) (\<lambda>(tcbm, cert).
     and_then (batch_pckcert S
        \<lparr>pk_qeid = qe_id, pk_pceid = pce_id, pk_cpusvn = cpu_svn, pk_pcesvn = pce_svn,
         pk_cert = cert, pk_tcbm = tcbm, pk_fmspc = pp_fmspc pool, pk_ca = pp_ca pool, pk_issuer_chain = issuer,
         pk_encrypted_ppid = opt_nonempty (pp_enc_ppid pool),
         pk_platform_manifest = pp_platform_manifest pool\<rparr>) (\<lambda>op.
     and_then (select_levels S E qe_id pce_id pool certs tcb_info issuer raws) (\<lambda>(raws', ops).
       Inr (\<lparr>rt_cpu_svn = cpu_svn, rt_pce_svn = pce_svn, rt_tcbm = tcbm\<rparr> # raws', op # ops))))"

text \<open>One entry of \<open>pck_certs\<close>: the pool it becomes, and its writes.\<close>

definition entry_pool :: "json \<Rightarrow> json list \<Rightarrow> string \<Rightarrow> string \<Rightarrow> pck_cert_info \<Rightarrow> (string \<times> string) list \<Rightarrow>
  platform_pool option \<Rightarrow> platform_pool" where
  "entry_pool certificates new_platforms qe_id pce_id info certs current =
     (let pool = unwrap_or (default_pool\<lparr>pp_qe_id := qe_id, pp_pce_id := pce_id\<rparr>) current;
          pool = pool\<lparr>pp_fmspc := ci_fmspc info, pp_ca := ci_ca info,
                      pp_certs := map (\<lambda>(tcbm, cert). \<lparr>pt_tcbm = tcbm, pt_cert = cert\<rparr>) certs\<rparr>;
          issuer = (if pck_chain certificates (ci_ca info) = []
                    then (case new_platforms of
                            [] \<Rightarrow> []
                          | p # _ \<Rightarrow> unwrap_or [] (get_str p ''issuer_chain''))
                    else pck_chain certificates (ci_ca info));
          pool = pool\<lparr>pp_issuer_chain := issuer\<rparr>
      in case new_platforms of
           [] \<Rightarrow> pool
         | p # _ \<Rightarrow> pool\<lparr>pp_enc_ppid := first_upper p [''enc_ppid'', ''encrypted_ppid''],
             pp_platform_manifest := to_ascii_uppercase (unwrap_or [] (get_str p ''platform_manifest''))\<rparr>)"

definition entry_info :: "ext \<Rightarrow> u32 \<Rightarrow> json list \<Rightarrow> (string \<times> string) list \<Rightarrow> (pck_cert_info \<times> json) res" where
  "entry_info E version tcbinfos certs =
     (case certs of
        [] \<Rightarrow> Inl INVALID_REQ
      | (_, cert) # _ \<Rightarrow>
          and_then (map_err (\<lambda>_. INVALID_REQ) (parse_pck_cert E cert)) (\<lambda>info.
          if ci_fmspc info = [] \<or> ci_ca info = [] then Inl INVALID_REQ
          else and_then (ok_or INVALID_REQ
                 (Option.bind (find (\<lambda>t. upper t ''fmspc'' = ci_fmspc info) tcbinfos)
                    (\<lambda>t. collateral_tcb_info t version))) (\<lambda>tcb_info. Inr (info, tcb_info))))"

definition matching_platforms :: "json list \<Rightarrow> string \<Rightarrow> string \<Rightarrow> json list" where
  "matching_platforms platforms qe_id pce_id =
     filter (\<lambda>p. first_upper p [''qe_id'', ''qeid''] = qe_id \<and> first_upper p [''pce_id'', ''pceid''] = pce_id)
       platforms"

definition entry_ops ::
  "'db rocks \<Rightarrow> serde \<Rightarrow> ext \<Rightarrow> 'db \<Rightarrow> u32 \<Rightarrow> json \<Rightarrow> json list \<Rightarrow> json list \<Rightarrow> json \<Rightarrow> batch_op list res" where
  "entry_ops R S E db version certificates platforms tcbinfos pc =
     (let qe_id = first_upper pc [''qe_id'', ''qeid''];
          pce_id = first_upper pc [''pce_id'', ''pceid''];
          certs = entry_certs pc
      in and_then (entry_info E version tcbinfos certs) (\<lambda>(info, tcb_info).
         let new_platforms = matching_platforms platforms qe_id pce_id;
             pool = entry_pool certificates new_platforms qe_id pce_id info certs
                      (get_platform_pool R S db qe_id pce_id);
             levels = request_levels new_platforms
                        (map (\<lambda>r. (rt_cpu_svn r, rt_pce_svn r)) (pp_raw_tcbs pool))
         in and_then (select_levels S E qe_id pce_id pool certs tcb_info (pp_issuer_chain pool) levels)
              (\<lambda>(raws, ops).
              and_then (put_op (sd_platform S) (key_platform (pp_qe_id pool) (pp_pce_id pool))
                          (pool\<lparr>pp_raw_tcbs := raws\<rparr>)) (\<lambda>op. Inr (ops @ [op])))))"

definition put_platform_certs ::
  "'db rocks \<Rightarrow> serde \<Rightarrow> ext \<Rightarrow> u32 \<Rightarrow> json \<Rightarrow> json \<Rightarrow> json list \<Rightarrow> 'db \<Rightarrow> 'db outcome" where
  "put_platform_certs R S E version certificates collaterals platforms db =
     attempt db
       (and_then (try_map (entry_ops R S E db version certificates platforms
                             (unwrap_or [] (get_array collaterals ''tcbinfos'')))
                    (unwrap_or [] (get_array collaterals ''pck_certs'')))
          (\<lambda>batches. write_batch R db (concat batches)))"

definition put_platform_collateral ::
  "'db rocks \<Rightarrow> serde \<Rightarrow> ext \<Rightarrow> 'db \<Rightarrow> json \<Rightarrow> u32 \<Rightarrow> 'db outcome" where
  "put_platform_collateral R S E db body version =
     (case and_then (v_platform_collateral body version) (\<lambda>_. ok_or INVALID_REQ (get_array body ''platforms'')) of
        Inl e \<Rightarrow> (Inl e, db)
      | Inr platforms \<Rightarrow>
          (let collaterals = unwrap_or JNull (jget body ''collaterals'');
               certificates = unwrap_or JNull (jget collaterals ''certificates'')
           in next_step (put_tcb_infos R S E version certificates collaterals db) (\<lambda>db.
              next_step (put_identities R S E version certificates collaterals db) (\<lambda>db.
              next_step (put_pck_crls R S E certificates collaterals db) (\<lambda>db.
              next_step (put_root_crl R S E collaterals db)
                (put_platform_certs R S E version certificates collaterals platforms))))))"

section \<open>What the single writes leave alone\<close>

definition platform_area :: "bytes \<Rightarrow> bool" where
  "platform_area k \<longleftrightarrow> starts_with k (as_bytes PCKCERT) \<or> starts_with k (as_bytes PLATFORM)"

definition area_kept :: "('db \<Rightarrow> kv) \<Rightarrow> 'db \<Rightarrow> 'db outcome \<Rightarrow> bool" where
  "area_kept view db r \<longleftrightarrow> (\<forall>k. platform_area k \<longrightarrow> view (snd r) k = view db k)"

lemma area_kept_refl [simp]: "area_kept view db (r, db)"
  by (simp add: area_kept_def)

lemma area_kept_next:
  "area_kept view db r \<Longrightarrow> (\<And>db'. area_kept view db' (f db')) \<Longrightarrow> area_kept view db (next_step r f)"
  by (cases r; cases "fst r") (auto simp: next_step_def area_kept_def)

lemma area_kept_each: "(\<And>x db. area_kept view db (f x db)) \<Longrightarrow> area_kept view db (each_step f xs db)"
  by (induction xs arbitrary: db) (auto intro: area_kept_next)

lemma area_kept_put:
  assumes "rocks_ok R view" "\<not> platform_area (as_bytes key)"
  shows "area_kept view db (attempt db (put_json R C db key v))"
proof (cases "put_json R C db key v")
  case (Inr db')
  with put_json_view [OF assms(1) Inr] assms(2) show ?thesis
    by (auto simp: attempt_def area_kept_def)
qed (simp add: attempt_def)

lemma not_platform_area [simp]:
  "\<not> platform_area (as_bytes (key_tcb x v f u))" "\<not> platform_area (as_bytes (key_identity n v u))"
  "\<not> platform_area (as_bytes (key_pckcrl ca))" "\<not> platform_area (as_bytes key_rootcacrl)"
  "\<not> platform_area (as_bytes (key_crl uri))"
  unfolding platform_area_def starts_with_as_bytes
  by (simp_all add: key_defs prefix_defs starts_with_def)

lemma single_fields_area:
  assumes "rocks_ok R view"
  shows "area_kept view db (put_tcb_field R S E version issuer t fmspc field db)"
    and "area_kept view db (put_identity_field R S E version issuer collaterals field db)"
  unfolding put_tcb_field_def put_tcb_def put_identity_field_def put_identity_def
  by (cases field, cases "jget t (fst field)"; simp add: area_kept_put [OF assms])
    (cases field, cases "jget collaterals (fst field)"; simp add: area_kept_put [OF assms] case_prod_unfold Let_def)

lemma single_writes_area:
  assumes "rocks_ok R view"
  shows "area_kept view db (put_tcb_infos R S E version certificates collaterals db)"
    and "area_kept view db (put_identities R S E version certificates collaterals db)"
    and "area_kept view db (put_pck_crls R S E certificates collaterals db)"
    and "area_kept view db (put_root_crl R S E collaterals db)"
proof -
  note put = area_kept_put [OF assms] and field = single_fields_area [OF assms]
  show "area_kept view db (put_tcb_infos R S E version certificates collaterals db)"
    by (cases "get_array collaterals ''tcbinfos''") (auto simp: put_tcb_infos_def Let_def intro!: area_kept_each field)
  show "area_kept view db (put_identities R S E version certificates collaterals db)"
    unfolding put_identities_def by (intro area_kept_each field)
  show "area_kept view db (put_pck_crls R S E certificates collaterals db)"
    by (cases "jget collaterals ''pckcacrl''")
      (auto simp: put_pck_crls_def put_pckcrl_def intro!: area_kept_next put split: option.split)
  show "area_kept view db (put_root_crl R S E collaterals db)"
    unfolding put_root_crl_def put_rootcacrl_def put_crl_def
    by (auto intro!: area_kept_next put split: option.split)
qed

lemma collateral_steps:
  assumes "put_platform_collateral R S E db body version = (r, db')"
  obtains (rejected) "db' = db" "r \<noteq> Inr ()"
    | (written) platforms collaterals certificates o1
    where "get_array body ''platforms'' = Some platforms" "collaterals = unwrap_or JNull (jget body ''collaterals'')"
      "certificates = unwrap_or JNull (jget collaterals ''certificates'')"
      "\<And>view. rocks_ok R view \<Longrightarrow> area_kept view db o1"
      "next_step o1 (put_platform_certs R S E version certificates collaterals platforms) = (r, db')"
proof (cases "and_then (v_platform_collateral body version) (\<lambda>_. ok_or INVALID_REQ (get_array body ''platforms''))")
  case (Inl e)
  with assms show thesis by (intro rejected) (auto simp: put_platform_collateral_def)
next
  case (Inr platforms)
  let ?c = "unwrap_or JNull (jget body ''collaterals'')"
  let ?t = "unwrap_or JNull (jget ?c ''certificates'')"
  define o1 where "o1 = next_step (put_tcb_infos R S E version ?t ?c db) (\<lambda>db.
    next_step (put_identities R S E version ?t ?c db) (\<lambda>db.
    next_step (put_pck_crls R S E ?t ?c db) (put_root_crl R S E ?c)))"
  have assoc: "next_step (next_step r f) g = next_step r (\<lambda>db. next_step (f db) g)" for r f and g :: "'a \<Rightarrow> 'a outcome"
    by (cases r; cases "fst r") (auto simp: next_step_def)
  show thesis
  proof (rule written)
    show "get_array body ''platforms'' = Some platforms" using Inr by simp
    show "area_kept view db o1" if "rocks_ok R view" for view
      unfolding o1_def by (intro area_kept_next single_writes_area that)
    show "next_step o1 (put_platform_certs R S E version ?t ?c platforms) = (r, db')"
      using assms Inr by (simp add: put_platform_collateral_def o1_def assoc Let_def)
  qed (rule refl)+
qed

section \<open>Properties\<close>

text \<open>C23: a collateral request that fails, at whatever point, has published nothing about any
  platform: no PCK certificate record and no platform pool was written, changed or removed.\<close>

theorem collateral_platforms_atomic:
  assumes "rocks_ok R view" "put_platform_collateral R S E db body version = (Inl e, db')"
    and "starts_with k (as_bytes PCKCERT) \<or> starts_with k (as_bytes PLATFORM)"
  shows "view db' k = view db k"
  using assms(2)
proof (cases rule: collateral_steps)
  case (written platforms collaterals certificates o1)
  have kept: "view (snd o1) k = view db k"
    using written(4) [OF assms(1)] assms(3) by (auto simp: area_kept_def platform_area_def)
  have "db' = snd o1"
    using written(5) by (cases o1; cases "fst o1")
      (auto simp: next_step_def put_platform_certs_def attempt_def split: sum.splits)
  with kept show ?thesis by simp
qed simp

theorem collateral_platforms_atomic_witness:
  "map_of (snd (put_platform_collateral mem_rocks pool_serde sample_ext pool_db JNull 3))
     (as_bytes (key_platform ''AB'' ''0000'')) = Some [1]"
proof -
  have "put_platform_collateral mem_rocks pool_serde sample_ext pool_db JNull 3 = (Inl INVALID_REQ, pool_db)"
    by (simp add: put_platform_collateral_def v_platform_collateral_def is_object_def guard_def)
  from collateral_platforms_atomic [OF mem_rocks_ok this, of "as_bytes (key_platform ''AB'' ''0000'')"] this
  show ?thesis by (simp add: pool_db_def key_defs)
qed

lemma request_levels_keeps: "set raws \<subseteq> set (request_levels ps raws)"
proof (induction ps arbitrary: raws)
  case (Cons p ps)
  show ?case
    unfolding request_levels.simps Let_def by (rule subset_trans [OF _ Cons.IH]) auto
qed simp

lemma select_levels_Inr:
  assumes "select_levels S E qe_id pce_id pool certs tcb_info issuer levels = Inr (raws, ops)"
  shows "map (\<lambda>r. (rt_cpu_svn r, rt_pce_svn r)) raws = levels"
    and "r \<in> set raws \<Longrightarrow>
      \<exists>cert. select_best_pck_cert E (rt_cpu_svn r) (rt_pce_svn r) pce_id certs tcb_info = Inr (rt_tcbm r, cert)"
  using assms by (induction levels arbitrary: raws ops) auto

lemma entry_pool_fields [simp]:
  "pp_certs (entry_pool certificates ps q p info certs current) = map (\<lambda>(tcbm, cert). \<lparr>pt_tcbm = tcbm, pt_cert = cert\<rparr>) certs"
  "pp_raw_tcbs (entry_pool certificates ps q p info certs current) = unwrap_or [] (map_option pp_raw_tcbs current)"
  "pp_qe_id (entry_pool certificates ps q p info certs current) = unwrap_or q (map_option pp_qe_id current)"
  "pp_pce_id (entry_pool certificates ps q p info certs current) = unwrap_or p (map_option pp_pce_id current)"
  by (cases current; auto simp: entry_pool_def Let_def default_pool_def split: list.split)+

text \<open>The pool an entry publishes: the last write of its batch.\<close>

lemma entry_ops_Inr:
  assumes "entry_ops R S E db version certificates platforms tcbinfos pc = Inr ops"
  defines "qe_id \<equiv> first_upper pc [''qe_id'', ''qeid'']"
  defines "pce_id \<equiv> first_upper pc [''pce_id'', ''pceid'']"
  obtains ops' op pool tcb_info where "ops = ops' @ [op]"
    "put_op (sd_platform S) (key_platform (pp_qe_id pool) (pp_pce_id pool)) pool = Inr op"
    "platform_matches (qe_id, pce_id) pool"
    "pp_certs pool = map (\<lambda>(tcbm, cert). \<lparr>pt_tcbm = tcbm, pt_cert = cert\<rparr>) (entry_certs pc)"
    "\<And>old raw. get_platform_pool R S db qe_id pce_id = Some old \<Longrightarrow> raw \<in> set (pp_raw_tcbs old) \<Longrightarrow>
       (rt_cpu_svn raw, rt_pce_svn raw) \<in> (\<lambda>r. (rt_cpu_svn r, rt_pce_svn r)) ` set (pp_raw_tcbs pool)"
    "\<And>raw. raw \<in> set (pp_raw_tcbs pool) \<Longrightarrow> \<exists>cert. select_best_pck_cert E (rt_cpu_svn raw) (rt_pce_svn raw)
       pce_id (entry_certs pc) tcb_info = Inr (rt_tcbm raw, cert)"
proof -
  let ?cur = "get_platform_pool R S db qe_id pce_id"
  obtain info tcb_info where "entry_info E version tcbinfos (entry_certs pc) = Inr (info, tcb_info)"
    using assms(1) by (auto simp: entry_ops_def Let_def)
  define pool where "pool = entry_pool certificates (matching_platforms platforms qe_id pce_id) qe_id pce_id info
    (entry_certs pc) ?cur"
  define levels where "levels = request_levels (matching_platforms platforms qe_id pce_id)
    (map (\<lambda>r. (rt_cpu_svn r, rt_pce_svn r)) (pp_raw_tcbs pool))"
  obtain raws ops' op where sel: "select_levels S E qe_id pce_id pool (entry_certs pc) tcb_info
      (pp_issuer_chain pool) levels = Inr (raws, ops')"
    and op: "put_op (sd_platform S) (key_platform (pp_qe_id pool) (pp_pce_id pool)) (pool\<lparr>pp_raw_tcbs := raws\<rparr>) = Inr op"
    and ops: "ops = ops' @ [op]"
    using assms(1) \<open>entry_info _ _ _ _ = _\<close>
    unfolding entry_ops_def Let_def qe_id_def [symmetric] pce_id_def [symmetric]
    by (auto simp: pool_def levels_def)
  show thesis
  proof (rule that [OF ops, of "pool\<lparr>pp_raw_tcbs := raws\<rparr>" tcb_info])
    show "platform_matches (qe_id, pce_id) (pool\<lparr>pp_raw_tcbs := raws\<rparr>)"
      using get_platform_matches [of R S db qe_id pce_id]
      by (cases ?cur) (auto simp: pool_def platform_matches_def)
    show "pp_certs (pool\<lparr>pp_raw_tcbs := raws\<rparr>) =
        map (\<lambda>(tcbm, cert). \<lparr>pt_tcbm = tcbm, pt_cert = cert\<rparr>) (entry_certs pc)"
      by (simp add: pool_def)
    show "(rt_cpu_svn raw, rt_pce_svn raw) \<in>
        (\<lambda>r. (rt_cpu_svn r, rt_pce_svn r)) ` set (pp_raw_tcbs (pool\<lparr>pp_raw_tcbs := raws\<rparr>))"
      if "?cur = Some old" "raw \<in> set (pp_raw_tcbs old)" for old raw
    proof -
      have "(rt_cpu_svn raw, rt_pce_svn raw) \<in> set levels"
        using that request_levels_keeps by (fastforce simp: levels_def pool_def)
      then show ?thesis unfolding select_levels_Inr(1) [OF sel, symmetric] by simp
    qed
    show "\<exists>cert. select_best_pck_cert E (rt_cpu_svn raw) (rt_pce_svn raw) pce_id (entry_certs pc) tcb_info =
        Inr (rt_tcbm raw, cert)" if "raw \<in> set (pp_raw_tcbs (pool\<lparr>pp_raw_tcbs := raws\<rparr>))" for raw
      using select_levels_Inr(2) [OF sel] that by simp
  qed (use op in simp)
qed

lemma try_map_append:
  "try_map f (xs @ [x]) = Inr ys \<Longrightarrow> \<exists>ys' y. ys = ys' @ [y] \<and> f x = Inr y"
  by (auto simp: try_map_Inr append_eq_map_conv Cons_eq_map_conv append_eq_append_conv2)

lemma get_platform_area:
  assumes "rocks_ok R view" "reads_reliable R" "area_kept view db r"
  shows "get_platform_pool R S (snd r) q p = get_platform_pool R S db q p"
proof -
  have "platform_area (as_bytes (key_platform q p))" by (simp add: platform_area_def key_defs)
  with assms(3) have "view (snd r) (as_bytes (key_platform q p)) = view db (as_bytes (key_platform q p))"
    by (simp add: area_kept_def)
  then show ?thesis
    unfolding get_platform_slot by (intro platform_slot.get_unchanged [OF assms(1,2), where q = "(q, p)", unfolded fst_conv snd_conv])
qed

text \<open>C22: a collateral request that succeeds has published the platform of its last certificate
  entry: the pool holds exactly the certificates of the entry, every raw TCB level the platform was
  known with is still known, and every level of the pool is mapped to the certificate that the
  selection algorithm picks for it from these certificates.\<close>

theorem collateral_pool_published:
  assumes "rocks_ok R view" "reads_reliable R" "serde_ok S"
    and "put_platform_collateral R S E db body version = (Inr (), db')"
    and "jget body ''collaterals'' = Some collaterals" "get_array collaterals ''pck_certs'' = Some (pcs @ [pc])"
    and "first_upper pc [''qe_id'', ''qeid''] = qe_id" "first_upper pc [''pce_id'', ''pceid''] = pce_id"
  shows "\<exists>pool tcb_info. get_platform_pool R S db' qe_id pce_id = Some pool \<and>
    pp_certs pool = map (\<lambda>(tcbm, cert). \<lparr>pt_tcbm = tcbm, pt_cert = cert\<rparr>) (entry_certs pc) \<and>
    (\<forall>old raw. get_platform_pool R S db qe_id pce_id = Some old \<longrightarrow> raw \<in> set (pp_raw_tcbs old) \<longrightarrow>
       (\<exists>raw'\<in>set (pp_raw_tcbs pool). rt_cpu_svn raw' = rt_cpu_svn raw \<and> rt_pce_svn raw' = rt_pce_svn raw)) \<and>
    (\<forall>raw\<in>set (pp_raw_tcbs pool). \<exists>cert.
       select_best_pck_cert E (rt_cpu_svn raw) (rt_pce_svn raw) pce_id (entry_certs pc) tcb_info =
         Inr (rt_tcbm raw, cert))"
  using assms(4)
proof (cases rule: collateral_steps)
  case (written platforms collaterals' certificates o1)
  have "collaterals' = collaterals" using written(2) assms(5) by simp
  have "put_platform_certs R S E version certificates collaterals platforms (snd o1) = (Inr (), db')"
    using written(5) \<open>collaterals' = collaterals\<close>
    by (cases o1; cases "fst o1") (auto simp: next_step_def)
  then obtain batches where b:
    "try_map (entry_ops R S E (snd o1) version certificates platforms
       (unwrap_or [] (get_array collaterals ''tcbinfos''))) (pcs @ [pc]) = Inr batches"
    "write_batch R (snd o1) (concat batches) = Inr db'"
    using assms(6) by (auto simp: put_platform_certs_def attempt_def split: sum.splits)
  from try_map_append [OF b(1)] obtain batches' ops where ops: "batches = batches' @ [ops]"
    "entry_ops R S E (snd o1) version certificates platforms (unwrap_or [] (get_array collaterals ''tcbinfos'')) pc = Inr ops"
    by blast
  note same = get_platform_area [OF assms(1,2) written(4) [OF assms(1)], of S qe_id pce_id]
  obtain ops' op pool tcb_info where p: "ops = ops' @ [op]"
    "put_op (sd_platform S) (key_platform (pp_qe_id pool) (pp_pce_id pool)) pool = Inr op"
    "platform_matches (qe_id, pce_id) pool"
    "pp_certs pool = map (\<lambda>(tcbm, cert). \<lparr>pt_tcbm = tcbm, pt_cert = cert\<rparr>) (entry_certs pc)"
    "\<And>old raw. get_platform_pool R S db qe_id pce_id = Some old \<Longrightarrow> raw \<in> set (pp_raw_tcbs old) \<Longrightarrow>
       (rt_cpu_svn raw, rt_pce_svn raw) \<in> (\<lambda>r. (rt_cpu_svn r, rt_pce_svn r)) ` set (pp_raw_tcbs pool)"
    "\<And>raw. raw \<in> set (pp_raw_tcbs pool) \<Longrightarrow> \<exists>cert. select_best_pck_cert E (rt_cpu_svn raw) (rt_pce_svn raw)
       pce_id (entry_certs pc) tcb_info = Inr (rt_tcbm raw, cert)"
    by (rule entry_ops_Inr [OF ops(2), unfolded assms(7,8) same]) blast
  have "write_batch R (snd o1) ((concat batches' @ ops') @ [op]) = Inr db'"
    using b(2) by (simp add: ops(1) p(1))
  from get_platform_after_batch [OF assms(1-3) this p(2,3)] p(4-6) show ?thesis by fastforce
qed simp

text \<open>A concrete request: one platform with one certificate, whose issuer names the platform CA.\<close>

definition issued_cert_der :: bytes where
  "issued_cert_der =
     (let pair = (\<lambda>oid v. der_tlv 0x30 (der_tlv 0x06 oid @ v));
          tcb = concat (replicate 16 (pair [1] (der_tlv 0x02 [1]))) @
                pair [1] (der_tlv 0x02 [10]) @ pair [1] (der_tlv 0x04 (replicate 16 1));
          sgx = der_tlv 0x30
                  (pair (sub_oid 1) (der_tlv 0x04 [0xAA]) @ pair (sub_oid 2) (der_tlv 0x30 tcb) @
                   pair (sub_oid 3) (der_tlv 0x04 [0, 0]) @
                   pair (sub_oid 4) (der_tlv 0x04 [0, 1, 2, 3, 4, 5]))
      in der_tlv 0x30 (der_tlv 0x30 (der_tlv 0xA0 (der_tlv 0x02 [2]) @ der_tlv 0x02 [1] @ der_tlv 0x30 [] @
           der_tlv 0x30 (as_bytes ''Platform'') @ pair SGX_EXT_OID (der_tlv 0x04 sgx))))"

definition issued_ext :: ext where
  "issued_ext = cert_ext\<lparr>x_base64_std := (\<lambda>s. if s = ''P'' then Some issued_cert_der else None)\<rparr>"

definition sample_entry :: json where
  "sample_entry = JObj [(''qe_id'', JStr ''ab''), (''pce_id'', JStr ''0000''), (''enc_ppid'', JStr []),
     (''certs'', JArr [JObj [(''tcb'', JObj []), (''tcbm'', JStr (replicate 36 (CHR ''a''))),
        (''cert'', JStr (sample_pem ''P''))]])]"

definition sample_info :: json where
  "sample_info = JObj [(''tcbInfo'', sample_tcb_info), (''signature'', JStr ''s'')]"

definition sample_collaterals :: json where
  "sample_collaterals = JObj [(''pck_certs'', JArr [sample_entry]),
     (''tcbinfos'', JArr [JObj [(''fmspc'', JStr ''000102030405''), (''tcbinfo'', sample_info)]]),
     (''certificates'', JObj [(''SGX-PCK-Certificate-Issuer-Chain'', JObj [])])]"

definition sample_body :: json where
  "sample_body = JObj [(''platforms'', JArr []), (''collaterals'', sample_collaterals)]"

definition published_pool :: platform_pool where
  "published_pool = \<lparr>pp_qe_id = ''AB'', pp_pce_id = ''0000'', pp_enc_ppid = [], pp_platform_manifest = [],
     pp_fmspc = ''000102030405'', pp_ca = ''PLATFORM'', pp_issuer_chain = [],
     pp_certs = [\<lparr>pt_tcbm = replicate 36 (CHR ''A''), pt_cert = sample_pem ''P''\<rparr>], pp_raw_tcbs = []\<rparr>"

definition published_tcb :: tcb_record where
  "published_tcb = \<lparr>tr_prod_type = 0, tr_fmspc = ''000102030405'', tr_version = 3, tr_update_type = ''STANDARD'',
     tr_tcbinfo = sample_info, tr_raw_body = [], tr_issuer_chain = []\<rparr>"

definition collateral_serde :: serde where
  "collateral_serde = empty_serde\<lparr>sd_platform := table_codec [(published_pool, [3])],
     sd_tcb := table_codec [(published_tcb, [2])]\<rparr>"

lemma collateral_serde_ok: "serde_ok collateral_serde"
  using empty_serde_ok by (simp add: collateral_serde_def serde_ok_def table_codec_ok)

lemma sample_body_parts:
  "v_platform_collateral sample_body 3 = Inr ()" "get_array sample_body ''platforms'' = Some []"
  "jget sample_body ''collaterals'' = Some sample_collaterals"
  "jget sample_collaterals ''certificates'' = Some (JObj [(''SGX-PCK-Certificate-Issuer-Chain'', JObj [])])"
  "get_array sample_collaterals ''pck_certs'' = Some [sample_entry]"
  "get_array sample_collaterals ''tcbinfos'' = Some [JObj [(''fmspc'', JStr ''000102030405''), (''tcbinfo'', sample_info)]]"
  "first_upper sample_entry [''qe_id'', ''qeid''] = ''AB''" "first_upper sample_entry [''pce_id'', ''pceid''] = ''0000''"
  by code_simp+

lemma sample_entry_certs: "entry_certs sample_entry = [(replicate 36 (CHR ''A''), sample_pem ''P'')]"
  by code_simp

lemma sample_entry_info:
  "entry_info issued_ext 3 [JObj [(''fmspc'', JStr ''000102030405''), (''tcbinfo'', sample_info)]]
     [(replicate 36 (CHR ''A''), sample_pem ''P'')] =
   Inr (\<lparr>ci_version = 3, ci_fmspc = ''000102030405'', ci_pce_id = ''0000'', ci_ppid = ''AA'',
         ci_cpusvn = concat (replicate 16 ''01''), ci_pcesvn = 10, ci_ca = ''PLATFORM''\<rparr>, sample_tcb_info)"
  by code_simp

lemma sample_tcbs:
  "put_tcb_infos mem_rocks collateral_serde issued_ext 3 (JObj [(''SGX-PCK-Certificate-Issuer-Chain'', JObj [])])
     sample_collaterals [] = (Inr (), [(as_bytes (key_tcb ''sgx'' 3 ''000102030405'' ''STANDARD''), [2])])"
proof -
  have up: "upper (JObj [(''fmspc'', JStr ''000102030405''), (''tcbinfo'', sample_info)]) ''fmspc'' = ''000102030405''"
    and iss: "first_str (JObj [(''SGX-PCK-Certificate-Issuer-Chain'', JObj [])])
      [tcb_issuer_chain_name 3, TCB_INFO_ISSUER_CHAIN, SGX_TCB_INFO_ISSUER_CHAIN] = None"
    by code_simp+
  have f: "tcb_fields 3 = [(''tcbinfo'', 0, False), (''tcbinfo_early'', 0, True)]" by (simp add: tcb_fields_def)
  have r: "raw_json issued_ext sample_info = []"
    by (simp add: raw_json_def issued_ext_def cert_ext_def sample_ext_def)
  show ?thesis
    unfolding put_tcb_infos_def iss sample_body_parts
    by (simp add: up f r put_tcb_field_def put_tcb_def put_json_def
        collateral_serde_def published_tcb_def table_codec_def early_str_def attempt_def next_step_def
        mem_rocks_def prod_name_def)
qed

lemma sample_put:
  "\<exists>db'. put_platform_collateral mem_rocks collateral_serde issued_ext [] sample_body 3 = (Inr (), db')"
proof -
  let ?t = "JObj [(''SGX-PCK-Certificate-Issuer-Chain'', JObj [])]"
  have none: "jget sample_collaterals k = None"
    if "k \<notin> {''pck_certs'', ''tcbinfos'', ''certificates''}" for k
    using that by (simp add: sample_collaterals_def)
  have ids: "put_identities mem_rocks collateral_serde issued_ext 3 ?t sample_collaterals db = (Inr (), db)"
    "put_pck_crls mem_rocks collateral_serde issued_ext ?t sample_collaterals db = (Inr (), db)"
    "put_root_crl mem_rocks collateral_serde issued_ext sample_collaterals db = (Inr (), db)" for db :: mem
    by (simp_all add: put_identities_def put_identity_field_def identity_fields_def none next_step_def
        put_pck_crls_def put_root_crl_def get_str_def)
  have chain: "pck_chain ?t ''PLATFORM'' = []" by code_simp
  have none_yet: "get_platform_pool mem_rocks collateral_serde
      [(as_bytes (key_tcb ''sgx'' 3 ''000102030405'' ''STANDARD''), [2])] ''AB'' ''0000'' = None"
    by (simp add: get_platform_pool_def read_json_def as_bytes_inj key_defs prefix_defs)
  let ?db = "[(as_bytes (key_tcb ''sgx'' 3 ''000102030405'' ''STANDARD''), [2])] :: mem"
  have pool: "entry_pool ?t [] ''AB'' ''0000''
      \<lparr>ci_version = 3, ci_fmspc = ''000102030405'', ci_pce_id = ''0000'', ci_ppid = ''AA'',
       ci_cpusvn = concat (replicate 16 ''01''), ci_pcesvn = 10, ci_ca = ''PLATFORM''\<rparr>
      [(replicate 36 (CHR ''A''), sample_pem ''P'')] None = published_pool"
    by (simp add: entry_pool_def chain default_pool_def published_pool_def)
  have pub: "pp_raw_tcbs published_pool = []" "published_pool\<lparr>pp_raw_tcbs := []\<rparr> = published_pool"
    "enc (sd_platform collateral_serde) published_pool = Some [3]"
    by (simp_all add: published_pool_def collateral_serde_def table_codec_def)
  have ops: "entry_ops mem_rocks collateral_serde issued_ext ?db 3 ?t []
      [JObj [(''fmspc'', JStr ''000102030405''), (''tcbinfo'', sample_info)]] sample_entry =
      Inr [Put (as_bytes (key_platform (pp_qe_id published_pool) (pp_pce_id published_pool))) [3]]"
    unfolding entry_ops_def sample_body_parts(7,8) sample_entry_certs sample_entry_info Let_def and_then_simps
      prod.case none_yet
    by (simp add: matching_platforms_def pool pub put_op_def)
  have "\<exists>db'. put_platform_certs mem_rocks collateral_serde issued_ext 3 ?t sample_collaterals [] ?db = (Inr (), db')"
    unfolding put_platform_certs_def sample_body_parts unwrap_or_simps
    by (simp add: ops attempt_def write_batch_def) (simp add: mem_rocks_def)
  then show ?thesis
    by (simp add: put_platform_collateral_def sample_body_parts sample_tcbs ids next_step_def)
qed

theorem collateral_pool_published_witness:
  "\<exists>db' pool. get_platform_pool mem_rocks collateral_serde db' ''AB'' ''0000'' = Some pool \<and>
     pp_certs pool = [\<lparr>pt_tcbm = replicate 36 (CHR ''A''), pt_cert = sample_pem ''P''\<rparr>]"
proof -
  obtain db' where put: "put_platform_collateral mem_rocks collateral_serde issued_ext [] sample_body 3 = (Inr (), db')"
    using sample_put by blast
  have certs: "get_array sample_collaterals ''pck_certs'' = Some ([] @ [sample_entry])"
    by (simp add: sample_body_parts(5))
  from collateral_pool_published [OF mem_rocks_ok mem_reliable(1) collateral_serde_ok put sample_body_parts(3)
      certs sample_body_parts(7,8)]
  show ?thesis by (auto simp: sample_entry_certs)
qed

end
