(* ===== verification/Canonical.thy ===== *)
theory Canonical
  imports Errors Keys "HOL-Library.Multiset"
begin

text \<open>
  \<^verbatim>\<open>src/cache.rs\<close>: the canonical request paths of the AMD KDS and NVIDIA RIM read-through caches. The
  path a client asks for becomes part of an upstream URL and of the cache key, so it is reduced to a
  whitelisted shape with its query in a fixed order before either is built.
\<close>

section \<open>Hosts\<close>

definition slash :: char where "slash = CHR ''/''"

definition normalize_amd_kds_host :: "string \<Rightarrow> string" where
  "normalize_amd_kds_host uri =
     (let host = trim_end_matches slash (trim uri)
      in case strip_suffix host ''/vcek/v1'' of
           Some s \<Rightarrow> trim_end_matches slash s
         | None \<Rightarrow> (case strip_suffix host ''/vlek/v1'' of
                     Some s \<Rightarrow> trim_end_matches slash s
                   | None \<Rightarrow> host))"

definition normalize_nvidia_rim_host :: "string \<Rightarrow> string" where
  "normalize_nvidia_rim_host uri =
     (let host = trim_end_matches slash (trim uri)
      in unwrap_or host (map_option (trim_end_matches slash) (strip_suffix host ''/v1/rim'')))"

definition join_host_path :: "string \<Rightarrow> string \<Rightarrow> string" where
  "join_host_path host path_and_query =
     host @ (if starts_with path_and_query ''/'' then path_and_query else ''/'' @ path_and_query)"

section \<open>Paths and queries\<close>

definition split_path_query :: "string \<Rightarrow> string \<times> string option" where
  "split_path_query pq =
     (case split_once (CHR ''?'') pq of Some (path, query) \<Rightarrow> (path, Some query) | None \<Rightarrow> (pq, None))"

definition is_alnum_segment :: "string \<Rightarrow> bool" where
  "is_alnum_segment s \<longleftrightarrow> s \<noteq> [] \<and> list_all is_ascii_alphanumeric s"

definition AMD_HWID_QUERY_PARAMS :: "string list" where
  "AMD_HWID_QUERY_PARAMS = [''blSPL'', ''fmcSPL'', ''snpSPL'', ''teeSPL'', ''ucodeSPL'']"

definition is_spl_value :: "string \<Rightarrow> bool" where
  "is_spl_value value \<longleftrightarrow>
     1 \<le> length value \<and> length value \<le> 3 \<and> list_all is_ascii_digit value \<and> parse_uint 256 value \<noteq> None"

fun query_loop :: "string list \<Rightarrow> (string \<times> string) list \<Rightarrow> string list \<Rightarrow> (string \<times> string) list res" where
  "query_loop allowed seen [] = Inr seen"
| "query_loop allowed seen (pair # rest) =
     (let (key, value) = unwrap_or (pair, []) (split_once (CHR ''='') pair)
      in if key = [] then Inl INVALID_REQ
         else if key \<notin> set allowed then Inl INVALID_REQ
         else if \<not> is_spl_value value then Inl INVALID_REQ
         else if list_ex (\<lambda>(k, _). k = key) seen then Inl INVALID_REQ
         else query_loop allowed (seen @ [(key, value)]) rest)"

definition encode_pair :: "string \<times> string \<Rightarrow> string" where
  "encode_pair kv = fst kv @ ''='' @ snd kv"

text \<open>The keys are distinct, so the unstable sort has one result.\<close>

definition canonicalize_query :: "string option \<Rightarrow> string list \<Rightarrow> string res" where
  "canonicalize_query query allowed =
     (case opt_filter (\<lambda>q. q \<noteq> []) query of
        None \<Rightarrow> Inr []
      | Some q \<Rightarrow>
          and_then (query_loop allowed [] (split_on (CHR ''&'') q)) (\<lambda>seen.
          if seen = [] then Inr []
          else Inr (''?'' @ join ''&'' (map encode_pair (sort_key (as_bytes \<circ> fst) seen)))))"

definition amd_prefix :: "string \<Rightarrow> (string \<times> string) res" where
  "amd_prefix path =
     (case strip_prefix path ''/vcek/'' of
        Some rest \<Rightarrow> Inr (''/vcek/'', rest)
      | None \<Rightarrow> (case strip_prefix path ''/vlek/'' of
                  Some rest \<Rightarrow> Inr (''/vlek/'', rest)
                | None \<Rightarrow> Inl INVALID_REQ))"

definition amd_segs :: "string \<Rightarrow> (string \<times> string) res" where
  "amd_segs rest =
     (case split_on slash rest of
        [s0, product, leaf] \<Rightarrow>
          if s0 \<noteq> ''v1'' \<or> \<not> is_alnum_segment product then Inl INVALID_REQ else Inr (product, leaf)
      | _ \<Rightarrow> Inl INVALID_REQ)"

definition canonicalize_amd_kds :: "string \<Rightarrow> string res" where
  "canonicalize_amd_kds path_and_query =
     (let (path, query) = split_path_query path_and_query
      in and_then (amd_prefix path) (\<lambda>(pre, rest).
         and_then (amd_segs rest) (\<lambda>(product, leaf).
         and_then (if leaf = ''cert_chain'' \<or> leaf = ''crl'' then canonicalize_query query []
                   else if is_alnum_segment leaf then canonicalize_query query AMD_HWID_QUERY_PARAMS
                   else Inl INVALID_REQ) (\<lambda>query.
           Inr (pre @ ''v1/'' @ product @ ''/'' @ leaf @ query)))))"

definition is_rim_id :: "string \<Rightarrow> bool" where
  "is_rim_id s \<longleftrightarrow>
     \<not> (s = [] \<or> s = ''.'' \<or> s = ''..'') \<and>
     list_all (\<lambda>b. is_ascii_alphanumeric b \<or> b = CHR ''-'' \<or> b = CHR ''_'' \<or> b = CHR ''.'') s"

definition canonicalize_nvidia_rim :: "string \<Rightarrow> string res" where
  "canonicalize_nvidia_rim path_and_query =
     (let (path, query) = split_path_query path_and_query
      in and_then (ok_or INVALID_REQ (strip_prefix path ''/v1/rim/'')) (\<lambda>rest.
         if slash \<in> set rest \<or> \<not> is_rim_id rest then Inl INVALID_REQ
         else and_then (canonicalize_query query []) (\<lambda>query. Inr (''/v1/rim/'' @ rest @ query))))"

section \<open>Splitting and joining\<close>

lemma split_on_append:
  "c \<notin> set a \<Longrightarrow> split_on c (a @ c # b) = a # split_on c b"
  by (induction a) auto

lemma split_on_none: "c \<notin> set a \<Longrightarrow> split_on c a = [a]"
  by (induction a) auto

lemma split_on_join:
  "xs \<noteq> [] \<Longrightarrow> (\<And>x. x \<in> set xs \<Longrightarrow> c \<notin> set x) \<Longrightarrow> split_on c (join [c] xs) = xs"
proof (induction "[c]" xs rule: join.induct)
  case (3 x y ys)
  then show ?case by (simp add: split_on_append)
qed (simp_all add: split_on_none)

lemma split_on_parts: "c \<notin> \<Union> (set ` set (split_on c s))"
  by (induction s) (auto split: list.splits)

lemma join_split_on: "join [c] (split_on c s) = s"
proof (induction s)
  case (Cons x xs)
  then show ?case
    by (cases "split_on c xs" rule: list.exhaust; cases "tl (split_on c xs)") auto
qed simp

section \<open>Accepted queries\<close>

definition valid_pairs :: "string list \<Rightarrow> (string \<times> string) list \<Rightarrow> bool" where
  "valid_pairs allowed qs \<longleftrightarrow>
     (\<forall>kv\<in>set qs. fst kv \<noteq> [] \<and> CHR ''='' \<notin> set (fst kv) \<and> fst kv \<in> set allowed \<and> is_spl_value (snd kv)) \<and>
     distinct (map fst qs)"

lemma split_encode: "CHR ''='' \<notin> set (fst kv) \<Longrightarrow> split_once (CHR ''='') (encode_pair kv) = Some kv"
  by (cases kv) (simp add: encode_pair_def split_once_Some)

lemma encode_inj: "CHR ''='' \<notin> set (fst a) \<Longrightarrow> CHR ''='' \<notin> set (fst b) \<Longrightarrow> encode_pair a = encode_pair b \<Longrightarrow> a = b"
  using split_encode [of a] split_encode [of b] by (metis option.inject)

lemma not_spl_empty [simp]: "\<not> is_spl_value []"
  by (simp add: is_spl_value_def)

lemma query_step:
  assumes "unwrap_or (pair, []) (split_once (CHR ''='') pair) = (k, v)" "is_spl_value v"
  shows "pair = encode_pair (k, v)" "CHR ''='' \<notin> set k"
  using assms by (cases "split_once (CHR ''='') pair"; auto simp: encode_pair_def split_once_Some)+

lemma query_loop_Inr:
  "query_loop allowed seen pairs = Inr ps \<longleftrightarrow>
     (\<exists>qs. ps = seen @ qs \<and> pairs = map encode_pair qs \<and> valid_pairs allowed qs \<and>
           fst ` set seen \<inter> fst ` set qs = {})"
proof (induction pairs arbitrary: seen)
  case (Cons pair pairs)
  obtain k v where kv: "unwrap_or (pair, []) (split_once (CHR ''='') pair) = (k, v)" by fastforce
  have seen: "list_ex (\<lambda>(k', _). k' = k) seen \<longleftrightarrow> k \<in> fst ` set seen" by (force simp: list_ex_iff)
  show ?case (is "_ \<longleftrightarrow> ?R")
  proof
    assume "query_loop allowed seen (pair # pairs) = Inr ps"
    then have c: "k \<noteq> []" "k \<in> set allowed" "is_spl_value v" "k \<notin> fst ` set seen"
      "query_loop allowed (seen @ [(k, v)]) pairs = Inr ps"
      by (auto simp: kv seen split: if_splits)
    from Cons.IH [of "seen @ [(k, v)]"] c(5) obtain qs where
      "ps = seen @ (k, v) # qs" "pairs = map encode_pair qs" "valid_pairs allowed qs"
      "fst ` set (seen @ [(k, v)]) \<inter> fst ` set qs = {}" by auto
    with c(1-4) query_step [OF kv c(3)] show ?R
      by (intro exI [of _ "(k, v) # qs"]) (auto simp: valid_pairs_def)
  next
    assume ?R
    then obtain q qs where q: "ps = seen @ q # qs" "pair = encode_pair q" "pairs = map encode_pair qs"
      "valid_pairs allowed (q # qs)" "fst ` set seen \<inter> fst ` set (q # qs) = {}"
      by (auto simp: Cons_eq_map_conv)
    then have "(k, v) = q" using kv split_encode [of q] by (simp add: valid_pairs_def)
    with q have "query_loop allowed (seen @ [(k, v)]) pairs = Inr ps"
      by (subst Cons.IH) (auto simp: valid_pairs_def)
    moreover have "k \<noteq> []" "k \<in> set allowed" "is_spl_value v" "k \<notin> fst ` set seen"
      using q(4,5) by (simp_all add: valid_pairs_def flip: \<open>(k, v) = q\<close>)
    ultimately show "query_loop allowed seen (pair # pairs) = Inr ps"
      by (simp add: kv seen)
  qed
qed (auto simp: valid_pairs_def)

definition sorted_query :: "(string \<times> string) list \<Rightarrow> string" where
  "sorted_query qs = join ''&'' (map encode_pair (sort_key (as_bytes \<circ> fst) qs))"

lemma canonicalize_query_Inr:
  "canonicalize_query query allowed = Inr c \<longleftrightarrow>
     (query = None \<or> query = Some []) \<and> c = [] \<or>
     (\<exists>q qs. query = Some q \<and> q \<noteq> [] \<and> split_on (CHR ''&'') q = map encode_pair qs \<and>
             valid_pairs allowed qs \<and> c = ''?'' @ sorted_query qs)"
proof (cases "opt_filter (\<lambda>q. q \<noteq> []) query")
  case None
  then show ?thesis by (cases query) (auto simp: canonicalize_query_def split: if_splits)
next
  case (Some q)
  then have q: "query = Some q" "q \<noteq> []" by auto
  have "canonicalize_query query allowed = Inr c \<longleftrightarrow>
      (\<exists>qs. query_loop allowed [] (split_on (CHR ''&'') q) = Inr qs \<and> qs \<noteq> [] \<and> c = ''?'' @ sorted_query qs \<or>
            query_loop allowed [] (split_on (CHR ''&'') q) = Inr qs \<and> qs = [] \<and> c = [])"
    using q by (auto simp: canonicalize_query_def sorted_query_def)
  also have "\<dots> \<longleftrightarrow> (\<exists>qs. split_on (CHR ''&'') q = map encode_pair qs \<and> valid_pairs allowed qs \<and>
      c = ''?'' @ sorted_query qs)"
    by (force simp: query_loop_Inr)
  finally show ?thesis using q by simp
qed

lemma valid_pairs_sort [simp]: "valid_pairs allowed (sort_key f qs) \<longleftrightarrow> valid_pairs allowed qs"
proof -
  have "mset (map fst (sort_key f qs)) = mset (map fst qs)" by simp
  then have "distinct (map fst (sort_key f qs)) \<longleftrightarrow> distinct (map fst qs)" by (metis mset_eq_imp_distinct_iff)
  then show ?thesis by (simp add: valid_pairs_def)
qed

lemma valid_key_inj: "valid_pairs allowed qs \<Longrightarrow> inj_on (as_bytes \<circ> fst) (set qs)"
  by (auto simp: valid_pairs_def distinct_map inj_on_def as_bytes_inj)

lemma sort_valid_cong:
  assumes "valid_pairs allowed qs" "mset qs = mset qs'"
  shows "sort_key (as_bytes \<circ> fst) qs = sort_key (as_bytes \<circ> fst) qs'"
  using assms valid_key_inj [OF assms(1)] by (intro sort_key_inj_key_eq) simp_all

lemma split_sorted_query:
  assumes "split_on (CHR ''&'') q = map encode_pair qs" "q \<noteq> []"
  shows "split_on (CHR ''&'') (sorted_query qs) = map encode_pair (sort_key (as_bytes \<circ> fst) qs)"
proof -
  have "CHR ''&'' \<notin> set x" if "x \<in> set (map encode_pair (sort_key (as_bytes \<circ> fst) qs))" for x
    using split_on_parts [of "CHR ''&''" q] that by (auto simp: assms(1))
  moreover have "sort_key (as_bytes \<circ> fst) qs \<noteq> []"
    using split_on_nonempty [of "CHR ''&''" q] by (metis assms(1) list.map_disc_iff mset_sort mset_zero_iff)
  ultimately show ?thesis
    unfolding sorted_query_def by (intro split_on_join) auto
qed

lemma sorted_query_nonempty: "split_on (CHR ''&'') q = map encode_pair qs \<Longrightarrow> sorted_query qs \<noteq> []"
proof
  assume a: "split_on (CHR ''&'') q = map encode_pair qs" "sorted_query qs = []"
  have "q \<noteq> []" using a(1) by (auto simp: encode_pair_def Cons_eq_map_conv)
  from split_sorted_query [OF a(1) this] a(2) show False
    by (auto simp: encode_pair_def Cons_eq_map_conv)
qed

lemma canonicalize_query_idem:
  assumes "canonicalize_query query allowed = Inr (CHR ''?'' # c)"
  shows "canonicalize_query (Some c) allowed = Inr (CHR ''?'' # c)"
proof -
  obtain q qs where q: "q \<noteq> []" "split_on (CHR ''&'') q = map encode_pair qs" "valid_pairs allowed qs" "c = sorted_query qs"
    using assms by (auto simp: canonicalize_query_Inr)
  let ?s = "sort_key (as_bytes \<circ> fst) qs"
  have "sort_key (as_bytes \<circ> fst) ?s = ?s"
    by (rule sort_key_id_if_sorted) simp
  then have "sorted_query ?s = sorted_query qs" by (simp add: sorted_query_def)
  with q split_sorted_query [OF q(2,1)] sorted_query_nonempty [OF q(2)] show ?thesis
    unfolding canonicalize_query_Inr by (intro disjI2 exI [of _ c] exI [of _ ?s]) simp
qed

section \<open>Accepted paths\<close>

definition amd_shape :: "string \<Rightarrow> string \<Rightarrow> string \<Rightarrow> bool" where
  "amd_shape pre product leaf \<longleftrightarrow>
     pre \<in> {''/vcek/'', ''/vlek/''} \<and> is_alnum_segment product \<and>
     (leaf = ''cert_chain'' \<or> leaf = ''crl'' \<or> is_alnum_segment leaf)"

definition amd_allowed :: "string \<Rightarrow> string list" where
  "amd_allowed leaf = (if leaf = ''cert_chain'' \<or> leaf = ''crl'' then [] else AMD_HWID_QUERY_PARAMS)"

lemma amd_allowed_pairs: "valid_pairs (amd_allowed leaf) qs \<Longrightarrow> valid_pairs AMD_HWID_QUERY_PARAMS qs"
  by (auto simp: amd_allowed_def valid_pairs_def split: if_splits)

lemma alnum_not_special:
  "is_alnum_segment s \<Longrightarrow> CHR ''/'' \<notin> set s \<and> CHR ''?'' \<notin> set s"
  by (auto simp: is_alnum_segment_def list_all_iff is_ascii_alphanumeric_def is_ascii_digit_def
      is_ascii_lowercase_def is_ascii_uppercase_def)

lemma leaf_not_special:
  assumes "amd_shape pre product leaf"
  shows "CHR ''/'' \<notin> set leaf" "CHR ''?'' \<notin> set leaf" "CHR ''/'' \<notin> set product" "CHR ''?'' \<notin> set product"
    "CHR ''?'' \<notin> set pre"
  using assms alnum_not_special [of leaf] alnum_not_special [of product] by (auto simp: amd_shape_def)

lemma amd_prefix_Inr: "amd_prefix path = Inr (pre, rest) \<longleftrightarrow> pre \<in> {''/vcek/'', ''/vlek/''} \<and> path = pre @ rest"
  by (auto simp: amd_prefix_def strip_prefix_def starts_with_iff starts_with_def split: option.splits if_splits)

lemma amd_segs_Inr:
  "amd_segs rest = Inr (product, leaf) \<longleftrightarrow>
     is_alnum_segment product \<and> slash \<notin> set leaf \<and> rest = ''v1/'' @ product @ ''/'' @ leaf"
proof
  assume "amd_segs rest = Inr (product, leaf)"
  then have s: "split_on slash rest = [''v1'', product, leaf]" "is_alnum_segment product"
    by (auto simp: amd_segs_def split: list.splits if_splits)
  with join_split_on [of slash rest] split_on_parts [of slash rest]
  show "is_alnum_segment product \<and> slash \<notin> set leaf \<and> rest = ''v1/'' @ product @ ''/'' @ leaf"
    by (simp add: slash_def)
next
  assume r: "is_alnum_segment product \<and> slash \<notin> set leaf \<and> rest = ''v1/'' @ product @ ''/'' @ leaf"
  then have "split_on slash rest = [''v1'', product, leaf]"
    using alnum_not_special [of product] split_on_append [of slash "''v1''" "product @ ''/'' @ leaf"]
      split_on_append [of slash product leaf] split_on_none [of slash leaf]
    by (simp add: slash_def)
  with r show "amd_segs rest = Inr (product, leaf)" by (simp add: amd_segs_def)
qed

lemma canonicalize_amd_kds_Inr:
  "canonicalize_amd_kds p = Inr c \<longleftrightarrow>
     (\<exists>pre product leaf query qc. split_path_query p = (pre @ ''v1/'' @ product @ ''/'' @ leaf, query) \<and>
        amd_shape pre product leaf \<and> canonicalize_query query (amd_allowed leaf) = Inr qc \<and>
        c = pre @ ''v1/'' @ product @ ''/'' @ leaf @ qc)" (is "_ \<longleftrightarrow> ?R")
proof -
  obtain path query where sp: "split_path_query p = (path, query)" by fastforce
  have leaf: "slash \<notin> set leaf" if "leaf = ''cert_chain'' \<or> leaf = ''crl'' \<or> is_alnum_segment leaf" for leaf
    using that alnum_not_special [of leaf] by (auto simp: slash_def)
  have q: "(if leaf = ''cert_chain'' \<or> leaf = ''crl'' then canonicalize_query query []
            else if is_alnum_segment leaf then canonicalize_query query AMD_HWID_QUERY_PARAMS
            else Inl INVALID_REQ) = Inr qc \<longleftrightarrow>
        (leaf = ''cert_chain'' \<or> leaf = ''crl'' \<or> is_alnum_segment leaf) \<and>
        canonicalize_query query (amd_allowed leaf) = Inr qc" for leaf qc
    by (auto simp: amd_allowed_def)
  have "canonicalize_amd_kds p = Inr c \<longleftrightarrow>
     (\<exists>pre rest product leaf qc. amd_prefix path = Inr (pre, rest) \<and> amd_segs rest = Inr (product, leaf) \<and>
        (leaf = ''cert_chain'' \<or> leaf = ''crl'' \<or> is_alnum_segment leaf) \<and>
        canonicalize_query query (amd_allowed leaf) = Inr qc \<and> c = pre @ ''v1/'' @ product @ ''/'' @ leaf @ qc)"
    unfolding canonicalize_amd_kds_def sp by (simp add: q split_paired_Ex) blast
  also have "\<dots> \<longleftrightarrow> ?R"
    unfolding amd_prefix_Inr amd_segs_Inr sp amd_shape_def prod.inject using leaf by blast
  finally show ?thesis .
qed

lemma canonicalize_nvidia_rim_Inr:
  "canonicalize_nvidia_rim p = Inr c \<longleftrightarrow>
     (\<exists>rest query qc. split_path_query p = (''/v1/rim/'' @ rest, query) \<and> is_rim_id rest \<and>
        canonicalize_query query [] = Inr qc \<and> c = ''/v1/rim/'' @ rest @ qc)"
proof -
  obtain path query where sp: "split_path_query p = (path, query)" by fastforce
  have "slash \<notin> set rest" if "is_rim_id rest" for rest
    using that by (auto simp: is_rim_id_def list_all_iff slash_def is_ascii_alphanumeric_def is_ascii_digit_def
        is_ascii_lowercase_def is_ascii_uppercase_def)
  then show ?thesis
    unfolding canonicalize_nvidia_rim_def sp by (auto simp: strip_prefix_Some)
qed

lemma canonical_query_shape: "canonicalize_query query allowed = Inr qc \<Longrightarrow> qc = [] \<or> (\<exists>x. qc = CHR ''?'' # x)"
  by (auto simp: canonicalize_query_Inr)

lemma split_path_query_canonical:
  assumes "CHR ''?'' \<notin> set path" "canonicalize_query query allowed = Inr qc"
  obtains query' where "split_path_query (path @ qc) = (path, query')" "canonicalize_query query' allowed = Inr qc"
proof (cases qc)
  case Nil
  with assms have "split_path_query (path @ qc) = (path, None)"
    by (simp add: split_path_query_def split_once_None [THEN iffD2])
  moreover have "canonicalize_query None allowed = Inr []" by (simp add: canonicalize_query_def)
  ultimately show thesis using that Nil by blast
next
  case (Cons a x)
  then have a: "qc = CHR ''?'' # x" using canonical_query_shape [OF assms(2)] by simp
  then have "split_once (CHR ''?'') (path @ qc) = Some (path, x)" using assms(1) by (simp add: split_once_Some)
  then have "split_path_query (path @ qc) = (path, Some x)" by (simp add: split_path_query_def)
  moreover have "canonicalize_query (Some x) allowed = Inr qc"
    using canonicalize_query_idem assms(2) a by simp
  ultimately show thesis by (rule that)
qed

text \<open>C37: a read-through path that is accepted is reduced to a canonical form that is accepted again
  unchanged, and of fixed shape: for AMD KDS \<open>/vcek|vlek/v1/<product>/<leaf>\<close> with alphanumeric
  segments and the query parameters of a hardware id only, for NVIDIA RIM \<open>/v1/rim/<id>\<close> with a
  file-name-like id, never \<open>.\<close> or \<open>..\<close>, and no query.\<close>

theorem canonical_paths_stable:
  "(canonicalize_amd_kds p = Inr c \<longrightarrow>
      canonicalize_amd_kds c = Inr c \<and>
      (\<exists>pre product leaf qc. amd_shape pre product leaf \<and> c = pre @ ''v1/'' @ product @ ''/'' @ leaf @ qc \<and>
         (qc = [] \<or> (\<exists>qs. valid_pairs AMD_HWID_QUERY_PARAMS qs \<and> qc = ''?'' @ sorted_query qs)))) \<and>
   (canonicalize_nvidia_rim p = Inr c \<longrightarrow>
      canonicalize_nvidia_rim c = Inr c \<and> (\<exists>rest. is_rim_id rest \<and> c = ''/v1/rim/'' @ rest))"
proof (intro conjI impI)
  assume "canonicalize_amd_kds p = Inr c"
  then obtain pre product leaf query qc where a: "amd_shape pre product leaf"
    "canonicalize_query query (amd_allowed leaf) = Inr qc" "c = pre @ ''v1/'' @ product @ ''/'' @ leaf @ qc"
    unfolding canonicalize_amd_kds_Inr by blast
  have "CHR ''?'' \<notin> set (pre @ ''v1/'' @ product @ ''/'' @ leaf)" using leaf_not_special [OF a(1)] by simp
  from split_path_query_canonical [OF this a(2)] a show "canonicalize_amd_kds c = Inr c"
    unfolding canonicalize_amd_kds_Inr by (metis append_assoc)
  have "qc = [] \<or> (\<exists>qs. valid_pairs AMD_HWID_QUERY_PARAMS qs \<and> qc = ''?'' @ sorted_query qs)"
    using a(2) amd_allowed_pairs unfolding canonicalize_query_Inr by blast
  with a(1,3) show "\<exists>pre product leaf qc. amd_shape pre product leaf \<and> c = pre @ ''v1/'' @ product @ ''/'' @ leaf @ qc \<and>
      (qc = [] \<or> (\<exists>qs. valid_pairs AMD_HWID_QUERY_PARAMS qs \<and> qc = ''?'' @ sorted_query qs))" by blast
next
  assume "canonicalize_nvidia_rim p = Inr c"
  then obtain rest query qc where a: "is_rim_id rest" "canonicalize_query query [] = Inr qc"
    "c = ''/v1/rim/'' @ rest @ qc"
    unfolding canonicalize_nvidia_rim_Inr by blast
  have "qs = []" if "valid_pairs [] qs" for qs using that by (cases qs) (auto simp: valid_pairs_def)
  then have qc: "qc = []" using a(2) by (fastforce simp: canonicalize_query_Inr)
  have "CHR ''?'' \<notin> set (''/v1/rim/'' @ rest)"
    using a(1) by (auto simp: is_rim_id_def list_all_iff is_ascii_alphanumeric_def is_ascii_digit_def
        is_ascii_lowercase_def is_ascii_uppercase_def)
  from split_path_query_canonical [OF this a(2)] a show "canonicalize_nvidia_rim c = Inr c"
    unfolding canonicalize_nvidia_rim_Inr by (metis append_assoc)
  show "\<exists>rest. is_rim_id rest \<and> c = ''/v1/rim/'' @ rest" using a(1,3) qc by auto
qed

theorem canonical_paths_stable_witness:
  "canonicalize_amd_kds ''/vcek/v1/Milan/ab?teeSPL=0&blSPL=3'' = Inr ''/vcek/v1/Milan/ab?blSPL=3&teeSPL=0'' \<and>
   canonicalize_amd_kds ''/vcek/v1/Milan/ab?blSPL=3&teeSPL=0'' = Inr ''/vcek/v1/Milan/ab?blSPL=3&teeSPL=0''"
proof -
  have "canonicalize_amd_kds ''/vcek/v1/Milan/ab?teeSPL=0&blSPL=3'' = Inr ''/vcek/v1/Milan/ab?blSPL=3&teeSPL=0''"
    by code_simp
  with canonical_paths_stable [of "''/vcek/v1/Milan/ab?teeSPL=0&blSPL=3''"] show ?thesis by blast
qed

lemma canonicalize_query_mset:
  assumes "canonicalize_query (Some q) allowed = Inr c" "mset (split_on (CHR ''&'') q') = mset (split_on (CHR ''&'') q)"
  shows "canonicalize_query (Some q') allowed = Inr c"
proof (cases "q = []")
  case True
  with assms(2) have "split_on (CHR ''&'') q' = [[]]" by simp
  then have "q' = []" using join_split_on [of "CHR ''&''" q'] by simp
  with True assms(1) show ?thesis by simp
next
  case False
  then obtain qs where qs: "split_on (CHR ''&'') q = map encode_pair qs" "valid_pairs allowed qs" "c = ''?'' @ sorted_query qs"
    using assms(1) by (auto simp: canonicalize_query_Inr)
  define qs' where "qs' = map (the \<circ> split_once (CHR ''='')) (split_on (CHR ''&'') q')"
  have dec: "the (split_once (CHR ''='') (encode_pair kv)) = kv" if "kv \<in> set qs" for kv
    using qs(2) that split_encode [of kv] by (simp add: valid_pairs_def)
  have "map (the \<circ> split_once (CHR ''='')) (map encode_pair qs) = qs"
    unfolding map_map by (intro map_idI) (simp add: dec)
  moreover have "mset qs' = mset (map (the \<circ> split_once (CHR ''='')) (map encode_pair qs))"
    unfolding qs'_def qs(1) [symmetric] by (simp only: mset_map assms(2))
  ultimately have m: "mset qs' = mset qs" by simp
  have "set (split_on (CHR ''&'') q') = encode_pair ` set qs"
    using assms(2) by (metis qs(1) set_map set_mset_mset)
  then have s': "split_on (CHR ''&'') q' = map encode_pair qs'"
    unfolding qs'_def map_map by (intro map_idI [symmetric]) (auto simp: dec)
  have "mset (map fst qs') = mset (map fst qs)" by (simp only: mset_map m)
  from mset_eq_imp_distinct_iff [OF this] mset_eq_setD [OF m] qs(2) have "valid_pairs allowed qs'"
    unfolding valid_pairs_def by blast
  moreover have "sorted_query qs' = sorted_query qs"
    unfolding sorted_query_def using sort_valid_cong [OF qs(2) m [symmetric]] by simp
  moreover have "q' \<noteq> []" using s' by (auto simp: encode_pair_def Cons_eq_map_conv)
  ultimately show ?thesis
    unfolding canonicalize_query_Inr using s' qs(3) by (intro disjI2 exI [of _ q'] exI [of _ qs']) simp
qed

text \<open>The order of the query parameters does not matter: two AMD KDS requests for one path whose
  queries hold the same parameters in any order have the same canonical path, and so one upstream
  URL and one cache entry.\<close>

theorem query_order_irrelevant:
  assumes "CHR ''?'' \<notin> set path" "mset (split_on (CHR ''&'') q') = mset (split_on (CHR ''&'') q)"
    and "canonicalize_amd_kds (path @ ''?'' @ q) = Inr c"
  shows "canonicalize_amd_kds (path @ ''?'' @ q') = Inr c"
proof -
  have sp: "split_path_query (path @ ''?'' @ x) = (path, Some x)" for x
    using assms(1) split_once_Some [of "CHR ''?''" "path @ ''?'' @ x" path x] by (simp add: split_path_query_def)
  from assms(3) show ?thesis
    unfolding canonicalize_amd_kds_Inr sp using canonicalize_query_mset [OF _ assms(2)] by blast
qed

theorem query_order_irrelevant_witness:
  "canonicalize_amd_kds (''/vcek/v1/Milan/ab'' @ ''?'' @ ''blSPL=3&teeSPL=0'') = Inr ''/vcek/v1/Milan/ab?blSPL=3&teeSPL=0''"
proof (rule query_order_irrelevant)
  show "canonicalize_amd_kds (''/vcek/v1/Milan/ab'' @ ''?'' @ ''teeSPL=0&blSPL=3'') = Inr ''/vcek/v1/Milan/ab?blSPL=3&teeSPL=0''"
    by code_simp
qed simp_all

end
