(* ===== verification/ReadThrough.thy ===== *)
theory ReadThrough
  imports Fifo Canonical Ocsp
begin

text \<open>
  \<^verbatim>\<open>src/cache.rs\<close>: the read-through caches (AMD KDS, NVIDIA RIM, NVIDIA OCSP), the memory of recent
  upstream outcomes, and the NRAS proxy. A request first looks at the store without a lock, then waits
  for the lock of its key, looks again, and only then asks the upstream. What other requests do to the
  cache while it waits for the lock and while the upstream answers is an argument (\<open>en_wait\<close>,
  \<open>en_fetch\<close>), as are the clock readings and the upstream itself, so the theorems hold for every
  interleaving. Metrics and logs are left out.
\<close>

section \<open>State\<close>

datatype cache_mode = Lazy | Offline | Req

record amd_kds_response =
  rs_status :: nat
  rs_body :: bytes
  rs_content_type :: "string option"
  rs_content_disposition :: "string option"
  rs_retry_after :: "string option"

datatype remembered = OutErr pccs_error | OutResponse amd_kds_response

text \<open>\<open>failures\<close>: the instant (in nanoseconds) and outcome per key.\<close>

type_synonym failures = "(string \<times> nat \<times> remembered) list"

record 'db cache =
  ca_store :: "'db store"
  ca_failures :: failures

record cache_config =
  cf_mode :: cache_mode
  cf_amd_kds_uri :: string
  cf_amd_kds_cache_ttl_secs :: u64
  cf_nvidia_rim_uri :: string
  cf_nvidia_rim_cache_ttl_secs :: u64
  cf_nvidia_nras_uri :: string
  cf_nvidia_ocsp_uri :: string
  cf_nvidia_ocsp_max_ttl_secs :: u64
  cf_nvidia_ocsp_default_ttl_secs :: u64

text \<open>What an HTTP exchange yields: the status, the text value of a header, the body; or a failure.\<close>

record http_response =
  ht_status :: nat
  ht_header :: "string \<Rightarrow> string option"
  ht_body :: bytes

type_synonym upstream = "string \<Rightarrow> unit + http_response"

record 'db env =
  en_now1 :: u64
  en_now2 :: u64
  en_now3 :: u64
  en_micros :: u64
  en_instant1 :: nat
  en_instant2 :: nat
  en_wait :: "'db cache \<Rightarrow> 'db cache"
  en_fetch :: "'db cache \<Rightarrow> 'db cache"

section \<open>Recent outcomes\<close>

definition FAILURE_TTL :: nat where "FAILURE_TTL = 1000000000"
definition RECENT_OUTCOMES_MAX :: nat where "RECENT_OUTCOMES_MAX = 1024"
definition RECENT_BODY_MAX :: nat where "RECENT_BODY_MAX = 64 * 1024"

definition recent_outcome :: "nat \<Rightarrow> string \<Rightarrow> failures \<Rightarrow> remembered option \<times> failures" where
  "recent_outcome now key m =
     (case map_of m key of
        Some (at, outcome) \<Rightarrow>
          if now - at < FAILURE_TTL then (Some outcome, m) else (None, filter (\<lambda>(k, _). k \<noteq> key) m)
      | None \<Rightarrow> (None, m))"

definition recent_failure :: "nat \<Rightarrow> string \<Rightarrow> failures \<Rightarrow> pccs_error option \<times> failures" where
  "recent_failure now key m =
     (case recent_outcome now key m of (o1, m) \<Rightarrow> (case o1 of Some (OutErr e) \<Rightarrow> (Some e, m) | _ \<Rightarrow> (None, m)))"

definition recent_non200 :: "nat \<Rightarrow> string \<Rightarrow> failures \<Rightarrow> amd_kds_response option \<times> failures" where
  "recent_non200 now key m =
     (case recent_outcome now key m of (o1, m) \<Rightarrow> (case o1 of Some (OutResponse r) \<Rightarrow> (Some r, m) | _ \<Rightarrow> (None, m)))"

definition insert_outcome :: "nat \<Rightarrow> string \<Rightarrow> remembered \<Rightarrow> failures \<Rightarrow> failures" where
  "insert_outcome now key outcome m = (key, now, outcome) # filter (\<lambda>(k, _). k \<noteq> key) m"

definition remember :: "nat \<Rightarrow> string \<Rightarrow> remembered \<Rightarrow> failures \<Rightarrow> failures" where
  "remember now key outcome m =
     (if (case outcome of OutResponse r \<Rightarrow> length (rs_body r) > RECENT_BODY_MAX | OutErr _ \<Rightarrow> False) then m
      else if length m \<ge> RECENT_OUTCOMES_MAX \<and> map_of m key = None then
        (let m = filter (\<lambda>(_, at, _). now - at < FAILURE_TTL) m
         in if length m \<ge> RECENT_OUTCOMES_MAX then m else insert_outcome now key outcome m)
      else insert_outcome now key outcome m)"

definition note_outcome :: "nat \<Rightarrow> string \<Rightarrow> 'a res \<Rightarrow> failures \<Rightarrow> failures" where
  "note_outcome now key result m = (case result of Inl e \<Rightarrow> remember now key (OutErr e) m | Inr _ \<Rightarrow> m)"

section \<open>Read-through URLs\<close>

definition of_record :: "amd_kds_record \<Rightarrow> amd_kds_response" where
  "of_record rec = \<lparr>rs_status = 200, rs_body = ar_body rec, rs_content_type = ar_content_type rec,
     rs_content_disposition = ar_content_disposition rec, rs_retry_after = None\<rparr>"

definition drop_expired :: "'db rocks \<Rightarrow> string \<Rightarrow> 'db cache \<Rightarrow> 'db cache" where
  "drop_expired R key c =
     (case delete_key R (st_db (ca_store c)) key of
        Inl _ \<Rightarrow> c
      | Inr db \<Rightarrow> c\<lparr>ca_store := (ca_store c)\<lparr>st_db := db\<rparr>\<rparr>)"

definition url_fresh :: "u64 \<Rightarrow> u64 \<Rightarrow> amd_kds_record \<Rightarrow> bool" where
  "url_fresh now ttl rec \<longleftrightarrow> saturating_sub now (ar_fetched_at rec) < ttl"

text \<open>The kind of a read-through cache: its key function, error, loader and saver, as they are passed
  to \<open>get_cached_url\<close>.\<close>

record 'db url_kind =
  uk_key_for :: "string \<Rightarrow> string"
  uk_access_failure :: pccs_error
  uk_load :: "'db \<Rightarrow> string \<Rightarrow> amd_kds_record option"
  uk_save :: "u64 \<Rightarrow> 'db store \<Rightarrow> amd_kds_record \<Rightarrow> unit res \<times> 'db store"

text \<open>Before the lock: a result, or the cache as it is when the request starts to wait.\<close>

definition url_lookup ::
  "'db rocks \<Rightarrow> cache_mode \<Rightarrow> 'db url_kind \<Rightarrow> u64 \<Rightarrow> u64 \<Rightarrow> string \<Rightarrow> 'db cache \<Rightarrow>
   amd_kds_response res option \<times> 'db cache" where
  "url_lookup R mode K now ttl url c =
     (case uk_load K (st_db (ca_store c)) url of
        Some rec \<Rightarrow>
          if url_fresh now ttl rec then (Some (Inr (of_record rec)), c)
          else if mode \<noteq> Lazy then (Some (Inl NO_CACHE_DATA), drop_expired R (uk_key_for K url) c)
          else (None, c)
      | None \<Rightarrow> if mode \<noteq> Lazy then (Some (Inl NO_CACHE_DATA), c) else (None, c))"

text \<open>Under the lock: the outcome memory, the second look, and whether to fetch.\<close>

definition url_recheck ::
  "'db rocks \<Rightarrow> 'db url_kind \<Rightarrow> 'db env \<Rightarrow> u64 \<Rightarrow> string \<Rightarrow> 'db cache \<Rightarrow>
   amd_kds_response res option \<times> 'db cache" where
  "url_recheck R K env ttl url c =
     (let key = uk_key_for K url;
          (failed, m) = recent_failure (en_instant1 env) key (ca_failures c);
          c = c\<lparr>ca_failures := m\<rparr>
      in case failed of
           Some e \<Rightarrow> (Some (Inl e), c)
         | None \<Rightarrow>
             (let (relayed, m) = recent_non200 (en_instant1 env) key (ca_failures c);
                  c = c\<lparr>ca_failures := m\<rparr>
              in case relayed of
                   Some r \<Rightarrow> (Some (Inr r), c)
                 | None \<Rightarrow>
                     (case uk_load K (st_db (ca_store c)) url of
                        Some rec \<Rightarrow>
                          if url_fresh (en_now2 env) ttl rec then (Some (Inr (of_record rec)), c)
                          else (None, drop_expired R key c)
                      | None \<Rightarrow> (None, c))))"

definition of_http :: "http_response \<Rightarrow> amd_kds_response" where
  "of_http h = \<lparr>rs_status = ht_status h, rs_body = ht_body h, rs_content_type = ht_header h ''content-type'',
     rs_content_disposition = ht_header h ''content-disposition'', rs_retry_after = ht_header h ''retry-after''\<rparr>"

definition not_final :: "nat \<Rightarrow> bool" where
  "not_final status \<longleftrightarrow> 100 \<le> status \<and> status < 200 \<or> 300 \<le> status \<and> status < 400"

definition url_fetch ::
  "'db url_kind \<Rightarrow> 'db env \<Rightarrow> string \<Rightarrow> unit + http_response \<Rightarrow> 'db cache \<Rightarrow> amd_kds_response res \<times> 'db cache" where
  "url_fetch K env url answer c =
     (let key = uk_key_for K url;
          fetched = map_err (\<lambda>_. uk_access_failure K) answer;
          c = c\<lparr>ca_failures := note_outcome (en_instant2 env) key fetched (ca_failures c)\<rparr>
      in case fetched of
           Inl e \<Rightarrow> (Inl e, c)
         | Inr h \<Rightarrow>
             if not_final (ht_status h) then
               (Inl (uk_access_failure K),
                c\<lparr>ca_failures := note_outcome (en_instant2 env) key (Inl (uk_access_failure K) :: unit res) (ca_failures c)\<rparr>)
             else if ht_status h \<noteq> 200 then
               (Inr (of_http h),
                c\<lparr>ca_failures := remember (en_instant2 env) key (OutResponse (of_http h)) (ca_failures c)\<rparr>)
             else
               (let rec = \<lparr>ar_url = url, ar_body = ht_body h, ar_content_type = ht_header h ''content-type'',
                           ar_content_disposition = ht_header h ''content-disposition'',
                           ar_fetched_at = en_now3 env\<rparr>
                in case uk_save K (en_micros env) (ca_store c) rec of
                     (Inl e, st) \<Rightarrow> (Inl e, c\<lparr>ca_store := st\<rparr>)
                   | (Inr _, st) \<Rightarrow> (Inr (of_record rec), c\<lparr>ca_store := st\<rparr>)))"

definition get_cached_url ::
  "'db rocks \<Rightarrow> cache_mode \<Rightarrow> 'db url_kind \<Rightarrow> upstream \<Rightarrow> 'db env \<Rightarrow> string \<Rightarrow> u64 \<Rightarrow> 'db cache \<Rightarrow>
   amd_kds_response res \<times> 'db cache" where
  "get_cached_url R mode K up env url ttl c =
     (case url_lookup R mode K (en_now1 env) ttl url c of
        (Some r, c) \<Rightarrow> (r, c)
      | (None, c) \<Rightarrow>
          (case url_recheck R K env ttl url (en_wait env c) of
             (Some r, c) \<Rightarrow> (r, c)
           | (None, c) \<Rightarrow> url_fetch K env url (up url) (en_fetch env c)))"

definition amd_kds_kind :: "'db rocks \<Rightarrow> serde \<Rightarrow> 'db url_kind" where
  "amd_kds_kind R S = \<lparr>uk_key_for = key_amd_kds, uk_access_failure = AMD_KDS_ACCESS_FAILURE,
     uk_load = Store.get_amd_kds R S, uk_save = put_amd_kds R S\<rparr>"

definition nvidia_rim_kind :: "'db rocks \<Rightarrow> serde \<Rightarrow> 'db url_kind" where
  "nvidia_rim_kind R S = \<lparr>uk_key_for = key_nvidia_rim, uk_access_failure = NVIDIA_RIM_ACCESS_FAILURE,
     uk_load = Store.get_nvidia_rim R S, uk_save = put_nvidia_rim R S\<rparr>"

definition cache_get_amd_kds ::
  "'db rocks \<Rightarrow> serde \<Rightarrow> cache_config \<Rightarrow> upstream \<Rightarrow> 'db env \<Rightarrow> 'db cache \<Rightarrow> string \<Rightarrow>
   amd_kds_response res \<times> 'db cache" where
  "cache_get_amd_kds R S cfg up env c path_and_query =
     (case canonicalize_amd_kds path_and_query of
        Inl e \<Rightarrow> (Inl e, c)
      | Inr path \<Rightarrow> get_cached_url R (cf_mode cfg) (amd_kds_kind R S) up env
          (join_host_path (cf_amd_kds_uri cfg) path) (cf_amd_kds_cache_ttl_secs cfg) c)"

definition cache_get_nvidia_rim ::
  "'db rocks \<Rightarrow> serde \<Rightarrow> cache_config \<Rightarrow> upstream \<Rightarrow> 'db env \<Rightarrow> 'db cache \<Rightarrow> string \<Rightarrow>
   amd_kds_response res \<times> 'db cache" where
  "cache_get_nvidia_rim R S cfg up env c path_and_query =
     (case canonicalize_nvidia_rim path_and_query of
        Inl e \<Rightarrow> (Inl e, c)
      | Inr path \<Rightarrow> get_cached_url R (cf_mode cfg) (nvidia_rim_kind R S) up env
          (join_host_path (cf_nvidia_rim_uri cfg) path) (cf_nvidia_rim_cache_ttl_secs cfg) c)"

section \<open>OCSP and NRAS\<close>

definition of_ocsp_record :: "nvidia_ocsp_record \<Rightarrow> amd_kds_response" where
  "of_ocsp_record rec = \<lparr>rs_status = 200, rs_body = or_body rec, rs_content_type = or_content_type rec,
     rs_content_disposition = None, rs_retry_after = None\<rparr>"

text \<open>An upstream POST: the URL and the body.\<close>

type_synonym poster = "string \<Rightarrow> bytes \<Rightarrow> unit + http_response"

definition post_nvidia_ocsp :: "cache_config \<Rightarrow> poster \<Rightarrow> bytes \<Rightarrow> amd_kds_response res" where
  "post_nvidia_ocsp cfg up body =
     (if cf_nvidia_ocsp_uri cfg = [] then Inl NVIDIA_OCSP_ACCESS_FAILURE
      else
        and_then (map_err (\<lambda>_. NVIDIA_OCSP_ACCESS_FAILURE) (up (cf_nvidia_ocsp_uri cfg) body)) (\<lambda>h.
        if not_final (ht_status h) then Inl NVIDIA_OCSP_ACCESS_FAILURE
        else Inr \<lparr>rs_status = ht_status h, rs_body = ht_body h,
               rs_content_type = or_else (ht_header h ''content-type'') (Some ''application/ocsp-response''),
               rs_content_disposition = None, rs_retry_after = ht_header h ''retry-after''\<rparr>))"

definition ocsp_lookup ::
  "'db rocks \<Rightarrow> serde \<Rightarrow> cache_mode \<Rightarrow> u64 \<Rightarrow> string \<Rightarrow> 'db cache \<Rightarrow> amd_kds_response res option \<times> 'db cache" where
  "ocsp_lookup R S mode now ckey c =
     (case get_nvidia_ocsp R S (st_db (ca_store c)) ckey of
        Some rec \<Rightarrow>
          if or_expires_at rec > now then (Some (Inr (of_ocsp_record rec)), c)
          else if mode \<noteq> Lazy then (Some (Inl NO_CACHE_DATA), drop_expired R (key_nvidia_ocsp ckey) c)
          else (None, c)
      | None \<Rightarrow> if mode \<noteq> Lazy then (Some (Inl NO_CACHE_DATA), c) else (None, c))"

definition ocsp_recheck ::
  "'db rocks \<Rightarrow> serde \<Rightarrow> 'db env \<Rightarrow> string \<Rightarrow> 'db cache \<Rightarrow> amd_kds_response res option \<times> 'db cache" where
  "ocsp_recheck R S env ckey c =
     (let key = key_nvidia_ocsp ckey;
          (failed, m) = recent_failure (en_instant1 env) key (ca_failures c);
          c = c\<lparr>ca_failures := m\<rparr>
      in case failed of
           Some e \<Rightarrow> (Some (Inl e), c)
         | None \<Rightarrow>
             (let (relayed, m) = recent_non200 (en_instant1 env) key (ca_failures c);
                  c = c\<lparr>ca_failures := m\<rparr>
              in case relayed of
                   Some r \<Rightarrow> (Some (Inr r), c)
                 | None \<Rightarrow>
                     (case get_nvidia_ocsp R S (st_db (ca_store c)) ckey of
                        Some rec \<Rightarrow>
                          if or_expires_at rec > en_now2 env then (Some (Inr (of_ocsp_record rec)), c)
                          else (None, drop_expired R key c)
                      | None \<Rightarrow> (None, c))))"

definition ocsp_fetch ::
  "'db rocks \<Rightarrow> serde \<Rightarrow> ext \<Rightarrow> cache_config \<Rightarrow> 'db env \<Rightarrow> string \<Rightarrow> amd_kds_response res \<Rightarrow> 'db cache \<Rightarrow>
   amd_kds_response res \<times> 'db cache" where
  "ocsp_fetch R S E cfg env ckey answer c =
     (let key = key_nvidia_ocsp ckey;
          c = c\<lparr>ca_failures := note_outcome (en_instant2 env) key answer (ca_failures c)\<rparr>
      in case answer of
           Inl e \<Rightarrow> (Inl e, c)
         | Inr resp \<Rightarrow>
             if rs_status resp \<noteq> 200 then
               (Inr resp, c\<lparr>ca_failures := remember (en_instant2 env) key (OutResponse resp) (ca_failures c)\<rparr>)
             else if uint (en_now3 env) > I64_MAX then (Inl INTERNAL_ERROR, c)
             else
               (case response_cache_expiry E (rs_body resp) (uint (en_now3 env))
                       (cf_nvidia_ocsp_max_ttl_secs cfg) (cf_nvidia_ocsp_default_ttl_secs cfg) of
                  Inl _ \<Rightarrow> (Inr resp, c)
                | Inr expires_at \<Rightarrow>
                    (case put_nvidia_ocsp R S (en_micros env) (ca_store c)
                            \<lparr>or_cache_key = ckey, or_body = rs_body resp, or_content_type = rs_content_type resp,
                             or_fetched_at = en_now3 env, or_expires_at = expires_at\<rparr> of
                       (Inl e, st) \<Rightarrow> (Inl e, c\<lparr>ca_store := st\<rparr>)
                     | (Inr _, st) \<Rightarrow> (Inr (resp\<lparr>rs_retry_after := None\<rparr>), c\<lparr>ca_store := st\<rparr>))))"

definition cache_get_nvidia_ocsp ::
  "'db rocks \<Rightarrow> serde \<Rightarrow> ext \<Rightarrow> cache_config \<Rightarrow> poster \<Rightarrow> 'db env \<Rightarrow> 'db cache \<Rightarrow> bytes \<Rightarrow>
   amd_kds_response res \<times> 'db cache" where
  "cache_get_nvidia_ocsp R S E cfg up env c body =
     (case parse_request E body of
        Inl e \<Rightarrow> (Inl e, c)
      | Inr request \<Rightarrow>
          (let ckey = cache_key request
           in case ocsp_lookup R S (cf_mode cfg) (en_now1 env) ckey c of
                (Some r, c) \<Rightarrow> (r, c)
              | (None, c) \<Rightarrow>
                  (case ocsp_recheck R S env ckey (en_wait env c) of
                     (Some r, c) \<Rightarrow> (r, c)
                   | (None, c) \<Rightarrow>
                       ocsp_fetch R S E cfg env ckey (post_nvidia_ocsp cfg up body) (en_fetch env c))))"

definition get_nvidia_nras ::
  "ext \<Rightarrow> cache_config \<Rightarrow> poster \<Rightarrow> json \<Rightarrow> amd_kds_response res" where
  "get_nvidia_nras E cfg up body =
     (if cf_mode cfg = Offline then Inl SERVICE_UNAVAILABLE
      else if cf_nvidia_nras_uri cfg = [] then Inl NVIDIA_NRAS_ACCESS_FAILURE
      else
        and_then (map_err (\<lambda>_. NVIDIA_NRAS_ACCESS_FAILURE)
          (up (cf_nvidia_nras_uri cfg @ ''/v3/attest/gpu'') (as_bytes (x_json_to_string E body)))) (\<lambda>h.
        Inr \<lparr>rs_status = ht_status h, rs_body = ht_body h, rs_content_type = ht_header h ''content-type'',
             rs_content_disposition = None, rs_retry_after = ht_header h ''retry-after''\<rparr>))"

section \<open>The sweep\<close>

definition swept :: "'db \<Rightarrow> (nat \<times> 'db) res \<Rightarrow> 'db" where
  "swept db r = (case r of Inl _ \<Rightarrow> db | Inr (_, db') \<Rightarrow> db')"

definition sweep_expired :: "'db rocks \<Rightarrow> serde \<Rightarrow> cache_config \<Rightarrow> u64 \<Rightarrow> 'db cache \<Rightarrow> 'db cache" where
  "sweep_expired R S cfg now c =
     (let dead = (\<lambda>ttl rec. saturating_sub now (ar_fetched_at rec) \<ge> ttl);
          db = st_db (ca_store c);
          db = swept db (sweep_prefix R (sd_url S) db AMD_KDS (dead (cf_amd_kds_cache_ttl_secs cfg)));
          db = swept db (sweep_prefix R (sd_url S) db NVIDIA_RIM (dead (cf_nvidia_rim_cache_ttl_secs cfg)));
          db = swept db (sweep_prefix R (sd_ocsp S) db NVIDIA_OCSP (\<lambda>rec. or_expires_at rec \<le> now))
      in c\<lparr>ca_store := (ca_store c)\<lparr>st_db := db\<rparr>\<rparr>)"

section \<open>What the steps can return\<close>

lemma recent_failure_Some:
  "recent_failure now key m = (Some e, m') \<longleftrightarrow>
     m' = m \<and> (\<exists>at. map_of m key = Some (at, OutErr e) \<and> now - at < FAILURE_TTL)"
  by (auto simp: recent_failure_def recent_outcome_def split: option.splits remembered.splits if_splits)

lemma recent_failure_None:
  "recent_failure now key m = (None, m') \<Longrightarrow> m' = m \<or> m' = filter (\<lambda>(k, _). k \<noteq> key) m"
  by (auto simp: recent_failure_def recent_outcome_def split: option.splits remembered.splits if_splits)

lemma recent_non200_Some:
  "recent_non200 now key m = (Some r, m') \<longleftrightarrow>
     m' = m \<and> (\<exists>at. map_of m key = Some (at, OutResponse r) \<and> now - at < FAILURE_TTL)"
  by (auto simp: recent_non200_def recent_outcome_def split: option.splits remembered.splits if_splits)

lemma recent_non200_None:
  "recent_non200 now key m = (None, m') \<Longrightarrow> m' = m \<or> m' = filter (\<lambda>(k, _). k \<noteq> key) m"
  by (auto simp: recent_non200_def recent_outcome_def split: option.splits remembered.splits if_splits)

lemma map_of_filter_none: "map_of (filter (\<lambda>(k, _). k \<noteq> key) m) key = None"
  by (induction m) auto

lemma url_lookup_Some:
  assumes "url_lookup R mode K now ttl url c = (Some (Inr r), c')"
  obtains rec where "uk_load K (st_db (ca_store c)) url = Some rec" "url_fresh now ttl rec" "r = of_record rec" "c' = c"
  using assms by (auto simp: url_lookup_def split: option.splits if_splits)

lemma url_lookup_None:
  "url_lookup R mode K now ttl url c = (None, c') \<Longrightarrow> mode = Lazy \<and> c' = c"
  by (auto simp: url_lookup_def split: option.splits if_splits)

lemma url_recheck_Some:
  assumes "url_recheck R K env ttl url c = (Some (Inr r), c')"
  obtains (relayed) at where "map_of (ca_failures c) (uk_key_for K url) = Some (at, OutResponse r)"
      "en_instant1 env - at < FAILURE_TTL"
    | (stored) rec where "uk_load K (st_db (ca_store c)) url = Some rec" "url_fresh (en_now2 env) ttl rec"
      "r = of_record rec"
proof -
  let ?key = "uk_key_for K url"
  obtain failed m1 where f: "recent_failure (en_instant1 env) ?key (ca_failures c) = (failed, m1)" by fastforce
  obtain relayed m2 where n: "recent_non200 (en_instant1 env) ?key m1 = (relayed, m2)" by fastforce
  have failed: "failed = None" using assms by (cases failed) (simp_all add: url_recheck_def f Let_def)
  show thesis
  proof (cases relayed)
    case (Some r')
    then have "r' = r" using assms by (simp add: url_recheck_def f n failed)
    with Some n have "\<exists>at. map_of m1 ?key = Some (at, OutResponse r) \<and> en_instant1 env - at < FAILURE_TTL"
      by (simp add: recent_non200_Some)
    then show thesis
      using recent_failure_None [OF f [unfolded failed]] relayed map_of_filter_none [of ?key "ca_failures c"] by auto
  next
    case None
    then show thesis
      using assms stored by (auto simp: url_recheck_def f n failed Let_def split: option.splits if_splits)
  qed
qed

text \<open>The response an upstream answer becomes.\<close>

definition relay :: "http_response \<Rightarrow> amd_kds_response" where
  "relay h = (if ht_status h = 200 then (of_http h)\<lparr>rs_retry_after := None\<rparr> else of_http h)"

lemma url_fetch_Inr:
  assumes "url_fetch K env url answer c = (Inr r, c')"
  obtains h where "answer = Inr h" "\<not> not_final (ht_status h)" "r = relay h"
  using assms by (cases answer)
    (auto simp: url_fetch_def Let_def relay_def of_record_def of_http_def split: if_splits prod.splits sum.splits)

section \<open>Properties\<close>

text \<open>C31: an expired record is never served. Whatever other requests do meanwhile, a successful answer
  of a read-through cache is a stored record within its TTL at the moment it was looked up, or, in
  LAZY mode only, a non-200 response to the same URL remembered for less than a second, or the
  upstream's own final answer to this request.\<close>

theorem cached_url_never_stale:
  assumes "get_cached_url R mode K up env url ttl c = (Inr r, c')"
  shows "(\<exists>rec. uk_load K (st_db (ca_store c)) url = Some rec \<and> url_fresh (en_now1 env) ttl rec \<and> r = of_record rec) \<or>
    mode = Lazy \<and>
     ((\<exists>rec. uk_load K (st_db (ca_store (en_wait env c))) url = Some rec \<and> url_fresh (en_now2 env) ttl rec \<and>
         r = of_record rec) \<or>
      (\<exists>at. map_of (ca_failures (en_wait env c)) (uk_key_for K url) = Some (at, OutResponse r) \<and>
         en_instant1 env - at < FAILURE_TTL) \<or>
      (\<exists>h. up url = Inr h \<and> \<not> not_final (ht_status h) \<and> r = relay h))"
proof (cases "url_lookup R mode K (en_now1 env) ttl url c")
  case (Pair o1 c1)
  show ?thesis
  proof (cases o1)
    case (Some r1)
    then have "url_lookup R mode K (en_now1 env) ttl url c = (Some (Inr r), c')"
      using assms Pair by (simp add: get_cached_url_def)
    then show ?thesis by (rule url_lookup_Some) blast
  next
    case None
    then have lazy: "mode = Lazy" "c1 = c" using url_lookup_None Pair by blast+
    obtain o2 c2 where re: "url_recheck R K env ttl url (en_wait env c) = (o2, c2)" by fastforce
    show ?thesis
    proof (cases o2)
      case (Some r2)
      then have "url_recheck R K env ttl url (en_wait env c) = (Some (Inr r), c')"
        using assms Pair None lazy re by (simp add: get_cached_url_def)
      then show ?thesis by (rule url_recheck_Some) (use lazy in blast)+
    next
      case None
      then have "url_fetch K env url (up url) (en_fetch env c2) = (Inr r, c')"
        using assms Pair \<open>o1 = None\<close> lazy re by (simp add: get_cached_url_def)
      then show ?thesis by (rule url_fetch_Inr) (use lazy in blast)
    qed
  qed
qed

text \<open>A record fetched a hundred seconds ago, with an hour to live.\<close>

definition sample_url_record :: amd_kds_record where
  "sample_url_record = \<lparr>ar_url = ''https://kds/vcek/v1/Milan/crl'', ar_body = [1], ar_content_type = None,
     ar_content_disposition = None, ar_fetched_at = 100\<rparr>"

definition sample_env :: "u64 \<Rightarrow> mem env" where
  "sample_env now = \<lparr>en_now1 = now, en_now2 = now, en_now3 = now, en_micros = now * 1000000,
     en_instant1 = 0, en_instant2 = 0, en_wait = id, en_fetch = id\<rparr>"

definition url_serde :: serde where
  "url_serde = empty_serde\<lparr>sd_url := table_codec [(sample_url_record, [4])]\<rparr>"

lemma url_serde_ok: "serde_ok url_serde"
  using empty_serde_ok by (simp add: url_serde_def serde_ok_def table_codec_ok)

definition stored_cache :: "mem cache" where
  "stored_cache = \<lparr>ca_store = \<lparr>st_db = [(as_bytes (key_amd_kds ''https://kds/vcek/v1/Milan/crl''), [4])],
     st_last = 0, st_max = 10\<rparr>, ca_failures = []\<rparr>"

lemma stored_cache_load:
  "uk_load (amd_kds_kind mem_rocks url_serde) (st_db (ca_store stored_cache)) ''https://kds/vcek/v1/Milan/crl'' =
     Some sample_url_record"
  by (simp add: amd_kds_kind_def stored_cache_def Store.get_amd_kds_def read_json_def url_serde_def table_codec_def
      sample_url_record_def)

theorem cached_url_never_stale_witness:
  "url_fresh 200 3600 sample_url_record \<and>
   get_cached_url mem_rocks Offline (amd_kds_kind mem_rocks url_serde) (\<lambda>_. Inl ()) (sample_env 200)
     ''https://kds/vcek/v1/Milan/crl'' 3600 stored_cache = (Inr (of_record sample_url_record), stored_cache)"
proof -
  have fresh: "url_fresh 200 3600 sample_url_record" by (simp add: url_fresh_def sample_url_record_def saturating_sub_def)
  then have g: "get_cached_url mem_rocks Offline (amd_kds_kind mem_rocks url_serde) (\<lambda>_. Inl ()) (sample_env 200)
     ''https://kds/vcek/v1/Milan/crl'' 3600 stored_cache = (Inr (of_record sample_url_record), stored_cache)"
    by (simp add: get_cached_url_def url_lookup_def stored_cache_load sample_env_def)
  from cached_url_never_stale [OF g] g fresh show ?thesis by blast
qed

text \<open>Outside LAZY mode no read-through request reaches an upstream: its answer and its effect on
  the cache are the same whatever the upstream would say.\<close>

theorem offline_never_fetches:
  assumes "cf_mode cfg \<noteq> Lazy"
  shows "cache_get_amd_kds R S cfg up env c path = cache_get_amd_kds R S cfg up' env c path \<and>
    cache_get_nvidia_rim R S cfg up env c path = cache_get_nvidia_rim R S cfg up' env c path \<and>
    cache_get_nvidia_ocsp R S E cfg post env c body = cache_get_nvidia_ocsp R S E cfg post' env c body"
proof -
  have url: "get_cached_url R (cf_mode cfg) K up env url ttl c = get_cached_url R (cf_mode cfg) K up' env url ttl c"
    for K :: "'a url_kind" and url ttl
    using assms by (auto simp: get_cached_url_def dest: url_lookup_None split: prod.splits option.splits)
  have ocsp: "ocsp_lookup R S (cf_mode cfg) now ckey c \<noteq> (None, c')" for now ckey c'
    using assms by (auto simp: ocsp_lookup_def split: option.splits if_splits)
  have "cache_get_nvidia_ocsp R S E cfg post env c body = cache_get_nvidia_ocsp R S E cfg post' env c body"
    using ocsp by (auto simp: cache_get_nvidia_ocsp_def Let_def split: sum.splits prod.splits option.splits)
  then show ?thesis by (simp add: cache_get_amd_kds_def cache_get_nvidia_rim_def url split: sum.splits)
qed

definition offline_config :: cache_config where
  "offline_config = \<lparr>cf_mode = Offline, cf_amd_kds_uri = ''https://kds'', cf_amd_kds_cache_ttl_secs = 3600,
     cf_nvidia_rim_uri = ''https://rim'', cf_nvidia_rim_cache_ttl_secs = 3600, cf_nvidia_nras_uri = [],
     cf_nvidia_ocsp_uri = [], cf_nvidia_ocsp_max_ttl_secs = 3600, cf_nvidia_ocsp_default_ttl_secs = 60\<rparr>"

theorem offline_never_fetches_witness:
  "cache_get_amd_kds mem_rocks url_serde offline_config (\<lambda>_. Inl ()) (sample_env 200) stored_cache ''/vcek/v1/Milan/crl'' =
   cache_get_amd_kds mem_rocks url_serde offline_config
     (\<lambda>_. Inr \<lparr>ht_status = 200, ht_header = (\<lambda>_. None), ht_body = [9]\<rparr>) (sample_env 200) stored_cache ''/vcek/v1/Milan/crl''"
proof -
  have "cf_mode offline_config \<noteq> Lazy" by (simp add: offline_config_def)
  from offline_never_fetches [OF this] show ?thesis by blast
qed

lemma remember_bounded: "length m \<le> RECENT_OUTCOMES_MAX \<Longrightarrow> length (remember now key outcome m) \<le> RECENT_OUTCOMES_MAX"
proof -
  assume m: "length m \<le> RECENT_OUTCOMES_MAX"
  have small: "length (insert_outcome now key outcome m') \<le> RECENT_OUTCOMES_MAX"
    if "length m' < RECENT_OUTCOMES_MAX" for m'
    using le_less_trans [OF length_filter_le that] by (simp add: insert_outcome_def Suc_le_eq)
  have "length (insert_outcome now key outcome m) \<le> RECENT_OUTCOMES_MAX" if known: "map_of m key \<noteq> None"
  proof -
    obtain v where "map_of m key = Some v" using known by blast
    then have "(key, v) \<in> set m" by (rule map_of_SomeD)
    then have "length (filter (\<lambda>(k, _). k \<noteq> key) m) < length m"
      by (intro length_filter_less [where x = "(key, v)"]) auto
    with m show ?thesis by (simp add: insert_outcome_def)
  qed
  moreover have "length (filter (\<lambda>(_, at, _). now - at < FAILURE_TTL) m) \<le> RECENT_OUTCOMES_MAX"
    by (rule order_trans [OF length_filter_le m])
  ultimately show ?thesis
    using m small by (auto simp: remember_def Let_def not_le)
qed

definition memory_bounded :: "'db cache \<Rightarrow> bool" where
  "memory_bounded c \<longleftrightarrow> length (ca_failures c) \<le> RECENT_OUTCOMES_MAX"

lemma recent_bounded:
  "length m \<le> n \<Longrightarrow> length (snd (recent_failure now key m)) \<le> n"
  "length m \<le> n \<Longrightarrow> length (snd (recent_non200 now key m)) \<le> n"
  by (auto simp: recent_failure_def recent_non200_def recent_outcome_def
      intro: order_trans [OF length_filter_le] split: option.splits remembered.splits)

lemma note_bounded: "length m \<le> RECENT_OUTCOMES_MAX \<Longrightarrow> length (note_outcome now key r m) \<le> RECENT_OUTCOMES_MAX"
  by (simp add: note_outcome_def remember_bounded split: sum.split)

lemma drop_expired_memory [simp]: "ca_failures (drop_expired R key c) = ca_failures c"
  by (simp add: drop_expired_def split: sum.split)

lemma recheck_bounded:
  assumes "memory_bounded c"
  shows "memory_bounded (snd (url_recheck R K env ttl url c))" "memory_bounded (snd (ocsp_recheck R S env ckey c))"
proof -
  have m: "length (snd (recent_failure now key (ca_failures c))) \<le> RECENT_OUTCOMES_MAX"
    "length (snd (recent_non200 now key (snd (recent_failure now key (ca_failures c))))) \<le> RECENT_OUTCOMES_MAX"
    for now key
    using assms by (simp_all add: memory_bounded_def recent_bounded)
  show "memory_bounded (snd (url_recheck R K env ttl url c))"
    using m by (auto simp: url_recheck_def Let_def memory_bounded_def case_prod_unfold split: option.split)
  show "memory_bounded (snd (ocsp_recheck R S env ckey c))"
    using m by (auto simp: ocsp_recheck_def Let_def memory_bounded_def case_prod_unfold split: option.split)
qed

lemma fetch_bounded:
  assumes "memory_bounded c"
  shows "memory_bounded (snd (url_fetch K env url answer c))"
    "memory_bounded (snd (ocsp_fetch R S E cfg env ckey answer' c))"
  using assms by (auto simp: url_fetch_def ocsp_fetch_def Let_def memory_bounded_def note_bounded remember_bounded
      split: sum.split prod.split)

lemma lookup_bounded:
  "memory_bounded (snd (url_lookup R mode K now ttl url c)) = memory_bounded c"
  "memory_bounded (snd (ocsp_lookup R S mode now ckey c)) = memory_bounded c"
  by (auto simp: url_lookup_def ocsp_lookup_def memory_bounded_def split: option.split)

text \<open>C34: the memory of recent outcomes is bounded. If the other requests keep to the bound, so does
  any read-through request: it leaves at most 1024 keys in the memory, however many distinct keys
  clients ask for within one window.\<close>

theorem outcome_memory_bounded:
  assumes "memory_bounded c" "\<And>c. memory_bounded c \<Longrightarrow> memory_bounded (en_wait env c)"
    and "\<And>c. memory_bounded c \<Longrightarrow> memory_bounded (en_fetch env c)"
  shows "memory_bounded (snd (cache_get_amd_kds R S cfg up env c path)) \<and>
    memory_bounded (snd (cache_get_nvidia_rim R S cfg up env c path)) \<and>
    memory_bounded (snd (cache_get_nvidia_ocsp R S E cfg post env c body))"
proof -
  have url: "memory_bounded (snd (get_cached_url R mode K up env url ttl c))" for mode and K :: "'a url_kind" and url ttl
  proof (cases "url_lookup R mode K (en_now1 env) ttl url c")
    case (Pair o1 c1)
    then have c1: "memory_bounded c1" using lookup_bounded(1) [of R mode K "en_now1 env" ttl url c] assms(1) by simp
    note c2 = recheck_bounded(1) [OF assms(2) [OF c1], of R K env ttl url]
    show ?thesis
      using Pair c1 c2 assms(3)
      by (cases o1; cases "url_recheck R K env ttl url (en_wait env c1)")
        (auto simp: get_cached_url_def fetch_bounded(1) split: option.split)
  qed
  have "memory_bounded (snd (cache_get_nvidia_ocsp R S E cfg post env c body))"
  proof (cases "parse_request E body")
    case (Inr request)
    let ?ck = "cache_key request"
    obtain o1 c1 where l: "ocsp_lookup R S (cf_mode cfg) (en_now1 env) ?ck c = (o1, c1)" by fastforce
    then have c1: "memory_bounded c1"
      using lookup_bounded(2) [of R S "cf_mode cfg" "en_now1 env" ?ck c] assms(1) by simp
    note c2 = recheck_bounded(2) [OF assms(2) [OF c1], of R S env ?ck]
    show ?thesis
      using Inr l c1 c2 assms(3)
      by (cases o1; cases "ocsp_recheck R S env ?ck (en_wait env c1)")
        (auto simp: cache_get_nvidia_ocsp_def Let_def fetch_bounded(2) split: option.split)
  qed (simp add: cache_get_nvidia_ocsp_def assms(1))
  with url assms(1) show ?thesis
    by (simp add: cache_get_amd_kds_def cache_get_nvidia_rim_def split: sum.split)
qed

theorem outcome_memory_bounded_witness:
  "memory_bounded (snd (cache_get_amd_kds mem_rocks url_serde (offline_config\<lparr>cf_mode := Lazy\<rparr>) (\<lambda>_. Inl ())
     (sample_env 9000) stored_cache ''/vcek/v1/Milan/crl''))"
proof -
  have "memory_bounded stored_cache" by (simp add: memory_bounded_def stored_cache_def)
  from outcome_memory_bounded [OF this, of "sample_env 9000"] show ?thesis by (simp add: sample_env_def)
qed

section \<open>A fetched record is served until it expires\<close>

lemma evict_loop_spares:
  assumes "evict_loop (fifo_order_prefix kind) entry excess cnt batch rows = Inr (batch', cnt')"
    and "kind \<in> set BOUNDED_KINDS" "starts_with entry (as_bytes kind)"
  shows "\<exists>ops. batch' = batch @ ops \<and> entry \<notin> op_key ` set ops"
  using assms(1,3)
proof (induction "fifo_order_prefix kind" entry excess cnt batch rows rule: evict_loop.induct)
  case (3 entry excess cnt batch order_key uu rest)
  note apart = entry_apart [OF assms(2) "3.prems"(2)]
  show ?case
  proof (cases "excess = 0 \<or> \<not> starts_with order_key (fifo_order_prefix kind) \<or>
      length order_key < length (fifo_order_prefix kind) + 8 \<or>
      drop (length (fifo_order_prefix kind) + 8) order_key = entry")
    case True
    with 3 show ?thesis by (auto simp: Let_def split: if_splits)
  next
    case False
    define victim where "victim = drop (length (fifo_order_prefix kind) + 8) order_key"
    from False 3 obtain ops where
      "batch' = batch @ [Del victim, Del (fifo_pos_key victim), Del order_key] @ ops" "entry \<notin> op_key ` set ops"
      unfolding victim_def by (auto simp: Let_def)
    moreover have "entry \<noteq> victim" using False by (auto simp: victim_def)
    moreover have "entry \<noteq> fifo_pos_key victim" by (rule apart(1))
    moreover have "entry \<noteq> order_key" using False apart(4) [of kind] by blast
    ultimately show ?thesis
      by (intro exI [of _ "[Del victim, Del (fifo_pos_key victim), Del order_key] @ ops"]) simp
  qed
qed simp_all

lemma bounded_batch_spares:
  assumes "bounded_batch R db max_entries kind entry bs written_at = Inr batch"
    and "kind \<in> set BOUNDED_KINDS" "starts_with entry (as_bytes kind)"
  shows "apply_batch m batch entry = Some bs"
proof -
  note apart = entry_apart [OF assms(2,3)]
  let ?pre = "fifo_order_prefix kind"
  let ?rows = "[Put (fifo_pos_key entry) (to_be_bytes written_at), Put (fifo_order_key kind written_at entry) []]"
  obtain pos where pos: "rk_get R db (fifo_pos_key entry) = Inr pos"
    using assms(1) by (cases "rk_get R db (fifo_pos_key entry)") (simp_all add: bounded_batch_def Let_def)
  define bc where "bc = (case pos of
      Some old \<Rightarrow> (case be_u64 old of
          Some old \<Rightarrow> ([Del (fifo_order_key kind old entry)], readthrough_count R db kind)
        | None \<Rightarrow> ([], readthrough_count R db kind))
    | None \<Rightarrow> ([], readthrough_count R db kind + 1))"
  define base where "base = fst bc @ Put entry bs # ?rows"
  have step: "bounded_batch R db max_entries kind entry bs written_at =
      and_then (if snd bc > max_entries
        then evict_loop ?pre entry (snd bc - max_entries) (snd bc) base (rk_iter R db ?pre)
        else Inr (base, snd bc)) (\<lambda>(batch, count). Inr (batch @ [Put (fifo_count_key kind) (to_be_bytes count)]))"
    unfolding bc_def base_def by (cases pos) (auto simp: bounded_batch_def pos Let_def split: option.split)
  obtain b1 c1 where b1: "(if snd bc > max_entries
        then evict_loop ?pre entry (snd bc - max_entries) (snd bc) base (rk_iter R db ?pre)
        else Inr (base, snd bc)) = Inr (b1, c1)"
    "batch = b1 @ [Put (fifo_count_key kind) (to_be_bytes c1)]"
    using assms(1) [unfolded step] by auto
  obtain ops where "b1 = base @ ops" "entry \<notin> op_key ` set ops"
    using b1(1) evict_loop_spares [OF _ assms(2,3)] by (cases "snd bc > max_entries") (fastforce, simp)
  then have "batch = fst bc @ Put entry bs # (?rows @ ops @ [Put (fifo_count_key kind) (to_be_bytes c1)])"
    "entry \<notin> op_key ` set (?rows @ ops @ [Put (fifo_count_key kind) (to_be_bytes c1)])"
    using b1(2) apart by (simp_all add: base_def)
  then show ?thesis by (simp add: apply_batch_frame)
qed

lemma put_bounded_stored:
  assumes "rocks_ok R view" "kind \<in> set BOUNDED_KINDS" "starts_with key kind"
    and "put_bounded R C now st kind key val = (Inr (), st')"
  shows "\<exists>bs. enc C val = Some bs \<and> view (st_db st') (as_bytes key) = Some bs"
proof -
  let ?t = "max now (saturating_add (st_last st) 1)"
  obtain bs where bs: "enc C val = Some bs"
    using assms(4) by (cases "enc C val") (simp_all add: put_bounded_def)
  from assms(4) obtain batch db where b: "bounded_batch R (st_db st) (st_max st) kind (as_bytes key) bs ?t = Inr batch"
    "write_batch R (st_db st) batch = Inr db" "st_db st' = db"
    by (auto simp: put_bounded_def bs Let_def split: sum.splits)
  have "starts_with (as_bytes key) (as_bytes kind)" using assms(3) by simp
  from bounded_batch_spares [OF b(1) assms(2) this] write_batch_view [OF assms(1) b(2)] b(3) bs
  show ?thesis by simp
qed

lemma amd_kds_stored:
  assumes "rocks_ok R view" "reads_reliable R" "serde_ok S" "put_amd_kds R S now st rec = (Inr (), st')"
  shows "Store.get_amd_kds R S (st_db st') (ar_url rec) = Some rec"
proof -
  have "AMD_KDS \<in> set BOUNDED_KINDS" by (simp add: BOUNDED_KINDS_def)
  from put_bounded_stored [OF assms(1) this readthrough_key_prefix(1) assms(4) [unfolded put_amd_kds_def]]
  obtain bs where "enc (sd_url S) rec = Some bs" "view (st_db st') (as_bytes (key_amd_kds (ar_url rec))) = Some bs"
    by blast
  from amd_kds_slot.get_after_write [OF assms(1,2) serde_okD(8) [OF assms(3)] this refl]
  show ?thesis by (simp add: get_readthrough_slot)
qed

lemma nvidia_rim_stored:
  assumes "rocks_ok R view" "reads_reliable R" "serde_ok S" "put_nvidia_rim R S now st rec = (Inr (), st')"
  shows "Store.get_nvidia_rim R S (st_db st') (ar_url rec) = Some rec"
proof -
  have "NVIDIA_RIM \<in> set BOUNDED_KINDS" by (simp add: BOUNDED_KINDS_def)
  from put_bounded_stored [OF assms(1) this readthrough_key_prefix(2) assms(4) [unfolded put_nvidia_rim_def]]
  obtain bs where "enc (sd_url S) rec = Some bs" "view (st_db st') (as_bytes (key_nvidia_rim (ar_url rec))) = Some bs"
    by blast
  from nvidia_rim_slot.get_after_write [OF assms(1,2) serde_okD(8) [OF assms(3)] this refl]
  show ?thesis by (simp add: get_readthrough_slot)
qed

lemma recent_none:
  "map_of m key = None \<Longrightarrow> recent_failure now key m = (None, m)"
  "map_of m key = None \<Longrightarrow> recent_non200 now key m = (None, m)"
  by (simp_all add: recent_failure_def recent_non200_def recent_outcome_def)

text \<open>A cold request: nothing stored and nothing remembered when it gets the lock, so it fetches.\<close>

lemma cold_request:
  assumes "uk_load K (st_db (ca_store c)) url = None" "uk_load K (st_db (ca_store (en_wait env c))) url = None"
    and "map_of (ca_failures (en_wait env c)) (uk_key_for K url) = None"
  shows "get_cached_url R Lazy K up env url ttl c = url_fetch K env url (up url) (en_fetch env (en_wait env c))"
  using assms by (simp add: get_cached_url_def url_lookup_def url_recheck_def recent_none Let_def)

lemma warm_request:
  assumes "uk_load K (st_db (ca_store c)) url = Some rec" "url_fresh (en_now1 env) ttl rec"
  shows "get_cached_url R mode K up env url ttl c = (Inr (of_record rec), c)"
  using assms by (simp add: get_cached_url_def url_lookup_def)


definition cold_cache :: "mem cache" where
  "cold_cache = \<lparr>ca_store = \<lparr>st_db = [], st_last = 0, st_max = 10\<rparr>, ca_failures = []\<rparr>"

definition sample_answer :: http_response where
  "sample_answer = \<lparr>ht_status = 200, ht_header = (\<lambda>_. None), ht_body = [1]\<rparr>"

lemma cold_cache_load:
  "uk_load (amd_kds_kind mem_rocks S) (st_db (ca_store cold_cache)) url = None"
  by (simp add: amd_kds_kind_def cold_cache_def Store.get_amd_kds_def read_json_def)

lemma cold_cache_save:
  "\<exists>st'. put_amd_kds mem_rocks url_serde 100000000 (ca_store cold_cache) sample_url_record = (Inr (), st')"
  by (simp add: put_amd_kds_def put_bounded_def bounded_batch_def readthrough_count_def cold_cache_def url_serde_def
      table_codec_def Let_def write_batch_def) (simp add: mem_rocks_def)




lemma ocsp_recheck_Some:
  assumes "ocsp_recheck R S env ckey c = (Some (Inr r), c')"
  shows "(\<exists>at. map_of (ca_failures c) (key_nvidia_ocsp ckey) = Some (at, OutResponse r) \<and>
      en_instant1 env - at < FAILURE_TTL) \<or>
    (\<exists>rec. get_nvidia_ocsp R S (st_db (ca_store c)) ckey = Some rec \<and> or_expires_at rec > en_now2 env \<and>
      r = of_ocsp_record rec)"
proof -
  let ?key = "key_nvidia_ocsp ckey"
  obtain failed m1 where f: "recent_failure (en_instant1 env) ?key (ca_failures c) = (failed, m1)" by fastforce
  obtain relayed m2 where n: "recent_non200 (en_instant1 env) ?key m1 = (relayed, m2)" by fastforce
  have failed: "failed = None" using assms by (cases failed) (simp_all add: ocsp_recheck_def f Let_def)
  show ?thesis
  proof (cases relayed)
    case (Some r')
    then have "r' = r" using assms by (simp add: ocsp_recheck_def f n failed)
    with Some n have "\<exists>at. map_of m1 ?key = Some (at, OutResponse r) \<and> en_instant1 env - at < FAILURE_TTL"
      by (simp add: recent_non200_Some)
    then show ?thesis
      using recent_failure_None [OF f [unfolded failed]] map_of_filter_none [of ?key "ca_failures c"] by auto
  next
    case None
    then show ?thesis
      using assms by (auto simp: ocsp_recheck_def f n failed Let_def split: option.splits if_splits)
  qed
qed

lemma ocsp_fetch_Inr:
  assumes "ocsp_fetch R S E cfg env ckey answer c = (Inr r, c')"
  shows "\<exists>resp. answer = Inr resp \<and> rs_status r = rs_status resp \<and> rs_body r = rs_body resp \<and>
    rs_content_type r = rs_content_type resp"
  using assms by (cases answer) (auto simp: ocsp_fetch_def Let_def split: if_splits prod.splits sum.splits)

text \<open>An OCSP response that has passed its deadline is never served: a successful answer is a stored
  response whose deadline lies after the time of the lookup, or, in LAZY mode only, a response the
  responder gave less than a second ago with another status than 200, or the responder's own
  final answer to this request.\<close>

theorem ocsp_never_stale:
  assumes "cache_get_nvidia_ocsp R S E cfg up env c body = (Inr r, c')"
  shows "\<exists>request. parse_request E body = Inr request \<and>
    ((\<exists>rec. get_nvidia_ocsp R S (st_db (ca_store c)) (cache_key request) = Some rec \<and>
        or_expires_at rec > en_now1 env \<and> r = of_ocsp_record rec) \<or>
     cf_mode cfg = Lazy \<and>
      ((\<exists>rec. get_nvidia_ocsp R S (st_db (ca_store (en_wait env c))) (cache_key request) = Some rec \<and>
          or_expires_at rec > en_now2 env \<and> r = of_ocsp_record rec) \<or>
       (\<exists>at. map_of (ca_failures (en_wait env c)) (key_nvidia_ocsp (cache_key request)) = Some (at, OutResponse r) \<and>
          en_instant1 env - at < FAILURE_TTL) \<or>
       (\<exists>resp. post_nvidia_ocsp cfg up body = Inr resp \<and> rs_status r = rs_status resp \<and> rs_body r = rs_body resp \<and>
          rs_content_type r = rs_content_type resp)))"
proof -
  obtain request where req: "parse_request E body = Inr request"
    using assms by (cases "parse_request E body") (simp_all add: cache_get_nvidia_ocsp_def)
  let ?ck = "cache_key request" and ?key = "key_nvidia_ocsp (cache_key request)"
  obtain o1 c1 where l: "ocsp_lookup R S (cf_mode cfg) (en_now1 env) ?ck c = (o1, c1)" by fastforce
  obtain o2 c2 where re: "ocsp_recheck R S env ?ck (en_wait env c1) = (o2, c2)" by fastforce
  show ?thesis
  proof (cases o1)
    case (Some r1)
    with assms req l have "r1 = Inr r" by (simp add: cache_get_nvidia_ocsp_def)
    with Some l req show ?thesis by (auto simp: ocsp_lookup_def split: option.splits if_splits)
  next
    case None
    with l have lazy: "cf_mode cfg = Lazy" "c1 = c" by (auto simp: ocsp_lookup_def split: option.splits if_splits)
    show ?thesis
    proof (cases o2)
      case (Some r2)
      with assms req l None re have "r2 = Inr r" by (simp add: cache_get_nvidia_ocsp_def)
      with Some re lazy have "ocsp_recheck R S env ?ck (en_wait env c) = (Some (Inr r), c2)" by simp
      then show ?thesis using ocsp_recheck_Some lazy(1) req by blast
    next
      case none2: None
      with assms req l None re have "ocsp_fetch R S E cfg env ?ck (post_nvidia_ocsp cfg up body) (en_fetch env c2) = (Inr r, c')"
        by (simp add: cache_get_nvidia_ocsp_def)
      then show ?thesis using ocsp_fetch_Inr lazy(1) req by blast
    qed
  qed
qed

definition ocsp_body :: bytes where
  "ocsp_body = [0x30, 8, 0x30, 6, 0x30, 4, 0x30, 2, 0x30, 0]"

definition ocsp_ckey :: string where
  "ocsp_ckey = of_bytes [0x30, 4, 0x30, 2, 0x30, 0]"

definition ocsp_record :: nvidia_ocsp_record where
  "ocsp_record = \<lparr>or_cache_key = ocsp_ckey, or_body = [7], or_content_type = None, or_fetched_at = 100,
     or_expires_at = 300\<rparr>"

definition ocsp_serde :: serde where
  "ocsp_serde = empty_serde\<lparr>sd_ocsp := table_codec [(ocsp_record, [4])]\<rparr>"

definition ocsp_cache :: "mem cache" where
  "ocsp_cache = \<lparr>ca_store = \<lparr>st_db = [(as_bytes (key_nvidia_ocsp ocsp_ckey), [4])], st_last = 0, st_max = 10\<rparr>,
     ca_failures = []\<rparr>"

theorem ocsp_never_stale_witness:
  "cache_get_nvidia_ocsp mem_rocks ocsp_serde sample_ext offline_config (\<lambda>_ _. Inl ()) (sample_env 200) ocsp_cache ocsp_body =
     (Inr (of_ocsp_record ocsp_record), ocsp_cache) \<and> or_expires_at ocsp_record > 200"
proof -
  have parse: "parse_request sample_ext ocsp_body = Inr \<lparr>cache_key = ocsp_ckey\<rparr>" by code_simp
  have load: "get_nvidia_ocsp mem_rocks ocsp_serde (st_db (ca_store ocsp_cache)) ocsp_ckey = Some ocsp_record"
    by (simp add: get_nvidia_ocsp_def read_json_def ocsp_cache_def ocsp_serde_def table_codec_def)
      (simp add: ocsp_record_def)
  have g: "cache_get_nvidia_ocsp mem_rocks ocsp_serde sample_ext offline_config (\<lambda>_ _. Inl ()) (sample_env 200) ocsp_cache
      ocsp_body = (Inr (of_ocsp_record ocsp_record), ocsp_cache)"
    by (simp add: cache_get_nvidia_ocsp_def parse ocsp_lookup_def load) (simp add: ocsp_record_def sample_env_def)
  have "cf_mode offline_config \<noteq> Lazy" "en_now1 (sample_env 200) = 200" by (simp_all add: offline_config_def sample_env_def)
  with ocsp_never_stale [OF g] parse load g show ?thesis by auto
qed

end
