(* ===== verification/Effects.thy ===== *)
theory Effects
  imports Errors
begin

text \<open>
  Effectful operations. An \<open>async fn\<close> that returns \<open>Result<T, PccsError>\<close> is a function from the
  state to its result and the state it leaves; what it awaits is a state change made by its
  environment. \<open>guarantees G m\<close> says that every run of \<open>m\<close> moves the state along the relation \<open>G\<close>;
  the locale \<open>guarantee\<close> has the rules that carry such a relation through a program.
\<close>

type_synonym ('s, 'a) act = "'s \<Rightarrow> 'a res \<times> 's"

definition ret :: "'a \<Rightarrow> ('s, 'a) act" where
  "ret x s = (Inr x, s)"

definition lift_res :: "'a res \<Rightarrow> ('s, 'a) act" where
  "lift_res r s = (r, s)"

text \<open>\<open>let x = m.await?; f(x)\<close>.\<close>

definition seq :: "('s, 'a) act \<Rightarrow> ('a \<Rightarrow> ('s, 'b) act) \<Rightarrow> ('s, 'b) act" where
  "seq m f s = (case m s of (Inl e, s) \<Rightarrow> (Inl e, s) | (Inr x, s) \<Rightarrow> f x s)"

text \<open>\<open>match m.await { .. }\<close>: both outcomes go on.\<close>

definition match_res :: "('s, 'a) act \<Rightarrow> ('a res \<Rightarrow> ('s, 'b) act) \<Rightarrow> ('s, 'b) act" where
  "match_res m f s = (case m s of (r, s) \<Rightarrow> f r s)"

text \<open>Reading the state, and changing it.\<close>

definition read :: "('s \<Rightarrow> ('s, 'a) act) \<Rightarrow> ('s, 'a) act" where
  "read f s = f s s"

definition modify :: "('s \<Rightarrow> 's) \<Rightarrow> ('s, unit) act" where
  "modify f s = (Inr (), f s)"

text \<open>\<open>for x in xs { f(x).await?; }\<close>.\<close>

fun each_act :: "('a \<Rightarrow> ('s, unit) act) \<Rightarrow> 'a list \<Rightarrow> ('s, unit) act" where
  "each_act f [] = ret ()"
| "each_act f (x # xs) = seq (f x) (\<lambda>_. each_act f xs)"

lemma ret_run [simp]: "ret x s = (Inr x, s)"
  by (simp add: ret_def)

lemma lift_res_run [simp]: "lift_res r s = (r, s)"
  by (simp add: lift_res_def)

lemma read_run [simp]: "read f s = f s s"
  by (simp add: read_def)

lemma modify_run [simp]: "modify f s = (Inr (), f s)"
  by (simp add: modify_def)

lemma seq_ret [simp]: "seq (ret x) f = f x"
  by (simp add: seq_def fun_eq_iff)

lemma seq_lift [simp]: "seq (lift_res (Inl e)) f = lift_res (Inl e)" "seq (lift_res (Inr x)) f = f x"
  by (simp_all add: seq_def fun_eq_iff)

lemma seq_Inr:
  "seq m f s = (Inr y, t) \<longleftrightarrow> (\<exists>x u. m s = (Inr x, u) \<and> f x u = (Inr y, t))"
  by (auto simp: seq_def split: prod.splits sum.splits)

definition guarantees :: "('s \<Rightarrow> 's \<Rightarrow> bool) \<Rightarrow> ('s, 'a) act \<Rightarrow> bool" where
  "guarantees G m \<longleftrightarrow> (\<forall>s. G s (snd (m s)))"

lemma guaranteesI: "(\<And>s. G s (snd (m s))) \<Longrightarrow> guarantees G m"
  by (simp add: guarantees_def)

lemma guaranteesD: "guarantees G m \<Longrightarrow> m s = (r, t) \<Longrightarrow> G s t"
  by (metis guarantees_def snd_conv)

text \<open>\<open>yields P m\<close>: every value \<open>m\<close> returns satisfies \<open>P\<close>.\<close>

definition yields :: "('a \<Rightarrow> bool) \<Rightarrow> ('s, 'a) act \<Rightarrow> bool" where
  "yields P m \<longleftrightarrow> (\<forall>s x t. m s = (Inr x, t) \<longrightarrow> P x)"

lemma yieldsD: "yields P m \<Longrightarrow> m s = (Inr x, t) \<Longrightarrow> P x"
  by (auto simp: yields_def)

lemma yields_pure: "P x \<Longrightarrow> yields P (ret x)" "(\<And>x. r = Inr x \<Longrightarrow> P x) \<Longrightarrow> yields P (lift_res r)"
  by (auto simp: yields_def)

lemma yields_seq: "(\<And>x. yields P (f x)) \<Longrightarrow> yields P (seq m f)"
  by (auto simp: yields_def seq_Inr)

lemma yields_match: "(\<And>r. yields P (f r)) \<Longrightarrow> yields P (match_res m f)"
  unfolding yields_def match_res_def by (metis (no_types, lifting) prod.case surj_pair)

locale guarantee =
  fixes G :: "'s \<Rightarrow> 's \<Rightarrow> bool"
  assumes G_refl: "G s s"
    and G_trans: "G s t \<Longrightarrow> G t u \<Longrightarrow> G s u"
begin

lemma guarantees_pure: "guarantees G (ret x)" "guarantees G (lift_res r)"
  by (simp_all add: guarantees_def G_refl)

lemma guarantees_read: "(\<And>s. guarantees G (f s)) \<Longrightarrow> guarantees G (read f)"
  by (auto simp: guarantees_def)

lemma guarantees_modify: "(\<And>s. G s (f s)) \<Longrightarrow> guarantees G (modify f)"
  by (auto simp: guarantees_def)

lemma guarantees_seq_yields:
  assumes "guarantees G m" and "yields P m" and "\<And>x. P x \<Longrightarrow> guarantees G (f x)"
  shows "guarantees G (seq m f)"
proof (rule guaranteesI)
  fix s
  obtain r t where r: "m s = (r, t)" by fastforce
  show "G s (snd (seq m f s))"
  proof (cases r)
    case (Inl e)
    then show ?thesis using guaranteesD [OF assms(1) r] r by (simp add: seq_def)
  next
    case (Inr x)
    with yieldsD [OF assms(2)] r assms(3) have "guarantees G (f x)" by blast
    with Inr guaranteesD [OF assms(1) r] r show ?thesis
      by (auto simp: seq_def guarantees_def intro: G_trans)
  qed
qed

lemma guarantees_seq:
  assumes "guarantees G m" and "\<And>x. guarantees G (f x)"
  shows "guarantees G (seq m f)"
  by (rule guarantees_seq_yields [OF assms(1), where P = "\<lambda>_. True"]) (auto simp: yields_def assms(2))

lemma guarantees_match:
  assumes "guarantees G m" and "\<And>r. guarantees G (f r)"
  shows "guarantees G (match_res m f)"
proof (rule guaranteesI)
  fix s
  obtain r t where r: "m s = (r, t)" by fastforce
  show "G s (snd (match_res m f s))"
    using guaranteesD [OF assms(1) r] assms(2) [of r] r
    by (auto simp: match_res_def guarantees_def intro: G_trans)
qed

lemma guarantees_each: "(\<And>x. guarantees G (f x)) \<Longrightarrow> guarantees G (each_act f xs)"
  by (induction xs) (auto intro: guarantees_pure guarantees_seq)

lemmas guarantees_rules = guarantees_pure guarantees_read guarantees_seq guarantees_match guarantees_each

end

end
