(* ===== verification/Pcs.thy ===== *)
theory Pcs
  imports Effects Headers ReadThrough
begin

text \<open>
  \<^verbatim>\<open>src/pcs.rs\<close>: the client of the upstream Intel PCS or PCCS. The transport is a parameter: \<open>nw_exchange\<close>
  performs one HTTP exchange and \<open>nw_sleep\<close> waits, both as changes of a state that the network and the
  other requests share, so a concurrent change during an await is part of them. The URI parser and
  the header-value check are those of the \<open>http\<close> crate. The permit semaphore is never closed and only
  delays a request; metrics and logs are left out.
\<close>

section \<open>Text helpers\<close>

definition unreserved :: "char \<Rightarrow> bool" where
  "unreserved c \<longleftrightarrow> is_ascii_alphanumeric c \<or> c \<in> set ''-_.~''"

definition encode_char :: "char \<Rightarrow> string" where
  "encode_char c = (if unreserved c then [c] else CHR ''%'' # hex_pad_upper 2 (code c))"

definition q :: "string \<Rightarrow> string" where
  "q value = concat (map encode_char value)"

definition retry_after :: "(string \<Rightarrow> string option) \<Rightarrow> nat option" where
  "retry_after h =
     Option.bind (h ''retry-after'') (\<lambda>v.
     map_option (\<lambda>secs. min (nat secs) 30 * 1000) (parse_uint (2 ^ 64) (trim v)))"

text \<open>\<open>str::chars\<close> on UTF-8 bytes: a character is a byte with the continuation bytes after it.\<close>

definition is_cont :: "char \<Rightarrow> bool" where
  "is_cont c \<longleftrightarrow> 128 \<le> code c \<and> code c < 192"

function utf8_chars :: "string \<Rightarrow> string list" where
  "utf8_chars [] = []"
| "utf8_chars (c # cs) = (c # takeWhile is_cont cs) # utf8_chars (dropWhile is_cont cs)"
  by pat_completeness auto
termination
  by (relation "measure length") (auto simp: length_dropWhile_le less_Suc_eq_le)

definition redact_param :: "string \<Rightarrow> string" where
  "redact_param param =
     (case split_once (CHR ''='') param of
        Some (k, v) \<Rightarrow>
          (let cs = utf8_chars v
           in if length cs > 50 then k @ ''='' @ concat (take 4 cs) @ ''...'' @ concat (drop (length cs - 4) cs)
              else param)
      | None \<Rightarrow> param)"

definition redact_url :: "string \<Rightarrow> string" where
  "redact_url url =
     (case split_once (CHR ''?'') url of
        None \<Rightarrow> url
      | Some (path, query) \<Rightarrow> path @ ''?'' @ join ''&'' (map redact_param (split_on (CHR ''&'') query)))"

definition after_last :: "string \<Rightarrow> string \<Rightarrow> string" where
  "after_last p s = (case split_once_str (rev p) (rev s) of Some (a, _) \<Rightarrow> rev a | None \<Rightarrow> s)"

definition last_pem_der :: "ext \<Rightarrow> string \<Rightarrow> bytes option" where
  "last_pem_der E pem =
     (let block = after_last ''-----BEGIN CERTIFICATE-----'' pem;
          b64 = (case split_once_str ''-----END CERTIFICATE-----'' block of Some (a, _) \<Rightarrow> a | None \<Rightarrow> block)
      in x_base64_std E (filter (\<lambda>c. \<not> is_ascii_whitespace c) b64))"

definition CDP_OID :: bytes where "CDP_OID = [0x06, 0x03, 0x55, 0x1d, 0x1f]"

definition cdp_at :: "bytes \<Rightarrow> nat \<Rightarrow> string option" where
  "cdp_at der i =
     (if der ! i = 0x86 then
        (let len = unat (der ! (i + 1))
         in if len < 0x80 \<and> i + 2 + len \<le> length der
            then opt_filter (\<lambda>u. starts_with u ''http'') (from_utf8 (take len (drop (i + 2) der)))
            else None)
      else None)"

function cdp_scan :: "bytes \<Rightarrow> nat \<Rightarrow> nat \<Rightarrow> string option" where
  "cdp_scan der stop i =
     (if i + 1 < stop then
        (case cdp_at der i of Some u \<Rightarrow> Some u | None \<Rightarrow> cdp_scan der stop (i + 1))
      else None)"
  by pat_completeness auto
termination
  by (relation "measure (\<lambda>(_, stop, i). stop - i)") auto

declare cdp_scan.simps [simp del]

definition crl_distribution_point :: "bytes \<Rightarrow> string option" where
  "crl_distribution_point der =
     Option.bind (split_once_str CDP_OID der) (\<lambda>(before, _).
       let start = length before + length CDP_OID
       in cdp_scan der (min (length der) (start + 512)) start)"

definition normalize_base :: "string \<Rightarrow> string" where
  "normalize_base uri =
     (let u = trim uri in if u = [] then [] else if ends_with u ''/'' then u else u @ ''/'')"

lemma split_once_str_shorter:
  "split_once_str p s = Some (a, b) \<Longrightarrow> length s = length a + length p + length b"
proof (induction p s arbitrary: a rule: split_once_str.induct)
  case (2 p x xs)
  show ?case
  proof (cases "starts_with (x # xs) p")
    case True
    then have "length p \<le> length (x # xs)"
      by (metis starts_with_prefix prefix_length_le)
    with True 2(2) show ?thesis by (auto simp: length_drop)
  next
    case False
    with 2(2) obtain a' where "split_once_str p xs = Some (a', b)" "a = x # a'" by auto
    with 2(1) [OF False] show ?thesis by simp
  qed
qed (simp split: if_splits)

function replace_str :: "string \<Rightarrow> string \<Rightarrow> string \<Rightarrow> string" where
  "replace_str p r s =
     (if p = [] then s
      else case split_once_str p s of None \<Rightarrow> s | Some (a, b) \<Rightarrow> a @ r @ replace_str p r b)"
  by pat_completeness auto
termination
  by (relation "measure (\<lambda>(_, _, s). length s)") (auto dest!: split_once_str_shorter)

declare replace_str.simps [simp del]

definition tdx_if :: "string \<Rightarrow> bool \<Rightarrow> string" where
  "tdx_if sgx_base tdx = (if tdx then replace_str ''/sgx/'' ''/tdx/'' sgx_base else sgx_base)"

text \<open>\<open>u8::from_str_radix\<close> of two characters; a leading plus sign is accepted.\<close>

definition radix_pair :: "char \<Rightarrow> char \<Rightarrow> nat option" where
  "radix_pair h l =
     (if h = CHR ''+'' then to_digit16 l
      else case (to_digit16 h, to_digit16 l) of (Some a, Some b) \<Rightarrow> Some (a * 16 + b) | _ \<Rightarrow> None)"

fun pcs_decode_raw :: "string \<Rightarrow> string" where
  "pcs_decode_raw (c # h # l # r) =
     (if c = CHR ''%'' then
        (case radix_pair h l of
           Some b \<Rightarrow> char_of b # pcs_decode_raw r
         | None \<Rightarrow> c # pcs_decode_raw (h # l # r))
      else c # pcs_decode_raw (h # l # r))"
| "pcs_decode_raw (c # r) = c # pcs_decode_raw r"
| "pcs_decode_raw [] = []"

definition pcs_percent_decode :: "string \<Rightarrow> string" where
  "pcs_percent_decode s = from_utf8_lossy (as_bytes (pcs_decode_raw s))"

section \<open>Client and network\<close>

datatype upstream_service = Pccs | IntelPcs | IntelCerts | AmdKds | NvidiaRim | NvidiaNras | NvidiaOcsp

record uri =
  ur_host :: "string option"
  ur_path :: string
  ur_origin :: string

record request =
  rq_url :: string
  rq_post :: "bytes option"
  rq_content_type :: "string option"
  rq_key :: "string option"
  rq_upstream :: upstream_service

text \<open>The outcome of an exchange: no answer, no answer in time, or an answer whose body was read or not.\<close>

datatype exchange = Failed | TimedOut | Answer nat "string \<Rightarrow> string option" "bytes option"

record 's network =
  nw_uri :: "string \<Rightarrow> uri option"
  nw_header_value_ok :: "string \<Rightarrow> bool"
  nw_sleep :: "nat \<Rightarrow> 's \<Rightarrow> 's"
  nw_exchange :: "request \<Rightarrow> 's \<Rightarrow> exchange \<times> 's"

record client =
  pc_base :: string
  pc_api_key :: string
  pc_is_intel :: bool
  pc_max_attempts :: nat
  pc_pcs_endpoint :: "uri option"
  pc_amd_kds_endpoint :: "uri option"
  pc_nvidia_rim_endpoint :: "uri option"

definition MAX_RESPONSE_BYTES :: nat where "MAX_RESPONSE_BYTES = 16 * 1024 * 1024"
definition MAX_THROTTLED_ATTEMPTS :: nat where "MAX_THROTTLED_ATTEMPTS = 3"
definition INTEL_ROOT_CA_CRL_URL :: string where
  "INTEL_ROOT_CA_CRL_URL = ''https://certificates.trustedservices.intel.com/IntelSGXRootCA.der''"
definition EARLY_ACCESS_PREFIX :: string where
  "EARLY_ACCESS_PREFIX = ''https://validation.api.trustedservices.intel.com/''"

definition enabled :: "client \<Rightarrow> bool" where
  "enabled C \<longleftrightarrow> pc_base C \<noteq> []"

definition check_v3 :: "string \<Rightarrow> unit res" where
  "check_v3 url = (if contains_str url ''/v3/'' then Inl PCS_V3_REACHED_EOL else Inr ())"

definition wants_api_key :: "string \<Rightarrow> bool" where
  "wants_api_key url \<longleftrightarrow>
     starts_with url EARLY_ACCESS_PREFIX \<or>
     ends_with (trim_end_matches (CHR ''/'') (takeWhile (\<lambda>c. c \<noteq> CHR ''?'' \<and> c \<noteq> CHR ''#'') url)) ''/pckcerts''"

definition same_origin :: "uri \<Rightarrow> uri option \<Rightarrow> bool" where
  "same_origin u endpoint = (case endpoint of None \<Rightarrow> False | Some e \<Rightarrow> ur_origin u = ur_origin e)"

definition upstream_for_url :: "'s network \<Rightarrow> client \<Rightarrow> string \<Rightarrow> upstream_service" where
  "upstream_for_url N C url =
     (case nw_uri N url of
        None \<Rightarrow> Pccs
      | Some u \<Rightarrow>
          if is_valid_crl_uri url then
            (if starts_with (ur_path u) ''/IntelSGXRootCA.'' then IntelCerts else IntelPcs)
          else
            (let host = unwrap_or [] (ur_host u)
             in if eq_ignore_ascii_case host ''api.trustedservices.intel.com''
                 \<or> eq_ignore_ascii_case host ''validation.api.trustedservices.intel.com'' then IntelPcs
                else if same_origin u (pc_pcs_endpoint C) then (if pc_is_intel C then IntelPcs else Pccs)
                else if same_origin u (pc_amd_kds_endpoint C) \<or> eq_ignore_ascii_case host ''kdsintf.amd.com''
                then AmdKds
                else if same_origin u (pc_nvidia_rim_endpoint C)
                  \<or> eq_ignore_ascii_case host ''rim.attestation.nvidia.com'' then NvidiaRim
                else Pccs))"

section \<open>Sending\<close>

definition too_large :: "(string \<Rightarrow> string option) \<Rightarrow> bool" where
  "too_large h =
     (case Option.bind (h ''content-length'') (parse_uint (2 ^ 64)) of
        Some len \<Rightarrow> nat len > MAX_RESPONSE_BYTES | None \<Rightarrow> False)"

text \<open>\<open>attempt\<close> and the timeout around it: what one exchange means.\<close>

definition judge :: "exchange \<Rightarrow> http_response res" where
  "judge x =
     (case x of
        Answer status h (Some body) \<Rightarrow>
          if too_large h \<or> length body > MAX_RESPONSE_BYTES \<or> (status = 200 \<and> body = []) then Inl PCS_ACCESS_FAILURE
          else Inr \<lparr>ht_status = status, ht_header = h, ht_body = body\<rparr>
      | _ \<Rightarrow> Inl PCS_ACCESS_FAILURE)"

definition measured_attempt :: "'s network \<Rightarrow> request \<Rightarrow> ('s, http_response) act" where
  "measured_attempt N rq s = (case nw_exchange N rq s of (x, s) \<Rightarrow> (judge x, s))"

definition throttling :: "http_response \<Rightarrow> bool" where
  "throttling h \<longleftrightarrow> ht_status h = 429 \<or> ht_status h = 503"

definition backoff :: "nat \<Rightarrow> nat option \<Rightarrow> nat" where
  "backoff n delay = unwrap_or (50 * 2 ^ min n 5) delay"

text \<open>\<open>n\<close> attempts are left, \<open>i\<close> is the index of the next one.\<close>

fun send_loop ::
  "'s network \<Rightarrow> request \<Rightarrow> nat \<Rightarrow> nat \<Rightarrow> nat \<Rightarrow> nat option \<Rightarrow> pccs_error \<Rightarrow> ('s, http_response) act" where
  "send_loop N rq 0 i throttled delay lst s = (Inl lst, s)"
| "send_loop N rq (Suc n) i throttled delay lst s =
     (let s = (if i > 0 then nw_sleep N (backoff i delay) s else s)
      in case nw_uri N (rq_url rq) of
           None \<Rightarrow> (Inl INTERNAL_ERROR, s)
         | Some _ \<Rightarrow>
             (case measured_attempt N rq s of
                (Inl e, s) \<Rightarrow> send_loop N rq n (i + 1) throttled None e s
              | (Inr h, s) \<Rightarrow>
                  if throttling h \<and> throttled + 1 < MAX_THROTTLED_ATTEMPTS \<and> n > 0
                  then send_loop N rq n (i + 1) (throttled + 1) (retry_after (ht_header h)) PCS_ACCESS_FAILURE s
                  else (Inr h, s)))"

definition send ::
  "'s network \<Rightarrow> client \<Rightarrow> string \<Rightarrow> bytes option \<Rightarrow> bool \<Rightarrow> upstream_service \<Rightarrow> ('s, http_response) act" where
  "send N C url body attach_key upstream =
     seq (lift_res (if attach_key then check_v3 url else Inr ())) (\<lambda>_.
     let send_key = attach_key \<and> wants_api_key url \<and> pc_api_key C \<noteq> [];
         rq = \<lparr>rq_url = url, rq_post = body,
               rq_content_type = map_option (\<lambda>_. ''application/json'') body,
               rq_key = (if send_key \<and> nw_header_value_ok N (pc_api_key C) then Some (pc_api_key C) else None),
               rq_upstream = upstream\<rparr>
     in send_loop N rq (pc_max_attempts C) 0 0 None PCS_ACCESS_FAILURE)"

definition get :: "'s network \<Rightarrow> client \<Rightarrow> string \<Rightarrow> ('s, http_response) act" where
  "get N C url =
     (if \<not> enabled C then lift_res (Inl NO_CACHE_DATA)
      else send N C url None True (upstream_for_url N C url))"

definition get_url_for :: "'s network \<Rightarrow> client \<Rightarrow> upstream_service \<Rightarrow> string \<Rightarrow> ('s, http_response) act" where
  "get_url_for N C upstream url = send N C url None False upstream"

definition get_url :: "'s network \<Rightarrow> client \<Rightarrow> string \<Rightarrow> ('s, http_response) act" where
  "get_url N C url = get_url_for N C (upstream_for_url N C url) url"

definition post_once :: "'s network \<Rightarrow> string \<Rightarrow> string \<Rightarrow> bytes \<Rightarrow> upstream_service \<Rightarrow> ('s, http_response) act" where
  "post_once N url content_type body upstream =
     (case nw_uri N url of
        None \<Rightarrow> lift_res (Inl INTERNAL_ERROR)
      | Some _ \<Rightarrow>
          measured_attempt N \<lparr>rq_url = url, rq_post = Some body, rq_content_type = Some content_type,
                              rq_key = None, rq_upstream = upstream\<rparr>)"

definition post_json_once :: "'s network \<Rightarrow> string \<Rightarrow> bytes \<Rightarrow> ('s, http_response) act" where
  "post_json_once N url body = post_once N url ''application/json'' body NvidiaNras"

definition post_bytes_once :: "'s network \<Rightarrow> string \<Rightarrow> string \<Rightarrow> bytes \<Rightarrow> ('s, http_response) act" where
  "post_bytes_once N url content_type body = post_once N url content_type body NvidiaOcsp"

section \<open>Fetching\<close>

definition hdr :: "http_response \<Rightarrow> string \<Rightarrow> string" where
  "hdr h name = unwrap_or [] (ht_header h (to_ascii_lowercase name))"

definition pckcert_query :: "string \<Rightarrow> string \<Rightarrow> string \<Rightarrow> string \<Rightarrow> string option \<Rightarrow> string" where
  "pckcert_query qeid cpusvn pcesvn pceid enc_ppid =
     ''qeid='' @ q qeid @ ''&cpusvn='' @ q cpusvn @ ''&pcesvn='' @ q pcesvn @ ''&pceid='' @ q pceid @
     (case enc_ppid of Some e \<Rightarrow> if e = [] then [] else ''&encrypted_ppid='' @ q e | None \<Rightarrow> [])"

definition fetch_pckcert_pccs ::
  "'s network \<Rightarrow> client \<Rightarrow> string \<Rightarrow> string \<Rightarrow> string \<Rightarrow> string \<Rightarrow> string option \<Rightarrow> ('s, pckcert_record) act" where
  "fetch_pckcert_pccs N C qeid cpusvn pcesvn pceid enc_ppid =
     (let url = pc_base C @ ''pckcert?'' @ pckcert_query qeid cpusvn pcesvn pceid enc_ppid
      in seq (get N C url) (\<lambda>h.
         if ht_status h \<noteq> 200 then lift_res (Inl NO_CACHE_DATA)
         else ret \<lparr>pk_qeid = to_ascii_uppercase qeid, pk_pceid = to_ascii_uppercase pceid,
                   pk_cpusvn = to_ascii_uppercase cpusvn, pk_pcesvn = to_ascii_uppercase pcesvn,
                   pk_cert = from_utf8_lossy (ht_body h),
                   pk_tcbm = to_ascii_uppercase (hdr h SGX_TCBM),
                   pk_fmspc = to_ascii_uppercase (hdr h SGX_FMSPC),
                   pk_ca = to_ascii_uppercase (hdr h SGX_PCK_CERTIFICATE_CA_TYPE),
                   pk_issuer_chain = hdr h SGX_PCK_CERTIFICATE_ISSUER_CHAIN,
                   pk_encrypted_ppid = map_option to_ascii_uppercase enc_ppid,
                   pk_platform_manifest = []\<rparr>))"

record pckcerts_response =
  pr_certs :: "(string \<times> string) list"
  pr_not_available :: "json list"
  pr_fmspc :: string
  pr_ca :: string
  pr_issuer_chain :: string

text \<open>The loop over the returned array: usable certificates, and the levels without one.\<close>

fun filter_certs :: "json list \<Rightarrow> (string \<times> string) list \<times> json list" where
  "filter_certs [] = ([], [])"
| "filter_certs (c # cs) =
     (let tcbm = to_ascii_uppercase (unwrap_or [] (get_str c ''tcbm''));
          cert = percent_decode (unwrap_or [] (get_str c ''cert''));
          (certs, na) = filter_certs cs
      in if cert = ''Not available'' then (certs, unwrap_or JNull (jget c ''tcb'') # na)
         else if tcbm \<noteq> [] \<and> cert \<noteq> [] then ((tcbm, cert) # certs, na)
         else (certs, na))"

definition parse_pckcerts :: "ext \<Rightarrow> http_response \<Rightarrow> pckcerts_response res" where
  "parse_pckcerts E h =
     (if ht_status h \<noteq> 200 then Inl NO_CACHE_DATA
      else
        (let fmspc = to_ascii_uppercase (hdr h SGX_FMSPC);
             ca = to_ascii_uppercase (hdr h SGX_PCK_CERTIFICATE_CA_TYPE)
         in if fmspc = [] \<or> ca = [] then Inl INTERNAL_ERROR
            else
              and_then (ok_or INTERNAL_ERROR (x_json_from_slice E (ht_body h))) (\<lambda>parsed.
              and_then (ok_or NO_CACHE_DATA (as_array parsed)) (\<lambda>arr.
                Inr \<lparr>pr_certs = fst (filter_certs arr), pr_not_available = snd (filter_certs arr),
                     pr_fmspc = fmspc, pr_ca = ca,
                     pr_issuer_chain = hdr h SGX_PCK_CERTIFICATE_ISSUER_CHAIN\<rparr>))))"

definition fetch_pckcerts_intel ::
  "'s network \<Rightarrow> ext \<Rightarrow> client \<Rightarrow> string \<Rightarrow> string \<Rightarrow> ('s, pckcerts_response) act" where
  "fetch_pckcerts_intel N E C enc_ppid pceid =
     (if enc_ppid = [] \<or> list_all (\<lambda>c. c = CHR ''0'') enc_ppid then lift_res (Inl NO_CACHE_DATA)
      else seq (get N C (pc_base C @ ''pckcerts?encrypted_ppid='' @ q enc_ppid @ ''&pceid='' @ q pceid))
             (\<lambda>h. lift_res (parse_pckcerts E h)))"

definition fetch_pckcerts_intel_manifest ::
  "'s network \<Rightarrow> ext \<Rightarrow> client \<Rightarrow> string \<Rightarrow> string \<Rightarrow> ('s, pckcerts_response) act" where
  "fetch_pckcerts_intel_manifest N E C platform_manifest pceid =
     (if \<not> enabled C then lift_res (Inl NO_CACHE_DATA)
      else
        (let url = pc_base C @ ''pckcerts'';
             payload = x_json_to_string E
               (JObj [(''platformManifest'', JStr platform_manifest), (''pceid'', JStr pceid)])
         in seq (send N C url (Some (as_bytes payload)) True (upstream_for_url N C url))
              (\<lambda>h. lift_res (parse_pckcerts E h))))"

definition update_query :: "update_type \<Rightarrow> string" where
  "update_query update = (if update = Early then ''early'' else ''standard'')"

text \<open>A successful body that is UTF-8 and JSON.\<close>

definition json_body :: "ext \<Rightarrow> http_response \<Rightarrow> (string \<times> json) res" where
  "json_body E h =
     (if ht_status h \<noteq> 200 then Inl NO_CACHE_DATA
      else
        and_then (ok_or NO_CACHE_DATA (from_utf8 (ht_body h))) (\<lambda>raw.
        and_then (ok_or NO_CACHE_DATA (x_json_from_slice E (as_bytes raw))) (\<lambda>v. Inr (raw, v))))"

definition fetch_tcb ::
  "'s network \<Rightarrow> ext \<Rightarrow> client \<Rightarrow> u8 \<Rightarrow> string \<Rightarrow> u32 \<Rightarrow> update_type \<Rightarrow> ('s, tcb_record) act" where
  "fetch_tcb N E C prod_type fmspc version update =
     (if version = 3 then lift_res (Inl PCS_V3_REACHED_EOL)
      else
        seq (get N C (tdx_if (pc_base C) (prod_type = 1) @ ''tcb?fmspc='' @ q fmspc @ ''&update='' @
                        q (update_query update))) (\<lambda>h.
        lift_res (and_then (json_body E h) (\<lambda>(raw, v).
          Inr \<lparr>tr_prod_type = prod_type, tr_fmspc = to_ascii_uppercase fmspc, tr_version = version,
               tr_update_type = update_str update, tr_tcbinfo = v, tr_raw_body = raw,
               tr_issuer_chain = (let v4 = hdr h TCB_INFO_ISSUER_CHAIN
                                  in if v4 = [] then hdr h SGX_TCB_INFO_ISSUER_CHAIN else v4)\<rparr>))))"

definition fetch_identity ::
  "'s network \<Rightarrow> ext \<Rightarrow> client \<Rightarrow> u8 \<Rightarrow> u32 \<Rightarrow> update_type \<Rightarrow> ('s, identity_record) act" where
  "fetch_identity N E C enclave_id version update =
     (if version = 3 then lift_res (Inl PCS_V3_REACHED_EOL)
      else
        (let upd = q (update_query update);
             url = (if enclave_id = 2 then pc_base C @ ''qve/identity?update='' @ upd
                    else if enclave_id = 3 then tdx_if (pc_base C) True @ ''qe/identity?update='' @ upd
                    else pc_base C @ ''qe/identity?update='' @ upd)
         in seq (get N C url) (\<lambda>h.
            lift_res (and_then (json_body E h) (\<lambda>(raw, v).
              Inr \<lparr>ir_enclave_id = enclave_id, ir_version = version, ir_update_type = update_str update,
                   ir_identity = v, ir_raw_body = raw,
                   ir_issuer_chain = hdr h SGX_ENCLAVE_IDENTITY_ISSUER_CHAIN\<rparr>)))))"

definition fetch_pckcrl :: "'s network \<Rightarrow> client \<Rightarrow> string \<Rightarrow> ('s, pckcrl_record) act" where
  "fetch_pckcrl N C ca =
     seq (get N C (pc_base C @ ''pckcrl?ca='' @ q (to_ascii_lowercase ca) @ ''&encoding=der'')) (\<lambda>h.
     if ht_status h \<noteq> 200 then lift_res (Inl NO_CACHE_DATA)
     else ret \<lparr>pl_ca = to_ascii_uppercase ca, pl_pckcrl = ht_body h,
               pl_issuer_chain = hdr h SGX_PCK_CRL_ISSUER_CHAIN\<rparr>)"

definition cdp_of_chain :: "ext \<Rightarrow> http_response \<Rightarrow> string option" where
  "cdp_of_chain E h =
     (if ht_status h \<noteq> 200 then None
      else
        opt_filter is_valid_crl_uri
          (Option.bind (last_pem_der E (pcs_percent_decode (hdr h SGX_ENCLAVE_IDENTITY_ISSUER_CHAIN)))
             crl_distribution_point))"

definition intel_root_ca_cdp :: "'s network \<Rightarrow> ext \<Rightarrow> client \<Rightarrow> ('s, string option) act" where
  "intel_root_ca_cdp N E C =
     match_res (get N C (pc_base C @ ''qe/identity?update=standard'')) (\<lambda>r.
       ret (case r of Inl _ \<Rightarrow> None | Inr h \<Rightarrow> cdp_of_chain E h))"

definition rootcacrl_url :: "'s network \<Rightarrow> ext \<Rightarrow> client \<Rightarrow> ('s, string) act" where
  "rootcacrl_url N E C =
     (if \<not> pc_is_intel C then ret (pc_base C @ ''rootcacrl'')
      else seq (intel_root_ca_cdp N E C) (\<lambda>u. ret (unwrap_or INTEL_ROOT_CA_CRL_URL u)))"

definition hex_body :: "ext \<Rightarrow> bytes \<Rightarrow> bytes" where
  "hex_body E body =
     (let s = of_bytes body
      in if list_all (\<lambda>c. is_ascii_hexdigit c \<or> is_ascii_whitespace c) s then
           (case opt_filter (\<lambda>b. b \<noteq> []) (x_hex_decode E (filter is_ascii_hexdigit s)) of
              Some b \<Rightarrow> b | None \<Rightarrow> body)
         else body)"

definition fetch_rootcacrl :: "'s network \<Rightarrow> ext \<Rightarrow> client \<Rightarrow> ('s, bytes) act" where
  "fetch_rootcacrl N E C =
     seq (rootcacrl_url N E C) (\<lambda>url.
     seq (get N C url) (\<lambda>h.
     if ht_status h \<noteq> 200 then lift_res (Inl INTERNAL_ERROR) else ret (hex_body E (ht_body h))))"

definition fetch_crl :: "'s network \<Rightarrow> client \<Rightarrow> string \<Rightarrow> ('s, bytes) act" where
  "fetch_crl N C uri =
     seq (lift_res (check_v3 uri)) (\<lambda>_.
     if \<not> enabled C then lift_res (Inl NO_CACHE_DATA)
     else seq (get N C uri) (\<lambda>h.
          if ht_status h \<noteq> 200 then lift_res (Inl INTERNAL_ERROR) else ret (ht_body h)))"

section \<open>Query values survive the way to another server\<close>

lemma to_digit16_hex_digit_upper: "d < 16 \<Longrightarrow> to_digit16 (hex_digit_upper d) = Some d"
  by (auto simp: to_digit16_def hex_digit_upper_def is_ascii_digit_def)

lemma hex_pad_upper_2: "hex_pad_upper 2 n = [hex_digit_upper (n div 16 mod 16), hex_digit_upper (n mod 16)]"
  by (simp add: numeral_2_eq_2)

lemma percent_decode_raw_plain:
  "c \<noteq> CHR ''%'' \<Longrightarrow> percent_decode_raw (c # r) = c # percent_decode_raw r"
  by (cases "(c # r)" rule: percent_decode_raw.cases) auto

lemma code_split: "code c div 16 mod 16 * 16 + code c mod 16 = code (c :: char)"
proof -
  have "code c < 256" by (simp add: of_char_def take_bit_eq_mod)
  then show ?thesis by (simp add: less_mult_imp_div_less)
qed

lemma percent_decode_raw_encode: "percent_decode_raw (encode_char c @ r) = c # percent_decode_raw r"
proof (cases "unreserved c")
  case True
  then have "c \<noteq> CHR ''%''" by (auto simp: unreserved_def is_ascii_alphanumeric_def is_ascii_digit_def
        is_ascii_lowercase_def is_ascii_uppercase_def)
  with True show ?thesis by (simp add: encode_char_def percent_decode_raw_plain)
next
  case False
  then show ?thesis
    by (simp add: encode_char_def hex_pad_upper_2 to_digit16_hex_digit_upper code_split)
qed

lemma percent_decode_raw_q: "percent_decode_raw (q v) = v"
  by (induction v) (simp_all add: q_def percent_decode_raw_encode)

lemma from_utf8_lossy_valid_bytes: "utf8_valid bs \<Longrightarrow> from_utf8_lossy_bytes bs = bs"
  by (induction bs rule: utf8_valid.induct) (simp_all add: append_take_drop_id)

lemma unreserved_hex_digit_upper: "d < 16 \<Longrightarrow> unreserved (hex_digit_upper d)"
  by (auto simp: hex_digit_upper_def unreserved_def is_ascii_alphanumeric_def is_ascii_digit_def
      is_ascii_uppercase_def)

lemma q_chars: "c \<in> set (q v) \<Longrightarrow> unreserved c \<or> c = CHR ''%''"
  by (auto simp: q_def encode_char_def hex_pad_upper_2 unreserved_hex_digit_upper split: if_splits)

lemma query_decode_q:
  assumes "utf8_valid (as_bytes v)"
  shows "query_decode (q v) = v"
proof -
  have "map (\<lambda>c. if c = CHR ''+'' then CHR '' '' else c) (q v) = q v"
    using q_chars [of "CHR ''+''" v]
    by (intro map_idI) (auto simp: unreserved_def is_ascii_alphanumeric_def is_ascii_digit_def
        is_ascii_lowercase_def is_ascii_uppercase_def)
  then show ?thesis
    using assms by (simp add: query_decode_def percent_decode_def percent_decode_raw_q from_utf8_lossy_def
        from_utf8_lossy_valid_bytes)
qed

definition query_pair :: "string \<times> string \<Rightarrow> string" where
  "query_pair kv = fst kv @ ''='' @ q (snd kv)"

definition pair_ok :: "string \<times> string \<Rightarrow> bool" where
  "pair_ok kv \<longleftrightarrow> list_all unreserved (fst kv) \<and> utf8_valid (as_bytes (fst kv)) \<and> utf8_valid (as_bytes (snd kv))"

lemma reserved_chars: "\<not> unreserved (CHR ''='')" "\<not> unreserved (CHR ''&'')" "\<not> unreserved (CHR ''?'')"
  by (simp_all add: unreserved_def is_ascii_alphanumeric_def is_ascii_digit_def is_ascii_lowercase_def
      is_ascii_uppercase_def)

lemma q_unreserved: "list_all unreserved k \<Longrightarrow> q k = k"
  by (induction k) (simp_all add: q_def encode_char_def)

lemma query_pair_decodes:
  assumes "pair_ok kv"
  shows "pair_key (query_pair kv) = fst kv" "pair_value (query_pair kv) = snd kv" "CHR ''&'' \<notin> set (query_pair kv)"
proof -
  have "CHR ''='' \<notin> set (fst kv)" "CHR ''&'' \<notin> set (fst kv)"
    using assms reserved_chars by (auto simp: pair_ok_def list_all_iff)
  moreover from this have "split_once (CHR ''='') (query_pair kv) = Some (fst kv, q (snd kv))"
    by (simp add: query_pair_def split_once_Some)
  moreover have "query_decode (fst kv) = fst kv"
    using query_decode_q [of "fst kv"] assms by (simp add: pair_ok_def q_unreserved)
  ultimately show "pair_key (query_pair kv) = fst kv" "pair_value (query_pair kv) = snd kv"
    "CHR ''&'' \<notin> set (query_pair kv)"
    using assms query_decode_q [of "snd kv"] q_chars [of "CHR ''&''" "snd kv"] reserved_chars
    by (auto simp: pair_key_def pair_value_def pair_ok_def query_pair_def)
qed

lemma query_params_encoded:
  assumes "kvs \<noteq> []" and "\<And>kv. kv \<in> set kvs \<Longrightarrow> pair_ok kv"
  shows "query_params (Some (join ''&'' (map query_pair kvs))) = Inr (map_of kvs)"
proof -
  let ?ps = "map query_pair kvs"
  have ne: "join ''&'' ?ps \<noteq> []"
    using assms(1) by (cases kvs; cases "tl kvs") (auto simp: query_pair_def)
  have "split_on (CHR ''&'') (join ''&'' ?ps) = ?ps"
    using assms by (intro split_on_join) (auto dest: query_pair_decodes(3))
  moreover have "foldl insert_pair Map.empty ?ps k = map_of kvs k" for k
  proof -
    have "map_option pair_value (find (\<lambda>p. p \<noteq> [] \<and> pair_key p = k) ?ps) = map_of kvs k"
      using assms(2)
      by (induction kvs) (auto simp: query_pair_decodes, simp add: query_pair_def)
    then show ?thesis by (simp add: foldl_insert_pair or_else_def)
  qed
  ultimately show ?thesis using ne by (simp add: query_params_def opt_filter_def fun_eq_iff)
qed

lemma pckcert_query_pairs:
  "pckcert_query qeid cpusvn pcesvn pceid enc_ppid =
     join ''&'' (map query_pair
       ([(''qeid'', qeid), (''cpusvn'', cpusvn), (''pcesvn'', pcesvn), (''pceid'', pceid)] @
        (case opt_filter (\<lambda>e. e \<noteq> []) enc_ppid of None \<Rightarrow> [] | Some e \<Rightarrow> [(''encrypted_ppid'', e)])))"
  by (auto simp: pckcert_query_def query_pair_def opt_filter_def split: option.splits)

text \<open>C36: a certificate request to another PCCS arrives as it was meant: the query string the client
  builds, read by the query parser of this server, gives each parameter its value unchanged, whatever
  bytes the values hold (as long as they are UTF-8, as every Rust string is); an absent or empty
  encrypted PPID is not sent. In particular no value can add or replace a parameter.\<close>

theorem pckcert_query_roundtrip:
  assumes "utf8_valid (as_bytes qeid)" "utf8_valid (as_bytes cpusvn)" "utf8_valid (as_bytes pcesvn)"
    and "utf8_valid (as_bytes pceid)" "pred_option (\<lambda>e. utf8_valid (as_bytes e)) enc_ppid"
  shows "query_params (Some (pckcert_query qeid cpusvn pcesvn pceid enc_ppid)) =
    Inr ([''qeid'' \<mapsto> qeid, ''cpusvn'' \<mapsto> cpusvn, ''pcesvn'' \<mapsto> pcesvn, ''pceid'' \<mapsto> pceid]
         (''encrypted_ppid'' := opt_filter (\<lambda>e. e \<noteq> []) enc_ppid))"
proof -
  let ?kvs = "[(''qeid'', qeid), (''cpusvn'', cpusvn), (''pcesvn'', pcesvn), (''pceid'', pceid)] @
        (case opt_filter (\<lambda>e. e \<noteq> []) enc_ppid of None \<Rightarrow> [] | Some e \<Rightarrow> [(''encrypted_ppid'', e)])"
  let ?names = "[''qeid'', ''cpusvn'', ''pcesvn'', ''pceid'', ''encrypted_ppid'']"
  have "list_all (\<lambda>k. list_all unreserved k \<and> utf8_valid (as_bytes k)) ?names"
    by code_simp
  then have names: "pair_ok (k, v) \<longleftrightarrow> utf8_valid (as_bytes v)" if "k \<in> set ?names" for k v
    using that by (simp only: list_all_iff pair_ok_def fst_conv snd_conv) blast
  have "pair_ok kv" if "kv \<in> set ?kvs" for kv
  proof -
    have "fst kv \<in> set ?names" "utf8_valid (as_bytes (snd kv))"
      using that assms by (auto simp: opt_filter_def split: option.splits if_splits)
    with names [of "fst kv" "snd kv"] show ?thesis by simp
  qed
  then have "query_params (Some (join ''&'' (map query_pair ?kvs))) = Inr (map_of ?kvs)"
    by (intro query_params_encoded) auto
  then show ?thesis
    unfolding pckcert_query_pairs by (auto simp: fun_eq_iff opt_filter_def split: option.splits)
qed

theorem pckcert_query_roundtrip_witness:
  "query_params (Some (pckcert_query ''a&b=c d'' ''00+%41'' ''0'' ''0000'' (Some ''F?''))) =
    Inr [''qeid'' \<mapsto> ''a&b=c d'', ''cpusvn'' \<mapsto> ''00+%41'', ''pcesvn'' \<mapsto> ''0'', ''pceid'' \<mapsto> ''0000'',
         ''encrypted_ppid'' \<mapsto> ''F?'']"
proof -
  have "utf8_valid (as_bytes ''a&b=c d'')" "utf8_valid (as_bytes ''00+%41'')" "utf8_valid (as_bytes ''0'')"
    "utf8_valid (as_bytes ''0000'')" "utf8_valid (as_bytes ''F?'')"
    by code_simp+
  then show ?thesis
    using pckcert_query_roundtrip [of "''a&b=c d''" "''00+%41''" "''0''" "''0000''" "Some ''F?''"]
    by (simp add: opt_filter_def)
qed

section \<open>What one request may cost\<close>

text \<open>A network that keeps a log of its sleeps and exchanges, and otherwise behaves as the one given.\<close>

datatype event = Slept nat | Sent request exchange

definition logged :: "'s network \<Rightarrow> ('s \<times> event list) network" where
  "logged N =
     \<lparr>nw_uri = nw_uri N, nw_header_value_ok = nw_header_value_ok N,
      nw_sleep = (\<lambda>d (s, l). (nw_sleep N d s, l @ [Slept d])),
      nw_exchange = (\<lambda>rq (s, l). case nw_exchange N rq s of (x, s) \<Rightarrow> (x, (s, l @ [Sent rq x])))\<rparr>"

definition sent :: "event list \<Rightarrow> (request \<times> exchange) list" where
  "sent l = concat (map (\<lambda>e. case e of Sent rq x \<Rightarrow> [(rq, x)] | Slept _ \<Rightarrow> []) l)"

definition sleeps :: "event list \<Rightarrow> nat list" where
  "sleeps l = concat (map (\<lambda>e. case e of Slept d \<Rightarrow> [d] | Sent _ _ \<Rightarrow> []) l)"

definition throttled :: "request \<times> exchange \<Rightarrow> bool" where
  "throttled p = (case judge (snd p) of Inr h \<Rightarrow> throttling h | Inl _ \<Rightarrow> False)"

lemma log_simps [simp]:
  "sent [] = []" "sent (l @ l') = sent l @ sent l'" "sent (Sent rq x # l) = (rq, x) # sent l" "sent (Slept d # l) = sent l"
  "sleeps [] = []" "sleeps (l @ l') = sleeps l @ sleeps l'" "sleeps (Sent rq x # l) = sleeps l" "sleeps (Slept d # l) = d # sleeps l"
  by (simp_all add: sent_def sleeps_def)

text \<open>What a run of the loop may add to the log, and the answer it ends with.\<close>

definition run_ok :: "request \<Rightarrow> nat \<Rightarrow> nat \<Rightarrow> nat \<Rightarrow> event list \<Rightarrow> http_response res \<Rightarrow> bool" where
  "run_ok rq n i th ev r \<longleftrightarrow>
     length (sent ev) \<le> n \<and> (\<forall>p\<in>set (sent ev). fst p = rq) \<and>
     th + length (filter throttled (sent ev)) \<le> MAX_THROTTLED_ATTEMPTS \<and>
     length (sleeps ev) \<le> (if i = 0 then n - 1 else n) \<and> (\<forall>d\<in>set (sleeps ev). d \<le> 30000) \<and>
     (case r of Inr h \<Rightarrow> sent ev \<noteq> [] \<and> judge (snd (last (sent ev))) = Inr h | Inl _ \<Rightarrow> True)"

lemma backoff_le: "pred_option (\<lambda>d. d \<le> 30000) delay \<Longrightarrow> backoff i delay \<le> 30000"
proof -
  have "(2 :: nat) ^ min i 5 \<le> 2 ^ 5" by (rule power_increasing) auto
  then show "pred_option (\<lambda>d. d \<le> 30000) delay \<Longrightarrow> backoff i delay \<le> 30000"
    by (cases delay) (auto simp: backoff_def unwrap_or_def)
qed

lemma retry_after_le: "pred_option (\<lambda>d. d \<le> 30000) (retry_after h)"
  by (auto simp: retry_after_def option.pred_set split: Option.bind_splits)

lemma run_ok_Cons:
  assumes "run_ok rq n (Suc i) th' ev r" and "th + (if throttled (rq, x) then 1 else 0) \<le> th'"
    and "pred_option (\<lambda>d. d \<le> 30000) delay" and "th' \<le> MAX_THROTTLED_ATTEMPTS"
  shows "run_ok rq (Suc n) i th ((if i > 0 then [Slept (backoff i delay)] else []) @ Sent rq x # ev) r"
  using assms backoff_le [OF assms(3), of i]
  by (auto simp: run_ok_def split: sum.splits if_splits)

lemma send_loop_logged:
  assumes "send_loop (logged N) rq n i th delay lst (s, l) = (r, (t, l'))"
    and "pred_option (\<lambda>d. d \<le> 30000) delay" and "th < MAX_THROTTLED_ATTEMPTS"
  shows "send_loop N rq n i th delay lst s = (r, t) \<and> (\<exists>ev. l' = l @ ev \<and> run_ok rq n i th ev r)"
  using assms
proof (induction n arbitrary: i th delay lst s l)
  case 0
  then show ?case by (auto simp: run_ok_def MAX_THROTTLED_ATTEMPTS_def)
next
  case (Suc n)
  let ?pre = "if i > 0 then [Slept (backoff i delay)] else []"
  let ?s = "if i > 0 then nw_sleep N (backoff i delay) s else s"
  have sleep: "(if i > 0 then nw_sleep (logged N) (backoff i delay) (s, l) else (s, l)) = (?s, l @ ?pre)"
    by (simp add: logged_def)
  show ?case
  proof (cases "nw_uri N (rq_url rq)")
    case None
    then show ?thesis
      using Suc.prems sleep backoff_le [OF Suc.prems(2), of i]
      by (auto simp: logged_def run_ok_def Let_def split: if_splits)
  next
    case (Some u)
    obtain x s' where x: "nw_exchange N rq ?s = (x, s')" by fastforce
    have lx: "measured_attempt (logged N) rq (?s, l @ ?pre) = (judge x, (s', l @ ?pre @ [Sent rq x]))"
      and nx: "measured_attempt N rq ?s = (judge x, s')"
      using x by (simp_all add: measured_attempt_def logged_def)
    have u: "nw_uri (logged N) (rq_url rq) = Some u" using Some by (simp add: logged_def)
    note run = Suc.prems(1) [unfolded send_loop.simps Let_def sleep u lx prod.case option.case]
    note goal = send_loop.simps(2) Let_def Some nx prod.case option.case
    show ?thesis
    proof (cases "judge x")
      case (Inl e)
      then have "send_loop (logged N) rq n (i + 1) th None e (s', l @ ?pre @ [Sent rq x]) = (r, t, l')"
        using run by simp
      from Suc.IH [OF this] Suc.prems(3) obtain ev where
        "send_loop N rq n (i + 1) th None e s' = (r, t)" and ev: "l' = (l @ ?pre @ [Sent rq x]) @ ev"
        "run_ok rq n (Suc i) th ev r" by auto
      moreover from run_ok_Cons [OF ev(2), of th x delay] Suc.prems Inl
      have "run_ok rq (Suc n) i th (?pre @ Sent rq x # ev) r" by (simp add: throttled_def)
      ultimately show ?thesis unfolding goal using Inl by auto
    next
      case (Inr h)
      show ?thesis
      proof (cases "throttling h \<and> th + 1 < MAX_THROTTLED_ATTEMPTS \<and> n > 0")
        case True
        then have "send_loop (logged N) rq n (i + 1) (th + 1) (retry_after (ht_header h)) PCS_ACCESS_FAILURE
            (s', l @ ?pre @ [Sent rq x]) = (r, t, l')"
          using run Inr by simp
        from Suc.IH [OF this retry_after_le] True obtain ev where
          "send_loop N rq n (i + 1) (th + 1) (retry_after (ht_header h)) PCS_ACCESS_FAILURE s' = (r, t)"
          and ev: "l' = (l @ ?pre @ [Sent rq x]) @ ev" "run_ok rq n (Suc i) (th + 1) ev r" by auto
        moreover from run_ok_Cons [OF ev(2), of th x delay] Suc.prems True
        have "run_ok rq (Suc n) i th (?pre @ Sent rq x # ev) r" by simp
        ultimately show ?thesis unfolding goal using Inr True by auto
      next
        case False
        then have r: "r = Inr h" "t = s'" "l' = l @ ?pre @ [Sent rq x]" using run Inr by auto
        have "run_ok rq n (Suc i) MAX_THROTTLED_ATTEMPTS [] (Inl PCS_ACCESS_FAILURE)"
          by (simp add: run_ok_def)
        from run_ok_Cons [OF this, of th x delay] Suc.prems
        have "run_ok rq (Suc n) i th (?pre @ [Sent rq x]) (Inl PCS_ACCESS_FAILURE)" by simp
        then have "run_ok rq (Suc n) i th (?pre @ [Sent rq x]) r"
          using r Inr by (simp add: run_ok_def)
        with r False show ?thesis unfolding goal using Inr by auto
      qed
    qed
  qed
qed

definition may_carry_key :: "client \<Rightarrow> string \<Rightarrow> bool \<Rightarrow> string option \<Rightarrow> bool" where
  "may_carry_key C url attach_key k =
     (case k of None \<Rightarrow> True | Some key \<Rightarrow> key = pc_api_key C \<and> attach_key \<and> wants_api_key url)"

text \<open>C35: one call of \<open>send\<close> ends after at most \<open>max_attempts\<close> exchanges, of which at most three are
  answered by a throttling status, and sleeps between them only, each time for at most 30 seconds
  whatever the server asks for. Every exchange asks for the given URL with the given body and carries
  the subscription key only where Intel's rules want it; an Intel URL of the retired API version 3 is
  never contacted. A response that is returned is the answer of the last exchange.\<close>

theorem send_bounded:
  assumes "send (logged N) C url body attach_key up (s, []) = (r, (t, l))"
  shows "send N C url body attach_key up s = (r, t) \<and>
    length (sent l) \<le> pc_max_attempts C \<and>
    length (filter throttled (sent l)) \<le> 3 \<and>
    length (sleeps l) \<le> pc_max_attempts C - 1 \<and> (\<forall>d\<in>set (sleeps l). d \<le> 30000) \<and>
    (\<forall>(rq, x)\<in>set (sent l). rq_url rq = url \<and> rq_post rq = body \<and> may_carry_key C url attach_key (rq_key rq)) \<and>
    (attach_key \<and> contains_str url ''/v3/'' \<longrightarrow> l = [] \<and> r = Inl PCS_V3_REACHED_EOL) \<and>
    (\<forall>h. r = Inr h \<longrightarrow> sent l \<noteq> [] \<and> judge (snd (last (sent l))) = Inr h)"
proof (cases "attach_key \<and> contains_str url ''/v3/''")
  case True
  then show ?thesis using assms by (auto simp: send_def check_v3_def)
next
  case False
  define rq where "rq = \<lparr>rq_url = url, rq_post = body,
     rq_content_type = map_option (\<lambda>_. ''application/json'') body,
     rq_key = (if (attach_key \<and> wants_api_key url \<and> pc_api_key C \<noteq> []) \<and> nw_header_value_ok N (pc_api_key C)
               then Some (pc_api_key C) else None),
     rq_upstream = up\<rparr>"
  have logged: "nw_header_value_ok (logged N) = nw_header_value_ok N" by (simp add: logged_def)
  have chk: "(if attach_key then check_v3 url else Inr ()) = Inr ()" using False by (auto simp: check_v3_def)
  have run: "send_loop (logged N) rq (pc_max_attempts C) 0 0 None PCS_ACCESS_FAILURE (s, []) = (r, (t, l))"
    using assms unfolding send_def chk logged by (simp add: rq_def)
  have same: "send N C url body attach_key up s =
      send_loop N rq (pc_max_attempts C) 0 0 None PCS_ACCESS_FAILURE s"
    unfolding send_def chk by (simp add: rq_def)
  from send_loop_logged [OF run] same have res: "send N C url body attach_key up s = (r, t)"
    and ok: "run_ok rq (pc_max_attempts C) 0 0 l r"
    by (auto simp: MAX_THROTTLED_ATTEMPTS_def)
  have "rq_url rq = url \<and> rq_post rq = body \<and> may_carry_key C url attach_key (rq_key rq)"
    by (simp add: rq_def may_carry_key_def)
  with ok res False show ?thesis
    by (auto simp: run_ok_def MAX_THROTTLED_ATTEMPTS_def)
qed

text \<open>A network with a script of outcomes.\<close>

definition script_net :: "exchange list network" where
  "script_net =
     \<lparr>nw_uri = (\<lambda>u. Some \<lparr>ur_host = None, ur_path = u, ur_origin = []\<rparr>), nw_header_value_ok = (\<lambda>_. True),
      nw_sleep = (\<lambda>_ s. s),
      nw_exchange = (\<lambda>_ s. case s of [] \<Rightarrow> (Failed, []) | x # xs \<Rightarrow> (x, xs))\<rparr>"

definition sample_client :: client where
  "sample_client =
     \<lparr>pc_base = ''https://pcs/sgx/certification/v4/'', pc_api_key = ''key'', pc_is_intel = True, pc_max_attempts = Suc (Suc 0),
      pc_pcs_endpoint = None, pc_amd_kds_endpoint = None, pc_nvidia_rim_endpoint = None\<rparr>"

definition busy :: exchange where
  "busy = Answer 503 (\<lambda>k. if k = ''retry-after'' then Some ''99999'' else None) (Some [1])"

theorem send_bounded_witness:
  "length (sent [Sent \<lparr>rq_url = ''https://x/pckcerts'', rq_post = None, rq_content_type = None, rq_key = Some ''key'',
        rq_upstream = Pccs\<rparr> busy, Slept 30000, Sent \<lparr>rq_url = ''https://x/pckcerts'', rq_post = None,
        rq_content_type = None, rq_key = Some ''key'', rq_upstream = Pccs\<rparr> (Answer 404 Map.empty (Some [2]))]) \<le> 2 \<and>
   fst (send script_net sample_client ''https://x/pckcerts'' None True Pccs [busy, Answer 404 Map.empty (Some [2])]) =
     Inr \<lparr>ht_status = 404, ht_header = Map.empty, ht_body = [2]\<rparr>"
proof -
  let ?rq = "\<lparr>rq_url = ''https://x/pckcerts'', rq_post = None, rq_content_type = None, rq_key = Some ''key'',
        rq_upstream = Pccs\<rparr>"
  let ?l = "[Sent ?rq busy, Slept 30000, Sent ?rq (Answer 404 Map.empty (Some [2]))]"
  have facts: "check_v3 ''https://x/pckcerts'' = Inr ()" "wants_api_key ''https://x/pckcerts''"
    and secs: "parse_uint (2 ^ 64) (trim ''99999'') = Some 99999"
    by code_simp+
  have retry: "retry_after (\<lambda>k. if k = ''retry-after'' then Some ''99999'' else None) = Some 30000"
    using secs by (simp add: retry_after_def)
  have "send (logged script_net) sample_client ''https://x/pckcerts'' None True Pccs
      ([busy, Answer 404 Map.empty (Some [2])], []) =
    (Inr \<lparr>ht_status = 404, ht_header = Map.empty, ht_body = [2]\<rparr>, ([], ?l))"
    using facts retry by (simp add: send_def sample_client_def logged_def script_net_def
        measured_attempt_def busy_def judge_def too_large_def MAX_RESPONSE_BYTES_def throttling_def
        MAX_THROTTLED_ATTEMPTS_def backoff_def unwrap_or_def)
  from send_bounded [OF this] show ?thesis by (simp add: sample_client_def)
qed

section \<open>What the client does to the shared state\<close>

text \<open>If every sleep and every exchange moves the state along a relation, so does every operation of the
  client.\<close>

locale network_guarantee = guarantee G for G :: "'s \<Rightarrow> 's \<Rightarrow> bool" +
  fixes N :: "'s network"
  assumes sleep: "G s (nw_sleep N d s)"
    and exchange: "G s (snd (nw_exchange N rq s))"
begin

lemma measured_attempt_ok: "guarantees G (measured_attempt N rq)"
  using exchange by (auto simp: guarantees_def measured_attempt_def split: prod.splits) (metis snd_conv)

lemma send_loop_ok: "guarantees G (send_loop N rq n i th delay lst)"
proof (induction n arbitrary: i th delay lst)
  case 0
  then show ?case by (auto simp: guarantees_def G_refl)
next
  case (Suc n)
  show ?case
  proof (rule guaranteesI)
    fix s
    let ?s = "if i > 0 then nw_sleep N (backoff i delay) s else s"
    have s: "G s ?s" by (auto intro: sleep G_refl)
    obtain r t where m: "measured_attempt N rq ?s = (r, t)" by fastforce
    have t: "G s t" using G_trans [OF s guaranteesD [OF measured_attempt_ok m]] .
    have rest: "G s (snd (send_loop N rq n i' th' delay' lst' t))" for i' th' delay' lst'
      using Suc.IH t unfolding guarantees_def by (blast intro: G_trans)
    show "G s (snd (send_loop N rq (Suc n) i th delay lst s))"
      unfolding send_loop.simps Let_def m prod.case
      using s t rest by (cases r) (simp_all add: sleep G_refl split: option.splits)
  qed
qed

lemma send_ok: "guarantees G (send N C url body attach_key up)"
  unfolding send_def by (intro guarantees_seq guarantees_pure) (simp add: Let_def send_loop_ok)

lemma get_ok: "guarantees G (get N C url)" "guarantees G (get_url_for N C up url)" "guarantees G (get_url N C url)"
  by (simp_all add: get_def get_url_def get_url_for_def send_ok guarantees_pure)

lemma post_ok: "guarantees G (post_once N url ct body up)"
  by (simp add: post_once_def measured_attempt_ok guarantees_pure split: option.splits)

lemmas step_ok = get_ok send_ok guarantees_rules

lemma fetch_ok:
  "guarantees G (fetch_pckcert_pccs N C qeid cpusvn pcesvn pceid enc_ppid)"
  "guarantees G (fetch_pckcerts_intel N E C enc_ppid' pceid)"
  "guarantees G (fetch_pckcerts_intel_manifest N E C manifest pceid)"
  "guarantees G (fetch_tcb N E C prod_type fmspc version update)"
  "guarantees G (fetch_identity N E C enclave_id version update)"
  "guarantees G (fetch_pckcrl N C ca)"
  "guarantees G (fetch_rootcacrl N E C)"
  "guarantees G (fetch_crl N C uri)"
  by (simp_all add: fetch_pckcert_pccs_def fetch_pckcerts_intel_def fetch_pckcerts_intel_manifest_def
      fetch_tcb_def fetch_identity_def fetch_pckcrl_def fetch_rootcacrl_def rootcacrl_url_def
      intel_root_ca_cdp_def fetch_crl_def Let_def step_ok)

end

interpretation log_grows: network_guarantee "\<lambda>s t. prefix (snd s) (snd t)" "logged N" for N
  by unfold_locales (auto simp: logged_def split: prod.splits)

end
