(* ===== verification/Fill.thy ===== *)
theory Fill
  imports Pcs Platform Registration Selection
begin

text \<open>
  \<^verbatim>\<open>src/cache.rs\<close>: filling the Intel part of the cache in the three caching modes. Each access to the
  store is atomic and is preceded by \<open>cx_env\<close>, what the other requests did since the last one; waiting
  for the lock of a key (\<open>cx_lock\<close>) and an upstream exchange change the shared state too, so that every
  interleaving of requests is a choice of these parameters. Hit and miss counters and logs are left out.
\<close>

section \<open>State and environment\<close>

record ('db, 'w) sys =
  sy_cache :: "'db cache"
  sy_marks :: "(string \<times> nat) list"
  sy_world :: 'w

record ('db, 'w) ctx =
  cx_rocks :: "'db rocks"
  cx_serde :: serde
  cx_ext :: ext
  cx_net :: "('db, 'w) sys network"
  cx_client :: client
  cx_env :: "('db, 'w) sys \<Rightarrow> ('db, 'w) sys"
  cx_lock :: "string \<Rightarrow> ('db, 'w) sys \<Rightarrow> ('db, 'w) sys"
  cx_instant :: "('db, 'w) sys \<Rightarrow> nat"
  cx_cut :: "('db, 'w) sys \<Rightarrow> ('db, 'w) sys option"
  cx_mode :: cache_mode
  cx_pcs_version :: u32
  cx_is_intel :: bool
  cx_pool_refetch_on_new_tcb :: bool
  cx_scheduled_pool_refresh :: bool
  cx_pool_refetch_interval :: nat

type_synonym ('db, 'w, 'a) op = "(('db, 'w) sys, 'a) act"

definition db_of :: "('db, 'w) sys \<Rightarrow> 'db" where
  "db_of s = st_db (ca_store (sy_cache s))"

definition set_db :: "'db \<Rightarrow> ('db, 'w) sys \<Rightarrow> ('db, 'w) sys" where
  "set_db db s = s\<lparr>sy_cache := (sy_cache s)\<lparr>ca_store := (ca_store (sy_cache s))\<lparr>st_db := db\<rparr>\<rparr>\<rparr>"

definition set_failures :: "failures \<Rightarrow> ('db, 'w) sys \<Rightarrow> ('db, 'w) sys" where
  "set_failures m s = s\<lparr>sy_cache := (sy_cache s)\<lparr>ca_failures := m\<rparr>\<rparr>"

text \<open>Reading the store, changing it, and changing it with a result.\<close>

definition load :: "('db, 'w) ctx \<Rightarrow> ('db \<Rightarrow> 'a) \<Rightarrow> ('db, 'w, 'a) op" where
  "load X f s = (let s = cx_env X s in (Inr (f (db_of s)), s))"

definition store_ret :: "('db, 'w) ctx \<Rightarrow> ('db \<Rightarrow> ('a \<times> 'db) res) \<Rightarrow> ('db, 'w, 'a) op" where
  "store_ret X f s =
     (let s = cx_env X s in case f (db_of s) of Inl e \<Rightarrow> (Inl e, s) | Inr (x, db) \<Rightarrow> (Inr x, set_db db s))"

definition store_db :: "('db, 'w) ctx \<Rightarrow> ('db \<Rightarrow> 'db res) \<Rightarrow> ('db, 'w, unit) op" where
  "store_db X f = store_ret X (\<lambda>db. and_then (f db) (\<lambda>db. Inr ((), db)))"

section \<open>Locks and recent failures\<close>

definition key_lock :: "('db, 'w) ctx \<Rightarrow> string \<Rightarrow> ('db, 'w, unit) op" where
  "key_lock X key s =
     (let s = cx_lock X key s;
          (failed, m) = recent_failure (cx_instant X s) key (ca_failures (sy_cache s));
          s = set_failures m s
      in (case failed of Some e \<Rightarrow> Inl e | None \<Rightarrow> Inr (), s))"

definition note_act :: "('db, 'w) ctx \<Rightarrow> string \<Rightarrow> ('db, 'w, 'a) op \<Rightarrow> ('db, 'w, 'a) op" where
  "note_act X key m =
     match_res m (\<lambda>r. seq (modify (\<lambda>s. let s = cx_env X s
                                     in set_failures (note_outcome (cx_instant X s) key r (ca_failures (sy_cache s))) s))
                       (\<lambda>_. lift_res r))"

definition miss_v3 :: "('db, 'w) ctx \<Rightarrow> u32 \<Rightarrow> pccs_error" where
  "miss_v3 X version = (if version = 3 \<and> cx_mode X = Lazy then PCS_V3_REACHED_EOL else NO_CACHE_DATA)"

definition cacheable :: "string \<Rightarrow> bool" where
  "cacheable chain \<longleftrightarrow> trim chain \<noteq> []"

section \<open>Collateral\<close>

text \<open>The common body of the five collateral getters: the cached record, else in LAZY mode and under
  the lock of the key a second look and one fetch. \<open>eol\<close>: whether API version 3 is refused.\<close>

definition fill_slot ::
  "('db, 'w) ctx \<Rightarrow> bool \<Rightarrow> u32 \<Rightarrow> string \<Rightarrow> ('db \<Rightarrow> 'r option) \<Rightarrow> ('db, 'w, 'r) op \<Rightarrow>
   ('r \<Rightarrow> bool) \<Rightarrow> ('r \<Rightarrow> 'db \<Rightarrow> 'db res) \<Rightarrow> ('db, 'w, 'r) op" where
  "fill_slot X eol version key look fetch keep save =
     seq (load X look) (\<lambda>hit.
     case hit of
       Some r \<Rightarrow> ret r
     | None \<Rightarrow>
         if cx_mode X \<noteq> Lazy then lift_res (Inl (miss_v3 X version))
         else if eol \<and> version = 3 then lift_res (Inl PCS_V3_REACHED_EOL)
         else if \<not> enabled (cx_client X) then lift_res (Inl NO_CACHE_DATA)
         else
           seq (key_lock X key) (\<lambda>_.
           seq (load X look) (\<lambda>hit.
           case hit of
             Some r \<Rightarrow> ret r
           | None \<Rightarrow>
               seq (note_act X key fetch) (\<lambda>r.
               if keep r then seq (store_db X (save r)) (\<lambda>_. ret r) else ret r))))"

definition cache_get_tcb ::
  "('db, 'w) ctx \<Rightarrow> u8 \<Rightarrow> string \<Rightarrow> u32 \<Rightarrow> update_type \<Rightarrow> ('db, 'w, tcb_record) op" where
  "cache_get_tcb X prod_type fmspc version update =
     fill_slot X True version (key_tcb (prod_name prod_type) version fmspc (update_str update))
       (\<lambda>db. get_tcb (cx_rocks X) (cx_serde X) db prod_type fmspc version update)
       (fetch_tcb (cx_net X) (cx_ext X) (cx_client X) prod_type fmspc version update)
       (\<lambda>r. cacheable (tr_issuer_chain r)) (\<lambda>r db. put_tcb (cx_rocks X) (cx_serde X) db r)"

definition cache_get_identity ::
  "('db, 'w) ctx \<Rightarrow> u8 \<Rightarrow> u32 \<Rightarrow> update_type \<Rightarrow> ('db, 'w, identity_record) op" where
  "cache_get_identity X enclave_id version update =
     fill_slot X True version (key_identity (identity_name enclave_id) version (update_str update))
       (\<lambda>db. get_identity (cx_rocks X) (cx_serde X) db enclave_id version update)
       (fetch_identity (cx_net X) (cx_ext X) (cx_client X) enclave_id version update)
       (\<lambda>r. cacheable (ir_issuer_chain r)) (\<lambda>r db. put_identity (cx_rocks X) (cx_serde X) db r)"

definition cache_get_pckcrl :: "('db, 'w) ctx \<Rightarrow> string \<Rightarrow> u32 \<Rightarrow> ('db, 'w, pckcrl_record) op" where
  "cache_get_pckcrl X ca version =
     fill_slot X True version (key_pckcrl ca) (\<lambda>db. get_pckcrl (cx_rocks X) (cx_serde X) db ca)
       (fetch_pckcrl (cx_net X) (cx_client X) ca)
       (\<lambda>r. cacheable (pl_issuer_chain r)) (\<lambda>r db. put_pckcrl (cx_rocks X) (cx_serde X) db r)"

definition cache_get_rootcacrl :: "('db, 'w) ctx \<Rightarrow> u32 \<Rightarrow> ('db, 'w, bytes) op" where
  "cache_get_rootcacrl X version =
     fill_slot X True version key_rootcacrl (\<lambda>db. get_rootcacrl (cx_rocks X) (cx_serde X) db)
       (fetch_rootcacrl (cx_net X) (cx_ext X) (cx_client X))
       (\<lambda>_. True) (\<lambda>r db. put_rootcacrl (cx_rocks X) (cx_serde X) db r)"

definition cache_get_crl :: "('db, 'w) ctx \<Rightarrow> string \<Rightarrow> u32 \<Rightarrow> ('db, 'w, bytes) op" where
  "cache_get_crl X uri version =
     fill_slot X False version (key_crl uri) (\<lambda>db. get_crl (cx_rocks X) (cx_serde X) db uri)
       (fetch_crl (cx_net X) (cx_client X) uri)
       (\<lambda>_. True) (\<lambda>r db. put_crl (cx_rocks X) (cx_serde X) db uri r)"

section \<open>Selection from a pool\<close>

definition tcb_info_of :: "tcb_record \<Rightarrow> json" where
  "tcb_info_of tcb = unwrap_or (tr_tcbinfo tcb) (jget (tr_tcbinfo tcb) ''tcbInfo'')"

definition select_from_pool_with_tcb ::
  "ext \<Rightarrow> platform_pool \<Rightarrow> string \<Rightarrow> string \<Rightarrow> string \<Rightarrow> tcb_record \<Rightarrow> pckcert_record res" where
  "select_from_pool_with_tcb E pool cpusvn pcesvn pceid tcb =
     and_then (map_err (\<lambda>_. NO_CACHE_DATA)
       (select_best_pck_cert E cpusvn pcesvn pceid (cert_pairs pool) (tcb_info_of tcb))) (\<lambda>(tcbm, cert).
     Inr \<lparr>pk_qeid = pp_qe_id pool, pk_pceid = pp_pce_id pool, pk_cpusvn = to_ascii_uppercase cpusvn,
          pk_pcesvn = to_ascii_uppercase pcesvn, pk_cert = cert, pk_tcbm = tcbm, pk_fmspc = pp_fmspc pool,
          pk_ca = pp_ca pool, pk_issuer_chain = pp_issuer_chain pool,
          pk_encrypted_ppid = (if pp_enc_ppid pool = [] then None else Some (pp_enc_ppid pool)),
          pk_platform_manifest = pp_platform_manifest pool\<rparr>)"

definition select_from_pool ::
  "('db, 'w) ctx \<Rightarrow> 'db \<Rightarrow> platform_pool \<Rightarrow> string \<Rightarrow> string \<Rightarrow> string \<Rightarrow> pckcert_record res" where
  "select_from_pool X db pool cpusvn pcesvn pceid =
     (if pp_certs pool = [] then Inl NO_CACHE_DATA
      else
        and_then (ok_or NO_CACHE_DATA
          (or_else (get_tcb (cx_rocks X) (cx_serde X) db 0 (pp_fmspc pool) (cx_pcs_version X) Early)
             (get_tcb (cx_rocks X) (cx_serde X) db 0 (pp_fmspc pool) (cx_pcs_version X) Standard)))
          (select_from_pool_with_tcb (cx_ext X) pool cpusvn pcesvn pceid))"

definition raw_tcb_known :: "platform_pool \<Rightarrow> string \<Rightarrow> string \<Rightarrow> bool" where
  "raw_tcb_known pool cpusvn pcesvn =
     list_ex (\<lambda>r. eq_ignore_ascii_case (rt_cpu_svn r) cpusvn \<and> eq_ignore_ascii_case (rt_pce_svn r) pcesvn)
       (pp_raw_tcbs pool)"

definition has_stored_credential :: "platform_pool \<Rightarrow> bool" where
  "has_stored_credential pool \<longleftrightarrow>
     pp_platform_manifest pool \<noteq> [] \<or>
     (pp_enc_ppid pool \<noteq> [] \<and> \<not> list_all (\<lambda>c. c = CHR ''0'') (pp_enc_ppid pool))"

definition platform_key :: "string \<Rightarrow> string \<Rightarrow> string" where
  "platform_key qeid pceid = to_ascii_uppercase qeid @ '':'' @ to_ascii_uppercase pceid"

text \<open>\<open>raw_cpusvn_from_tcb\<close>: the sixteen component SVNs as two hex digits each.\<close>

definition svn_field :: "nat \<Rightarrow> string" where
  "svn_field i = ''sgxtcbcomp'' @ (if i < 10 then ''0'' else []) @ dec_string i @ ''svn''"

fun svn_digits :: "json \<Rightarrow> nat list \<Rightarrow> string option" where
  "svn_digits tcb [] = Some []"
| "svn_digits tcb (i # is) =
     (case get_u64 tcb (svn_field i) of
        None \<Rightarrow> None
      | Some svn \<Rightarrow>
          if svn > 255 then None
          else map_option (\<lambda>out. hex_pad_upper 2 (unat svn) @ out) (svn_digits tcb is))"

definition raw_cpusvn_from_tcb :: "json \<Rightarrow> string option" where
  "raw_cpusvn_from_tcb tcb = svn_digits tcb [1..<17]"

section \<open>Fetching a pool\<close>

record fetch_context =
  fc_enc_ppid :: string
  fc_platform_manifest :: string
  fc_expected :: "platform_credentials option"
  fc_unknown_get :: bool

definition publication :: "fetch_context \<Rightarrow> platform_publication" where
  "publication c =
     (if fc_unknown_get c \<and> fc_expected c = None then AbsentGet (fc_enc_ppid c) (fc_platform_manifest c)
      else Observed (fc_expected c))"

text \<open>\<open>Node ReqCachingMode.processNotAvailableTcbs\<close>: in REQ mode the levels without a certificate are
  queued with state 1.\<close>

definition register_unavailable ::
  "('db, 'w) ctx \<Rightarrow> string \<Rightarrow> string \<Rightarrow> string \<Rightarrow> string \<Rightarrow> json \<Rightarrow> ('db, 'w, unit) op" where
  "register_unavailable X qeid pceid enc_ppid platform_manifest tcb =
     (case (raw_cpusvn_from_tcb tcb, get_u64 tcb ''pcesvn'') of
        (Some cpu_svn, Some pce_svn) \<Rightarrow>
          store_db X (\<lambda>db. register_platform (cx_rocks X) (cx_serde X) db
            \<lparr>rg_qe_id = qeid, rg_pce_id = pceid, rg_cpu_svn = cpu_svn, rg_pce_svn = dec_string (unat pce_svn),
             rg_enc_ppid = enc_ppid, rg_platform_manifest = platform_manifest, rg_state = 1\<rparr>)
      | _ \<Rightarrow> ret ())"

definition process_not_available ::
  "('db, 'w) ctx \<Rightarrow> string \<Rightarrow> string \<Rightarrow> string \<Rightarrow> string \<Rightarrow> pckcerts_response \<Rightarrow> ('db, 'w, unit) op" where
  "process_not_available X qeid pceid enc_ppid platform_manifest resp =
     (if cx_mode X \<noteq> Req \<or> pr_not_available resp = [] then ret ()
      else each_act (register_unavailable X qeid pceid enc_ppid platform_manifest) (pr_not_available resp))"

definition pool_of_response ::
  "string \<Rightarrow> string \<Rightarrow> string \<Rightarrow> string \<Rightarrow> pckcerts_response \<Rightarrow> platform_pool res" where
  "pool_of_response qeid pceid enc_ppid platform_manifest resp =
     (if pr_certs resp = [] then Inl NO_CACHE_DATA
      else if \<not> cacheable (pr_issuer_chain resp) then Inl PCS_ACCESS_FAILURE
      else Inr \<lparr>pp_qe_id = to_ascii_uppercase qeid, pp_pce_id = to_ascii_uppercase pceid,
                pp_enc_ppid = to_ascii_uppercase enc_ppid, pp_platform_manifest = platform_manifest,
                pp_fmspc = pr_fmspc resp, pp_ca = pr_ca resp, pp_issuer_chain = pr_issuer_chain resp,
                pp_certs = map (\<lambda>(tcbm, cert). \<lparr>pt_tcbm = tcbm, pt_cert = cert\<rparr>) (pr_certs resp),
                pp_raw_tcbs = []\<rparr>)"

definition pckcert_pool ::
  "('db, 'w) ctx \<Rightarrow> string \<Rightarrow> string \<Rightarrow> string \<Rightarrow> string \<Rightarrow> pckcerts_response \<Rightarrow> ('db, 'w, platform_pool) op" where
  "pckcert_pool X qeid pceid enc_ppid platform_manifest resp =
     seq (process_not_available X qeid pceid enc_ppid platform_manifest resp) (\<lambda>_.
       lift_res (pool_of_response qeid pceid enc_ppid platform_manifest resp))"

text \<open>\<open>fetch_tcb_infos\<close>: the loop over the wanted documents; \<open>sgx_standard\<close> records whether the SGX
  STANDARD one arrived.\<close>

fun tcb_infos_loop ::
  "('db, 'w) ctx \<Rightarrow> string \<Rightarrow> (u8 \<times> update_type) list \<Rightarrow> bool \<Rightarrow> tcb_record list \<Rightarrow>
   ('db, 'w, tcb_record list) op" where
  "tcb_infos_loop X fmspc [] sgx_standard tcbs =
     lift_res (if sgx_standard then Inr tcbs else Inl NO_CACHE_DATA)"
| "tcb_infos_loop X fmspc ((prd, update) # wanted) sgx_standard tcbs =
     match_res (fetch_tcb (cx_net X) (cx_ext X) (cx_client X) prd fmspc (cx_pcs_version X) update) (\<lambda>r.
     case r of
       Inl _ \<Rightarrow> tcb_infos_loop X fmspc wanted sgx_standard tcbs
     | Inr rec \<Rightarrow> tcb_infos_loop X fmspc wanted (sgx_standard \<or> (prd = 0 \<and> update = Standard))
         (if cacheable (tr_issuer_chain rec) then tcbs @ [rec] else tcbs))"

definition fetch_tcb_infos :: "('db, 'w) ctx \<Rightarrow> string \<Rightarrow> ('db, 'w, tcb_record list) op" where
  "fetch_tcb_infos X fmspc =
     tcb_infos_loop X fmspc
       ([(0, Early), (0, Standard)] @ (if cx_pcs_version X \<ge> 4 then [(1, Early), (1, Standard)] else []))
       False []"

definition check_tcb_info :: "ext \<Rightarrow> string \<Rightarrow> platform_pool \<Rightarrow> tcb_record \<Rightarrow> unit res" where
  "check_tcb_info E pceid pool rec =
     (let info = tcb_info_of rec
      in if get_str info ''id'' \<noteq> Some (if tr_prod_type rec = 0 then ''SGX'' else ''TDX'')
           \<or> \<not> (case get_str info ''fmspc'' of Some f \<Rightarrow> eq_ignore_ascii_case f (pp_fmspc pool) | None \<Rightarrow> False)
         then Inl NO_CACHE_DATA
         else map_err (\<lambda>_. NO_CACHE_DATA)
           (if tr_prod_type rec = 0 then validate_pck_cert_pool E pceid (cert_pairs pool) info
            else validate_tdx_pck_cert_pool E pceid (cert_pairs pool) info))"

definition chosen_tcb :: "tcb_record list \<Rightarrow> tcb_record option" where
  "chosen_tcb tcbs =
     or_else (find (\<lambda>t. tr_prod_type t = 0 \<and> tr_update_type t = ''EARLY'') tcbs)
       (find (\<lambda>t. tr_prod_type t = 0 \<and> tr_update_type t = ''STANDARD'') tcbs)"

definition store_pckcerts ::
  "('db, 'w) ctx \<Rightarrow> string \<Rightarrow> string \<Rightarrow> fetch_context \<Rightarrow> pckcerts_response \<Rightarrow> (string \<times> string) option \<Rightarrow>
   ('db, 'w, pckcert_record option) op" where
  "store_pckcerts X qeid pceid context resp requested =
     seq (pckcert_pool X qeid pceid (fc_enc_ppid context) (fc_platform_manifest context) resp) (\<lambda>pool.
     seq (fetch_tcb_infos X (pr_fmspc resp)) (\<lambda>tcbs.
     seq (lift_res (try_each (check_tcb_info (cx_ext X) pceid pool) tcbs)) (\<lambda>_.
     seq (lift_res (ok_or NO_CACHE_DATA (chosen_tcb tcbs))) (\<lambda>tcb.
     seq (lift_res (case requested of
            None \<Rightarrow> Inr None
          | Some (cpu, pce) \<Rightarrow>
              and_then (select_from_pool_with_tcb (cx_ext X) pool cpu pce pceid tcb) (\<lambda>r. Inr (Some r)))) (\<lambda>selected.
     seq (store_db X (\<lambda>db. replace_platform_certs_after_fetch (cx_rocks X) (cx_serde X) db pool (publication context) tcbs
            (if cx_mode X \<noteq> Lazy \<or> pr_not_available resp = [] then selected else None)
            (\<lambda>fresh raw. select_from_pool_with_tcb (cx_ext X) fresh (rt_cpu_svn raw) (rt_pce_svn raw) pceid tcb))) (\<lambda>_.
     ret selected))))))"

definition fill_pckcert ::
  "('db, 'w) ctx \<Rightarrow> string \<Rightarrow> string \<Rightarrow> string \<Rightarrow> string \<Rightarrow> fetch_context \<Rightarrow>
   ('db, 'w, pckcert_record option) op" where
  "fill_pckcert X qeid cpusvn pcesvn pceid context =
     (let enc_ppid = fc_enc_ppid context; manifest = fc_platform_manifest context
      in if \<not> enabled (cx_client X) then lift_res (Inl NO_CACHE_DATA)
         else if cx_is_intel X \<and> enc_ppid = [] \<and> manifest = [] then lift_res (Inl INVALID_REQ)
         else if \<not> cx_is_intel X \<and> manifest = [] then
           seq (fetch_pckcert_pccs (cx_net X) (cx_client X) qeid cpusvn pcesvn pceid
                  (if enc_ppid \<noteq> [] then Some enc_ppid else None)) (\<lambda>rec.
           if \<not> cacheable (pk_issuer_chain rec) then ret (Some rec)
           else seq (store_db X (\<lambda>db. merge_pckcert_after_fetch (cx_rocks X) (cx_serde X) (cx_ext X) db rec
                                       (publication context))) (\<lambda>_. ret (Some rec)))
         else
           seq (if manifest = [] then fetch_pckcerts_intel (cx_net X) (cx_ext X) (cx_client X) enc_ppid pceid
                else fetch_pckcerts_intel_manifest (cx_net X) (cx_ext X) (cx_client X) manifest pceid) (\<lambda>resp.
             store_pckcerts X qeid pceid context resp
               (if cpusvn = [] \<or> pcesvn = [] then None else Some (cpusvn, pcesvn))))"

section \<open>Re-fetching a pool for a new raw level\<close>

definition refetch_due :: "('db, 'w) ctx \<Rightarrow> string \<Rightarrow> ('db, 'w, bool) op" where
  "refetch_due X platform s =
     (if cx_pool_refetch_interval X = 0 then (Inr True, s)
      else
        (let s = cx_env X s
         in (Inr (case map_of (sy_marks s) platform of
                    None \<Rightarrow> True | Some at \<Rightarrow> cx_instant X s - at \<ge> cx_pool_refetch_interval X), s)))"

definition recently_marked :: "('db, 'w) ctx \<Rightarrow> nat \<Rightarrow> string \<times> nat \<Rightarrow> bool" where
  "recently_marked X now mark \<longleftrightarrow> now - snd mark < cx_pool_refetch_interval X"

definition mark_refetch :: "('db, 'w) ctx \<Rightarrow> string \<Rightarrow> ('db, 'w, unit) op" where
  "mark_refetch X platform s =
     (let s = cx_env X s; now = cx_instant X s; marks = sy_marks s;
          marks = (if length marks > 1024
                   then filter (\<lambda>m. cx_pool_refetch_interval X = 0 \<or> recently_marked X now m) marks else marks)
      in (Inr (), s\<lparr>sy_marks := (platform, now) # filter (\<lambda>(k, _). k \<noteq> platform) marks\<rparr>))"

text \<open>\<open>tokio::time::timeout\<close>: \<open>cx_cut\<close> says whether the time runs out, and the state the other requests
  have left by then; nothing of the block has been stored at that point, its one write comes last.\<close>

definition timeout :: "('db, 'w) ctx \<Rightarrow> ('db, 'w, 'a) op \<Rightarrow> ('db, 'w, 'a option) op" where
  "timeout X m s = (case cx_cut X s of Some s' \<Rightarrow> (Inr None, s') | None \<Rightarrow> seq m (\<lambda>x. ret (Some x)) s)"

definition refetch_wanted :: "platform_pool \<Rightarrow> string \<Rightarrow> string \<Rightarrow> bool" where
  "refetch_wanted pool cpusvn pcesvn \<longleftrightarrow> \<not> raw_tcb_known pool cpusvn pcesvn \<and> has_stored_credential pool"

definition stored_context :: "platform_pool \<Rightarrow> fetch_context" where
  "stored_context pool =
     \<lparr>fc_enc_ppid = pp_enc_ppid pool, fc_platform_manifest = pp_platform_manifest pool,
      fc_expected = Some (pool_credentials pool), fc_unknown_get = False\<rparr>"

definition refetch_pool ::
  "('db, 'w) ctx \<Rightarrow> platform_pool \<Rightarrow> string \<Rightarrow> string \<Rightarrow> ('db, 'w, pckcert_record option) op" where
  "refetch_pool X pool cpusvn pcesvn =
     seq (if pp_platform_manifest pool \<noteq> []
          then fetch_pckcerts_intel_manifest (cx_net X) (cx_ext X) (cx_client X) (pp_platform_manifest pool) (pp_pce_id pool)
          else fetch_pckcerts_intel (cx_net X) (cx_ext X) (cx_client X) (pp_enc_ppid pool) (pp_pce_id pool)) (\<lambda>resp.
       store_pckcerts X (pp_qe_id pool) (pp_pce_id pool) (stored_context pool) resp (Some (cpusvn, pcesvn)))"

definition refetch_pool_for_new_raw_tcb ::
  "('db, 'w) ctx \<Rightarrow> string \<Rightarrow> string \<Rightarrow> string \<Rightarrow> string \<Rightarrow> u32 \<Rightarrow> ('db, 'w, pckcert_record option) op" where
  "refetch_pool_for_new_raw_tcb X qeid pceid cpusvn pcesvn version =
     (if \<not> cx_pool_refetch_on_new_tcb X \<or> cx_mode X \<noteq> Lazy \<or> \<not> cx_is_intel X \<or> \<not> enabled (cx_client X)
         \<or> version < 4 \<or> cx_pcs_version X < 4 then ret None
      else
        seq (load X (\<lambda>db. get_platform_pool (cx_rocks X) (cx_serde X) db qeid pceid)) (\<lambda>found.
        case opt_filter (\<lambda>pool. refetch_wanted pool cpusvn pcesvn) found of
          None \<Rightarrow> ret None
        | Some pool \<Rightarrow>
            (let platform = platform_key (pp_qe_id pool) (pp_pce_id pool)
             in match_res (key_lock X (''pool-refetch/'' @ platform)) (\<lambda>locked.
                case locked of
                  Inl _ \<Rightarrow> ret None
                | Inr _ \<Rightarrow>
                    seq (load X (\<lambda>db. get_platform_pool (cx_rocks X) (cx_serde X) db qeid pceid)) (\<lambda>found.
                    case opt_filter (\<lambda>pool. refetch_wanted pool cpusvn pcesvn) found of
                      None \<Rightarrow> ret None
                    | Some pool \<Rightarrow>
                        seq (refetch_due X platform) (\<lambda>due.
                        if \<not> due then ret None
                        else
                          seq (mark_refetch X platform) (\<lambda>_.
                          match_res (timeout X (refetch_pool X pool cpusvn pcesvn)) (\<lambda>fetched.
                          ret (case fetched of Inr (Some (Some rec)) \<Rightarrow> Some rec | _ \<Rightarrow> None)))))))))"

definition cache_get_pckcert ::
  "('db, 'w) ctx \<Rightarrow> string \<Rightarrow> string \<Rightarrow> string \<Rightarrow> string \<Rightarrow> string option \<Rightarrow> u32 \<Rightarrow> ('db, 'w, pckcert_record) op" where
  "cache_get_pckcert X qeid cpusvn pcesvn pceid enc_ppid version =
     (let look = (\<lambda>db. get_pckcert (cx_rocks X) (cx_serde X) db qeid cpusvn pcesvn pceid);
          select = store_ret X (\<lambda>db. select_platform_cert (cx_rocks X) (cx_serde X) db qeid pceid True
                     (\<lambda>pool. select_from_pool X db pool cpusvn pcesvn pceid));
          key = key_pckcert qeid pceid cpusvn pcesvn;
          fill =
            seq (key_lock X key) (\<lambda>_.
            seq (load X look) (\<lambda>hit.
            case hit of
              Some rec \<Rightarrow> ret rec
            | None \<Rightarrow>
                if cx_mode X \<noteq> Lazy then lift_res (Inl platform_unknown)
                else if version = 3 then lift_res (Inl PCS_V3_REACHED_EOL)
                else
                  seq (load X (\<lambda>db. map_option pool_credentials
                                  (get_platform_pool (cx_rocks X) (cx_serde X) db qeid pceid))) (\<lambda>expected.
                  if cx_is_intel X \<and> expected \<noteq> None then select
                  else
                    note_act X key
                      (seq (fill_pckcert X qeid cpusvn pcesvn pceid
                              \<lparr>fc_enc_ppid = unwrap_or [] enc_ppid, fc_platform_manifest = [],
                               fc_expected = expected, fc_unknown_get = True\<rparr>)
                         (\<lambda>rec. lift_res (ok_or NO_CACHE_DATA rec))))))
      in seq (load X (\<lambda>db. has_platform (cx_rocks X) db qeid pceid)) (\<lambda>known.
         if \<not> known then fill
         else
           seq (load X look) (\<lambda>hit.
           case hit of
             Some rec \<Rightarrow> ret rec
           | None \<Rightarrow>
               seq (refetch_pool_for_new_raw_tcb X qeid pceid cpusvn pcesvn version) (\<lambda>refetched.
               case refetched of
                 Some rec \<Rightarrow> ret rec
               | None \<Rightarrow>
                   match_res select (\<lambda>selected.
                   case selected of
                     Inr rec \<Rightarrow> ret rec
                   | Inl e \<Rightarrow> if cx_is_intel X \<or> cx_mode X \<noteq> Lazy then lift_res (Inl e) else fill)))))"

section \<open>Registration\<close>

text \<open>\<open>is_cached\<close>, with the manifest it may fill in.\<close>

definition is_cached :: "('db, 'w) ctx \<Rightarrow> registered_platform \<Rightarrow> ('db, 'w, bool \<times> registered_platform) op" where
  "is_cached X p =
     seq (load X (\<lambda>db. get_platform_pool (cx_rocks X) (cx_serde X) db (rg_qe_id p) (rg_pce_id p))) (\<lambda>found.
     case found of
       None \<Rightarrow> ret (False, p)
     | Some pool \<Rightarrow>
         if rg_platform_manifest p = [] then
           seq (load X (\<lambda>db. get_pckcert (cx_rocks X) (cx_serde X) db (rg_qe_id p) (rg_cpu_svn p) (rg_pce_svn p) (rg_pce_id p)))
             (\<lambda>hit. ret (hit \<noteq> None, p\<lparr>rg_platform_manifest := pp_platform_manifest pool\<rparr>))
         else ret (pp_platform_manifest pool = rg_platform_manifest p, p))"

text \<open>One item of \<open>fill_qv_collateral\<close>: fetch what is not cached, ignore every failure.\<close>

definition fill_missing ::
  "('db, 'w) ctx \<Rightarrow> ('db \<Rightarrow> 'r option) \<Rightarrow> ('db, 'w, 'r) op \<Rightarrow> ('r \<Rightarrow> bool) \<Rightarrow> ('r \<Rightarrow> 'db \<Rightarrow> 'db res) \<Rightarrow>
   ('db, 'w, unit) op" where
  "fill_missing X look fetch keep save =
     seq (load X look) (\<lambda>hit.
     if hit \<noteq> None then ret ()
     else match_res fetch (\<lambda>r.
          case r of
            Inl _ \<Rightarrow> ret ()
          | Inr r \<Rightarrow> if keep r then match_res (store_db X (save r)) (\<lambda>_. ret ()) else ret ()))"

definition qv_pckcrl :: "('db, 'w) ctx \<Rightarrow> string \<Rightarrow> ('db, 'w, unit) op" where
  "qv_pckcrl X ca =
     fill_missing X (\<lambda>db. get_pckcrl (cx_rocks X) (cx_serde X) db ca) (fetch_pckcrl (cx_net X) (cx_client X) ca)
       (\<lambda>r. cacheable (pl_issuer_chain r)) (\<lambda>r db. put_pckcrl (cx_rocks X) (cx_serde X) db r)"

definition qv_identity :: "('db, 'w) ctx \<Rightarrow> u8 \<times> update_type \<Rightarrow> ('db, 'w, unit) op" where
  "qv_identity X iu =
     fill_missing X
       (\<lambda>db. get_identity (cx_rocks X) (cx_serde X) db (fst iu) (cx_pcs_version X) (snd iu))
       (fetch_identity (cx_net X) (cx_ext X) (cx_client X) (fst iu) (cx_pcs_version X) (snd iu))
       (\<lambda>r. cacheable (ir_issuer_chain r)) (\<lambda>r db. put_identity (cx_rocks X) (cx_serde X) db r)"

definition qv_rootcacrl :: "('db, 'w) ctx \<Rightarrow> ('db, 'w, unit) op" where
  "qv_rootcacrl X =
     fill_missing X (\<lambda>db. get_rootcacrl (cx_rocks X) (cx_serde X) db)
       (fetch_rootcacrl (cx_net X) (cx_ext X) (cx_client X))
       (\<lambda>_. True) (\<lambda>r db. put_rootcacrl (cx_rocks X) (cx_serde X) db r)"

definition fill_qv_collateral :: "('db, 'w) ctx \<Rightarrow> update_type \<Rightarrow> ('db, 'w, unit) op" where
  "fill_qv_collateral X update =
     (if \<not> enabled (cx_client X) then ret ()
      else
        (let updates = (if update = All then [Standard, Early] else [update])
         in seq (each_act (qv_pckcrl X) [''PROCESSOR'', ''PLATFORM'']) (\<lambda>_.
            seq (each_act (qv_identity X) (List.product [1, 2, 3] updates)) (\<lambda>_.
            qv_rootcacrl X))))"

definition fill_registered ::
  "('db, 'w) ctx \<Rightarrow> registered_platform \<Rightarrow> platform_credentials option \<Rightarrow> ('db, 'w, unit) op" where
  "fill_registered X p expected =
     seq (fill_pckcert X (rg_qe_id p) (rg_cpu_svn p) (rg_pce_svn p) (rg_pce_id p)
            \<lparr>fc_enc_ppid = rg_enc_ppid p, fc_platform_manifest = rg_platform_manifest p,
             fc_expected = expected, fc_unknown_get = False\<rparr>) (\<lambda>_. ret ())"

definition cache_register_platform ::
  "('db, 'w) ctx \<Rightarrow> registered_platform \<Rightarrow> update_type \<Rightarrow> ('db, 'w, unit) op" where
  "cache_register_platform X p update =
     seq (load X (\<lambda>db. map_option pool_credentials
            (get_platform_pool (cx_rocks X) (cx_serde X) db (rg_qe_id p) (rg_pce_id p)))) (\<lambda>expected.
     seq (is_cached X p) (\<lambda>(cached, p).
     let queued = p\<lparr>rg_state := 0\<rparr>;
         enqueue = store_db X (\<lambda>db. register_platform (cx_rocks X) (cx_serde X) db queued)
     in case cx_mode X of
          Offline \<Rightarrow> if cached then ret () else enqueue
        | Req \<Rightarrow>
            seq (if cached then ret ()
                 else seq enqueue (\<lambda>_.
                      seq (fill_registered X p expected) (\<lambda>_.
                      store_db X (\<lambda>db. delete_registered (cx_rocks X) db queued)))) (\<lambda>_.
              fill_qv_collateral X update)
        | Lazy \<Rightarrow>
            seq (if cached then ret () else fill_registered X p expected) (\<lambda>_. fill_qv_collateral X update)))"

section \<open>Refresh\<close>

definition map_err_act :: "pccs_error \<Rightarrow> ('s, 'a) act \<Rightarrow> ('s, 'a) act" where
  "map_err_act e m = match_res m (\<lambda>r. lift_res (map_err (\<lambda>_. e) r))"

definition refresh_pckcrl :: "('db, 'w) ctx \<Rightarrow> pckcrl_record \<Rightarrow> ('db, 'w, unit) op" where
  "refresh_pckcrl X rec =
     seq (map_err_act SERVICE_UNAVAILABLE (fetch_pckcrl (cx_net X) (cx_client X) (pl_ca rec))) (\<lambda>fresh.
     if cacheable (pl_issuer_chain fresh)
     then store_db X (\<lambda>db. put_pckcrl (cx_rocks X) (cx_serde X) db fresh) else ret ())"

definition refresh_tcb :: "('db, 'w) ctx \<Rightarrow> tcb_record \<Rightarrow> ('db, 'w, unit) op" where
  "refresh_tcb X rec =
     (if tr_version rec = 3 then ret ()
      else
        seq (map_err_act SERVICE_UNAVAILABLE
               (fetch_tcb (cx_net X) (cx_ext X) (cx_client X) (tr_prod_type rec) (tr_fmspc rec) (tr_version rec)
                  (if eq_ignore_ascii_case (tr_update_type rec) ''EARLY'' then Early else Standard))) (\<lambda>fresh.
        if cacheable (tr_issuer_chain fresh)
        then store_db X (\<lambda>db. put_tcb (cx_rocks X) (cx_serde X) db fresh) else ret ()))"

definition refresh_identity :: "('db, 'w) ctx \<Rightarrow> u8 \<times> update_type \<Rightarrow> ('db, 'w, unit) op" where
  "refresh_identity X iu =
     match_res (fetch_identity (cx_net X) (cx_ext X) (cx_client X) (fst iu) 4 (snd iu)) (\<lambda>r.
     case r of
       Inl _ \<Rightarrow> ret ()
     | Inr fresh \<Rightarrow>
         if cacheable (ir_issuer_chain fresh)
         then store_db X (\<lambda>db. put_identity (cx_rocks X) (cx_serde X) db fresh) else ret ())"

definition refresh_rootcacrl :: "('db, 'w) ctx \<Rightarrow> ('db, 'w, unit) op" where
  "refresh_rootcacrl X =
     seq (load X (\<lambda>db. get_rootcacrl (cx_rocks X) (cx_serde X) db \<noteq> None)) (\<lambda>had.
     match_res (fetch_rootcacrl (cx_net X) (cx_ext X) (cx_client X)) (\<lambda>r.
     case r of
       Inr fresh \<Rightarrow> store_db X (\<lambda>db. put_rootcacrl (cx_rocks X) (cx_serde X) db fresh)
     | Inl _ \<Rightarrow> if had then lift_res (Inl INTERNAL_ERROR) else ret ()))"

definition refresh_crl :: "('db, 'w) ctx \<Rightarrow> crl_record \<Rightarrow> ('db, 'w, unit) op" where
  "refresh_crl X rec =
     (if \<not> is_valid_crl_uri (cr_uri rec) then ret ()
      else seq (fetch_crl (cx_net X) (cx_client X) (cr_uri rec)) (\<lambda>fresh.
             store_db X (\<lambda>db. put_crl (cx_rocks X) (cx_serde X) db (cr_uri rec) fresh)))"

definition refresh_collateral :: "('db, 'w) ctx \<Rightarrow> ('db, 'w, unit) op" where
  "refresh_collateral X =
     (if \<not> enabled (cx_client X) then ret ()
      else
        seq (load X (list_pckcrls (cx_rocks X) (cx_serde X))) (\<lambda>recs.
        seq (each_act (refresh_pckcrl X) recs) (\<lambda>_.
        seq (load X (list_tcbs (cx_rocks X) (cx_serde X))) (\<lambda>recs.
        seq (each_act (refresh_tcb X) recs) (\<lambda>_.
        seq (if cx_pcs_version X \<ge> 4
             then each_act (refresh_identity X) (List.product [1, 2, 3] [Standard, Early]) else ret ()) (\<lambda>_.
        seq (refresh_rootcacrl X) (\<lambda>_.
        seq (load X (list_crls (cx_rocks X) (cx_serde X))) (\<lambda>recs.
        each_act (refresh_crl X) recs))))))))"

definition refresh_platform_pool :: "('db, 'w) ctx \<Rightarrow> platform_pool \<Rightarrow> ('db, 'w, unit) op" where
  "refresh_platform_pool X pool =
     seq (map_err_act NO_CACHE_DATA
            (if pp_platform_manifest pool \<noteq> []
             then fetch_pckcerts_intel_manifest (cx_net X) (cx_ext X) (cx_client X) (pp_platform_manifest pool) (pp_pce_id pool)
             else fetch_pckcerts_intel (cx_net X) (cx_ext X) (cx_client X) (pp_enc_ppid pool) (pp_pce_id pool))) (\<lambda>resp.
     seq (pckcert_pool X (pp_qe_id pool) (pp_pce_id pool) (pp_enc_ppid pool) (pp_platform_manifest pool) resp) (\<lambda>fresh.
     seq (fetch_tcb (cx_net X) (cx_ext X) (cx_client X) 0 (pp_fmspc fresh) (cx_pcs_version X) Early) (\<lambda>tcb.
     store_db X (\<lambda>db. replace_platform_certs_with_selection (cx_rocks X) (cx_serde X) db fresh
       (Some (pool_credentials pool)) [] None
       (\<lambda>fresh raw. select_from_pool_with_tcb (cx_ext X) fresh (rt_cpu_svn raw) (rt_pce_svn raw) (pp_pce_id fresh) tcb)))))"

definition refresh_raw_level :: "('db, 'w) ctx \<Rightarrow> platform_pool \<Rightarrow> raw_tcb \<Rightarrow> ('db, 'w, unit) op" where
  "refresh_raw_level X pool raw =
     match_res (fetch_pckcert_pccs (cx_net X) (cx_client X) (pp_qe_id pool) (rt_cpu_svn raw) (rt_pce_svn raw)
                  (pp_pce_id pool) (Some (pp_enc_ppid pool))) (\<lambda>r.
     case r of
       Inl _ \<Rightarrow> ret ()
     | Inr fresh \<Rightarrow>
         if cacheable (pk_issuer_chain fresh)
         then store_db X (\<lambda>db. merge_pckcert (cx_rocks X) (cx_serde X) (cx_ext X) db fresh (Some (pool_credentials pool)))
         else ret ())"

definition refresh_certs :: "('db, 'w) ctx \<Rightarrow> string \<Rightarrow> ('db, 'w, unit) op" where
  "refresh_certs X fmspc =
     (if \<not> enabled (cx_client X) \<or> cx_pcs_version X = 3 then ret ()
      else
        seq (load X (list_platform_pools (cx_rocks X) (cx_serde X))) (\<lambda>pools.
        each_act (\<lambda>pool.
          if \<not> eq_ignore_ascii_case (pp_fmspc pool) fmspc then ret ()
          else if cx_is_intel X \<or> pp_platform_manifest pool \<noteq> [] then refresh_platform_pool X pool
          else each_act (refresh_raw_level X pool) (pp_raw_tcbs pool)) pools))"

text \<open>The tasks of the scheduled pool refresh, one after the other; what they do to each other while they
  overlap is part of the environment.\<close>

definition refresh_platform_pools :: "('db, 'w) ctx \<Rightarrow> ('db, 'w, unit) op" where
  "refresh_platform_pools X =
     (if \<not> cx_scheduled_pool_refresh X \<or> cx_mode X \<noteq> Lazy \<or> \<not> cx_is_intel X \<or> \<not> enabled (cx_client X)
         \<or> cx_pcs_version X = 3 then ret ()
      else
        seq (load X (list_platform_pools (cx_rocks X) (cx_serde X))) (\<lambda>pools.
        read (\<lambda>s.
          let recently = filter (recently_marked X (cx_instant X s)) (sy_marks s)
          in each_act (\<lambda>pool. match_res (refresh_platform_pool X pool) (\<lambda>_. ret ()))
               (filter (\<lambda>p. platform_key (pp_qe_id p) (pp_pce_id p) \<notin> fst ` set recently)
                  (filter has_stored_credential pools)))))"

definition scheduled_refresh ::
  "('db, 'w) ctx \<Rightarrow> cache_config \<Rightarrow> u64 \<Rightarrow> ('db, 'w, unit) op" where
  "scheduled_refresh X cfg now =
     seq (modify (\<lambda>s. let s = cx_env X s
                      in s\<lparr>sy_cache := sweep_expired (cx_rocks X) (cx_serde X) cfg now (sy_cache s)\<rparr>)) (\<lambda>_.
     if cx_mode X = Offline then lift_res (Inl SERVICE_UNAVAILABLE)
     else match_res (refresh_collateral X) (\<lambda>collateral.
          match_res (refresh_platform_pools X) (\<lambda>_. lift_res collateral)))"

end
