(* ===== verification/Fill_Guarantee.thy ===== *)
theory Fill_Guarantee
  imports Fill
begin

text \<open>
  What the filling operations do to the store, as relations between the databases before and after.
  The locale \<open>fill_guarantee\<close> asks that the environment (other requests, lock waits, upstream exchanges,
  timeouts) moves the database along a relation \<open>W\<close>; \<open>fill_writes\<close> adds that each write the code makes
  does so, under the conditions the code makes it in. Then every operation does. The properties below
  are instances for three relations.
\<close>

section \<open>Environment and writes\<close>

locale fill_guarantee =
  fixes X :: "('db, 'w) ctx" and W :: "'db \<Rightarrow> 'db \<Rightarrow> bool"
  assumes W_refl: "W db db"
    and W_trans: "W a b \<Longrightarrow> W b c \<Longrightarrow> W a c"
    and env_step: "W (db_of s) (db_of (cx_env X s))"
    and lock_step: "W (db_of s) (db_of (cx_lock X key s))"
    and sleep_step: "W (db_of s) (db_of (nw_sleep (cx_net X) d s))"
    and exchange_step: "W (db_of s) (db_of (snd (nw_exchange (cx_net X) rq s)))"
    and cut_step: "cx_cut X s = Some t \<Longrightarrow> W (db_of s) (db_of t)"

sublocale fill_guarantee \<subseteq> network_guarantee "\<lambda>s t. W (db_of s) (db_of t)" "cx_net X"
  by unfold_locales (auto intro: W_refl W_trans sleep_step exchange_step)

lemma db_of_simps [simp]:
  "db_of (set_db db s) = db" "db_of (set_failures m s) = db_of s" "db_of (s\<lparr>sy_marks := ms\<rparr>) = db_of s"
  by (simp_all add: db_of_def set_db_def set_failures_def)

context fill_guarantee
begin

abbreviation G :: "('db, 'w) sys \<Rightarrow> ('db, 'w) sys \<Rightarrow> bool" where
  "G \<equiv> \<lambda>s t. W (db_of s) (db_of t)"

lemma load_ok: "guarantees G (load X f)"
  by (auto simp: guarantees_def load_def Let_def env_step)

lemma store_ret_ok:
  "(\<And>db x db'. f db = Inr (x, db') \<Longrightarrow> W db db') \<Longrightarrow> guarantees G (store_ret X f)"
  by (auto simp: guarantees_def store_ret_def Let_def env_step intro: W_trans [OF env_step] split: sum.splits)

lemma store_db_ok: "(\<And>db db'. f db = Inr db' \<Longrightarrow> W db db') \<Longrightarrow> guarantees G (store_db X f)"
  by (auto simp: store_db_def intro!: store_ret_ok)

lemma key_lock_ok: "guarantees G (key_lock X key)"
  by (auto simp: guarantees_def key_lock_def Let_def lock_step split: prod.splits)

lemma note_act_ok: "guarantees G m \<Longrightarrow> guarantees G (note_act X key m)"
  unfolding note_act_def
  by (intro guarantees_match guarantees_seq guarantees_modify guarantees_pure) (auto simp: Let_def env_step)

lemma marks_ok: "guarantees G (refetch_due X platform)" "guarantees G (mark_refetch X platform)"
  by (auto simp: guarantees_def refetch_due_def mark_refetch_def Let_def env_step W_refl)

lemma timeout_ok: "guarantees G m \<Longrightarrow> guarantees G (timeout X m)"
  using guarantees_seq [of m "\<lambda>x. ret (Some x)"] guarantees_pure
  by (auto simp: guarantees_def timeout_def cut_step split: option.splits)

lemma fill_slot_ok:
  assumes "guarantees G fetch" and "\<And>r db db'. keep r \<Longrightarrow> save r db = Inr db' \<Longrightarrow> W db db'"
  shows "guarantees G (fill_slot X eol version key look fetch keep save)"
  unfolding fill_slot_def
  by (auto intro!: guarantees_seq load_ok key_lock_ok note_act_ok store_db_ok guarantees_pure
      split: option.splits simp: assms)

lemma fill_missing_ok:
  assumes "guarantees G fetch" and "\<And>r db db'. keep r \<Longrightarrow> save r db = Inr db' \<Longrightarrow> W db db'"
  shows "guarantees G (fill_missing X look fetch keep save)"
  unfolding fill_missing_def
  by (auto intro!: guarantees_seq guarantees_match load_ok store_db_ok guarantees_pure
      split: sum.splits simp: assms)

end

text \<open>A record selected from a pool belongs to its platform and carries its issuer chain.\<close>

definition of_pool :: "platform_pool \<Rightarrow> pckcert_record \<Rightarrow> bool" where
  "of_pool pool r \<longleftrightarrow>
     pk_qeid r = pp_qe_id pool \<and> pk_pceid r = pp_pce_id pool \<and> pk_issuer_chain r = pp_issuer_chain pool"

definition upper_ids :: "platform_pool \<Rightarrow> bool" where
  "upper_ids pool \<longleftrightarrow>
     to_ascii_uppercase (pp_qe_id pool) = pp_qe_id pool \<and> to_ascii_uppercase (pp_pce_id pool) = pp_pce_id pool"

definition fresh_pool :: "platform_pool \<Rightarrow> bool" where
  "fresh_pool pool \<longleftrightarrow> cacheable (pp_issuer_chain pool) \<and> upper_ids pool"

lemma select_of_pool: "select_from_pool_with_tcb E pool cpu pce pceid tcb = Inr r \<Longrightarrow> of_pool pool r"
  by (auto simp: select_from_pool_with_tcb_def of_pool_def)

lemma pckcert_pool_yields: "yields fresh_pool (pckcert_pool X qeid pceid enc_ppid manifest resp)"
  unfolding pckcert_pool_def
  by (intro yields_seq yields_pure)
     (auto simp: pool_of_response_def fresh_pool_def upper_ids_def split: if_splits)

lemma tcb_infos_yields:
  "list_all (\<lambda>t. cacheable (tr_issuer_chain t)) tcbs \<Longrightarrow>
     yields (list_all (\<lambda>t. cacheable (tr_issuer_chain t))) (tcb_infos_loop X fmspc wanted std tcbs)"
proof (induction X fmspc wanted std tcbs rule: tcb_infos_loop.induct)
  case (1 X fmspc std tcbs)
  then show ?case by (auto simp: yields_def split: if_splits)
next
  case (2 X fmspc prd update wanted std tcbs)
  show ?case
    unfolding tcb_infos_loop.simps
  proof (rule yields_match)
    fix r :: "tcb_record res"
    show "yields (list_all (\<lambda>t. cacheable (tr_issuer_chain t)))
        (case r of
           Inl _ \<Rightarrow> tcb_infos_loop X fmspc wanted std tcbs
         | Inr rec \<Rightarrow> tcb_infos_loop X fmspc wanted (std \<or> (prd = 0 \<and> update = Standard))
             (if cacheable (tr_issuer_chain rec) then tcbs @ [rec] else tcbs))"
      using 2 by (cases r) auto
  qed
qed

locale fill_writes = fill_guarantee X W for X :: "('db, 'w) ctx" and W +
  assumes put_tcb_step:
      "put_tcb (cx_rocks X) (cx_serde X) db t = Inr db' \<Longrightarrow> cacheable (tr_issuer_chain t) \<Longrightarrow> W db db'"
    and put_identity_step:
      "put_identity (cx_rocks X) (cx_serde X) db i = Inr db' \<Longrightarrow> cacheable (ir_issuer_chain i) \<Longrightarrow> W db db'"
    and put_pckcrl_step:
      "put_pckcrl (cx_rocks X) (cx_serde X) db l = Inr db' \<Longrightarrow> cacheable (pl_issuer_chain l) \<Longrightarrow> W db db'"
    and put_rootcacrl_step: "put_rootcacrl (cx_rocks X) (cx_serde X) db b = Inr db' \<Longrightarrow> W db db'"
    and put_crl_step: "put_crl (cx_rocks X) (cx_serde X) db uri b = Inr db' \<Longrightarrow> W db db'"
    and select_step:
      "select_platform_cert (cx_rocks X) (cx_serde X) db qeid pceid True
         (\<lambda>pool. select_from_pool X db pool cpusvn pcesvn pceid) = Inr (r, db') \<Longrightarrow> W db db'"
    and replace_step:
      "replace_platform_certs_after_fetch (cx_rocks X) (cx_serde X) db pool pub tcbs sel
         (\<lambda>fresh raw. select_from_pool_with_tcb (cx_ext X) fresh (rt_cpu_svn raw) (rt_pce_svn raw) (pid fresh) tcb)
         = Inr db' \<Longrightarrow>
       fresh_pool pool \<Longrightarrow> list_all (\<lambda>t. cacheable (tr_issuer_chain t)) tcbs \<Longrightarrow> pred_option (of_pool pool) sel \<Longrightarrow>
       W db db'"
    and merge_step:
      "merge_pckcert_after_fetch (cx_rocks X) (cx_serde X) (cx_ext X) db r pub = Inr db' \<Longrightarrow>
       cacheable (pk_issuer_chain r) \<Longrightarrow> W db db'"
    and register_step: "register_platform (cx_rocks X) (cx_serde X) db p = Inr db' \<Longrightarrow> W db db'"
    and delete_step: "delete_registered (cx_rocks X) db p = Inr db' \<Longrightarrow> W db db'"
    and sweep_step:
      "W (st_db (ca_store c)) (st_db (ca_store (sweep_expired (cx_rocks X) (cx_serde X) cfg now c)))"
begin

lemma collateral_ok:
  "guarantees G (cache_get_tcb X prod_type fmspc version update)"
  "guarantees G (cache_get_identity X enclave_id version update)"
  "guarantees G (cache_get_pckcrl X ca version)"
  "guarantees G (cache_get_rootcacrl X version)"
  "guarantees G (cache_get_crl X uri version)"
  unfolding cache_get_tcb_def cache_get_identity_def cache_get_pckcrl_def cache_get_rootcacrl_def cache_get_crl_def
  by (rule fill_slot_ok, rule fetch_ok,
      simp add: put_tcb_step put_identity_step put_pckcrl_step put_rootcacrl_step put_crl_step)+

lemma pckcert_pool_ok: "guarantees G (pckcert_pool X qeid pceid enc_ppid manifest resp)"
proof -
  have "guarantees G (register_unavailable X qeid pceid enc_ppid manifest tcb)" for tcb
    unfolding register_unavailable_def
    by (auto intro!: store_db_ok guarantees_pure register_step split: option.splits)
  then show ?thesis
    unfolding pckcert_pool_def process_not_available_def
    by (intro guarantees_seq guarantees_pure) (simp add: guarantees_each guarantees_pure)
qed

lemma tcb_infos_ok: "guarantees G (tcb_infos_loop X fmspc wanted std tcbs)"
proof (induction wanted arbitrary: std tcbs)
  case (Cons w wanted)
  obtain prd update where w: "w = (prd, update)" by fastforce
  show ?case
    unfolding w tcb_infos_loop.simps
    by (intro guarantees_match fetch_ok) (auto split: sum.splits intro: Cons)
qed (simp add: guarantees_pure)

lemma store_pckcerts_ok: "guarantees G (store_pckcerts X qeid pceid context resp requested)"
  unfolding store_pckcerts_def
proof (rule guarantees_seq_yields [OF pckcert_pool_ok pckcert_pool_yields])
  fix pool assume pool: "fresh_pool pool"
  let ?ok = "list_all (\<lambda>t :: tcb_record. cacheable (tr_issuer_chain t))"
  have infos: "yields ?ok (fetch_tcb_infos X (pr_fmspc resp))"
    unfolding fetch_tcb_infos_def by (rule tcb_infos_yields) simp
  let ?sel = "\<lambda>tcb. (case requested of
            None \<Rightarrow> Inr None
          | Some (cpu, pce) \<Rightarrow>
              and_then (select_from_pool_with_tcb (cx_ext X) pool cpu pce pceid tcb) (\<lambda>r. Inr (Some r)))"
  have sel: "yields (pred_option (of_pool pool)) (lift_res (?sel tcb))" for tcb
    by (rule yields_pure) (auto split: option.splits dest!: select_of_pool)
  have publish: "guarantees G (store_db X (\<lambda>db. replace_platform_certs_after_fetch (cx_rocks X) (cx_serde X) db pool
       (publication context) tcbs (if persist then selected else None)
       (\<lambda>fresh raw. select_from_pool_with_tcb (cx_ext X) fresh (rt_cpu_svn raw) (rt_pce_svn raw) pceid tcb)))"
    if "?ok tcbs" "pred_option (of_pool pool) selected" for tcbs selected persist tcb
    using that pool
    by (intro store_db_ok) (erule replace_step [where pid = "\<lambda>_. pceid"], auto)
  show "guarantees G (seq (fetch_tcb_infos X (pr_fmspc resp)) (\<lambda>tcbs.
     seq (lift_res (try_each (check_tcb_info (cx_ext X) pceid pool) tcbs)) (\<lambda>_.
     seq (lift_res (ok_or NO_CACHE_DATA (chosen_tcb tcbs))) (\<lambda>tcb.
     seq (lift_res (?sel tcb)) (\<lambda>selected.
     seq (store_db X (\<lambda>db. replace_platform_certs_after_fetch (cx_rocks X) (cx_serde X) db pool (publication context) tcbs
            (if cx_mode X \<noteq> Lazy \<or> pr_not_available resp = [] then selected else None)
            (\<lambda>fresh raw. select_from_pool_with_tcb (cx_ext X) fresh (rt_cpu_svn raw) (rt_pce_svn raw) pceid tcb))) (\<lambda>_.
     ret selected))))))"
  proof (rule guarantees_seq_yields [OF _ infos])
    show "guarantees G (fetch_tcb_infos X (pr_fmspc resp))"
      unfolding fetch_tcb_infos_def by (rule tcb_infos_ok)
  next
    fix tcbs assume tcbs: "?ok tcbs"
    show "guarantees G (seq (lift_res (try_each (check_tcb_info (cx_ext X) pceid pool) tcbs)) (\<lambda>_.
     seq (lift_res (ok_or NO_CACHE_DATA (chosen_tcb tcbs))) (\<lambda>tcb.
     seq (lift_res (?sel tcb)) (\<lambda>selected.
     seq (store_db X (\<lambda>db. replace_platform_certs_after_fetch (cx_rocks X) (cx_serde X) db pool (publication context) tcbs
            (if cx_mode X \<noteq> Lazy \<or> pr_not_available resp = [] then selected else None)
            (\<lambda>fresh raw. select_from_pool_with_tcb (cx_ext X) fresh (rt_cpu_svn raw) (rt_pce_svn raw) pceid tcb))) (\<lambda>_.
     ret selected)))))"
      using tcbs by (intro guarantees_seq_yields [OF guarantees_pure(2) sel] guarantees_seq guarantees_pure publish)
  qed
qed

lemma fill_pckcert_ok: "guarantees G (fill_pckcert X qeid cpusvn pcesvn pceid context)"
  unfolding fill_pckcert_def Let_def
  by (auto intro!: guarantees_seq fetch_ok store_db_ok guarantees_pure store_pckcerts_ok merge_step)

lemma refetch_ok: "guarantees G (refetch_pool_for_new_raw_tcb X qeid pceid cpusvn pcesvn version)"
  unfolding refetch_pool_for_new_raw_tcb_def refetch_pool_def Let_def
  by (auto intro!: guarantees_seq guarantees_match load_ok key_lock_ok marks_ok timeout_ok fetch_ok
      store_pckcerts_ok guarantees_pure split: option.splits sum.splits)

lemma cache_get_pckcert_ok: "guarantees G (cache_get_pckcert X qeid cpusvn pcesvn pceid enc_ppid version)"
proof -
  have select: "guarantees G (store_ret X (\<lambda>db. select_platform_cert (cx_rocks X) (cx_serde X) db qeid pceid True
                     (\<lambda>pool. select_from_pool X db pool cpusvn pcesvn pceid)))"
    by (rule store_ret_ok) (rule select_step)
  show ?thesis
    unfolding cache_get_pckcert_def Let_def
    by (auto intro!: guarantees_seq guarantees_match load_ok key_lock_ok note_act_ok select refetch_ok fill_pckcert_ok
        guarantees_pure split: option.splits sum.splits)
qed

lemma fill_qv_ok: "guarantees G (fill_qv_collateral X update)"
  unfolding fill_qv_collateral_def qv_pckcrl_def qv_identity_def qv_rootcacrl_def Let_def
  by (auto intro!: guarantees_seq guarantees_each fill_missing_ok fetch_ok guarantees_pure
      intro: put_identity_step put_pckcrl_step put_rootcacrl_step simp del: each_act.simps)

lemma register_ok: "guarantees G (cache_register_platform X p update)"
  unfolding cache_register_platform_def fill_registered_def is_cached_def Let_def
  by (auto intro!: guarantees_seq load_ok store_db_ok fill_pckcert_ok fill_qv_ok guarantees_pure
      intro: register_step delete_step split: option.splits cache_mode.splits prod.splits)

lemma refresh_platform_pool_ok: "guarantees G (refresh_platform_pool X pool)"
proof -
  have "guarantees G (store_db X (\<lambda>db. replace_platform_certs_with_selection (cx_rocks X) (cx_serde X) db fresh
       (Some (pool_credentials pool)) [] None
       (\<lambda>fresh raw. select_from_pool_with_tcb (cx_ext X) fresh (rt_cpu_svn raw) (rt_pce_svn raw) (pp_pce_id fresh) tcb)))"
    if "fresh_pool fresh" for fresh tcb
    unfolding replace_platform_certs_with_selection_def
    using that by (intro store_db_ok) (erule replace_step [where pid = pp_pce_id], auto)
  then show ?thesis
    unfolding refresh_platform_pool_def map_err_act_def
    by (auto intro!: guarantees_seq guarantees_match fetch_ok guarantees_pure
        guarantees_seq_yields [OF pckcert_pool_ok pckcert_pool_yields])
qed

lemma refresh_ok:
  "guarantees G (refresh_collateral X)" "guarantees G (refresh_certs X fmspc)"
  "guarantees G (refresh_platform_pools X)" "guarantees G (scheduled_refresh X cfg now)"
proof -
  have items: "guarantees G (refresh_pckcrl X l)" "guarantees G (refresh_tcb X t)" "guarantees G (refresh_identity X iu)"
    "guarantees G (refresh_rootcacrl X)" "guarantees G (refresh_crl X c)" for l t iu c
    unfolding refresh_pckcrl_def refresh_tcb_def refresh_identity_def refresh_rootcacrl_def refresh_crl_def map_err_act_def
    by (auto intro!: guarantees_seq guarantees_match load_ok store_db_ok fetch_ok guarantees_pure split: sum.splits)
       (erule put_pckcrl_step put_tcb_step put_identity_step put_rootcacrl_step put_crl_step, assumption?)+
  show coll: "guarantees G (refresh_collateral X)"
    unfolding refresh_collateral_def
    by (auto intro!: guarantees_seq guarantees_each load_ok guarantees_pure items simp del: each_act.simps)
  show "guarantees G (refresh_certs X fmspc)"
    unfolding refresh_certs_def refresh_raw_level_def merge_pckcert_def
    by (auto intro!: guarantees_seq guarantees_match guarantees_each load_ok store_db_ok fetch_ok guarantees_pure
        refresh_platform_pool_ok merge_step split: sum.splits)
  show pools: "guarantees G (refresh_platform_pools X)"
    unfolding refresh_platform_pools_def Let_def
    by (auto intro!: guarantees_seq guarantees_read guarantees_match guarantees_each load_ok
        refresh_platform_pool_ok guarantees_pure)
  have "W (db_of s) (db_of (let s = cx_env X s
      in s\<lparr>sy_cache := sweep_expired (cx_rocks X) (cx_serde X) cfg now (sy_cache s)\<rparr>))" for s
    using W_trans [OF env_step, of s] sweep_step [of "sy_cache (cx_env X s)"] by (simp add: Let_def db_of_def)
  then show "guarantees G (scheduled_refresh X cfg now)"
    unfolding scheduled_refresh_def
    by (auto intro!: guarantees_seq guarantees_match guarantees_modify coll pools guarantees_pure)
qed

lemmas operations_ok = cache_get_pckcert_ok collateral_ok register_ok refresh_ok

end

section \<open>A server without concurrent requests\<close>

definition world_net :: "'w network \<Rightarrow> ('db, 'w) sys network" where
  "world_net N =
     \<lparr>nw_uri = nw_uri N, nw_header_value_ok = nw_header_value_ok N,
      nw_sleep = (\<lambda>d s. s\<lparr>sy_world := nw_sleep N d (sy_world s)\<rparr>),
      nw_exchange = (\<lambda>rq s. case nw_exchange N rq (sy_world s) of (x, w) \<Rightarrow> (x, s\<lparr>sy_world := w\<rparr>))\<rparr>"

definition solo :: "'w network \<Rightarrow> ('db, 'w) ctx \<Rightarrow> ('db, 'w) ctx" where
  "solo N X = X\<lparr>cx_net := world_net N, cx_env := id, cx_lock := \<lambda>_. id,
     cx_cut := \<lambda>s. if cx_cut X s = None then None else Some s\<rparr>"

lemma solo_simps [simp]:
  "cx_env (solo N X) s = s" "cx_lock (solo N X) key s = s" "cx_net (solo N X) = world_net N"
  "cx_rocks (solo N X) = cx_rocks X" "cx_serde (solo N X) = cx_serde X" "cx_ext (solo N X) = cx_ext X"
  "cx_client (solo N X) = cx_client X" "cx_mode (solo N X) = cx_mode X" "cx_is_intel (solo N X) = cx_is_intel X"
  "cx_pcs_version (solo N X) = cx_pcs_version X"
  "cx_cut (solo N X) s = Some t \<longleftrightarrow> cx_cut X s \<noteq> None \<and> t = s"
  by (auto simp: solo_def)

lemma world_net_db [simp]:
  "db_of (nw_sleep (world_net N) d s) = db_of s" "db_of (snd (nw_exchange (world_net N) rq s)) = db_of s"
  by (simp_all add: world_net_def db_of_def split: prod.splits)

interpretation solo: fill_guarantee "solo N X" "(=)" for N X
  by unfold_locales simp_all

text \<open>A concrete server: an empty database in memory and a scripted upstream.\<close>

definition sample_ctx :: "cache_mode \<Rightarrow> (mem, exchange list) ctx" where
  "sample_ctx mode = solo script_net
     \<lparr>cx_rocks = mem_rocks, cx_serde = empty_serde, cx_ext = sample_ext, cx_net = world_net script_net,
      cx_client = sample_client, cx_env = id, cx_lock = (\<lambda>_. id), cx_instant = (\<lambda>_. 0), cx_cut = (\<lambda>_. None),
      cx_mode = mode, cx_pcs_version = 4, cx_is_intel = True, cx_pool_refetch_on_new_tcb = True,
      cx_scheduled_pool_refresh = True, cx_pool_refetch_interval = 0\<rparr>"

definition sample_sys :: "mem \<Rightarrow> exchange list \<Rightarrow> (mem, exchange list) sys" where
  "sample_sys db w = \<lparr>sy_cache = \<lparr>ca_store = \<lparr>st_db = db, st_last = 0, st_max = 10\<rparr>, ca_failures = []\<rparr>,
     sy_marks = [], sy_world = w\<rparr>"

lemma sample_ctx_simps [simp]:
  "cx_env (sample_ctx m) = id" "cx_lock (sample_ctx m) key = id" "cx_net (sample_ctx m) = world_net script_net"
  "cx_rocks (sample_ctx m) = mem_rocks" "cx_serde (sample_ctx m) = empty_serde" "cx_ext (sample_ctx m) = sample_ext"
  "cx_client (sample_ctx m) = sample_client" "cx_mode (sample_ctx m) = m" "cx_cut (sample_ctx m) s = None"
  "cx_is_intel (sample_ctx m)" "cx_pcs_version (sample_ctx m) = 4"
  by (auto simp: sample_ctx_def solo_def)

lemma db_of_sample [simp]: "db_of (sample_sys db w) = db"
  by (simp add: db_of_def sample_sys_def)

section \<open>Outside LAZY mode\<close>

lemma load_net [simp]: "load (X\<lparr>cx_net := N, cx_client := C\<rparr>) f = load X f"
  by (simp add: load_def fun_eq_iff)

lemma store_net [simp]:
  "store_ret (X\<lparr>cx_net := N, cx_client := C\<rparr>) g = store_ret X g"
  "store_db (X\<lparr>cx_net := N, cx_client := C\<rparr>) f = store_db X f"
  by (simp_all add: store_ret_def store_db_def fun_eq_iff)

lemma key_lock_net [simp]: "key_lock (X\<lparr>cx_net := N, cx_client := C\<rparr>) key = key_lock X key"
  by (simp add: key_lock_def fun_eq_iff)

lemma select_net [simp]:
  "select_from_pool (X\<lparr>cx_net := N, cx_client := C\<rparr>) db pool = select_from_pool X db pool"
  by (simp add: select_from_pool_def fun_eq_iff)

lemma fill_slot_closed:
  "cx_mode X \<noteq> Lazy \<Longrightarrow>
     fill_slot (X\<lparr>cx_net := N, cx_client := C\<rparr>) eol version key look fetch keep save =
     fill_slot X eol version key look fetch' keep save"
  by (simp add: fill_slot_def miss_v3_def cong: option.case_cong)

lemma is_cached_net [simp]: "is_cached (X\<lparr>cx_net := N, cx_client := C\<rparr>) p = is_cached X p"
  by (simp add: is_cached_def cong: option.case_cong if_cong)

lemma cache_get_pckcert_closed:
  "cx_mode X \<noteq> Lazy \<Longrightarrow>
     cache_get_pckcert (X\<lparr>cx_net := N, cx_client := C\<rparr>) qeid cpusvn pcesvn pceid enc_ppid version =
     cache_get_pckcert X qeid cpusvn pcesvn pceid enc_ppid version"
  by (simp add: cache_get_pckcert_def refetch_pool_for_new_raw_tcb_def Let_def cong: option.case_cong sum.case_cong if_cong)

text \<open>C6: outside LAZY mode a certificate or collateral request never depends on an upstream: replacing
  the network and the upstream client by any others changes neither its answer nor the state it leaves.
  In OFFLINE mode this extends to registrations and to the scheduled refresh, which is refused.\<close>

theorem closed_modes_never_fetch:
  assumes "cx_mode X \<noteq> Lazy"
    and Y_def: "Y = X\<lparr>cx_net := N, cx_client := C\<rparr>"
  shows "cache_get_pckcert Y qeid cpusvn pcesvn pceid enc_ppid version =
      cache_get_pckcert X qeid cpusvn pcesvn pceid enc_ppid version \<and>
    cache_get_tcb Y prod_type fmspc version update = cache_get_tcb X prod_type fmspc version update \<and>
    cache_get_identity Y enclave_id version update = cache_get_identity X enclave_id version update \<and>
    cache_get_pckcrl Y ca version = cache_get_pckcrl X ca version \<and>
    cache_get_rootcacrl Y version = cache_get_rootcacrl X version \<and>
    cache_get_crl Y uri version = cache_get_crl X uri version \<and>
    (cx_mode X = Offline \<longrightarrow>
       cache_register_platform Y p update = cache_register_platform X p update \<and>
       scheduled_refresh Y cfg now = scheduled_refresh X cfg now \<and>
       fst (scheduled_refresh X cfg now s) = Inl SERVICE_UNAVAILABLE)"
proof (intro conjI impI)
  note slot = cache_get_tcb_def cache_get_identity_def cache_get_pckcrl_def cache_get_rootcacrl_def cache_get_crl_def
  show "cache_get_pckcert Y qeid cpusvn pcesvn pceid enc_ppid version =
      cache_get_pckcert X qeid cpusvn pcesvn pceid enc_ppid version"
    unfolding Y_def by (rule cache_get_pckcert_closed [OF assms(1)])
  show "cache_get_tcb Y prod_type fmspc version update = cache_get_tcb X prod_type fmspc version update"
    "cache_get_identity Y enclave_id version update = cache_get_identity X enclave_id version update"
    "cache_get_pckcrl Y ca version = cache_get_pckcrl X ca version"
    "cache_get_rootcacrl Y version = cache_get_rootcacrl X version"
    "cache_get_crl Y uri version = cache_get_crl X uri version"
    unfolding Y_def slot by (simp_all add: fill_slot_closed [OF assms(1)])
  assume off: "cx_mode X = Offline"
  show "cache_register_platform Y p update = cache_register_platform X p update"
    "scheduled_refresh Y cfg now = scheduled_refresh X cfg now"
    "fst (scheduled_refresh X cfg now s) = Inl SERVICE_UNAVAILABLE"
    using off by (simp_all add: Y_def cache_register_platform_def scheduled_refresh_def Let_def case_prod_beta seq_def)
qed

theorem closed_modes_never_fetch_witness:
  "cache_get_tcb (sample_ctx Offline\<lparr>cx_net := world_net script_net\<lparr>nw_sleep := \<lambda>_ s. s\<rparr>, cx_client := sample_client\<lparr>pc_base := []\<rparr>\<rparr>)
     0 ''00606A000000'' 4 Standard = cache_get_tcb (sample_ctx Offline) 0 ''00606A000000'' 4 Standard"
proof -
  have "cx_mode (sample_ctx Offline) \<noteq> Lazy" by simp
  from closed_modes_never_fetch [OF this refl] show ?thesis by blast
qed

end
