(* ===== verification/Verifiable.thy ===== *)
theory Verifiable
  imports Fill_Guarantee
begin

text \<open>
  Collateral without its issuer chain cannot be verified by a client, so a chain-less answer of the
  upstream must never be stored. This theory states that as an invariant of the database and shows that
  every filling operation of \<^verbatim>\<open>src/cache.rs\<close> keeps it, whatever the upstream answers.
\<close>

section \<open>The invariant\<close>

text \<open>The issuer chain of the record a row holds, for the five kinds that have one.\<close>

definition chain_at :: "serde \<Rightarrow> bytes \<Rightarrow> bytes \<Rightarrow> string option" where
  "chain_at S k v =
     (if starts_with k (as_bytes TCB) then map_option tr_issuer_chain (dec (sd_tcb S) v)
      else if starts_with k (as_bytes IDENTITY) then map_option ir_issuer_chain (dec (sd_identity S) v)
      else if starts_with k (as_bytes PCKCRL) then map_option pl_issuer_chain (dec (sd_pckcrl S) v)
      else if starts_with k (as_bytes PCKCERT) then map_option pk_issuer_chain (dec (sd_pckcert S) v)
      else if starts_with k (as_bytes PLATFORM) then map_option pp_issuer_chain (dec (sd_platform S) v)
      else None)"

definition row_ok :: "serde \<Rightarrow> bytes \<Rightarrow> bytes \<Rightarrow> bool" where
  "row_ok S k v = (case chain_at S k v of Some c \<Rightarrow> cacheable c | None \<Rightarrow> True)"

definition verifiable :: "serde \<Rightarrow> kv \<Rightarrow> bool" where
  "verifiable S m \<longleftrightarrow> (\<forall>k v. m k = Some v \<longrightarrow> row_ok S k v)"

fun op_ok :: "serde \<Rightarrow> batch_op \<Rightarrow> bool" where
  "op_ok S (Put k v) = row_ok S k v"
| "op_ok S (Del k) = True"

lemma verifiable_batch:
  "verifiable S m \<Longrightarrow> list_all (op_ok S) ops \<Longrightarrow> verifiable S (apply_batch m ops)"
proof (induction ops arbitrary: m)
  case (Cons op ops)
  then have "verifiable S (apply_op m op)"
    by (cases op) (auto simp: verifiable_def split: if_splits)
  with Cons show ?case by simp
qed simp

lemma prefixes_apart [simp]:
  "starts_with (key_tcb x v f u) TCB" "starts_with (key_identity n v u) IDENTITY" "starts_with (key_pckcrl ca) PCKCRL"
  "starts_with (key_pckcert a b c d) PCKCERT" "starts_with (key_platform a b) PLATFORM"
  "\<not> starts_with (key_identity n v u) TCB"
  "\<not> starts_with (key_pckcrl ca) TCB" "\<not> starts_with (key_pckcrl ca) IDENTITY"
  "\<not> starts_with (key_pckcert a b c d) TCB" "\<not> starts_with (key_pckcert a b c d) IDENTITY"
  "\<not> starts_with (key_pckcert a b c d) PCKCRL"
  "\<not> starts_with (key_platform a b) TCB" "\<not> starts_with (key_platform a b) IDENTITY"
  "\<not> starts_with (key_platform a b) PCKCRL" "\<not> starts_with (key_platform a b) PCKCERT"
  by (simp_all add: key_defs prefix_defs starts_with_def)

lemma chainless_keys:
  "p \<in> {TCB, IDENTITY, PCKCRL, PCKCERT, PLATFORM} \<Longrightarrow> \<not> starts_with key_rootcacrl p"
  "p \<in> {TCB, IDENTITY, PCKCRL, PCKCERT, PLATFORM} \<Longrightarrow> \<not> starts_with (key_crl uri) p"
  "p \<in> {TCB, IDENTITY, PCKCRL, PCKCERT, PLATFORM} \<Longrightarrow> \<not> starts_with (key_preg q' c s p') p"
  "p \<in> {TCB, IDENTITY, PCKCRL, PCKCERT, PLATFORM} \<Longrightarrow> \<not> starts_with (fifo_count_key kind) (as_bytes p)"
  by (auto simp: key_defs prefix_defs starts_with_def fifo_count_key_def as_bytes_def)

lemma row_ok_chainless:
  "row_ok S (as_bytes key_rootcacrl) v" "row_ok S (as_bytes (key_crl uri)) v"
  "row_ok S (as_bytes (key_preg q' c s p)) v" "row_ok S (fifo_count_key kind) v"
  by (simp_all add: row_ok_def chain_at_def chainless_keys)

text \<open>A row written for a record is verifiable if the record is.\<close>

lemma row_ok_put:
  assumes "serde_ok S"
  shows "enc (sd_tcb S) t = Some v \<Longrightarrow> cacheable (tr_issuer_chain t) \<Longrightarrow> row_ok S (as_bytes (key_tcb x n f u)) v"
    and "enc (sd_identity S) i = Some v \<Longrightarrow> cacheable (ir_issuer_chain i) \<Longrightarrow> row_ok S (as_bytes (key_identity m n u)) v"
    and "enc (sd_pckcrl S) l = Some v \<Longrightarrow> cacheable (pl_issuer_chain l) \<Longrightarrow> row_ok S (as_bytes (key_pckcrl ca)) v"
    and "enc (sd_pckcert S) r = Some v \<Longrightarrow> cacheable (pk_issuer_chain r) \<Longrightarrow> row_ok S (as_bytes (key_pckcert a b c d)) v"
    and "enc (sd_platform S) p = Some v \<Longrightarrow> cacheable (pp_issuer_chain p) \<Longrightarrow> row_ok S (as_bytes (key_platform a b)) v"
  using assms by (auto simp: row_ok_def chain_at_def serde_ok_def codec_ok_def)

lemma put_json_verifiable:
  assumes "rocks_ok R view" "put_json R C db key val = Inr db'" "verifiable S (view db)"
    and "\<And>v. enc C val = Some v \<Longrightarrow> row_ok S (as_bytes key) v"
  shows "verifiable S (view db')"
  using put_json_view [OF assms(1,2)] assms(3,4) by (auto simp: verifiable_def split: if_splits)

lemma write_batch_verifiable:
  assumes "rocks_ok R view" "write_batch R db ops = Inr db'" "verifiable S (view db)"
    and "list_all (op_ok S) ops"
  shows "verifiable S (view db')"
  unfolding write_batch_view [OF assms(1,2)] by (rule verifiable_batch [OF assms(3,4)])

lemma stored_pool_chain:
  assumes "rocks_ok R view" "verifiable S (view db)" "get_platform_pool R S db a b = Some pool"
  shows "cacheable (pp_issuer_chain pool)"
proof -
  have "read_json R (sd_platform S) db (key_platform a b) = Some pool"
    using assms(3) by (auto simp: get_platform_pool_def split: option.splits if_splits)
  from read_json_view [OF assms(1) this]
  obtain v where "view db (as_bytes (key_platform a b)) = Some v" "dec (sd_platform S) v = Some pool"
    by blast
  moreover from this(1) have "row_ok S (as_bytes (key_platform a b)) v"
    using assms(2) by (auto simp: verifiable_def)
  ultimately show ?thesis by (simp add: row_ok_def chain_at_def)
qed

section \<open>Every write keeps it\<close>

lemma batch_op_ok:
  assumes "serde_ok S"
  shows "batch_pckcert S r = Inr op \<Longrightarrow> cacheable (pk_issuer_chain r) \<Longrightarrow> op_ok S op"
    and "put_op (sd_platform S) (key_platform a b) p = Inr op \<Longrightarrow> cacheable (pp_issuer_chain p) \<Longrightarrow> op_ok S op"
    and "tcb_op S t = Inr op \<Longrightarrow> cacheable (tr_issuer_chain t) \<Longrightarrow> op_ok S op"
  using row_ok_put [OF assms] by (auto simp: batch_pckcert_def tcb_op_def put_op_Inr)

lemma try_map_ops: "try_map f xs = Inr ops \<Longrightarrow> op \<in> set ops \<Longrightarrow> \<exists>x\<in>set xs. f x = Inr op"
  by (induction xs arbitrary: ops) auto

lemma reselect_ops:
  "reselect S select raws = Inr (raws', ops) \<Longrightarrow> op \<in> set ops \<Longrightarrow>
   \<exists>raw r. select raw = Inr r \<and> batch_pckcert S r = Inr op"
  by (induction raws arbitrary: raws' ops) (auto split: prod.splits, blast)

lemma replace_verifiable:
  assumes ok: "rocks_ok R view" "serde_ok S"
    and run: "replace_platform_certs_after_fetch R S db pool pub tcbs sel
      (\<lambda>fresh raw. select_from_pool_with_tcb E fresh (rt_cpu_svn raw) (rt_pce_svn raw) (pid fresh) tcb) = Inr db'"
    and pool: "cacheable (pp_issuer_chain pool)" "list_all (\<lambda>t. cacheable (tr_issuer_chain t)) tcbs"
      "pred_option (of_pool pool) sel"
    and v: "verifiable S (view db)"
  shows "verifiable S (view db')"
proof -
  from run obtain raws ops raws' ops' tops op where
    re: "reselect S (\<lambda>raw. select_from_pool_with_tcb E pool (rt_cpu_svn raw) (rt_pce_svn raw) (pid pool) tcb)
      (unwrap_or [] (map_option pp_raw_tcbs (get_platform_pool R S db (pp_qe_id pool) (pp_pce_id pool)))) = Inr (raws, ops)"
    and sel: "case sel of None \<Rightarrow> raws' = raws \<and> ops' = ops
         | Some r \<Rightarrow> \<exists>op. batch_pckcert S r = Inr op \<and> raws' = add_raw r raws \<and> ops' = ops @ [op]"
    and tops: "try_map (tcb_op S) tcbs = Inr tops"
    and op: "put_op (sd_platform S) (key_platform (pp_qe_id pool) (pp_pce_id pool)) (pool\<lparr>pp_raw_tcbs := raws'\<rparr>) = Inr op"
    and w: "write_batch R db ((ops' @ tops) @ [op]) = Inr db'"
    by (rule replace_after_fetch_Inr)
  have chain: "cacheable (pk_issuer_chain r)" if "of_pool pool r" for r
    using that pool(1) by (simp add: of_pool_def)
  have re_ok: "op_ok S o'" if "o' \<in> set ops" for o'
    using reselect_ops [OF re that] by (auto intro: batch_op_ok(1) [OF ok(2)] chain select_of_pool)
  have "op_ok S o'" if "o' \<in> set ops'" for o'
    using that sel pool(3) re_ok batch_op_ok(1) [OF ok(2)] chain by (cases sel) auto
  moreover have "op_ok S o'" if "o' \<in> set tops" for o'
    using try_map_ops [OF tops that] pool(2) batch_op_ok(3) [OF ok(2)] by (auto simp: list_all_iff)
  moreover have "op_ok S op"
    using batch_op_ok(2) [OF ok(2) op] pool(1) by simp
  ultimately show ?thesis
    by (intro write_batch_verifiable [OF ok(1) w v]) (auto simp: list_all_iff)
qed

lemma merge_verifiable:
  assumes ok: "rocks_ok R view" "serde_ok S"
    and run: "merge_pckcert_after_fetch R S E db r pub = Inr db'"
    and chain: "cacheable (pk_issuer_chain r)" and v: "verifiable S (view db)"
  shows "verifiable S (view db')"
proof -
  let ?m = "merged_pool (get_platform_pool R S db (pk_qeid r) (pk_pceid r)) r"
  have m: "pp_issuer_chain ?m = pk_issuer_chain r" by (simp add: merged_pool_def Let_def)
  from run obtain ops op1 op2 where
    cached: "cached_ops R S db ?m r = Inr ops"
    and op1: "batch_pckcert S (r\<lparr>pk_encrypted_ppid := opt_nonempty (pp_enc_ppid ?m),
                            pk_platform_manifest := pp_platform_manifest ?m\<rparr>) = Inr op1"
    and op2: "put_op (sd_platform S) (key_platform (pp_qe_id ?m) (pp_pce_id ?m))
           (?m\<lparr>pp_raw_tcbs := add_raw r (pp_raw_tcbs ?m)\<rparr>) = Inr op2"
    and w: "write_batch R db (ops @ [op1, op2]) = Inr db'"
    by (rule merge_Inr)
  have "op_ok S o'" if "o' \<in> set ops" for o'
    using try_map_ops [OF cached [unfolded cached_ops_def] that]
    by (auto intro!: batch_op_ok(1) [OF ok(2)] simp: refresh_cached_def Let_def m chain)
  moreover have "op_ok S op1" "op_ok S op2"
    using batch_op_ok(1) [OF ok(2) op1] batch_op_ok(2) [OF ok(2) op2] m chain by simp_all
  ultimately show ?thesis
    by (intro write_batch_verifiable [OF ok(1) w v]) (auto simp: list_all_iff)
qed

lemma select_verifiable:
  assumes ok: "rocks_ok R view" "serde_ok S"
    and run: "select_platform_cert R S db qeid pceid True select = Inr (r, db')"
    and sel: "\<And>pool r. select pool = Inr r \<Longrightarrow> of_pool pool r" and v: "verifiable S (view db)"
  shows "verifiable S (view db')"
proof -
  from run obtain pool op1 op2 where pool: "get_platform_pool R S db qeid pceid = Some pool"
    and s: "select pool = Inr r" and op1: "batch_pckcert S r = Inr op1"
    and op2: "put_op (sd_platform S) (key_platform qeid pceid) (pool\<lparr>pp_raw_tcbs := add_raw r (pp_raw_tcbs pool)\<rparr>) = Inr op2"
    and w: "write_batch R db [op1, op2] = Inr db'"
    by (auto simp: select_platform_cert_def Let_def ok_or_def split: option.splits)
  have "cacheable (pp_issuer_chain pool)" by (rule stored_pool_chain [OF ok(1) v pool])
  moreover from this have "cacheable (pk_issuer_chain r)" using sel [OF s] by (simp add: of_pool_def)
  ultimately have "op_ok S op1" "op_ok S op2"
    using batch_op_ok(1) [OF ok(2) op1] batch_op_ok(2) [OF ok(2) op2] by simp_all
  then show ?thesis by (intro write_batch_verifiable [OF ok(1) w v]) (auto simp: list_all_iff)
qed

lemma single_verifiable:
  assumes "rocks_ok R view" "serde_ok S" "verifiable S (view db)"
  shows "put_tcb R S db t = Inr db' \<Longrightarrow> cacheable (tr_issuer_chain t) \<Longrightarrow> verifiable S (view db')"
    and "put_identity R S db i = Inr db' \<Longrightarrow> cacheable (ir_issuer_chain i) \<Longrightarrow> verifiable S (view db')"
    and "put_pckcrl R S db l = Inr db' \<Longrightarrow> cacheable (pl_issuer_chain l) \<Longrightarrow> verifiable S (view db')"
    and "put_rootcacrl R S db b = Inr db' \<Longrightarrow> verifiable S (view db')"
    and "put_crl R S db uri b = Inr db' \<Longrightarrow> verifiable S (view db')"
    and "register_platform R S db p = Inr db' \<Longrightarrow> verifiable S (view db')"
    and "delete_registered R db p = Inr db' \<Longrightarrow> verifiable S (view db')"
  unfolding put_tcb_def put_identity_def put_pckcrl_def put_rootcacrl_def put_crl_def register_platform_def Let_def
  using rocks_okD(4) [OF assms(1)] assms(3)
  by (auto elim!: put_json_verifiable [OF assms(1) _ assms(3)] intro: row_ok_put [OF assms(2)] row_ok_chainless)
     (auto simp: delete_registered_def Let_def verifiable_def split: if_splits)

lemma unindex_ops: "list_all (op_ok S) (fst (unindex R db kind entry))"
  by (auto simp: unindex_def split: sum.splits option.splits)

lemma sweep_loop_ops:
  "sweep_loop R db dead pre kind batch n u xs = Inr (batch', n', u') \<Longrightarrow> list_all (op_ok S) batch \<Longrightarrow>
   list_all (op_ok S) batch'"
proof (induction R db dead pre kind batch n u xs rule: sweep_loop.induct)
  case (3 R db dead pre kind batch swept unindexed k v rest)
  obtain ops indexed where u: "(case kind of Some kd \<Rightarrow> unindex R db kd k | None \<Rightarrow> ([], False)) = (ops, indexed)"
    by fastforce
  have "list_all (op_ok S) ops"
    using u unindex_ops [of S R db "the kind" k] by (cases kind) auto
  with 3 u show ?case by (auto split: if_splits)
qed auto

lemma sweep_verifiable:
  assumes "rocks_ok R view" "verifiable S (view db)"
  shows "verifiable S (view (swept db (sweep_prefix R C db pre expired)))"
proof (cases "sweep_prefix R C db pre expired")
  case (Inr x)
  obtain n db' where x: "x = (n, db')" by fastforce
  let ?kind = "find (\<lambda>kind. kind = pre) BOUNDED_KINDS"
  from Inr obtain batch unindexed where
    l: "sweep_loop R db (is_dead C expired) (as_bytes pre) ?kind [] 0 0 (rk_iter R db (as_bytes pre)) = Inr (batch, n, unindexed)"
    and db': "if n > 0 then write_batch R db (batch @
                     (case opt_filter (\<lambda>_. unindexed > 0) ?kind of
                        Some kd \<Rightarrow>
                          [Put (fifo_count_key kd)
                             (to_be_bytes (saturating_sub (readthrough_count R db kd) unindexed))]
                      | None \<Rightarrow> [])) = Inr db' else db' = db"
    unfolding x sweep_prefix_def Let_def by (auto split: if_splits)
  have ops: "list_all (op_ok S) (batch @ (case opt_filter (\<lambda>_. unindexed > 0) ?kind of
                        Some kd \<Rightarrow>
                          [Put (fifo_count_key kd)
                             (to_be_bytes (saturating_sub (readthrough_count R db kd) unindexed))]
                      | None \<Rightarrow> []))"
    using sweep_loop_ops [OF l] by (auto simp: row_ok_chainless split: option.splits)
  have "verifiable S (view db')"
    using db' write_batch_verifiable [OF assms(1) _ assms(2) ops] assms(2) by (cases "n > 0") simp_all
  then show ?thesis using Inr x by (simp add: swept_def)
qed (simp add: swept_def assms(2))

section \<open>Every operation keeps it\<close>

definition env_keeps :: "('db, 'w) ctx \<Rightarrow> ('db \<Rightarrow> bool) \<Rightarrow> bool" where
  "env_keeps X P \<longleftrightarrow>
     (\<forall>s. P (db_of s) \<longrightarrow> P (db_of (cx_env X s))) \<and>
     (\<forall>key s. P (db_of s) \<longrightarrow> P (db_of (cx_lock X key s))) \<and>
     (\<forall>d s. P (db_of s) \<longrightarrow> P (db_of (nw_sleep (cx_net X) d s))) \<and>
     (\<forall>rq s. P (db_of s) \<longrightarrow> P (db_of (snd (nw_exchange (cx_net X) rq s)))) \<and>
     (\<forall>s t. cx_cut X s = Some t \<longrightarrow> P (db_of s) \<longrightarrow> P (db_of t))"

lemma verifiable_writes:
  assumes ok: "rocks_ok (cx_rocks X) view" "serde_ok (cx_serde X)"
    and env: "env_keeps X (\<lambda>db. verifiable (cx_serde X) (view db))"
  shows "fill_writes X (\<lambda>a b. verifiable (cx_serde X) (view a) \<longrightarrow> verifiable (cx_serde X) (view b))"
proof (unfold_locales, goal_cases)
  case (8 db t db')
  then show ?case using single_verifiable(1) [OF ok] by blast
next
  case (9 db i db')
  then show ?case using single_verifiable(2) [OF ok] by blast
next
  case (10 db l db')
  then show ?case using single_verifiable(3) [OF ok] by blast
next
  case (11 db b db')
  then show ?case using single_verifiable(4) [OF ok] by blast
next
  case (12 db uri b db')
  then show ?case using single_verifiable(5) [OF ok] by blast
next
  case (16 db p db')
  then show ?case using single_verifiable(6) [OF ok] by blast
next
  case (17 db p db')
  then show ?case using single_verifiable(7) [OF ok] by blast
next
  case (13 db qeid pceid cpusvn pcesvn r db')
  have "of_pool pool r" if "select_from_pool X db pool cpusvn pcesvn pceid = Inr r" for pool r
    using that by (auto simp: select_from_pool_def intro: select_of_pool split: if_splits)
  with select_verifiable [OF ok 13] show ?case by blast
next
  case (14 db pool pub tcbs sel pid tcb db')
  then show ?case using replace_verifiable [OF ok 14(1)] by (simp add: fresh_pool_def)
next
  case (15 db r pub db')
  then show ?case using merge_verifiable [OF ok 15(1)] by blast
next
  case (18 c cfg now)
  then show ?case by (auto simp: sweep_expired_def Let_def intro!: sweep_verifiable [OF ok(1)])
qed (use env in \<open>auto simp: env_keeps_def\<close>)

definition after :: "('db, 'w, 'a) op \<Rightarrow> ('db, 'w) sys \<Rightarrow> 'db" where
  "after m s = db_of (snd (m s))"

text \<open>C5: no chain-less collateral is ever stored. If every row with an issuer chain has a non-blank one,
  and the other requests keep it so, then it is still so after each certificate, TCB info, identity and
  CRL request, each registration, and each refresh, in every mode and whatever the upstream answers.\<close>

theorem collateral_stays_verifiable:
  assumes "rocks_ok (cx_rocks X) view" "serde_ok (cx_serde X)"
    and "env_keeps X (\<lambda>db. verifiable (cx_serde X) (view db))" "verifiable (cx_serde X) (view (db_of s))"
  shows "verifiable (cx_serde X) (view (after (cache_get_pckcert X qeid cpusvn pcesvn pceid enc_ppid version) s)) \<and>
    verifiable (cx_serde X) (view (after (cache_get_tcb X prod_type fmspc version update) s)) \<and>
    verifiable (cx_serde X) (view (after (cache_get_identity X enclave_id version update) s)) \<and>
    verifiable (cx_serde X) (view (after (cache_get_pckcrl X ca version) s)) \<and>
    verifiable (cx_serde X) (view (after (cache_get_rootcacrl X version) s)) \<and>
    verifiable (cx_serde X) (view (after (cache_get_crl X uri version) s)) \<and>
    verifiable (cx_serde X) (view (after (cache_register_platform X p update) s)) \<and>
    verifiable (cx_serde X) (view (after (refresh_collateral X) s)) \<and>
    verifiable (cx_serde X) (view (after (refresh_certs X fmspc) s)) \<and>
    verifiable (cx_serde X) (view (after (scheduled_refresh X cfg now) s))"
  using fill_writes.operations_ok [OF verifiable_writes [OF assms(1-3)]] assms(4)
  unfolding guarantees_def after_def by simp

lemma sample_env_keeps: "env_keeps (sample_ctx m) P"
  by (simp add: env_keeps_def)

theorem collateral_stays_verifiable_witness:
  "verifiable empty_serde (map_of (after (cache_get_pckcrl (sample_ctx Lazy) ''PLATFORM'' 4)
     (sample_sys [] [Answer 200 Map.empty (Some [1])])))"
proof -
  have "verifiable empty_serde (map_of (db_of (sample_sys [] [Answer 200 Map.empty (Some [1])])))"
    by (simp add: verifiable_def)
  with collateral_stays_verifiable [of "sample_ctx Lazy" map_of] sample_env_keeps show ?thesis
    by (simp add: mem_rocks_ok empty_serde_ok)
qed

interpretation verifiable_solo: fill_writes "solo N (X\<lparr>cx_rocks := mem_rocks, cx_serde := pck_serde\<rparr>)"
  "\<lambda>a b. verifiable pck_serde (map_of a) \<longrightarrow> verifiable pck_serde (map_of b)" for N X
  using verifiable_writes [of "solo N (X\<lparr>cx_rocks := mem_rocks, cx_serde := pck_serde\<rparr>)" map_of]
  by (simp add: mem_rocks_ok pck_serde_ok env_keeps_def)

end
