(* ===== verification/Metrics.thy ===== *)
theory Metrics
  imports Pcs
begin

text \<open>
  \<^verbatim>\<open>src/metrics.rs\<close>: the process-local Prometheus registry. A counter is a 64-bit word that wraps as
  \<open>fetch_add\<close> does. Every cell is loaded at most once by a scrape, so a scrape that races recordings prints
  some value of the registry record, if not one the registry ever had as a whole; facts about \<open>render\<close> of an
  arbitrary registry cover it. A \<open>Duration\<close> is its number of nanoseconds. Floating-point formatting is that
  of Rust (\<open>float_format\<close>); nothing is assumed of it.
\<close>

section \<open>Labels\<close>

datatype kind =
    K_Pckcert | K_Pckcrl | K_SgxTcb | K_TdxTcb | K_QeIdentity | K_QveIdentity | K_TdqeIdentity
  | K_Rootcacrl | K_Crl | K_AmdKds | K_NvidiaRim | K_NvidiaOcsp

definition kind_ALL :: "kind list" where
  "kind_ALL =
     [K_Pckcert, K_Pckcrl, K_SgxTcb, K_TdxTcb, K_QeIdentity, K_QveIdentity, K_TdqeIdentity,
      K_Rootcacrl, K_Crl, K_AmdKds, K_NvidiaRim, K_NvidiaOcsp]"

fun kind_str :: "kind \<Rightarrow> string" where
  "kind_str K_Pckcert = ''pckcert''"
| "kind_str K_Pckcrl = ''pckcrl''"
| "kind_str K_SgxTcb = ''sgx_tcb''"
| "kind_str K_TdxTcb = ''tdx_tcb''"
| "kind_str K_QeIdentity = ''qe_identity''"
| "kind_str K_QveIdentity = ''qve_identity''"
| "kind_str K_TdqeIdentity = ''tdqe_identity''"
| "kind_str K_Rootcacrl = ''rootcacrl''"
| "kind_str K_Crl = ''crl''"
| "kind_str K_AmdKds = ''amd_kds''"
| "kind_str K_NvidiaRim = ''nvidia_rim''"
| "kind_str K_NvidiaOcsp = ''nvidia_ocsp''"

datatype cache_result =
    C_Hit | C_Miss | C_Expired | C_RecentFailure | C_RecentNon200 | C_LocalSelect

definition cache_result_ALL :: "cache_result list" where
  "cache_result_ALL =
     [C_Hit, C_Miss, C_Expired, C_RecentFailure, C_RecentNon200, C_LocalSelect]"

fun cache_result_str :: "cache_result \<Rightarrow> string" where
  "cache_result_str C_Hit = ''hit''"
| "cache_result_str C_Miss = ''miss''"
| "cache_result_str C_Expired = ''expired''"
| "cache_result_str C_RecentFailure = ''recent_failure''"
| "cache_result_str C_RecentNon200 = ''recent_non200''"
| "cache_result_str C_LocalSelect = ''local_select''"

definition upstream_ALL :: "upstream_service list" where
  "upstream_ALL =
     [IntelPcs, IntelCerts, AmdKds, NvidiaRim, NvidiaOcsp, NvidiaNras, Pccs]"

fun upstream_str :: "upstream_service \<Rightarrow> string" where
  "upstream_str IntelPcs = ''intel_pcs''"
| "upstream_str IntelCerts = ''intel_certs''"
| "upstream_str AmdKds = ''amd_kds''"
| "upstream_str NvidiaRim = ''nvidia_rim''"
| "upstream_str NvidiaOcsp = ''nvidia_ocsp''"
| "upstream_str NvidiaNras = ''nvidia_nras''"
| "upstream_str Pccs = ''pccs''"

datatype upstream_status =
    S_200 | S_404 | S_429 | S_503 | S_Other4xx | S_Other5xx | S_Timeout | S_Error | S_Other

definition upstream_status_ALL :: "upstream_status list" where
  "upstream_status_ALL =
     [S_200, S_404, S_429, S_503, S_Other4xx, S_Other5xx, S_Timeout, S_Error, S_Other]"

fun upstream_status_str :: "upstream_status \<Rightarrow> string" where
  "upstream_status_str S_200 = ''200''"
| "upstream_status_str S_404 = ''404''"
| "upstream_status_str S_429 = ''429''"
| "upstream_status_str S_503 = ''503''"
| "upstream_status_str S_Other4xx = ''other_4xx''"
| "upstream_status_str S_Other5xx = ''other_5xx''"
| "upstream_status_str S_Timeout = ''timeout''"
| "upstream_status_str S_Error = ''error''"
| "upstream_status_str S_Other = ''other''"

definition from_status :: "nat \<Rightarrow> upstream_status" where
  "from_status status =
     (if status = 200 then S_200 else if status = 404 then S_404 else if status = 429 then S_429
      else if status = 503 then S_503 else if 400 \<le> status \<and> status \<le> 499 then S_Other4xx
      else if 500 \<le> status \<and> status \<le> 599 then S_Other5xx else S_Other)"

text \<open>The discriminant of a variant: its place in \<open>ALL\<close>.\<close>

definition place :: "'a list \<Rightarrow> 'a \<Rightarrow> nat" where
  "place xs x = length (takeWhile (\<lambda>y. y \<noteq> x) xs)"

abbreviation kind_ix :: "kind \<Rightarrow> nat" where "kind_ix \<equiv> place kind_ALL"
abbreviation cache_result_ix :: "cache_result \<Rightarrow> nat" where "cache_result_ix \<equiv> place cache_result_ALL"
abbreviation upstream_ix :: "upstream_service \<Rightarrow> nat" where "upstream_ix \<equiv> place upstream_ALL"
abbreviation upstream_status_ix :: "upstream_status \<Rightarrow> nat" where "upstream_status_ix \<equiv> place upstream_status_ALL"

definition ROUTES :: "string list" where
  "ROUTES =
     [''/sgx/certification/v3/platforms'', ''/sgx/certification/v3/platformcollateral'',
      ''/sgx/certification/v3/refresh'', ''/sgx/certification/v3/appraisalpolicy'',
      ''/sgx/certification/v3/pckcert'', ''/sgx/certification/v3/pckcrl'',
      ''/sgx/certification/v3/tcb'', ''/sgx/certification/v3/qe/identity'',
      ''/sgx/certification/v3/qve/identity'', ''/sgx/certification/v3/rootcacrl'',
      ''/sgx/certification/v3/crl'', ''/sgx/certification/v4/platforms'',
      ''/sgx/certification/v4/platformcollateral'', ''/sgx/certification/v4/refresh'',
      ''/sgx/certification/v4/appraisalpolicy'', ''/sgx/certification/v4/pckcert'',
      ''/sgx/certification/v4/pckcrl'', ''/sgx/certification/v4/tcb'',
      ''/sgx/certification/v4/qe/identity'', ''/sgx/certification/v4/qve/identity'',
      ''/sgx/certification/v4/rootcacrl'', ''/sgx/certification/v4/crl'',
      ''/tdx/certification/v4/tcb'', ''/tdx/certification/v4/qe/identity'', ''/healthz/live'',
      ''/healthz/ready'', ''/healthz/startup'', ''/vcek/{*rest}'', ''/vlek/{*rest}'',
      ''/v1/rim/{*rest}'', ''/ocsp'', ''/nvidia/nras/attest/gpu'', ''/metrics'', ''unmatched'']"

definition STATUS_CLASSES :: "string list" where
  "STATUS_CLASSES = [''2xx'', ''3xx'', ''4xx'', ''5xx'', ''other'']"

definition BUCKET_NANOS :: "nat list" where
  "BUCKET_NANOS =
     [50000, 100000, 250000, 500000, 1000000, 2500000, 5000000, 10000000, 50000000, 100000000,
      500000000, 1000000000, 5000000000, 30000000000, 60000000000]"

definition BUCKET_LABELS :: "string list" where
  "BUCKET_LABELS =
     [''0.00005'', ''0.0001'', ''0.00025'', ''0.0005'', ''0.001'', ''0.0025'', ''0.005'', ''0.01'',
      ''0.05'', ''0.1'', ''0.5'', ''1'', ''5'', ''30'', ''60'', ''+Inf'']"

definition route_index :: "string \<Rightarrow> nat" where
  "route_index route = (if route \<in> set ROUTES then place ROUTES route else length ROUTES - 1)"

section \<open>Text\<close>

record float_format =
  ff_seconds :: "u64 \<Rightarrow> string"
  ff_bits :: "u64 \<Rightarrow> string"
  ff_to_bits :: "nat \<Rightarrow> u64"
  ff_millis :: "nat \<Rightarrow> string"

definition newline :: string where
  "newline = [CHR 0x0A]"

fun escape_char :: "char \<Rightarrow> string" where
  "escape_char ch =
     (if ch = CHR 0x5C then [CHR 0x5C, CHR 0x5C] else if ch = CHR 0x22 then [CHR 0x5C, CHR 0x22]
      else if ch = CHR 0x0A then [CHR 0x5C, CHR ''n''] else [ch])"

fun label_pair :: "string \<times> string \<Rightarrow> string" where
  "label_pair (key, val) = key @ ''='' @ [CHR 0x22] @ concat (map escape_char val) @ [CHR 0x22]"

fun comma_separated :: "string list \<Rightarrow> string" where
  "comma_separated [] = []"
| "comma_separated [x] = x"
| "comma_separated (x # y # xs) = x @ '','' @ comma_separated (y # xs)"

text \<open>Each function that writes to \<open>out\<close> is the text it appends.\<close>

definition render_labels :: "(string \<times> string) list \<Rightarrow> (string \<times> string) option \<Rightarrow> string" where
  "render_labels labels extra =
     (if labels = [] \<and> extra = None then []
      else ''{'' @ comma_separated (map label_pair (labels @ (case extra of None \<Rightarrow> [] | Some l \<Rightarrow> [l]))) @ ''}'')"

definition word_string :: "u64 \<Rightarrow> string" where
  "word_string n = dec_string (unat n)"

definition sample :: "string \<Rightarrow> (string \<times> string) list \<Rightarrow> u64 \<Rightarrow> string" where
  "sample name labels val = name @ render_labels labels None @ '' '' @ word_string val @ newline"

definition family :: "string \<Rightarrow> string \<Rightarrow> string \<Rightarrow> string" where
  "family name ty help = ''# HELP '' @ name @ '' '' @ help @ newline @ ''# TYPE '' @ name @ '' '' @ ty @ newline"

section \<open>Histograms\<close>

record histogram =
  hi_buckets :: "u64 list"
  hi_sum_nanos :: u64
  hi_count :: u64

definition new_histogram :: histogram where
  "new_histogram = \<lparr>hi_buckets = replicate 16 0, hi_sum_nanos = 0, hi_count = 0\<rparr>"

definition partition_point :: "('a \<Rightarrow> bool) \<Rightarrow> 'a list \<Rightarrow> nat" where
  "partition_point p xs = length (takeWhile p xs)"

definition incr :: "nat \<Rightarrow> u64 list \<Rightarrow> u64 list" where
  "incr i xs = xs[i := xs ! i + 1]"

definition observe :: "nat \<Rightarrow> histogram \<Rightarrow> histogram" where
  "observe duration h =
     (let bucket = partition_point (\<lambda>bound. duration > bound) BUCKET_NANOS
      in h\<lparr>hi_buckets := incr bucket (hi_buckets h),
           hi_sum_nanos := hi_sum_nanos h + of_nat (min duration (2 ^ 64 - 1)),
           hi_count := hi_count h + 1\<rparr>)"

definition sat_add :: "u64 \<Rightarrow> u64 \<Rightarrow> u64" where
  "sat_add a b = (if unat a + unat b < 2 ^ 64 then a + b else - 1)"

text \<open>The bucket loop: its text and the last cumulative value.\<close>

fun render_buckets :: "string \<Rightarrow> (string \<times> string) list \<Rightarrow> (u64 \<times> string) list \<Rightarrow> u64 \<Rightarrow> string \<times> u64" where
  "render_buckets name labels [] cumulative = ([], cumulative)"
| "render_buckets name labels ((bucket, le) # rest) cumulative =
     (let cumulative = sat_add cumulative bucket;
          line = name @ ''_bucket'' @ render_labels labels (Some (''le'', le)) @ '' '' @ word_string cumulative @ newline
      in case render_buckets name labels rest cumulative of (out, c) \<Rightarrow> (line @ out, c))"

definition hist_render :: "float_format \<Rightarrow> string \<Rightarrow> (string \<times> string) list \<Rightarrow> histogram \<Rightarrow> string" where
  "hist_render F name labels h =
     (if hi_count h = 0 then []
      else case render_buckets name labels (zip (hi_buckets h) BUCKET_LABELS) 0 of
             (out, cumulative) \<Rightarrow>
               out @ name @ ''_sum'' @ render_labels labels None @ '' '' @ ff_seconds F (hi_sum_nanos h) @ newline @
               name @ ''_count'' @ render_labels labels None @ '' '' @ word_string cumulative @ newline)"

section \<open>The registry\<close>

record metrics =
  me_process_start :: u64
  me_cache :: "u64 list"
  me_store :: "histogram list"
  me_singleflight :: "histogram list"
  me_upstream :: "u64 list"
  me_upstream_duration :: "histogram list"
  me_throttled :: "u64 list"
  me_permit :: histogram
  me_inflight :: u64
  me_refresh_runs :: "u64 list"
  me_refresh_items :: "u64 list"
  me_refresh_last_success :: u64
  me_refresh_last_duration :: u64
  me_http :: "u64 list"
  me_http_duration :: "histogram list"

text \<open>\<open>Metrics::default\<close>; \<open>now\<close> is the clock in seconds.\<close>

definition new_metrics :: "u64 \<Rightarrow> metrics" where
  "new_metrics now =
     \<lparr>me_process_start = now,
      me_cache = replicate (length kind_ALL * length cache_result_ALL) 0,
      me_store = replicate (length kind_ALL) new_histogram,
      me_singleflight = replicate (length kind_ALL) new_histogram,
      me_upstream = replicate (length upstream_ALL * length upstream_status_ALL) 0,
      me_upstream_duration = replicate (length upstream_ALL) new_histogram,
      me_throttled = replicate (length upstream_ALL) 0,
      me_permit = new_histogram,
      me_inflight = 0,
      me_refresh_runs = replicate 2 0,
      me_refresh_items = replicate (length kind_ALL * 2) 0,
      me_refresh_last_success = 0,
      me_refresh_last_duration = 0,
      me_http = replicate (length ROUTES * length STATUS_CLASSES) 0,
      me_http_duration = replicate (length ROUTES) new_histogram\<rparr>"

section \<open>Request timing\<close>

datatype timing_stage = T_Store | T_Lock | T_Upstream

record timing =
  ti_store :: nat
  ti_lock :: nat
  ti_upstream :: nat
  ti_cache :: "cache_result option"

definition default_timing :: timing where
  "default_timing = \<lparr>ti_store = 0, ti_lock = 0, ti_upstream = 0, ti_cache = None\<rparr>"

definition DURATION_MAX :: nat where
  "DURATION_MAX = 2 ^ 64 * 1000000000 - 1"

definition duration_add :: "nat \<Rightarrow> nat \<Rightarrow> nat" where
  "duration_add a b = min (a + b) DURATION_MAX"

text \<open>The task-local \<open>TIMING\<close> is \<open>None\<close> outside a timed request.\<close>

definition timing_add :: "timing_stage \<Rightarrow> nat \<Rightarrow> timing option \<Rightarrow> timing option" where
  "timing_add stage duration =
     map_option (\<lambda>t.
       case stage of
         T_Store \<Rightarrow> t\<lparr>ti_store := duration_add (ti_store t) duration\<rparr>
       | T_Lock \<Rightarrow> t\<lparr>ti_lock := duration_add (ti_lock t) duration\<rparr>
       | T_Upstream \<Rightarrow> t\<lparr>ti_upstream := duration_add (ti_upstream t) duration\<rparr>)"

definition timing_cache :: "cache_result \<Rightarrow> timing option \<Rightarrow> timing option" where
  "timing_cache result = map_option (\<lambda>t. t\<lparr>ti_cache := Some result\<rparr>)"

section \<open>Recording\<close>

definition observe_at :: "nat \<Rightarrow> nat \<Rightarrow> histogram list \<Rightarrow> histogram list" where
  "observe_at i duration hs = hs[i := observe duration (hs ! i)]"

type_synonym recording = "metrics \<times> timing option \<Rightarrow> metrics \<times> timing option"

definition cache_lookup :: "kind \<Rightarrow> cache_result \<Rightarrow> recording" where
  "cache_lookup kind result = (\<lambda>(m, t).
     (m\<lparr>me_cache := incr (kind_ix kind * length cache_result_ALL + cache_result_ix result) (me_cache m)\<rparr>,
      timing_cache result t))"

definition store_read :: "kind \<Rightarrow> nat \<Rightarrow> recording" where
  "store_read kind duration = (\<lambda>(m, t).
     (m\<lparr>me_store := observe_at (kind_ix kind) duration (me_store m)\<rparr>, timing_add T_Store duration t))"

definition singleflight_wait :: "kind \<Rightarrow> nat \<Rightarrow> recording" where
  "singleflight_wait kind duration = (\<lambda>(m, t).
     (m\<lparr>me_singleflight := observe_at (kind_ix kind) duration (me_singleflight m)\<rparr>, timing_add T_Lock duration t))"

definition upstream_attempt :: "upstream_service \<Rightarrow> upstream_status \<Rightarrow> nat \<Rightarrow> recording" where
  "upstream_attempt upstream status duration = (\<lambda>(m, t).
     (m\<lparr>me_upstream :=
          incr (upstream_ix upstream * length upstream_status_ALL + upstream_status_ix status) (me_upstream m),
        me_upstream_duration := observe_at (upstream_ix upstream) duration (me_upstream_duration m)\<rparr>,
      timing_add T_Upstream duration t))"

definition upstream_throttled :: "upstream_service \<Rightarrow> recording" where
  "upstream_throttled upstream = (\<lambda>(m, t). (m\<lparr>me_throttled := incr (upstream_ix upstream) (me_throttled m)\<rparr>, t))"

definition permit_wait :: "nat \<Rightarrow> recording" where
  "permit_wait duration = (\<lambda>(m, t).
     (m\<lparr>me_permit := observe duration (me_permit m)\<rparr>, timing_add T_Upstream duration t))"

definition inflight_add :: recording where
  "inflight_add = (\<lambda>(m, t). (m\<lparr>me_inflight := me_inflight m + 1\<rparr>, t))"

definition inflight_sub :: recording where
  "inflight_sub = (\<lambda>(m, t). (m\<lparr>me_inflight := if me_inflight m = 0 then 0 else me_inflight m - 1\<rparr>, t))"

definition refresh_run :: "float_format \<Rightarrow> u64 \<Rightarrow> bool \<Rightarrow> nat \<Rightarrow> recording" where
  "refresh_run F now success duration = (\<lambda>(m, t).
     (m\<lparr>me_refresh_runs := incr (if success then 1 else 0) (me_refresh_runs m),
        me_refresh_last_duration := ff_to_bits F duration,
        me_refresh_last_success := if success then now else me_refresh_last_success m\<rparr>, t))"

definition refresh_item :: "kind \<Rightarrow> bool \<Rightarrow> recording" where
  "refresh_item kind success = (\<lambda>(m, t).
     (m\<lparr>me_refresh_items := incr (kind_ix kind * 2 + (if success then 1 else 0)) (me_refresh_items m)\<rparr>, t))"

definition status_class :: "nat \<Rightarrow> nat" where
  "status_class status =
     (if 200 \<le> status \<and> status \<le> 299 then 0 else if 300 \<le> status \<and> status \<le> 399 then 1
      else if 400 \<le> status \<and> status \<le> 499 then 2 else if 500 \<le> status \<and> status \<le> 599 then 3 else 4)"

definition http_request :: "string \<Rightarrow> nat \<Rightarrow> nat \<Rightarrow> recording" where
  "http_request route status duration = (\<lambda>(m, t).
     (m\<lparr>me_http := incr (route_index route * length STATUS_CLASSES + status_class status) (me_http m),
        me_http_duration := observe_at (route_index route) duration (me_http_duration m)\<rparr>, t))"

section \<open>The scrape\<close>

text \<open>\<open>render\<close>, one definition per run of families.\<close>

definition render_cache :: "metrics \<Rightarrow> string" where
  "render_cache m =
     family ''process_start_time_seconds'' ''gauge'' ''Unix timestamp when this metrics registry started.'' @
     sample ''process_start_time_seconds'' [] (me_process_start m) @
     family ''pccs_build_info'' ''gauge'' ''Build version information.'' @
     sample ''pccs_build_info'' [(''version'', ''0.4.5'')] 1 @
     family ''pccs_cache_lookups_total'' ''counter''
       ''Cache lookup outcomes: hit, miss and expired are mutually exclusive; hit rate is hit/(hit+miss+expired). recent_failure, recent_non200 and local_select are follow-up events after miss, excluded from that denominator.'' @
     concat (map (\<lambda>kind. concat (map (\<lambda>result.
       sample ''pccs_cache_lookups_total'' [(''kind'', kind_str kind), (''result'', cache_result_str result)]
         (me_cache m ! (kind_ix kind * length cache_result_ALL + cache_result_ix result)))
       cache_result_ALL)) kind_ALL)"

definition render_kinds :: "float_format \<Rightarrow> string \<Rightarrow> string \<Rightarrow> histogram list \<Rightarrow> string" where
  "render_kinds F name help histograms =
     family name ''histogram'' help @
     concat (map (\<lambda>kind. hist_render F name [(''kind'', kind_str kind)] (histograms ! kind_ix kind)) kind_ALL)"

definition render_upstream :: "float_format \<Rightarrow> metrics \<Rightarrow> string" where
  "render_upstream F m =
     family ''pccs_upstream_requests_total'' ''counter'' ''Upstream attempt outcomes.'' @
     concat (map (\<lambda>upstream. concat (map (\<lambda>status.
       sample ''pccs_upstream_requests_total''
         [(''upstream'', upstream_str upstream), (''status'', upstream_status_str status)]
         (me_upstream m ! (upstream_ix upstream * length upstream_status_ALL + upstream_status_ix status)))
       upstream_status_ALL)) upstream_ALL) @
     family ''pccs_upstream_attempt_duration_seconds'' ''histogram'' ''Upstream attempt latency in seconds.'' @
     concat (map (\<lambda>upstream. hist_render F ''pccs_upstream_attempt_duration_seconds''
       [(''upstream'', upstream_str upstream)] (me_upstream_duration m ! upstream_ix upstream)) upstream_ALL) @
     family ''pccs_upstream_throttled_total'' ''counter'' ''Retries after upstream 429 or 503 responses.'' @
     concat (map (\<lambda>upstream. sample ''pccs_upstream_throttled_total''
       [(''upstream'', upstream_str upstream)] (me_throttled m ! upstream_ix upstream)) upstream_ALL) @
     family ''pccs_upstream_permit_wait_seconds'' ''histogram'' ''Upstream semaphore wait in seconds.'' @
     hist_render F ''pccs_upstream_permit_wait_seconds'' [] (me_permit m) @
     family ''pccs_upstream_inflight'' ''gauge'' ''Currently active upstream attempts.'' @
     sample ''pccs_upstream_inflight'' [] (me_inflight m)"

definition RESULTS :: "string list" where
  "RESULTS = [''error'', ''success'']"

definition render_refresh :: "float_format \<Rightarrow> metrics \<Rightarrow> string" where
  "render_refresh F m =
     family ''pccs_refresh_runs_total'' ''counter'' ''Completed refresh runs.'' @
     concat (map (\<lambda>(i, result). sample ''pccs_refresh_runs_total'' [(''result'', result)] (me_refresh_runs m ! i))
       (enumerate 0 RESULTS)) @
     family ''pccs_refresh_items_total'' ''counter'' ''Refresh item outcomes.'' @
     concat (map (\<lambda>kind. concat (map (\<lambda>(i, result).
       sample ''pccs_refresh_items_total'' [(''kind'', kind_str kind), (''result'', result)]
         (me_refresh_items m ! (kind_ix kind * 2 + i))) (enumerate 0 RESULTS))) kind_ALL) @
     family ''pccs_refresh_last_success_timestamp_seconds'' ''gauge'' ''Unix timestamp of the last successful refresh.'' @
     sample ''pccs_refresh_last_success_timestamp_seconds'' [] (me_refresh_last_success m) @
     family ''pccs_refresh_last_duration_seconds'' ''gauge'' ''Duration of the last completed refresh in seconds.'' @
     ''pccs_refresh_last_duration_seconds '' @ ff_bits F (me_refresh_last_duration m) @ newline"

definition render_http :: "float_format \<Rightarrow> metrics \<Rightarrow> string" where
  "render_http F m =
     family ''pccs_http_requests_total'' ''counter'' ''HTTP responses by bounded route and status class.'' @
     concat (map (\<lambda>(route, template). concat (map (\<lambda>(cls, label).
       sample ''pccs_http_requests_total'' [(''route'', template), (''status_class'', label)]
         (me_http m ! (route * length STATUS_CLASSES + cls))) (enumerate 0 STATUS_CLASSES))) (enumerate 0 ROUTES)) @
     family ''pccs_http_request_duration_seconds'' ''histogram'' ''HTTP handler latency in seconds.'' @
     concat (map (\<lambda>(route, template). hist_render F ''pccs_http_request_duration_seconds''
       [(''route'', template)] (me_http_duration m ! route)) (enumerate 0 ROUTES))"

definition render :: "float_format \<Rightarrow> metrics \<Rightarrow> string" where
  "render F m =
     render_cache m @
     render_kinds F ''pccs_store_read_duration_seconds''
       ''RocksDB get latency in seconds, excluding deserialization (counted in Server-Timing app).'' (me_store m) @
     render_kinds F ''pccs_cache_singleflight_wait_seconds'' ''Singleflight lock wait in seconds.'' (me_singleflight m) @
     render_upstream F m @ render_refresh F m @ render_http F m"

text \<open>What the private scrape router answers to GET on \<^verbatim>\<open>/metrics\<close>.\<close>

definition router_get :: "float_format \<Rightarrow> metrics \<Rightarrow> response" where
  "router_get F m =
     \<lparr>resp_status = 200, resp_headers = [(''content-type'', ''text/plain; version=0.0.4; charset=utf-8'')],
      resp_body = as_bytes (render F m)\<rparr>"

end
