(* ===== verification/Refresh.thy ===== *)
theory Refresh
  imports Fill_Guarantee Validate
begin

text \<open>
  \<^verbatim>\<open>src/cache.rs\<close>: the admin refresh. Calls for one target share one run: the first becomes its leader and
  puts the receiver of a \<open>tokio::sync::watch\<close> channel into \<open>refresh_inflight\<close>, the others wait for the
  channel. Each section between two \<open>await\<close>s is one step of a call; calls arrive, advance in any order,
  and may be dropped, as \<open>hyper\<close> drops the handler of a client that went away.
\<close>

section \<open>Requests\<close>

definition refresh_request :: "cache_mode \<Rightarrow> string option \<Rightarrow> string option \<Rightarrow> string option res" where
  "refresh_request mode typ fmspc =
     and_then
       (case typ of
          None \<Rightarrow> Inr None
        | Some t \<Rightarrow> if t = ''certs'' then and_then (v_fmspc fmspc) (\<lambda>f. Inr (Some f)) else Inl INVALID_REQ)
       (\<lambda>certs_fmspc. if mode = Offline then Inl SERVICE_UNAVAILABLE else Inr certs_fmspc)"

definition refresh_target :: "string option \<Rightarrow> string" where
  "refresh_target certs_fmspc =
     (case certs_fmspc of Some f \<Rightarrow> ''certs:'' @ to_ascii_uppercase f | None \<Rightarrow> ''collateral'')"

definition refresh_body :: "('db, 'w) ctx \<Rightarrow> string option \<Rightarrow> ('db, 'w, unit) op" where
  "refresh_body X certs_fmspc =
     (case certs_fmspc of Some f \<Rightarrow> refresh_certs X f | None \<Rightarrow> refresh_collateral X)"

section \<open>Calls and channels\<close>

record watch =
  wa_value :: "unit res option"
  wa_sender :: bool

datatype pc =
    Enter
  | Claim
  | Waiting nat
  | Leading nat
  | Running nat
  | Publishing nat "unit res"
  | Returned nat "unit res"
  | Dropped

record call =
  cl_certs_fmspc :: "string option"
  cl_pc :: pc

record ('db, 'w) flights =
  fl_sys :: "('db, 'w) sys"
  fl_inflight :: "string \<rightharpoonup> nat"
  fl_channels :: "watch list"
  fl_refresh_lock :: "nat option"
  fl_calls :: "call list"

definition target_of :: "call \<Rightarrow> string" where
  "target_of c = refresh_target (cl_certs_fmspc c)"

text \<open>\<open>wait_refresh_result\<close>: still waiting, the shared result, or a dropped sender.\<close>

datatype waited = Pending | Shared "unit res" | Closed

definition wait_refresh_result :: "watch \<Rightarrow> waited" where
  "wait_refresh_result w =
     (case wa_value w of Some r \<Rightarrow> Shared r | None \<Rightarrow> if wa_sender w then Pending else Closed)"

definition goto :: "nat \<Rightarrow> pc \<Rightarrow> ('db, 'w) flights \<Rightarrow> ('db, 'w) flights" where
  "goto i pc st = st\<lparr>fl_calls := (fl_calls st)[i := (fl_calls st ! i)\<lparr>cl_pc := pc\<rparr>]\<rparr>"

definition set_channel :: "nat \<Rightarrow> watch \<Rightarrow> ('db, 'w) flights \<Rightarrow> ('db, 'w) flights" where
  "set_channel ch w st = st\<lparr>fl_channels := (fl_channels st)[ch := w]\<rparr>"

text \<open>The next step of call \<open>i\<close>; \<open>None\<close> while it has to wait, and once it is over.\<close>

definition advance :: "('db, 'w) ctx \<Rightarrow> nat \<Rightarrow> ('db, 'w) flights \<Rightarrow> ('db, 'w) flights option" where
  "advance X i st =
     (let c = fl_calls st ! i; target = target_of c
      in case cl_pc c of
           Enter \<Rightarrow>
             Some (case fl_inflight st target of Some rx \<Rightarrow> goto i (Waiting rx) st | None \<Rightarrow> goto i Claim st)
         | Claim \<Rightarrow>
             Some (case fl_inflight st target of
                     Some other \<Rightarrow> goto i (Waiting other) st
                   | None \<Rightarrow>
                       let rx = length (fl_channels st)
                       in goto i (Leading rx)
                            (st\<lparr>fl_channels := fl_channels st @ [\<lparr>wa_value = None, wa_sender = True\<rparr>],
                                fl_inflight := (fl_inflight st)(target \<mapsto> rx)\<rparr>))
         | Waiting rx \<Rightarrow>
             (case wait_refresh_result (fl_channels st ! rx) of
                Pending \<Rightarrow> None
              | Shared result \<Rightarrow> Some (goto i (Returned rx result) st)
              | Closed \<Rightarrow> Some (goto i Enter st))
         | Leading tx \<Rightarrow>
             if fl_refresh_lock st = None then Some (goto i (Running tx) (st\<lparr>fl_refresh_lock := Some i\<rparr>)) else None
         | Running tx \<Rightarrow>
             (case refresh_body X (cl_certs_fmspc c) (fl_sys st) of
                (result, sys) \<Rightarrow>
                  Some (goto i (Publishing tx result)
                    (set_channel tx ((fl_channels st ! tx)\<lparr>wa_value := Some result\<rparr>) (st\<lparr>fl_sys := sys\<rparr>))))
         | Publishing tx result \<Rightarrow>
             Some (goto i (Returned tx result)
               (set_channel tx ((fl_channels st ! tx)\<lparr>wa_sender := False\<rparr>)
                 (st\<lparr>fl_inflight := (fl_inflight st)(target := None), fl_refresh_lock := None\<rparr>)))
         | Returned _ _ \<Rightarrow> None
         | Dropped \<Rightarrow> None)"

definition arrive :: "string option \<Rightarrow> ('db, 'w) flights \<Rightarrow> ('db, 'w) flights" where
  "arrive certs_fmspc st =
     st\<lparr>fl_calls := fl_calls st @ [\<lparr>cl_certs_fmspc = certs_fmspc, cl_pc = Enter\<rparr>]\<rparr>"

text \<open>Dropping the future of a call drops its locals: a leader's sender, and the guard of the refresh
  lock. A body that was under way may have changed the shared state (\<open>sys\<close>).\<close>

definition drop_call :: "nat \<Rightarrow> ('db, 'w) sys \<Rightarrow> ('db, 'w) flights \<Rightarrow> ('db, 'w) flights" where
  "drop_call i sys st =
     goto i Dropped
       (case cl_pc (fl_calls st ! i) of
          Leading tx \<Rightarrow> set_channel tx ((fl_channels st ! tx)\<lparr>wa_sender := False\<rparr>) st
        | Running tx \<Rightarrow>
            set_channel tx ((fl_channels st ! tx)\<lparr>wa_sender := False\<rparr>) (st\<lparr>fl_refresh_lock := None, fl_sys := sys\<rparr>)
        | Publishing tx _ \<Rightarrow>
            set_channel tx ((fl_channels st ! tx)\<lparr>wa_sender := False\<rparr>) (st\<lparr>fl_refresh_lock := None\<rparr>)
        | _ \<Rightarrow> st)"

definition finished :: "pc \<Rightarrow> bool" where
  "finished pc = (case pc of Returned _ _ \<Rightarrow> True | Dropped \<Rightarrow> True | _ \<Rightarrow> False)"

text \<open>Advancing without drops (\<open>calm\<close>), and the steps of the server.\<close>

inductive calm :: "('db, 'w) ctx \<Rightarrow> ('db, 'w) flights \<Rightarrow> ('db, 'w) flights \<Rightarrow> bool" for X where
  calm: "i < length (fl_calls st) \<Longrightarrow> advance X i st = Some st' \<Longrightarrow> calm X st st'"

inductive server_step :: "('db, 'w) ctx \<Rightarrow> ('db, 'w) flights \<Rightarrow> ('db, 'w) flights \<Rightarrow> bool" for X where
  arrival: "server_step X st (arrive certs_fmspc st)"
| progress: "calm X st st' \<Longrightarrow> server_step X st st'"
| disconnect: "i < length (fl_calls st) \<Longrightarrow> \<not> finished (cl_pc (fl_calls st ! i)) \<Longrightarrow>
    server_step X st (drop_call i sys st)"

definition idle :: "('db, 'w) sys \<Rightarrow> ('db, 'w) flights" where
  "idle sys = \<lparr>fl_sys = sys, fl_inflight = Map.empty, fl_channels = [], fl_refresh_lock = None, fl_calls = []\<rparr>"

section \<open>Reading a state\<close>

definition calls :: "('db, 'w) flights \<Rightarrow> nat" where
  "calls st = length (fl_calls st)"

definition pc_at :: "('db, 'w) flights \<Rightarrow> nat \<Rightarrow> pc" where
  "pc_at st i = cl_pc (fl_calls st ! i)"

definition goal_at :: "('db, 'w) flights \<Rightarrow> nat \<Rightarrow> string" where
  "goal_at st i = target_of (fl_calls st ! i)"

definition channel :: "('db, 'w) flights \<Rightarrow> nat \<Rightarrow> watch option" where
  "channel st ch = (if ch < length (fl_channels st) then Some (fl_channels st ! ch) else None)"

text \<open>The channel a leader sends on, and whether a call holds the refresh lock.\<close>

fun leads :: "pc \<Rightarrow> nat option" where
  "leads (Leading ch) = Some ch"
| "leads (Running ch) = Some ch"
| "leads (Publishing ch r) = Some ch"
| "leads _ = None"

fun locks :: "pc \<Rightarrow> bool" where
  "locks (Running ch) = True"
| "locks (Publishing ch r) = True"
| "locks _ = False"

fun published :: "pc \<Rightarrow> unit res option" where
  "published (Publishing ch r) = Some r"
| "published _ = None"

lemmas views = calls_def pc_at_def goal_at_def target_of_def channel_def

lemma goto_calls [simp]:
  "calls (goto i p st) = calls st" "goal_at (goto i p st) j = goal_at st j"
  "i < calls st \<Longrightarrow> pc_at (goto i p st) j = (if i = j then p else pc_at st j)"
proof -
  show "goal_at (goto i p st) j = goal_at st j"
    by (cases "i < length (fl_calls st)"; cases "i = j") (simp_all add: goto_def views list_update_beyond)
qed (auto simp: goto_def views)

lemma goto_reads [simp]:
  "fl_inflight (goto i p st) = fl_inflight st" "channel (goto i p st) ch = channel st ch"
  "fl_refresh_lock (goto i p st) = fl_refresh_lock st"
  by (simp_all add: goto_def views)

lemma set_channel_reads [simp]:
  "calls (set_channel ch w st) = calls st" "goal_at (set_channel ch w st) j = goal_at st j"
  "pc_at (set_channel ch w st) j = pc_at st j" "fl_inflight (set_channel ch w st) = fl_inflight st"
  "fl_refresh_lock (set_channel ch w st) = fl_refresh_lock st"
  "channel (set_channel ch w st) d = (if ch = d \<and> channel st ch \<noteq> None then Some w else channel st d)"
  by (auto simp: set_channel_def views nth_list_update)

lemma update_reads [simp]:
  "calls (st\<lparr>fl_inflight := m\<rparr>) = calls st" "goal_at (st\<lparr>fl_inflight := m\<rparr>) j = goal_at st j"
  "pc_at (st\<lparr>fl_inflight := m\<rparr>) j = pc_at st j" "channel (st\<lparr>fl_inflight := m\<rparr>) ch = channel st ch"
  "calls (st\<lparr>fl_refresh_lock := l\<rparr>) = calls st" "goal_at (st\<lparr>fl_refresh_lock := l\<rparr>) j = goal_at st j"
  "pc_at (st\<lparr>fl_refresh_lock := l\<rparr>) j = pc_at st j" "channel (st\<lparr>fl_refresh_lock := l\<rparr>) ch = channel st ch"
  "calls (st\<lparr>fl_sys := y\<rparr>) = calls st" "goal_at (st\<lparr>fl_sys := y\<rparr>) j = goal_at st j"
  "pc_at (st\<lparr>fl_sys := y\<rparr>) j = pc_at st j" "channel (st\<lparr>fl_sys := y\<rparr>) ch = channel st ch"
  "calls (st\<lparr>fl_channels := ws\<rparr>) = calls st" "goal_at (st\<lparr>fl_channels := ws\<rparr>) j = goal_at st j"
  "pc_at (st\<lparr>fl_channels := ws\<rparr>) j = pc_at st j"
  "channel (st\<lparr>fl_channels := fl_channels st @ [w]\<rparr>) ch =
     (if ch = length (fl_channels st) then Some w else channel st ch)"
  by (auto simp: views nth_append)

lemma arrive_reads [simp]:
  "calls (arrive f st) = Suc (calls st)" "fl_inflight (arrive f st) = fl_inflight st"
  "channel (arrive f st) ch = channel st ch" "fl_refresh_lock (arrive f st) = fl_refresh_lock st"
  "i \<le> calls st \<Longrightarrow> pc_at (arrive f st) i = (if i < calls st then pc_at st i else Enter)"
  "i < calls st \<Longrightarrow> goal_at (arrive f st) i = goal_at st i"
  by (auto simp: arrive_def views nth_append)

lemma channel_fresh [simp]: "channel st (length (fl_channels st)) = None"
  by (simp add: channel_def)

lemma channel_nth: "channel st ch = Some w \<Longrightarrow> fl_channels st ! ch = w"
  by (simp add: channel_def split: if_splits)

section \<open>One run per target\<close>

text \<open>A leader's channel is the one in flight for its target; it is open, and holds a result exactly when
  the leader has published it.\<close>

definition leaders_ok :: "('db, 'w) flights \<Rightarrow> bool" where
  "leaders_ok st \<longleftrightarrow>
     (\<forall>i < calls st. \<forall>ch. leads (pc_at st i) = Some ch \<longrightarrow>
        fl_inflight st (goal_at st i) = Some ch \<and>
        channel st ch = Some \<lparr>wa_value = published (pc_at st i), wa_sender = True\<rparr>)"

text \<open>Calls that lead are for different targets; the lock has one holder.\<close>

definition single_ok :: "('db, 'w) flights \<Rightarrow> bool" where
  "single_ok st \<longleftrightarrow>
     (\<forall>i < calls st. \<forall>j < calls st.
        leads (pc_at st i) \<noteq> None \<longrightarrow> leads (pc_at st j) \<noteq> None \<longrightarrow> goal_at st i = goal_at st j \<longrightarrow> i = j) \<and>
     (\<forall>i < calls st. locks (pc_at st i) \<longleftrightarrow> fl_refresh_lock st = Some i) \<and>
     pred_option (\<lambda>i. i < calls st) (fl_refresh_lock st)"

definition inflight_ok :: "('db, 'w) flights \<Rightarrow> bool" where
  "inflight_ok st \<longleftrightarrow>
     (\<forall>g ch. fl_inflight st g = Some ch \<longrightarrow> channel st ch \<noteq> None) \<and>
     (\<forall>g h ch. fl_inflight st g = Some ch \<longrightarrow> fl_inflight st h = Some ch \<longrightarrow> g = h)"

text \<open>A call waits for a channel that exists, and returned what was published on its channel.\<close>

definition answers_ok :: "('db, 'w) flights \<Rightarrow> bool" where
  "answers_ok st \<longleftrightarrow>
     (\<forall>i < calls st.
        (\<forall>ch. pc_at st i = Waiting ch \<longrightarrow> channel st ch \<noteq> None) \<and>
        (\<forall>ch r. pc_at st i = Returned ch r \<longrightarrow> map_option wa_value (channel st ch) = Some (Some r)))"

definition flights_ok :: "('db, 'w) flights \<Rightarrow> bool" where
  "flights_ok st \<longleftrightarrow> leaders_ok st \<and> single_ok st \<and> inflight_ok st \<and> answers_ok st"

lemmas flights_ok_defs = flights_ok_def leaders_ok_def single_ok_def inflight_ok_def answers_ok_def

lemma advance_views:
  "advance X i st =
     (case pc_at st i of
        Enter \<Rightarrow> Some (case fl_inflight st (goal_at st i) of Some rx \<Rightarrow> goto i (Waiting rx) st | None \<Rightarrow> goto i Claim st)
      | Claim \<Rightarrow>
          Some (case fl_inflight st (goal_at st i) of
                  Some other \<Rightarrow> goto i (Waiting other) st
                | None \<Rightarrow> goto i (Leading (length (fl_channels st)))
                    (st\<lparr>fl_channels := fl_channels st @ [\<lparr>wa_value = None, wa_sender = True\<rparr>],
                        fl_inflight := (fl_inflight st)(goal_at st i \<mapsto> length (fl_channels st))\<rparr>))
      | Waiting rx \<Rightarrow>
          (case wait_refresh_result (fl_channels st ! rx) of
             Pending \<Rightarrow> None
           | Shared result \<Rightarrow> Some (goto i (Returned rx result) st)
           | Closed \<Rightarrow> Some (goto i Enter st))
      | Leading tx \<Rightarrow>
          if fl_refresh_lock st = None then Some (goto i (Running tx) (st\<lparr>fl_refresh_lock := Some i\<rparr>)) else None
      | Running tx \<Rightarrow>
          (case refresh_body X (cl_certs_fmspc (fl_calls st ! i)) (fl_sys st) of
             (result, sys) \<Rightarrow>
               Some (goto i (Publishing tx result)
                 (set_channel tx ((fl_channels st ! tx)\<lparr>wa_value := Some result\<rparr>) (st\<lparr>fl_sys := sys\<rparr>))))
      | Publishing tx result \<Rightarrow>
          Some (goto i (Returned tx result)
            (set_channel tx ((fl_channels st ! tx)\<lparr>wa_sender := False\<rparr>)
              (st\<lparr>fl_inflight := (fl_inflight st)(goal_at st i := None), fl_refresh_lock := None\<rparr>)))
      | Returned _ _ \<Rightarrow> None
      | Dropped \<Rightarrow> None)"
  unfolding advance_def pc_at_def goal_at_def Let_def ..

lemma locks_leads: "locks p \<Longrightarrow> leads p \<noteq> None"
  by (cases p) simp_all

lemma leaders_okD:
  "flights_ok st \<Longrightarrow> j < calls st \<Longrightarrow> leads (pc_at st j) = Some ch \<Longrightarrow>
     fl_inflight st (goal_at st j) = Some ch \<and>
     channel st ch = Some \<lparr>wa_value = published (pc_at st j), wa_sender = True\<rparr>"
  by (simp add: flights_ok_def leaders_ok_def)

lemma leaders_okI:
  "(\<And>j ch. j < calls st \<Longrightarrow> leads (pc_at st j) = Some ch \<Longrightarrow> fl_inflight st (goal_at st j) = Some ch \<and>
     channel st ch = Some \<lparr>wa_value = published (pc_at st j), wa_sender = True\<rparr>) \<Longrightarrow> leaders_ok st"
  by (simp add: leaders_ok_def)

text \<open>Leaders for different targets send on different channels.\<close>

lemma leaders_apart:
  assumes "flights_ok st" "i < calls st" "j < calls st" "i \<noteq> j"
    and "leads (pc_at st i) = Some ch" "leads (pc_at st j) = Some d"
  shows "goal_at st i \<noteq> goal_at st j" "ch \<noteq> d"
proof -
  show "goal_at st i \<noteq> goal_at st j" using assms unfolding flights_ok_def single_ok_def by auto
  then show "ch \<noteq> d"
    using leaders_okD [OF assms(1,2,5)] leaders_okD [OF assms(1,3,6)] assms(1)
    unfolding flights_ok_def inflight_ok_def by blast
qed

text \<open>A step of a call that does not lead and does not start to.\<close>

lemma goto_flights_ok:
  assumes ok: "flights_ok st" and i: "i < calls st" and old: "leads (pc_at st i) = None"
    and new: "leads p = None" "\<And>ch. p = Waiting ch \<Longrightarrow> channel st ch \<noteq> None"
      "\<And>ch r. p = Returned ch r \<Longrightarrow> map_option wa_value (channel st ch) = Some (Some r)"
  shows "flights_ok (goto i p st)"
proof -
  have "\<not> locks p" "\<not> locks (pc_at st i)" using new(1) old by (metis locks_leads)+
  with assms have "single_ok (goto i p st)"
    unfolding flights_ok_def single_ok_def by simp
  moreover have "leaders_ok (goto i p st)" "inflight_ok (goto i p st)" "answers_ok (goto i p st)"
    using assms unfolding flights_ok_defs by simp_all
  ultimately show ?thesis by (simp add: flights_ok_def)
qed

text \<open>The steps of a leader change its own channel and its own entry only.\<close>

lemma lead_flights_ok:
  assumes ok: "flights_ok st" and i: "i < calls st" and pc: "pc_at st i = Claim"
    and free: "fl_inflight st (goal_at st i) = None"
    and st': "st' = goto i (Leading (length (fl_channels st)))
                    (st\<lparr>fl_channels := fl_channels st @ [\<lparr>wa_value = None, wa_sender = True\<rparr>],
                        fl_inflight := (fl_inflight st)(goal_at st i \<mapsto> length (fl_channels st))\<rparr>)"
  shows "flights_ok st'"
proof -
  have used: "ch \<noteq> length (fl_channels st)" if "channel st ch = Some w" for ch w using that by auto
  have led: "goal_at st j \<noteq> goal_at st i" if "leads (pc_at st j) = Some d" "j < calls st" for j d
    using leaders_okD [OF ok] free that by fastforce
  have "leaders_ok st'"
  proof (rule leaders_okI)
    fix j d
    assume j: "j < calls st'" "leads (pc_at st' j) = Some d"
    show "fl_inflight st' (goal_at st' j) = Some d \<and>
        channel st' d = Some \<lparr>wa_value = published (pc_at st' j), wa_sender = True\<rparr>"
      using j i leaders_okD [OF ok, of j d] led [of j d] used [of d] by (cases "j = i") (auto simp: st')
  qed
  moreover have "single_ok st'"
    using ok i pc led unfolding flights_ok_def single_ok_def st' by (auto dest: led)
  moreover have "inflight_ok st'"
    using ok used unfolding flights_ok_def inflight_ok_def st' by auto (metis used)+
  moreover have "answers_ok st'"
    using ok i used unfolding flights_ok_def answers_ok_def st' by auto
  ultimately show ?thesis by (simp add: flights_ok_def)
qed

text \<open>A leader's next step: it goes on or ends, its channel may get a value or be closed, and its entry may
  be removed when it ends.\<close>

lemma leader_flights_ok:
  assumes ok: "flights_ok st" and i: "i < calls st" and lead: "leads (pc_at st i) = Some ch"
    and reads: "calls st' = calls st" "\<And>j. goal_at st' j = goal_at st j"
      "\<And>j. pc_at st' j = (if i = j then p else pc_at st j)"
      "\<And>d. channel st' d = (if ch = d then Some w else channel st d)"
    and entry: "fl_inflight st' = fl_inflight st \<or> leads p = None \<and> fl_inflight st' = (fl_inflight st)(goal_at st i := None)"
    and goes_on: "\<And>d. leads p = Some d \<Longrightarrow> d = ch \<and> w = \<lparr>wa_value = published p, wa_sender = True\<rparr>"
    and keeps: "\<And>r. published (pc_at st i) = Some r \<Longrightarrow> wa_value w = Some r"
    and ends: "\<And>d. p \<noteq> Waiting d" "\<And>d r. p = Returned d r \<Longrightarrow> d = ch \<and> wa_value w = Some r"
    and lock: "locks p \<longleftrightarrow> fl_refresh_lock st' = Some i"
      "\<And>j. j \<noteq> i \<Longrightarrow> fl_refresh_lock st' = Some j \<longleftrightarrow> fl_refresh_lock st = Some j"
  shows "flights_ok st'"
proof -
  have own: "fl_inflight st (goal_at st i) = Some ch"
      "channel st ch = Some \<lparr>wa_value = published (pc_at st i), wa_sender = True\<rparr>"
    using leaders_okD [OF ok i lead] by auto
  have "leaders_ok st'"
  proof (rule leaders_okI)
    fix j d
    assume j: "j < calls st'" "leads (pc_at st' j) = Some d"
    show "fl_inflight st' (goal_at st' j) = Some d \<and>
        channel st' d = Some \<lparr>wa_value = published (pc_at st' j), wa_sender = True\<rparr>"
    proof (cases "j = i")
      case True
      then show ?thesis using j goes_on entry own by (auto simp: reads)
    next
      case False
      then have "leads (pc_at st j) = Some d" "j < calls st" using j reads by auto
      then show ?thesis
        using False leaders_apart [OF ok i _ _ lead, of j d] leaders_okD [OF ok, of j d] entry by (auto simp: reads)
    qed
  qed
  moreover have "single_ok st'"
  proof -
    have apart: "goal_at st i \<noteq> goal_at st j" if "j < calls st" "j \<noteq> i" "leads (pc_at st j) \<noteq> None" for j
      using leaders_apart(1) [OF ok i that(1) _ lead] that(2,3) by auto
    have single: "a = b" if "a < calls st" "b < calls st" "leads (pc_at st a) \<noteq> None" "leads (pc_at st b) \<noteq> None"
      "goal_at st a = goal_at st b" for a b
      using ok that unfolding flights_ok_def single_ok_def by blast
    have "a = b" if "a < calls st'" "b < calls st'" "leads (pc_at st' a) \<noteq> None" "leads (pc_at st' b) \<noteq> None"
      "goal_at st' a = goal_at st' b" for a b
      using that apart [of a] apart [of b] single [of a b] by (cases "a = i"; cases "b = i") (simp_all add: reads)
    moreover have "locks (pc_at st' a) \<longleftrightarrow> fl_refresh_lock st' = Some a" if "a < calls st'" for a
      using that ok lock unfolding flights_ok_def single_ok_def by (cases "a = i") (simp_all add: reads)
    moreover have "pred_option (\<lambda>i. i < calls st') (fl_refresh_lock st')"
    proof (cases "fl_refresh_lock st'")
      case (Some j)
      then show ?thesis using ok lock(2) [of j] i unfolding flights_ok_def single_ok_def by (cases "j = i") (auto simp: reads)
    qed simp
    ultimately show ?thesis unfolding single_ok_def by blast
  qed
  moreover have "inflight_ok st'"
    using ok entry own unfolding flights_ok_def inflight_ok_def by (auto simp: reads split: if_splits)
  moreover have "answers_ok st'"
    using ok ends keeps own unfolding flights_ok_def answers_ok_def by (auto simp: reads)
  ultimately show ?thesis by (simp add: flights_ok_def)
qed

lemma advance_flights_ok:
  assumes ok: "flights_ok st" and i: "i < calls st" and adv: "advance X i st = Some st'"
  shows "flights_ok st'"
proof -
  have known: "channel st ch \<noteq> None" if "fl_inflight st g = Some ch" for g ch
    using ok that unfolding flights_ok_def inflight_ok_def by blast
  have own: "channel st ch = Some \<lparr>wa_value = published (pc_at st i), wa_sender = True\<rparr>"
    if "leads (pc_at st i) = Some ch" for ch
    using leaders_okD [OF ok i that] by blast
  have lock: "fl_refresh_lock st = Some i" if "locks (pc_at st i)"
    using ok i that unfolding flights_ok_def single_ok_def by blast
  show ?thesis
  proof (cases "pc_at st i")
    case Enter
    then show ?thesis using adv known by (auto simp: advance_views intro!: goto_flights_ok [OF ok i] split: option.splits)
  next
    case Claim
    then show ?thesis using adv known lead_flights_ok [OF ok i Claim]
      by (auto simp: advance_views intro!: goto_flights_ok [OF ok i] split: option.splits)
  next
    case (Waiting ch)
    then have "channel st ch \<noteq> None" using ok i unfolding flights_ok_def answers_ok_def by blast
    with Waiting adv show ?thesis
      by (auto simp: advance_views wait_refresh_result_def channel_def intro!: goto_flights_ok [OF ok i] split: option.splits if_splits)
  next
    case (Leading ch)
    then show ?thesis
      using adv own [of ch] i
      by (intro leader_flights_ok [OF ok i, of ch st' "Running ch" "\<lparr>wa_value = None, wa_sender = True\<rparr>"])
         (auto simp: advance_views split: if_splits)
  next
    case (Running ch)
    obtain r sys where "refresh_body X (cl_certs_fmspc (fl_calls st ! i)) (fl_sys st) = (r, sys)" by fastforce
    with Running show ?thesis
      using adv own [of ch] i lock
      by (intro leader_flights_ok [OF ok i, of ch st' "Publishing ch r" "\<lparr>wa_value = Some r, wa_sender = True\<rparr>"])
         (auto simp: advance_views channel_nth)
  next
    case (Publishing ch r)
    then show ?thesis
      using adv own [of ch] i lock
      by (intro leader_flights_ok [OF ok i, of ch st' "Returned ch r" "\<lparr>wa_value = Some r, wa_sender = False\<rparr>"])
         (auto simp: advance_views channel_nth)
  qed (use adv in \<open>simp_all add: advance_views\<close>)
qed

lemma drop_flights_ok:
  assumes ok: "flights_ok st" and i: "i < calls st"
  shows "flights_ok (drop_call i sys st)"
proof (cases "leads (pc_at st i)")
  case None
  then show ?thesis
    by (cases "pc_at st i") (auto simp: drop_call_def pc_at_def [symmetric] intro!: goto_flights_ok [OF ok i])
next
  case (Some ch)
  have own: "channel st ch = Some \<lparr>wa_value = published (pc_at st i), wa_sender = True\<rparr>"
    using leaders_okD [OF ok i Some] by blast
  have lock: "locks (pc_at st i) \<longleftrightarrow> fl_refresh_lock st = Some i"
    using ok i unfolding flights_ok_def single_ok_def by blast
  show ?thesis
    using Some own lock i
    by (intro leader_flights_ok [OF ok i Some, of _ Dropped "\<lparr>wa_value = published (pc_at st i), wa_sender = False\<rparr>"])
       (cases "pc_at st i"; auto simp: drop_call_def pc_at_def [symmetric] channel_nth)+
qed

lemma arrive_flights_ok:
  assumes "flights_ok st"
  shows "flights_ok (arrive f st)"
  using assms unfolding flights_ok_defs by (cases "fl_refresh_lock st") (auto simp: less_Suc_eq)

lemma server_flights_ok: "server_step X st st' \<Longrightarrow> flights_ok st \<Longrightarrow> flights_ok st'"
  by (auto elim!: server_step.cases calm.cases simp: calls_def [symmetric]
      intro: arrive_flights_ok drop_flights_ok advance_flights_ok)

lemma idle_flights_ok: "flights_ok (idle sys)"
  by (simp add: idle_def flights_ok_defs views)

lemma reachable_flights_ok: "(server_step X)\<^sup>*\<^sup>* (idle sys) st \<Longrightarrow> flights_ok st"
  by (induction rule: rtranclp_induct) (auto simp: idle_flights_ok server_flights_ok)

section \<open>Every call returns if none is dropped\<close>

definition attended :: "('db, 'w) flights \<Rightarrow> nat \<Rightarrow> bool" where
  "attended st ch \<longleftrightarrow> (\<exists>j < calls st. leads (pc_at st j) = Some ch)"

definition has_result :: "('db, 'w) flights \<Rightarrow> nat \<Rightarrow> bool" where
  "has_result st ch \<longleftrightarrow> (\<exists>w r. channel st ch = Some w \<and> wa_value w = Some r)"

text \<open>Every entry has its leader, and so has every channel a call waits for until the result is there.\<close>

definition attended_ok :: "('db, 'w) flights \<Rightarrow> bool" where
  "attended_ok st \<longleftrightarrow>
     (\<forall>g ch. fl_inflight st g = Some ch \<longrightarrow> attended st ch) \<and>
     (\<forall>i < calls st. pc_at st i \<noteq> Dropped \<and> (\<forall>ch. pc_at st i = Waiting ch \<longrightarrow> has_result st ch \<or> attended st ch))"

lemma attended_other:
  assumes "attended st ch" "i < calls st" "leads (pc_at st i) \<noteq> Some ch \<or> leads p = Some ch"
  shows "attended (goto i p st) ch"
proof -
  obtain j where j: "j < calls st" "leads (pc_at st j) = Some ch" using assms(1) by (auto simp: attended_def)
  with assms(2,3) show ?thesis unfolding attended_def by (cases "j = i") (auto intro!: exI [of _ j])
qed

lemma attended_reads [simp]:
  "attended (set_channel c w st) ch = attended st ch" "attended (st\<lparr>fl_inflight := m\<rparr>) ch = attended st ch"
  "attended (st\<lparr>fl_refresh_lock := l\<rparr>) ch = attended st ch" "attended (st\<lparr>fl_sys := y\<rparr>) ch = attended st ch"
  "attended (st\<lparr>fl_channels := ws\<rparr>) ch = attended st ch"
  "has_result (goto i p st) ch = has_result st ch" "has_result (st\<lparr>fl_inflight := m\<rparr>) ch = has_result st ch"
  "has_result (st\<lparr>fl_refresh_lock := l\<rparr>) ch = has_result st ch" "has_result (st\<lparr>fl_sys := y\<rparr>) ch = has_result st ch"
  by (simp_all add: attended_def has_result_def)

lemma attended_step:
  assumes "attended_ok st" "i < calls st"
    and "calls st' = calls st" "\<And>j. pc_at st' j = (if i = j then p else pc_at st j)" "p \<noteq> Dropped"
    and "\<And>ch. attended st ch \<Longrightarrow> attended st' ch \<or> has_result st' ch"
    and "\<And>ch. has_result st ch \<Longrightarrow> has_result st' ch"
    and "\<And>g ch. fl_inflight st' g = Some ch \<Longrightarrow> attended st' ch"
    and "\<And>ch. p = Waiting ch \<Longrightarrow> has_result st' ch \<or> attended st' ch"
  shows "attended_ok st'"
  using assms unfolding attended_ok_def by (metis (full_types))

lemma advance_attended_ok:
  assumes ok: "flights_ok st" and att: "attended_ok st" and i: "i < calls st" and adv: "advance X i st = Some st'"
  shows "attended_ok st'"
proof -
  have entry: "attended st ch" if "fl_inflight st g = Some ch" for g ch using att that by (auto simp: attended_ok_def)
  have plain: "attended_ok (goto i p st)"
    if "leads (pc_at st i) = None" "p \<noteq> Dropped" "\<And>ch. p = Waiting ch \<Longrightarrow> attended st ch" for p
    using that i entry by (intro attended_step [OF att i, of _ p]) (auto intro: attended_other)
  show ?thesis
  proof (cases "pc_at st i")
    case Enter
    then show ?thesis using adv entry by (auto simp: advance_views intro!: plain split: option.splits)
  next
    case Claim
    show ?thesis
    proof (cases "fl_inflight st (goal_at st i)")
      case None
      let ?ch = "length (fl_channels st)"
      have old: "attended st ch \<Longrightarrow> attended st' ch" for ch
        using None adv Claim i by (auto simp: advance_views intro!: attended_other)
      have "attended st' ?ch"
        using None adv Claim i by (auto simp: advance_views attended_def intro!: exI [of _ i])
      moreover have "has_result st ch \<Longrightarrow> has_result st' ch" for ch
        using None adv Claim by (auto simp: advance_views has_result_def)
      ultimately show ?thesis
        using None adv Claim i entry old
        by (intro attended_step [OF att i, of st' "Leading ?ch"]) (auto simp: advance_views split: if_splits)
    qed (use Claim adv entry in \<open>auto simp: advance_views intro!: plain\<close>)
  next
    case (Waiting ch)
    then show ?thesis using adv by (auto simp: advance_views intro!: plain split: waited.splits)
  next
    case (Leading ch)
    then show ?thesis using adv i entry
      by (intro attended_step [OF att i, of st' "Running ch"])
         (auto simp: advance_views split: if_splits intro!: attended_other)
  next
    case (Running ch)
    obtain r sys where body: "refresh_body X (cl_certs_fmspc (fl_calls st ! i)) (fl_sys st) = (r, sys)" by fastforce
    have "attended st d \<Longrightarrow> attended st' d" for d
      using Running adv body i by (auto simp: advance_views intro!: attended_other)
    moreover have "has_result st d \<Longrightarrow> has_result st' d" for d
      using Running adv body leaders_okD [OF ok i, of ch] by (auto simp: advance_views has_result_def)
    ultimately show ?thesis using Running adv i entry body
      by (intro attended_step [OF att i, of st' "Publishing ch r"]) (auto simp: advance_views)
  next
    case (Publishing ch r)
    have own: "channel st ch = Some \<lparr>wa_value = Some r, wa_sender = True\<rparr>" "fl_inflight st (goal_at st i) = Some ch"
      using leaders_okD [OF ok i, of ch] Publishing by auto
    have other: "attended st d \<Longrightarrow> d \<noteq> ch \<Longrightarrow> attended st' d" for d
      using Publishing adv i by (auto simp: advance_views intro!: attended_other)
    have res: "has_result st' ch" "\<And>d. has_result st d \<Longrightarrow> has_result st' d"
      using Publishing adv own by (auto simp: advance_views has_result_def channel_nth)
    have gone: "d \<noteq> ch \<and> attended st d" if "fl_inflight st' g = Some d" for g d
      using that Publishing adv own ok entry unfolding flights_ok_def inflight_ok_def
      by (auto simp: advance_views split: if_splits)
    show ?thesis
    proof (rule attended_step [OF att i, of st' "Returned ch r"])
      show "attended st' d \<or> has_result st' d" if "attended st d" for d
        using other that res by (cases "d = ch") auto
      show "attended st' d" if "fl_inflight st' g = Some d" for g d
        using gone [OF that] other by blast
    qed (use Publishing adv i res in \<open>auto simp: advance_views\<close>)
  qed (use adv in \<open>simp_all add: advance_views\<close>)
qed

text \<open>The steps a call has left, at most.\<close>

fun work :: "pc \<Rightarrow> nat" where
  "work Enter = 5"
| "work Claim = 4"
| "work (Leading ch) = 3"
| "work (Running ch) = 2"
| "work (Publishing ch r) = 1"
| "work (Waiting ch) = 1"
| "work (Returned ch r) = 0"
| "work Dropped = 0"

definition total_work :: "('db, 'w) flights \<Rightarrow> nat" where
  "total_work st = (\<Sum>i<calls st. work (pc_at st i))"

lemma work_le: "work p \<le> 5"
  by (cases p) simp_all

lemma total_work_step:
  assumes "i < calls st" "calls st' = calls st" "\<And>j. pc_at st' j = (if i = j then p else pc_at st j)"
    and "work p < work (pc_at st i)"
  shows "total_work st' < total_work st"
  unfolding total_work_def assms(2) using assms(1,3,4) by (intro sum_strict_mono_ex1) auto

lemma waiting_open:
  assumes "flights_ok st" "attended_ok st" "i < calls st" "pc_at st i = Waiting ch"
  shows "wait_refresh_result (fl_channels st ! ch) \<noteq> Closed"
    and "wait_refresh_result (fl_channels st ! ch) = Pending \<Longrightarrow> attended st ch"
proof -
  have "attended st ch \<Longrightarrow> wa_sender (fl_channels st ! ch)"
    using leaders_okD [OF assms(1)] channel_nth by (fastforce simp: attended_def)
  moreover have "has_result st ch \<or> attended st ch" using assms(2-4) by (auto simp: attended_ok_def)
  moreover have "has_result st ch \<Longrightarrow> \<exists>r. wa_value (fl_channels st ! ch) = Some r"
    by (auto simp: has_result_def dest: channel_nth)
  ultimately show "wait_refresh_result (fl_channels st ! ch) \<noteq> Closed"
    and "wait_refresh_result (fl_channels st ! ch) = Pending \<Longrightarrow> attended st ch"
    by (auto simp: wait_refresh_result_def split: option.splits if_splits)
qed

lemma advance_work:
  assumes "flights_ok st" "attended_ok st" "i < calls st" "advance X i st = Some st'"
  shows "total_work st' < total_work st"
proof -
  obtain p where "calls st' = calls st" "\<And>j. pc_at st' j = (if i = j then p else pc_at st j)" "work p < work (pc_at st i)"
    using assms(3,4) waiting_open(1) [OF assms(1-3)]
    by (cases "pc_at st i") (fastforce simp: advance_views split: option.splits if_splits prod.splits waited.splits)+
  then show ?thesis using total_work_step [OF assms(3)] by blast
qed

lemma some_advance:
  assumes ok: "flights_ok st" and att: "attended_ok st" and i: "i < calls st" "\<not> finished (pc_at st i)"
  shows "\<exists>j < calls st. \<exists>st'. advance X j st = Some st'"
proof (cases "fl_refresh_lock st")
  case (Some j)
  with ok have "j < calls st" "locks (pc_at st j)" unfolding flights_ok_def single_ok_def by auto
  then show ?thesis
    by (cases "pc_at st j") (auto simp: advance_views split: prod.splits intro!: exI [of _ j])
next
  case None
  have lead: ?thesis if "attended st ch" for ch
  proof -
    obtain j where j: "j < calls st" "leads (pc_at st j) = Some ch" using \<open>attended st ch\<close> by (auto simp: attended_def)
    then show ?thesis using None
      by (cases "pc_at st j") (auto simp: advance_views split: prod.splits intro!: exI [of _ j])
  qed
  show ?thesis
  proof (cases "pc_at st i")
    case (Waiting ch)
    then show ?thesis using i lead waiting_open [OF ok att i(1) Waiting]
      by (cases "wait_refresh_result (fl_channels st ! ch)") (auto simp: advance_views intro!: exI [of _ i])
  next
    case (Leading ch)
    then show ?thesis using i by (intro lead) (auto simp: attended_def)
  next
    case (Running ch)
    then show ?thesis using i by (intro lead) (auto simp: attended_def)
  qed (use i in \<open>auto simp: advance_views finished_def intro!: exI [of _ i]\<close>)
qed

text \<open>Calls arrive and advance; none is dropped.\<close>

inductive calm_step :: "('db, 'w) ctx \<Rightarrow> ('db, 'w) flights \<Rightarrow> ('db, 'w) flights \<Rightarrow> bool" for X where
  calm_arrival: "calm_step X st (arrive certs_fmspc st)"
| calm_progress: "calm X st st' \<Longrightarrow> calm_step X st st'"

lemma arrive_attended_ok:
  assumes "attended_ok st"
  shows "attended_ok (arrive f st)"
proof -
  have "attended st ch \<Longrightarrow> attended (arrive f st) ch" for ch
    unfolding attended_def using arrive_reads(1,5) by (metis less_Suc_eq less_imp_le)
  moreover have "has_result (arrive f st) ch = has_result st ch" for ch by (simp add: has_result_def)
  ultimately show ?thesis using assms unfolding attended_ok_def by (auto simp: less_Suc_eq) metis
qed

lemma calm_oks: "calm X st st' \<Longrightarrow> flights_ok st \<and> attended_ok st \<Longrightarrow> flights_ok st' \<and> attended_ok st'"
  by (auto elim!: calm.cases simp: calls_def [symmetric] intro: advance_flights_ok advance_attended_ok)

lemma calm_reachable_oks: "(calm_step X)\<^sup>*\<^sup>* (idle sys) st \<Longrightarrow> flights_ok st \<and> attended_ok st"
proof (induction rule: rtranclp_induct)
  case base
  then show ?case by (simp add: idle_flights_ok) (simp add: attended_ok_def idle_def views)
next
  case (step st st')
  then show ?case
    by (auto elim!: calm_step.cases intro: arrive_flights_ok arrive_attended_ok dest: calm_oks)
qed

lemma calm_bound:
  "(calm X ^^ n) st st' \<Longrightarrow> flights_ok st \<and> attended_ok st \<Longrightarrow> n + total_work st' \<le> total_work st"
proof (induction n arbitrary: st)
  case (Suc n)
  then obtain st1 where st1: "calm X st st1" "(calm X ^^ n) st1 st'" by (metis relpowp_Suc_D2)
  then have "total_work st1 < total_work st"
    using Suc.prems by (auto elim!: calm.cases simp: calls_def [symmetric] intro: advance_work)
  with Suc.IH [OF st1(2)] calm_oks [OF st1(1) Suc.prems(2)] show ?case by simp
qed simp

lemma calm_finishes:
  "flights_ok st \<and> attended_ok st \<Longrightarrow>
     \<exists>st'. (calm X)\<^sup>*\<^sup>* st st' \<and> (\<forall>i < calls st'. finished (pc_at st' i)) \<and> attended_ok st' \<and> calls st' = calls st"
proof (induction "total_work st" arbitrary: st rule: less_induct)
  case less
  show ?case
  proof (cases "\<forall>i < calls st. finished (pc_at st i)")
    case False
    with some_advance less.prems obtain j st1 where j: "j < calls st" "advance X j st = Some st1" by blast
    then have step: "calm X st st1" by (auto simp: calls_def intro: calm.intros)
    have "calls st1 = calls st"
      using j by (cases "pc_at st j") (auto simp: advance_views split: option.splits if_splits prod.splits waited.splits)
    with less.hyps [OF advance_work [OF _ _ j]] less.prems calm_oks [OF step] step show ?thesis
      by (metis converse_rtranclp_into_rtranclp)
  qed (use less.prems in blast)
qed

section \<open>A dropped leader\<close>

text \<open>The entry of target \<open>g\<close> is channel \<open>ch\<close>, which nobody sends on any more; the calls from the \<open>n\<close>-th on
  for this target wait for it for ever, or have returned the old result it holds.\<close>

definition disabled :: "nat \<Rightarrow> string \<Rightarrow> nat \<Rightarrow> unit res option \<Rightarrow> ('db, 'w) flights \<Rightarrow> bool" where
  "disabled n g ch v st \<longleftrightarrow>
     fl_inflight st g = Some ch \<and> channel st ch = Some \<lparr>wa_value = v, wa_sender = False\<rparr> \<and>
     (\<forall>j < calls st. leads (pc_at st j) \<noteq> Some ch) \<and>
     (\<forall>j < calls st. n \<le> j \<longrightarrow> goal_at st j = g \<longrightarrow>
        pc_at st j \<in> {Enter, Claim, Waiting ch, Dropped} \<or> (\<exists>r. v = Some r \<and> pc_at st j = Returned ch r))"

lemma disabled_step:
  assumes dis: "disabled n g ch v st" and i: "i < calls st" and reads: "calls st' = calls st"
      "\<And>j. goal_at st' j = goal_at st j" "\<And>j. pc_at st' j = (if i = j then p else pc_at st j)"
    and "fl_inflight st' g = Some ch" "channel st' ch = channel st ch" "leads p \<noteq> Some ch"
    and "n \<le> i \<Longrightarrow> goal_at st i = g \<Longrightarrow>
      p \<in> {Enter, Claim, Waiting ch, Dropped} \<or> (\<exists>r. v = Some r \<and> p = Returned ch r)"
  shows "disabled n g ch v st'"
  using assms unfolding disabled_def by (auto simp: reads)

lemma advance_disabled:
  assumes ok: "flights_ok st" and dis: "disabled n g ch v st" and i: "i < calls st" and adv: "advance X i st = Some st'"
  shows "disabled n g ch v st'"
proof -
  have entry: "fl_inflight st g = Some ch" and chan: "channel st ch = Some \<lparr>wa_value = v, wa_sender = False\<rparr>"
    and other: "leads (pc_at st i) \<noteq> Some ch"
    and late: "n \<le> i \<Longrightarrow> goal_at st i = g \<Longrightarrow>
        pc_at st i \<in> {Enter, Claim, Waiting ch, Dropped} \<or> (\<exists>r. v = Some r \<and> pc_at st i = Returned ch r)"
    using dis i unfolding disabled_def by auto
  have away: "goal_at st i \<noteq> g" if "leads (pc_at st i) = Some d" for d
    using leaders_okD [OF ok i that] entry other that by auto
  show ?thesis
  proof (cases "pc_at st i")
    case Enter
    then show ?thesis using adv i entry
      by (cases "fl_inflight st (goal_at st i)"; intro disabled_step [OF dis i]) (auto simp: advance_views)
  next
    case Claim
    have "ch \<noteq> length (fl_channels st)" using chan by auto
    with Claim show ?thesis using adv i entry
      by (cases "fl_inflight st (goal_at st i)"; intro disabled_step [OF dis i]) (auto simp: advance_views)
  next
    case (Waiting d)
    then show ?thesis using adv i entry chan late channel_nth [OF chan]
      by (cases "wait_refresh_result (fl_channels st ! d)"; intro disabled_step [OF dis i])
         (auto simp: advance_views wait_refresh_result_def split: option.splits)
  next
    case (Leading d)
    then show ?thesis using adv i entry other away
      by (intro disabled_step [OF dis i]) (auto simp: advance_views split: if_splits)
  next
    case (Running d)
    obtain r sys where "refresh_body X (cl_certs_fmspc (fl_calls st ! i)) (fl_sys st) = (r, sys)" by fastforce
    with Running show ?thesis using adv i entry other away
      by (intro disabled_step [OF dis i, of _ "Publishing d r"]) (auto simp: advance_views)
  next
    case (Publishing d r)
    then show ?thesis using adv i entry other away
      by (intro disabled_step [OF dis i]) (auto simp: advance_views)
  qed (use adv in \<open>simp_all add: advance_views\<close>)
qed

lemma drop_disabled:
  assumes ok: "flights_ok st" and dis: "disabled n g ch v st" and i: "i < calls st"
  shows "disabled n g ch v (drop_call i sys st)"
proof -
  have "leads (pc_at st i) \<noteq> Some ch" "fl_inflight st g = Some ch" using dis i by (auto simp: disabled_def)
  then show ?thesis using i
    by (intro disabled_step [OF dis i, where p = Dropped])
       (cases "pc_at st i"; auto simp: drop_call_def pc_at_def [symmetric])+
qed

lemma arrive_disabled: "disabled n g ch v st \<Longrightarrow> disabled n g ch v (arrive f st)"
  unfolding disabled_def by (auto simp: less_Suc_eq)

lemma server_disabled: "server_step X st st' \<Longrightarrow> flights_ok st \<Longrightarrow> disabled n g ch v st \<Longrightarrow> disabled n g ch v st'"
  by (auto elim!: server_step.cases calm.cases simp: calls_def [symmetric]
      intro: arrive_disabled drop_disabled advance_disabled)

lemma dropped_leader_disabled:
  assumes ok: "flights_ok st" and i: "i < calls st" and lead: "leads (pc_at st i) = Some ch"
  shows "disabled (calls st) (goal_at st i) ch (published (pc_at st i)) (drop_call i sys st)"
proof -
  have own: "fl_inflight st (goal_at st i) = Some ch"
      "channel st ch = Some \<lparr>wa_value = published (pc_at st i), wa_sender = True\<rparr>"
    using leaders_okD [OF ok i lead] by auto
  have "leads (pc_at st j) \<noteq> Some ch" if "j < calls st" "j \<noteq> i" for j
    using leaders_apart(2) [OF ok i that(1) _ lead] that(2) by auto
  then show ?thesis using own lead i
    unfolding disabled_def by (cases "pc_at st i") (auto simp: drop_call_def pc_at_def [symmetric] channel_nth)
qed

lemma stays_disabled:
  "(server_step X)\<^sup>*\<^sup>* st st' \<Longrightarrow> flights_ok st \<Longrightarrow> disabled n g ch v st \<Longrightarrow> disabled n g ch v st' \<and> flights_ok st'"
  by (induction rule: rtranclp_induct) (auto intro: server_disabled server_flights_ok)

section \<open>Properties\<close>

text \<open>C12: refresh calls for one target share one run. In every state the server can reach, at most one call
  leads the refresh of a target and at most one refresh is running at all; a call returns the result that
  was published on the channel of its run, so that all calls that shared a run return the same result.\<close>

theorem refresh_single_flight:
  assumes "(server_step X)\<^sup>*\<^sup>* (idle sys) st" "i < calls st" "j < calls st"
  shows "(leads (pc_at st i) \<noteq> None \<longrightarrow> leads (pc_at st j) \<noteq> None \<longrightarrow> goal_at st i = goal_at st j \<longrightarrow> i = j) \<and>
    (locks (pc_at st i) \<longrightarrow> locks (pc_at st j) \<longrightarrow> i = j) \<and>
    (\<forall>ch r. pc_at st i = Returned ch r \<longrightarrow> map_option wa_value (channel st ch) = Some (Some r)) \<and>
    (\<forall>ch r r'. pc_at st i = Returned ch r \<longrightarrow> pc_at st j = Returned ch r' \<longrightarrow> r = r')"
proof -
  have ok: "flights_ok st" by (rule reachable_flights_ok [OF assms(1)])
  have "r = r'" if "pc_at st i = Returned ch r" "pc_at st j = Returned ch r'" for ch r r'
    using ok assms(2,3) that unfolding flights_ok_def answers_ok_def by (metis option.inject)
  then show ?thesis using ok assms(2,3) unfolding flights_ok_def single_ok_def answers_ok_def by auto
qed

text \<open>C13: as long as no client goes away, every refresh call returns. From every state reached by arrivals and
  steps of calls, the calls present can all be run to their return, and however they are scheduled they
  take at most five steps each.\<close>

theorem refresh_calls_return:
  assumes "(calm_step X)\<^sup>*\<^sup>* (idle sys) st"
  shows "(\<exists>st'. (calm X)\<^sup>*\<^sup>* st st' \<and> calls st' = calls st \<and> (\<forall>i < calls st'. \<exists>ch r. pc_at st' i = Returned ch r)) \<and>
    (\<forall>n st'. (calm X ^^ n) st st' \<longrightarrow> n \<le> 5 * calls st)"
proof -
  note ok = calm_reachable_oks [OF assms]
  have "total_work st \<le> (\<Sum>i<calls st. 5)"
    unfolding total_work_def by (intro sum_mono work_le)
  then have "n \<le> 5 * calls st" if "(calm X ^^ n) st st'" for n st'
    using calm_bound [OF that ok] by simp
  moreover obtain st' where "(calm X)\<^sup>*\<^sup>* st st'" "\<forall>i < calls st'. finished (pc_at st' i)" "attended_ok st'" "calls st' = calls st"
    using calm_finishes [OF ok] by blast
  moreover have "\<exists>ch r. p = Returned ch r" if "finished p" "p \<noteq> Dropped" for p
    using that by (auto simp: finished_def split: pc.splits)
  ultimately show ?thesis unfolding attended_ok_def by blast
qed

text \<open>C14: a leader that is dropped disables its target for good. If the client of a leading call goes away
  before the call has removed its entry, then in every later state the entry is still there and no call for
  this target leads: the refresh of this target never runs again. A later call for it never returns if the
  leader had published nothing, and returns the old result otherwise.\<close>

theorem dropped_leader_disables_target:
  assumes "(server_step X)\<^sup>*\<^sup>* (idle sys) st" "i < calls st" "leads (pc_at st i) = Some ch"
    and "(server_step X)\<^sup>*\<^sup>* (drop_call i sys' st) st'" "j < calls st'" "goal_at st' j = goal_at st i"
  shows "fl_inflight st' (goal_at st i) = Some ch \<and> leads (pc_at st' j) = None \<and>
    (calls st \<le> j \<longrightarrow> pc_at st' j = Returned d r \<longrightarrow> published (pc_at st i) = Some r)"
proof -
  have ok: "flights_ok st" by (rule reachable_flights_ok [OF assms(1)])
  have dis: "disabled (calls st) (goal_at st i) ch (published (pc_at st i)) st'" and ok': "flights_ok st'"
    using stays_disabled [OF assms(4) drop_flights_ok [OF ok assms(2)] dropped_leader_disabled [OF ok assms(2,3)]]
    by auto
  have "leads (pc_at st' j) = None"
  proof (rule ccontr)
    assume "leads (pc_at st' j) \<noteq> None"
    then obtain c where c: "leads (pc_at st' j) = Some c" by auto
    with leaders_okD [OF ok' assms(5) c] dis assms(5,6) show False by (auto simp: disabled_def)
  qed
  with dis assms(5,6) show ?thesis unfolding disabled_def by auto
qed

section \<open>A run of two clients\<close>

text \<open>The first client asks for a collateral refresh and its call becomes the leader; a second asks too.\<close>

definition first_leads :: "(mem, exchange list) flights" where
  "first_leads = \<lparr>fl_sys = sample_sys [] [], fl_inflight = [''collateral'' \<mapsto> 0],
     fl_channels = [\<lparr>wa_value = None, wa_sender = True\<rparr>], fl_refresh_lock = None,
     fl_calls = [\<lparr>cl_certs_fmspc = None, cl_pc = Leading 0\<rparr>]\<rparr>"

definition second_waits :: "(mem, exchange list) flights" where
  "second_waits = first_leads\<lparr>fl_calls := [\<lparr>cl_certs_fmspc = None, cl_pc = Leading 0\<rparr>,
     \<lparr>cl_certs_fmspc = None, cl_pc = Waiting 0\<rparr>]\<rparr>"

lemma calm_one: "advance X i st = Some st' \<Longrightarrow> i < length (fl_calls st) \<Longrightarrow> (calm_step X)\<^sup>*\<^sup>* st0 st \<Longrightarrow> (calm_step X)\<^sup>*\<^sup>* st0 st'"
  by (meson calm.intros calm_progress rtranclp.rtrancl_into_rtrancl)

lemma calm_server: "(calm_step X)\<^sup>*\<^sup>* st st' \<Longrightarrow> (server_step X)\<^sup>*\<^sup>* st st'"
  by (erule rtranclp_mono [THEN predicate2D, rotated]) (auto elim!: calm_step.cases intro: server_step.intros)

lemma first_leads_reachable: "(calm_step X)\<^sup>*\<^sup>* (idle (sample_sys [] [])) first_leads"
proof -
  let ?st = "arrive None (idle (sample_sys [] []))"
  have a: "advance X 0 ?st = Some (goto 0 Claim ?st)" "advance X 0 (goto 0 Claim ?st) = Some first_leads"
    by (simp_all add: advance_def arrive_def idle_def goto_def first_leads_def target_of_def refresh_target_def)
  have "(calm_step X)\<^sup>*\<^sup>* (idle (sample_sys [] [])) ?st" by (auto intro: calm_arrival)
  then have "(calm_step X)\<^sup>*\<^sup>* (idle (sample_sys [] [])) (goto 0 Claim ?st)"
    by (rule calm_one [OF a(1), rotated]) (simp add: arrive_def)
  then show ?thesis by (rule calm_one [OF a(2), rotated]) (simp add: arrive_def goto_def)
qed

lemma second_waits_reachable: "(calm_step X)\<^sup>*\<^sup>* (idle (sample_sys [] [])) second_waits"
proof -
  have a: "advance X 1 (arrive None first_leads) = Some second_waits"
    by (simp add: advance_def arrive_def goto_def first_leads_def second_waits_def target_of_def refresh_target_def)
  have "(calm_step X)\<^sup>*\<^sup>* (idle (sample_sys [] [])) (arrive None first_leads)"
    using first_leads_reachable calm_arrival by (rule rtranclp.rtrancl_into_rtrancl)
  then show ?thesis by (rule calm_one [OF a, rotated]) (simp add: arrive_def first_leads_def)
qed

theorem refresh_single_flight_witness:
  "calls second_waits = 2 \<and> leads (pc_at second_waits 0) = Some 0 \<and> \<not> locks (pc_at second_waits 1)"
  using refresh_single_flight [OF calm_server [OF second_waits_reachable, of "sample_ctx Lazy"], of 0 1]
  by (simp add: second_waits_def first_leads_def views)

theorem refresh_calls_return_witness:
  "\<exists>st'. (calm (sample_ctx Lazy))\<^sup>*\<^sup>* second_waits st' \<and> calls st' = 2 \<and> (\<exists>ch r. pc_at st' 1 = Returned ch r)"
proof -
  have "calls second_waits = 2" by (simp add: second_waits_def calls_def)
  with refresh_calls_return [OF second_waits_reachable, of "sample_ctx Lazy"] show ?thesis by auto
qed

theorem dropped_leader_disables_target_witness:
  "fl_inflight (arrive None (drop_call 0 (sample_sys [] []) first_leads)) ''collateral'' = Some 0 \<and>
   advance (sample_ctx Lazy) 1 (goto 1 (Waiting 0) (arrive None (drop_call 0 (sample_sys [] []) first_leads))) =
     Some (arrive None (drop_call 0 (sample_sys [] []) first_leads))"
proof -
  let ?st = "drop_call 0 (sample_sys [] []) first_leads"
  have "(server_step (sample_ctx Lazy))\<^sup>*\<^sup>* ?st (arrive None ?st)" by (auto intro: arrival)
  moreover have "goal_at (arrive None ?st) 1 = goal_at first_leads 0" "1 < calls (arrive None ?st)"
    "leads (pc_at first_leads 0) = Some 0" "0 < calls first_leads" "goal_at first_leads 0 = ''collateral''"
    by (simp_all add: arrive_def drop_call_def goto_def set_channel_def first_leads_def views refresh_target_def)
  ultimately have "fl_inflight (arrive None ?st) ''collateral'' = Some 0"
    using dropped_leader_disables_target [OF calm_server [OF first_leads_reachable], of 0 0 "sample_ctx Lazy"] by metis
  then show ?thesis
    by (simp add: advance_def wait_refresh_result_def arrive_def drop_call_def goto_def set_channel_def first_leads_def)
qed

end
