(* ===== verification/Http.thy ===== *)
theory Http
  imports Refresh Headers Collateral Appraisal Registration ReadThrough
begin

text \<open>
  The HTTP layer: \<^verbatim>\<open>src/auth.rs\<close>, \<^verbatim>\<open>src/health.rs\<close>, \<^verbatim>\<open>src/routes/handlers.rs\<close>, \<^verbatim>\<open>src/routes/mod.rs\<close> and
  \<open>create_app\<close> of \<^verbatim>\<open>src/lib.rs\<close>. A handler is an operation on the cache state; a service turns a request
  into a response; a middleware wraps a service. axum is a parameter: which route template a path matches,
  what it answers for a method a path has no handler for, and what it makes of a response to HEAD. The
  metrics middleware is left out.
\<close>

section \<open>Requests, headers and environment\<close>

datatype http_method = GET | HEAD | POST | PUT | OPTIONS | OTHER string

text \<open>The first value of a header, and its text if it is visible ASCII. \<open>hq_json\<close> and \<open>hq_body\<close>: what
  reading the body as JSON or as bytes gives.\<close>

record http_request =
  hq_method :: http_method
  hq_path :: string
  hq_query :: "string option"
  hq_header :: "string \<Rightarrow> string option option"
  hq_json :: "(nat + json) option"
  hq_body :: "(nat + bytes) option"

record axum =
  ax_match :: "string list \<Rightarrow> string \<Rightarrow> string option"
  ax_nests :: "string \<Rightarrow> string \<Rightarrow> bool"
  ax_not_allowed :: "http_request \<Rightarrow> response"
  ax_head :: "response \<Rightarrow> response"
  ax_value_ok :: "string \<Rightarrow> bool"

record ('db, 'w) app_state =
  as_ctx :: "('db, 'w) ctx"
  as_cfg :: cache_config
  as_upstream :: upstream
  as_poster :: poster
  as_env :: "'db env"
  as_join :: "string \<Rightarrow> ('db, 'w) sys \<Rightarrow> (unit res \<times> ('db, 'w) sys) option"
  as_axum :: axum
  as_user_token_hash :: string
  as_admin_token_hash :: string
  as_collateral_cache_max_age_secs :: "u64 option"
  as_request_id :: string
  as_timestamp :: string
  as_latency_ms :: nat
  as_is_healthy :: "'db \<Rightarrow> bool"
  as_started :: bool

type_synonym ('db, 'w) handler = "('db, 'w) app_state \<Rightarrow> http_request \<Rightarrow> ('db, 'w, response) op"
type_synonym ('db, 'w) service = "http_request \<Rightarrow> ('db, 'w) sys \<Rightarrow> response \<times> ('db, 'w) sys"

definition set_header :: "string \<Rightarrow> string \<Rightarrow> (string \<times> string) list \<Rightarrow> (string \<times> string) list" where
  "set_header name val h =
     (to_ascii_lowercase name, val) # filter (\<lambda>kv. fst kv \<noteq> to_ascii_lowercase name) h"

definition insert_hdr :: "axum \<Rightarrow> string \<Rightarrow> string \<Rightarrow> (string \<times> string) list \<Rightarrow> (string \<times> string) list" where
  "insert_hdr A name val h = (if ax_value_ok A val then set_header name val h else h)"

definition with_headers :: "((string \<times> string) list \<Rightarrow> (string \<times> string) list) \<Rightarrow> response \<Rightarrow> response" where
  "with_headers f r = r\<lparr>resp_headers := f (resp_headers r)\<rparr>"

definition not_found :: response where
  "not_found = \<lparr>resp_status = 404, resp_headers = [], resp_body = []\<rparr>"

section \<open>Authentication\<close>

definition parse_expected_hash :: "ext \<Rightarrow> string \<Rightarrow> bytes option" where
  "parse_expected_hash E hex_hash =
     (if length hex_hash \<noteq> 128 \<or> \<not> list_all is_ascii_hexdigit hex_hash then None else x_hex_decode E hex_hash)"

definition verify_token :: "ext \<Rightarrow> string option \<Rightarrow> string \<Rightarrow> unit res" where
  "verify_token E raw_token expected_hex =
     and_then (ok_or UNAUTHORIZED (parse_expected_hash E expected_hex)) (\<lambda>expected.
     and_then (ok_or UNAUTHORIZED (opt_filter (\<lambda>t. t \<noteq> []) raw_token)) (\<lambda>token.
     let digest = x_sha512 E (as_bytes token)
     in if length digest \<noteq> length expected \<or> digest \<noteq> expected then Inl UNAUTHORIZED else Inr ()))"

definition header_token :: "http_request \<Rightarrow> string \<Rightarrow> string option" where
  "header_token rq name = Option.bind (hq_header rq name) id"

definition require_user :: "('db, 'w) app_state \<Rightarrow> ('db, 'w) handler \<Rightarrow> ('db, 'w) handler" where
  "require_user A next st rq =
     seq (lift_res (verify_token (cx_ext (as_ctx A)) (header_token rq USER_TOKEN) (as_user_token_hash A))) (\<lambda>_.
       next st rq)"

definition require_admin :: "('db, 'w) app_state \<Rightarrow> ('db, 'w) handler \<Rightarrow> ('db, 'w) handler" where
  "require_admin A next st rq =
     seq (lift_res (verify_token (cx_ext (as_ctx A)) (header_token rq ADMIN_TOKEN) (as_admin_token_hash A))) (\<lambda>_.
       next st rq)"

section \<open>Responses\<close>

definition json_value :: "ext \<Rightarrow> (string \<times> string) list \<Rightarrow> json \<Rightarrow> string \<Rightarrow> response" where
  "json_value E h val raw_body =
     \<lparr>resp_status = 200, resp_headers = set_header ''content-type'' CONTENT_TYPE_JSON h,
      resp_body = as_bytes (if raw_body = [] then x_json_to_string E val else raw_body)\<rparr>"

definition amd_response :: "axum \<Rightarrow> amd_kds_response \<Rightarrow> response" where
  "amd_response A rec =
     (let opt = (\<lambda>name val h. case val of Some v \<Rightarrow> insert_hdr A name v h | None \<Rightarrow> h)
      in \<lparr>resp_status = (if 100 \<le> rs_status rec \<and> rs_status rec < 1000 then rs_status rec else 502),
          resp_headers = opt ''retry-after'' (rs_retry_after rec)
             (opt ''content-disposition'' (rs_content_disposition rec)
               (opt ''content-type'' (rs_content_type rec) [])),
          resp_body = rs_body rec\<rparr>)"

definition original_path_and_query :: "http_request \<Rightarrow> string" where
  "original_path_and_query rq =
     (case hq_query rq of Some query \<Rightarrow> hq_path rq @ ''?'' @ query | None \<Rightarrow> hq_path rq)"

section \<open>Read-through handlers\<close>

definition on_cache :: "('db cache \<Rightarrow> 'a res \<times> 'db cache) \<Rightarrow> ('db, 'w, 'a) op" where
  "on_cache f s = (case f (sy_cache s) of (r, c) \<Rightarrow> (r, s\<lparr>sy_cache := c\<rparr>))"

definition h_get_amd_kds :: "('db, 'w) handler" where
  "h_get_amd_kds A rq =
     seq (on_cache (\<lambda>c. cache_get_amd_kds (cx_rocks (as_ctx A)) (cx_serde (as_ctx A)) (as_cfg A) (as_upstream A)
                        (as_env A) c (original_path_and_query rq))) (\<lambda>rec.
       ret (amd_response (as_axum A) rec))"

definition h_get_nvidia_rim :: "('db, 'w) handler" where
  "h_get_nvidia_rim A rq =
     seq (on_cache (\<lambda>c. cache_get_nvidia_rim (cx_rocks (as_ctx A)) (cx_serde (as_ctx A)) (as_cfg A) (as_upstream A)
                        (as_env A) c (original_path_and_query rq))) (\<lambda>rec.
       ret (amd_response (as_axum A) rec))"

definition h_post_nvidia_ocsp :: "('db, 'w) handler" where
  "h_post_nvidia_ocsp A rq =
     seq (lift_res (pccs_bytes (hq_body rq))) (\<lambda>body.
     let content_type = unwrap_or [] (Option.bind (hq_header rq ''content-type'') id);
         media = trim (hd (split_on (CHR '';'') content_type))
     in if \<not> eq_ignore_ascii_case media ''application/ocsp-request'' then lift_res (Inl INVALID_REQ)
        else if body = [] then lift_res (Inl INVALID_REQ)
        else seq (on_cache (\<lambda>c. cache_get_nvidia_ocsp (cx_rocks (as_ctx A)) (cx_serde (as_ctx A)) (cx_ext (as_ctx A))
                                  (as_cfg A) (as_poster A) (as_env A) c body)) (\<lambda>rec.
               ret (amd_response (as_axum A) rec)))"

definition h_post_nvidia_nras_attest_gpu :: "('db, 'w) handler" where
  "h_post_nvidia_nras_attest_gpu A rq =
     seq (lift_res (pccs_json (hq_json rq))) (\<lambda>body.
     seq (lift_res (get_nvidia_nras (cx_ext (as_ctx A)) (as_cfg A) (as_poster A) body)) (\<lambda>rec.
       ret (amd_response (as_axum A) rec)))"

section \<open>Intel collateral handlers\<close>

definition with_query :: "http_request \<Rightarrow> ((string \<rightharpoonup> string) \<Rightarrow> ('db, 'w, response) op) \<Rightarrow> ('db, 'w, response) op" where
  "with_query rq f = seq (lift_res (query_params (hq_query rq))) f"

definition with_version :: "http_request \<Rightarrow> (u32 \<Rightarrow> ('db, 'w, response) op) \<Rightarrow> ('db, 'w, response) op" where
  "with_version rq f = seq (lift_res (api_version_from_url (hq_path rq))) f"

definition h_get_pckcert :: "('db, 'w) handler" where
  "h_get_pckcert A rq =
     with_query rq (\<lambda>q.
     with_version rq (\<lambda>version.
     seq (lift_res (v_qeid (q ''qeid''))) (\<lambda>qeid.
     seq (lift_res (v_cpusvn (q ''cpusvn''))) (\<lambda>cpusvn.
     seq (lift_res (v_pcesvn (q ''pcesvn''))) (\<lambda>pcesvn.
     seq (lift_res (v_pceid (q ''pceid''))) (\<lambda>pceid.
     seq (lift_res (v_encrypted_ppid (q ''encrypted_ppid''))) (\<lambda>enc.
     seq (cache_get_pckcert (as_ctx A) qeid cpusvn pcesvn pceid enc version) (\<lambda>rec.
     ret \<lparr>resp_status = 200,
          resp_headers = set_header ''content-type'' CONTENT_TYPE_PEM
            (insert_hdr (as_axum A) SGX_PCK_CERTIFICATE_ISSUER_CHAIN (pk_issuer_chain rec)
            (insert_hdr (as_axum A) SGX_PCK_CERTIFICATE_CA_TYPE (pk_ca rec)
            (insert_hdr (as_axum A) SGX_FMSPC (pk_fmspc rec)
            (insert_hdr (as_axum A) SGX_TCBM (pk_tcbm rec) [])))),
          resp_body = as_bytes (pk_cert rec)\<rparr>))))))))"

definition h_get_pckcrl :: "('db, 'w) handler" where
  "h_get_pckcrl A rq =
     with_query rq (\<lambda>q.
     with_version rq (\<lambda>version.
     seq (lift_res (v_pck_ca (q ''ca''))) (\<lambda>ca.
     seq (cache_get_pckcrl (as_ctx A) ca version) (\<lambda>rec.
     let der = (case q ''encoding'' of Some s \<Rightarrow> eq_ignore_ascii_case s ''DER'' | None \<Rightarrow> False);
         h = insert_hdr (as_axum A) SGX_PCK_CRL_ISSUER_CHAIN (pl_issuer_chain rec) []
     in ret (if der
             then \<lparr>resp_status = 200, resp_headers = set_header ''content-type'' CONTENT_TYPE_CRL h, resp_body = pl_pckcrl rec\<rparr>
             else \<lparr>resp_status = 200, resp_headers = set_header ''content-type'' CONTENT_TYPE_PEM h,
                   resp_body = as_bytes (x_hex_encode (cx_ext (as_ctx A)) (pl_pckcrl rec))\<rparr>)))))"

definition h_get_tcb :: "u8 \<Rightarrow> ('db, 'w) handler" where
  "h_get_tcb prod_type A rq =
     with_query rq (\<lambda>q.
     with_version rq (\<lambda>version.
     seq (lift_res (v_fmspc (q ''fmspc''))) (\<lambda>fmspc.
     seq (lift_res (v_update_type (q ''update'') False)) (\<lambda>update.
     seq (cache_get_tcb (as_ctx A) prod_type fmspc version update) (\<lambda>rec.
     ret (json_value (cx_ext (as_ctx A)) (insert_hdr (as_axum A) (tcb_issuer_chain_name version) (tr_issuer_chain rec) [])
            (tr_tcbinfo rec) (tr_raw_body rec)))))))"

definition h_get_identity :: "u8 \<Rightarrow> ('db, 'w) handler" where
  "h_get_identity enclave_id A rq =
     with_query rq (\<lambda>q.
     with_version rq (\<lambda>version.
     seq (lift_res (v_update_type (q ''update'') False)) (\<lambda>update.
     seq (cache_get_identity (as_ctx A) enclave_id version update) (\<lambda>rec.
     ret (json_value (cx_ext (as_ctx A))
            (insert_hdr (as_axum A) SGX_ENCLAVE_IDENTITY_ISSUER_CHAIN (ir_issuer_chain rec) [])
            (ir_identity rec) (ir_raw_body rec))))))"

definition h_get_rootcacrl :: "('db, 'w) handler" where
  "h_get_rootcacrl A rq =
     with_version rq (\<lambda>version.
     seq (cache_get_rootcacrl (as_ctx A) version) (\<lambda>crl.
     ret \<lparr>resp_status = 200, resp_headers = set_header ''content-type'' CONTENT_TYPE_CRL [],
          resp_body = as_bytes (x_hex_encode (cx_ext (as_ctx A)) crl)\<rparr>))"

definition h_get_crl :: "('db, 'w) handler" where
  "h_get_crl A rq =
     with_query rq (\<lambda>q.
     with_version rq (\<lambda>version.
     case q ''uri'' of
       None \<Rightarrow> lift_res (Inl INVALID_REQ)
     | Some uri \<Rightarrow>
         if \<not> is_valid_crl_uri uri then lift_res (Inl INVALID_REQ)
         else seq (cache_get_crl (as_ctx A) uri version) (\<lambda>crl.
              ret \<lparr>resp_status = 200, resp_headers = set_header ''content-type'' CONTENT_TYPE_CRL [],
                   resp_body = crl\<rparr>)))"

section \<open>Operator handlers\<close>

definition h_post_platforms :: "('db, 'w) handler" where
  "h_post_platforms A rq =
     with_query rq (\<lambda>q.
     seq (lift_res (pccs_json (hq_json rq))) (\<lambda>body.
     seq (lift_res (v_update_type (q ''update'') True)) (\<lambda>update.
     seq (lift_res (v_platform_reg body)) (\<lambda>reg.
     seq (cache_register_platform (as_ctx A)
            \<lparr>rg_qe_id = pr_qe_id reg, rg_pce_id = pr_pce_id reg, rg_cpu_svn = pr_cpu_svn reg, rg_pce_svn = pr_pce_svn reg,
             rg_enc_ppid = pr_enc_ppid reg, rg_platform_manifest = pr_platform_manifest reg, rg_state = 0\<rparr> update) (\<lambda>_.
       ret success_response)))))"

text \<open>The JSON of the two lists of platforms, as \<open>Serialize\<close> is derived for their records.\<close>

definition registered_json :: "registered_platform \<Rightarrow> json" where
  "registered_json p =
     JObj [(''qe_id'', JStr (rg_qe_id p)), (''pce_id'', JStr (rg_pce_id p)), (''cpu_svn'', JStr (rg_cpu_svn p)),
           (''pce_svn'', JStr (rg_pce_svn p)), (''enc_ppid'', JStr (rg_enc_ppid p)),
           (''platform_manifest'', JStr (rg_platform_manifest p)), (''state'', JNum (PosInt (ucast (rg_state p))))]"

definition platform_json :: "platform_record \<Rightarrow> json" where
  "platform_json p =
     JObj [(''qe_id'', JStr (pf_qe_id p)), (''pce_id'', JStr (pf_pce_id p)), (''cpu_svn'', JStr (pf_cpu_svn p)),
           (''pce_svn'', JStr (pf_pce_svn p)), (''enc_ppid'', JStr (pf_enc_ppid p)),
           (''platform_manifest'', JStr (pf_platform_manifest p))]"

definition platforms_of :: "('db, 'w) ctx \<Rightarrow> platforms_source \<Rightarrow> ('db, 'w, json list) op" where
  "platforms_of X src =
     (let taken = (\<lambda>state. seq (store_ret X (\<lambda>db. take_registered (cx_rocks X) (cx_serde X) db state))
                               (\<lambda>l. ret (map registered_json l)))
      in case src of
           Reg \<Rightarrow> taken 0
         | RegNa \<Rightarrow> taken 1
         | Fmspc fmspcs \<Rightarrow>
             load X (\<lambda>db. map platform_json (cached_platforms_by_fmspc (cx_rocks X) (cx_serde X) db fmspcs)))"

definition h_get_platforms :: "('db, 'w) handler" where
  "h_get_platforms A rq =
     with_query rq (\<lambda>q.
     seq (lift_res (v_platforms_source (q ''source''))) (\<lambda>src.
     seq (platforms_of (as_ctx A) src) (\<lambda>platforms.
     ret \<lparr>resp_status = 200,
          resp_headers = set_header ''content-type'' CONTENT_TYPE_JSON_UTF8
            (insert_hdr (as_axum A) PLATFORM_COUNT (dec_string (length platforms)) []),
          resp_body = as_bytes (x_json_to_string (cx_ext (as_ctx A)) (JArr platforms))\<rparr>)))"

text \<open>An upload that fails may have written collateral before: its state is kept with the error.\<close>

definition store_outcome :: "('db, 'w) ctx \<Rightarrow> ('db \<Rightarrow> 'a res \<times> 'db) \<Rightarrow> ('db, 'w, 'a) op" where
  "store_outcome X f s = (let s = cx_env X s in case f (db_of s) of (r, db) \<Rightarrow> (r, set_db db s))"

definition h_put_platform_collateral :: "('db, 'w) handler" where
  "h_put_platform_collateral A rq =
     seq (lift_res (pccs_json (hq_json rq))) (\<lambda>body.
     with_version rq (\<lambda>version.
     seq (store_outcome (as_ctx A) (\<lambda>db. put_platform_collateral (cx_rocks (as_ctx A)) (cx_serde (as_ctx A))
            (cx_ext (as_ctx A)) db body version)) (\<lambda>_.
       ret success_response)))"

text \<open>\<open>as_join\<close>: the outcome of a run for the target that is already in flight.\<close>

definition h_refresh :: "('db, 'w) handler" where
  "h_refresh A rq =
     with_query rq (\<lambda>q.
     seq (lift_res (refresh_request (cx_mode (as_ctx A)) (q ''type'') (q ''fmspc''))) (\<lambda>certs_fmspc.
     seq (\<lambda>s. case as_join A (refresh_target certs_fmspc) s of
                  Some shared \<Rightarrow> shared | None \<Rightarrow> refresh_body (as_ctx A) certs_fmspc s) (\<lambda>_.
       ret success_response)))"

definition h_put_appraisal_policy :: "('db, 'w) handler" where
  "h_put_appraisal_policy A rq =
     seq (lift_res (pccs_json (hq_json rq))) (\<lambda>body.
     seq (store_ret (as_ctx A) (\<lambda>db. put_appraisal_policy (cx_rocks (as_ctx A)) (cx_serde (as_ctx A))
            (cx_ext (as_ctx A)) db body)) (\<lambda>policy_id.
       ret (text_html 200 policy_id)))"

definition h_get_appraisal_policy :: "('db, 'w) handler" where
  "h_get_appraisal_policy A rq =
     with_query rq (\<lambda>q.
     seq (lift_res (v_fmspc (q ''fmspc''))) (\<lambda>fmspc.
     seq (load (as_ctx A) (\<lambda>db. get_default_policies (cx_rocks (as_ctx A)) (cx_serde (as_ctx A)) db fmspc)) (\<lambda>found.
     seq (lift_res found) (\<lambda>policies. ret (text_html 200 policies)))))"

section \<open>Health probes\<close>

definition json_response :: "ext \<Rightarrow> nat \<Rightarrow> json \<Rightarrow> response" where
  "json_response E st val =
     \<lparr>resp_status = st, resp_headers = [(''content-type'', ''application/json'')],
      resp_body = as_bytes (x_json_to_string E val)\<rparr>"

definition h_liveness :: "('db, 'w) handler" where
  "h_liveness A rq =
     ret (json_response (cx_ext (as_ctx A)) 200
       (JObj [(''status'', JStr ''UP''), (''timestamp'', JStr (as_timestamp A))]))"

definition h_readiness :: "('db, 'w) handler" where
  "h_readiness A rq =
     seq (load (as_ctx A) (as_is_healthy A)) (\<lambda>db_ok.
     ret (if db_ok then
            json_response (cx_ext (as_ctx A)) 200
              (JObj [(''status'', JStr ''UP''), (''db'', JStr ''CONNECTED''),
                     (''latency'', JStr (dec_string (as_latency_ms A) @ ''ms'')), (''timestamp'', JStr (as_timestamp A))])
          else
            json_response (cx_ext (as_ctx A)) 503
              (JObj [(''status'', JStr ''DOWN''), (''db'', JStr ''DISCONNECTED''), (''timestamp'', JStr (as_timestamp A))])))"

definition h_startup :: "('db, 'w) handler" where
  "h_startup A rq =
     ret (if as_started A
          then json_response (cx_ext (as_ctx A)) 200
                 (JObj [(''status'', JStr ''STARTED''), (''timestamp'', JStr (as_timestamp A))])
          else json_response (cx_ext (as_ctx A)) 503
                 (JObj [(''status'', JStr ''STARTING''), (''timestamp'', JStr (as_timestamp A))]))"

section \<open>Routes\<close>

datatype endpoint =
    GetPlatforms | PutPlatformCollateral | RefreshCache | PutAppraisalPolicy | PostPlatforms
  | GetPckcert | GetPckcrl | GetTcb u8 | GetIdentity u8 | GetRootcacrl | GetCrl | GetAppraisalPolicy
  | GetAmdKds | GetNvidiaRim | PostNvidiaOcsp | PostNras | Liveness | Readiness | Startup

datatype access = Public | User | Admin

record route =
  ro_path :: string
  ro_method :: http_method
  ro_access :: access
  ro_endpoint :: endpoint

definition route_at :: "string \<Rightarrow> http_method \<Rightarrow> access \<Rightarrow> endpoint \<Rightarrow> route" where
  "route_at p m acc e = \<lparr>ro_path = p, ro_method = m, ro_access = acc, ro_endpoint = e\<rparr>"

definition nest :: "string \<Rightarrow> route list \<Rightarrow> route list" where
  "nest p rs = map (\<lambda>r. r\<lparr>ro_path := p @ ro_path r\<rparr>) rs"

definition sgx_router :: "route list" where
  "sgx_router =
     [route_at ''/platforms'' GET Admin GetPlatforms,
      route_at ''/platformcollateral'' PUT Admin PutPlatformCollateral,
      route_at ''/refresh'' GET Admin RefreshCache,
      route_at ''/refresh'' POST Admin RefreshCache,
      route_at ''/appraisalpolicy'' PUT Admin PutAppraisalPolicy,
      route_at ''/platforms'' POST User PostPlatforms,
      route_at ''/pckcert'' GET Public GetPckcert,
      route_at ''/pckcrl'' GET Public GetPckcrl,
      route_at ''/tcb'' GET Public (GetTcb 0),
      route_at ''/qe/identity'' GET Public (GetIdentity 1),
      route_at ''/qve/identity'' GET Public (GetIdentity 2),
      route_at ''/rootcacrl'' GET Public GetRootcacrl,
      route_at ''/crl'' GET Public GetCrl,
      route_at ''/appraisalpolicy'' GET Public GetAppraisalPolicy]"

definition tdx_router :: "route list" where
  "tdx_router =
     [route_at ''/tcb'' GET Public (GetTcb 1), route_at ''/qe/identity'' GET Public (GetIdentity 3)]"

definition healthz_router :: "route list" where
  "healthz_router =
     [route_at ''/live'' GET Public Liveness, route_at ''/ready'' GET Public Readiness,
      route_at ''/startup'' GET Public Startup]"

definition amd_kds_router :: "route list" where
  "amd_kds_router =
     [route_at ''/vcek/{*rest}'' GET Public GetAmdKds, route_at ''/vlek/{*rest}'' GET Public GetAmdKds]"

definition nvidia_rim_router :: "route list" where
  "nvidia_rim_router = [route_at ''/v1/rim/{*rest}'' GET Public GetNvidiaRim]"

definition nvidia_ocsp_router :: "route list" where
  "nvidia_ocsp_router = [route_at ''/ocsp'' POST Public PostNvidiaOcsp]"

definition nvidia_nras_router :: "route list" where
  "nvidia_nras_router = [route_at ''/attest/gpu'' POST Public PostNras]"

definition app_routes :: "u32 \<Rightarrow> route list" where
  "app_routes pcs_ver =
     nest ''/sgx/certification/v3'' sgx_router @ amd_kds_router @ nvidia_rim_router @ nvidia_ocsp_router @
     nest ''/nvidia/nras'' nvidia_nras_router @
     (if pcs_ver = 4
      then nest ''/sgx/certification/v4'' sgx_router @ nest ''/tdx/certification/v4'' tdx_router else []) @
     nest ''/healthz'' healthz_router"

definition handler_of :: "endpoint \<Rightarrow> ('db, 'w) handler" where
  "handler_of e =
     (case e of
        GetPlatforms \<Rightarrow> h_get_platforms | PutPlatformCollateral \<Rightarrow> h_put_platform_collateral
      | RefreshCache \<Rightarrow> h_refresh | PutAppraisalPolicy \<Rightarrow> h_put_appraisal_policy
      | PostPlatforms \<Rightarrow> h_post_platforms | GetPckcert \<Rightarrow> h_get_pckcert | GetPckcrl \<Rightarrow> h_get_pckcrl
      | GetTcb prod_type \<Rightarrow> h_get_tcb prod_type | GetIdentity enclave_id \<Rightarrow> h_get_identity enclave_id
      | GetRootcacrl \<Rightarrow> h_get_rootcacrl | GetCrl \<Rightarrow> h_get_crl | GetAppraisalPolicy \<Rightarrow> h_get_appraisal_policy
      | GetAmdKds \<Rightarrow> h_get_amd_kds | GetNvidiaRim \<Rightarrow> h_get_nvidia_rim | PostNvidiaOcsp \<Rightarrow> h_post_nvidia_ocsp
      | PostNras \<Rightarrow> h_post_nvidia_nras_attest_gpu | Liveness \<Rightarrow> h_liveness | Readiness \<Rightarrow> h_readiness
      | Startup \<Rightarrow> h_startup)"

definition guarded :: "access \<Rightarrow> ('db, 'w) handler \<Rightarrow> ('db, 'w) handler" where
  "guarded acc h A rq =
     (case acc of Public \<Rightarrow> h A rq | User \<Rightarrow> require_user A h A rq | Admin \<Rightarrow> require_admin A h A rq)"

definition respond :: "('db, 'w, response) op \<Rightarrow> ('db, 'w) sys \<Rightarrow> response \<times> ('db, 'w) sys" where
  "respond m s = (case m s of (Inl e, s) \<Rightarrow> (into_response e, s) | (Inr r, s) \<Rightarrow> (r, s))"

text \<open>The template a request matches, and the route of its method; HEAD goes to the handler for GET.\<close>

definition matched_path :: "('db, 'w) app_state \<Rightarrow> http_request \<Rightarrow> string option" where
  "matched_path A rq =
     ax_match (as_axum A) (map ro_path (app_routes (cx_pcs_version (as_ctx A)))) (hq_path rq)"

definition route_of :: "('db, 'w) app_state \<Rightarrow> http_request \<Rightarrow> route option" where
  "route_of A rq =
     Option.bind (matched_path A rq) (\<lambda>p.
       find (\<lambda>r. ro_path r = p \<and> ro_method r = (if hq_method rq = HEAD then GET else hq_method rq))
         (app_routes (cx_pcs_version (as_ctx A))))"

definition routed :: "('db, 'w) app_state \<Rightarrow> ('db, 'w) service" where
  "routed A rq s =
     (case matched_path A rq of
        None \<Rightarrow> (not_found, s)
      | Some _ \<Rightarrow>
          (case route_of A rq of
             None \<Rightarrow> (ax_not_allowed (as_axum A) rq, s)
           | Some r \<Rightarrow>
               (case respond (guarded (ro_access r) (handler_of (ro_endpoint r)) A rq) s of
                  (resp, s) \<Rightarrow> (if hq_method rq = HEAD then ax_head (as_axum A) resp else resp, s))))"

section \<open>Middleware\<close>

type_synonym ('db, 'w) layer = "('db, 'w) service \<Rightarrow> ('db, 'w) service"

definition v3_eol_warning :: "('db, 'w) app_state \<Rightarrow> ('db, 'w) layer" where
  "v3_eol_warning A next rq s =
     (case next rq s of (resp, s) \<Rightarrow> (with_headers (insert_hdr (as_axum A) WARNING V3_EOL_WARNING) resp, s))"

text \<open>The layer of the nested v3 router, which also has its own fallback.\<close>

definition v3_layer :: "('db, 'w) app_state \<Rightarrow> ('db, 'w) layer" where
  "v3_layer A next rq s =
     (if ax_nests (as_axum A) ''/sgx/certification/v3'' (hq_path rq) then v3_eol_warning A next rq s else next rq s)"

definition CACHEABLE_COLLATERAL :: "string list" where
  "CACHEABLE_COLLATERAL =
     [''/sgx/certification/v3/pckcrl'', ''/sgx/certification/v3/tcb'', ''/sgx/certification/v3/qe/identity'',
      ''/sgx/certification/v3/qve/identity'', ''/sgx/certification/v3/rootcacrl'',
      ''/sgx/certification/v4/pckcrl'', ''/sgx/certification/v4/tcb'', ''/sgx/certification/v4/qe/identity'',
      ''/sgx/certification/v4/qve/identity'', ''/sgx/certification/v4/rootcacrl'',
      ''/tdx/certification/v4/tcb'', ''/tdx/certification/v4/qe/identity'']"

definition collateral_cache_control :: "('db, 'w) app_state \<Rightarrow> u64 \<Rightarrow> ('db, 'w) layer" where
  "collateral_cache_control A max_age next rq s =
     (case next rq s of
        (resp, s) \<Rightarrow>
          (if (hq_method rq = GET \<or> hq_method rq = HEAD)
              \<and> (case matched_path A rq of Some p \<Rightarrow> p \<in> set CACHEABLE_COLLATERAL | None \<Rightarrow> False)
           then with_headers (set_header ''cache-control''
                  (if resp_status resp = 200 then ''public, max-age='' @ dec_string (unat max_age) else ''no-store'')) resp
           else resp, s))"

definition route_expects_body :: "http_method \<Rightarrow> string \<Rightarrow> bool" where
  "route_expects_body m path \<longleftrightarrow>
     m = POST \<and> path \<in> {''/sgx/certification/v3/platforms'', ''/sgx/certification/v4/platforms''} \<or>
     m = PUT \<and> path \<in> {''/sgx/certification/v3/platformcollateral'', ''/sgx/certification/v4/platformcollateral''} \<or>
     m = PUT \<and> path \<in> {''/sgx/certification/v3/appraisalpolicy'', ''/sgx/certification/v4/appraisalpolicy''} \<or>
     m = POST \<and> path = ''/ocsp'' \<or>
     m = POST \<and> path = ''/nvidia/nras/attest/gpu''"

definition request_carries_body :: "http_request \<Rightarrow> bool" where
  "request_carries_body rq \<longleftrightarrow>
     (case Option.bind (Option.bind (hq_header rq ''content-length'') id) (parse_uint (2 ^ 64)) of
        Some len \<Rightarrow> len > 0 | None \<Rightarrow> False) \<or>
     (case Option.bind (hq_header rq ''transfer-encoding'') id of
        Some s \<Rightarrow> list_ex (\<lambda>part. trim part = ''chunked'') (split_on (CHR '','') (to_ascii_lowercase s))
      | None \<Rightarrow> False)"

definition reject_unexpected_body :: "('db, 'w) layer" where
  "reject_unexpected_body next rq s =
     (if request_carries_body rq \<and> \<not> route_expects_body (hq_method rq) (hq_path rq)
      then (into_response CONTENT_TOO_LARGE, s) else next rq s)"

definition reject_trailing_slash :: "('db, 'w) layer" where
  "reject_trailing_slash next rq s =
     (if length (hq_path rq) > 1 \<and> ends_with (hq_path rq) ''/'' then (not_found, s) else next rq s)"

definition CORS_EXPOSE_HEADERS :: string where
  "CORS_EXPOSE_HEADERS =
     ''Retry-After, Request-ID, Warning, SGX-TCBm, SGX-FMSPC, SGX-PCK-Certificate-CA-Type, SGX-PCK-Certificate-Issuer-Chain, SGX-PCK-CRL-Issuer-Chain, TCB-Info-Issuer-Chain, SGX-TCB-Info-Issuer-Chain, SGX-Enclave-Identity-Issuer-Chain''"

definition insert_cors :: "axum \<Rightarrow> (string \<times> string) list \<Rightarrow> (string \<times> string) list" where
  "insert_cors A h =
     insert_hdr A ''access-control-max-age'' ''86400''
     (insert_hdr A ''access-control-expose-headers'' CORS_EXPOSE_HEADERS
     (insert_hdr A ''access-control-allow-headers'' ''Content-Type, user-token, admin-token''
     (insert_hdr A ''access-control-allow-methods'' ''GET, HEAD, POST, PUT, OPTIONS''
     (insert_hdr A ''access-control-allow-origin'' ''*'' h))))"

definition is_nras_path :: "string \<Rightarrow> bool" where
  "is_nras_path path \<longleftrightarrow> path = ''/nvidia/nras'' \<or> starts_with path ''/nvidia/nras/''"

definition INTEL_PREFIXES :: "string list" where
  "INTEL_PREFIXES = [''/sgx/certification/v3'', ''/sgx/certification/v4'', ''/tdx/certification/v4'']"

definition is_collateral_path :: "string \<Rightarrow> bool" where
  "is_collateral_path path \<longleftrightarrow>
     starts_with path ''/vcek/'' \<or> starts_with path ''/vlek/'' \<or> starts_with path ''/v1/rim/'' \<or>
     path = ''/ocsp'' \<or> is_nras_path path \<or>
     (case List.map_filter (strip_prefix path) INTEL_PREFIXES of
        [] \<Rightarrow> False
      | rest # _ \<Rightarrow> rest \<in> {''/pckcert'', ''/pckcrl'', ''/tcb'', ''/qe/identity'', ''/qve/identity'', ''/rootcacrl'', ''/crl'',
                        ''/appraisalpolicy''})"

definition cors :: "('db, 'w) app_state \<Rightarrow> ('db, 'w) layer" where
  "cors A next rq s =
     (let no_store = (\<lambda>h. if is_nras_path (hq_path rq) then insert_hdr (as_axum A) ''cache-control'' ''no-store'' h else h)
      in if \<not> is_collateral_path (hq_path rq) then next rq s
         else if hq_method rq = OPTIONS then
           (\<lparr>resp_status = 204, resp_headers = no_store (insert_cors (as_axum A) []), resp_body = []\<rparr>, s)
         else
           (case next rq s of (resp, s) \<Rightarrow> (with_headers (no_store \<circ> insert_cors (as_axum A)) resp, s)))"

definition add_request_id :: "('db, 'w) app_state \<Rightarrow> ('db, 'w) layer" where
  "add_request_id A next rq s =
     (case next rq s of (resp, s) \<Rightarrow> (with_headers (insert_hdr (as_axum A) REQUEST_ID (as_request_id A)) resp, s))"

definition create_app :: "('db, 'w) app_state \<Rightarrow> ('db, 'w) service" where
  "create_app A =
     add_request_id A (cors A (reject_trailing_slash (reject_unexpected_body
       (case as_collateral_cache_max_age_secs A of
          Some max_age \<Rightarrow> collateral_cache_control A max_age (v3_layer A (routed A))
        | None \<Rightarrow> v3_layer A (routed A)))))"

end
