(* ===== verification/Atomic_Fill.thy ===== *)
theory Atomic_Fill
  imports Fill_Guarantee
begin

text \<open>
  A request that fails leaves the store as it was: the certificate and collateral requests of
  \<^verbatim>\<open>src/cache.rs\<close> make one write at most, and make it last. Stated for an environment that does not touch
  the database, so that what is left in it is the doing of the request itself.
\<close>

definition atomic :: "('db, 'w, 'a) op \<Rightarrow> bool" where
  "atomic m \<longleftrightarrow> (\<forall>s e t. m s = (Inl e, t) \<longrightarrow> db_of t = db_of s)"

definition never_fails :: "('s, 'a) act \<Rightarrow> bool" where
  "never_fails m \<longleftrightarrow> (\<forall>s e t. m s \<noteq> (Inl e, t))"

text \<open>An operation that reports a write by \<open>Some\<close>.\<close>

definition writes_some :: "('db, 'w, 'a option) op \<Rightarrow> bool" where
  "writes_some m \<longleftrightarrow> never_fails m \<and> (\<forall>s t. m s = (Inr None, t) \<longrightarrow> db_of t = db_of s)"

lemma atomic_pure: "atomic (ret x)" "atomic (lift_res r)"
  by (auto simp: atomic_def)

lemma atomic_never: "never_fails m \<Longrightarrow> atomic m"
  by (auto simp: atomic_def never_fails_def)

lemma atomic_store: "(\<And>s. db_of (cx_env X s) = db_of s) \<Longrightarrow> atomic (store_ret X f)"
  by (auto simp: atomic_def store_ret_def Let_def split: sum.splits)

lemma atomic_then_ret: "atomic m \<Longrightarrow> (\<And>x. never_fails (f x)) \<Longrightarrow> atomic (seq m f)"
  unfolding atomic_def never_fails_def seq_def by (auto split: prod.splits sum.splits)

lemma atomic_match_ret:
  "atomic m \<Longrightarrow> (\<And>e. atomic (f (Inl e))) \<Longrightarrow> (\<And>x. never_fails (f (Inr x))) \<Longrightarrow> atomic (match_res m f)"
  unfolding atomic_def never_fails_def match_res_def
  by (auto split: prod.splits) (metis sumE)

lemma atomic_some:
  "writes_some m \<Longrightarrow> (\<And>x. never_fails (f (Some x))) \<Longrightarrow> atomic (f None) \<Longrightarrow> atomic (seq m f)"
  unfolding atomic_def never_fails_def writes_some_def seq_def
  by (auto split: prod.splits sum.splits) (metis option.exhaust)

lemma atomic_cases:
  "atomic m \<Longrightarrow> (\<And>x. atomic (f x)) \<Longrightarrow> atomic (case y of None \<Rightarrow> m | Some x \<Rightarrow> f x)"
  "(b \<Longrightarrow> atomic m) \<Longrightarrow> (\<not> b \<Longrightarrow> atomic m') \<Longrightarrow> atomic (if b then m else m')"
  by (simp_all split: option.split)

lemma yields_if: "yields P m \<Longrightarrow> yields P m' \<Longrightarrow> yields P (if b then m else m')"
  by simp

lemma yields_fails: "yields P (lift_res (Inl e))"
  by (simp add: yields_def)

lemma never_fails_ret [simp]: "never_fails (ret x)"
  by (simp add: never_fails_def)

locale quiet = fill_guarantee X "(=)" for X :: "('db, 'w) ctx"
begin

lemma atomic_read: "guarantees G m \<Longrightarrow> atomic m"
  by (auto simp: atomic_def guarantees_def) (metis snd_conv)

lemma atomic_after_read: "guarantees G m \<Longrightarrow> (\<And>x. atomic (f x)) \<Longrightarrow> atomic (seq m f)"
  unfolding atomic_def guarantees_def seq_def
  by (auto split: prod.splits sum.splits) (metis snd_conv)+

lemma atomic_match_read: "guarantees G m \<Longrightarrow> (\<And>r. atomic (f r)) \<Longrightarrow> atomic (match_res m f)"
  unfolding atomic_def guarantees_def match_res_def
  by (auto split: prod.splits) (metis snd_conv)

lemma atomic_store_db: "atomic (store_ret X g)" "atomic (store_db X f)"
  unfolding store_db_def by (rule atomic_store, metis env_step)+

lemma atomic_store_then: "atomic (seq (store_db X f) (\<lambda>_. ret y))"
  by (rule atomic_then_ret) (simp_all add: atomic_store_db)

lemma atomic_note: "atomic m \<Longrightarrow> atomic (note_act X key m)"
proof -
  have "db_of (let s = cx_env X s in set_failures (f s) s) = db_of s" for s f
    using env_step [of s] by (simp add: Let_def)
  then show "atomic m \<Longrightarrow> atomic (note_act X key m)"
    by (auto simp: atomic_def note_act_def match_res_def seq_def split: prod.splits)
qed

lemma fill_slot_atomic:
  assumes "guarantees G fetch"
  shows "atomic (fill_slot X eol version key look fetch keep save)"
  unfolding fill_slot_def
  by (auto intro!: atomic_after_read load_ok key_lock_ok note_act_ok assms atomic_store_then atomic_pure
      split: option.splits)

lemma lazy_pool_ok:
  assumes "cx_mode X \<noteq> Req"
  shows "guarantees G (pckcert_pool X qeid pceid enc_ppid manifest resp)"
proof -
  have "process_not_available X qeid pceid enc_ppid manifest resp = ret ()"
    using assms by (simp add: process_not_available_def)
  then show ?thesis
    unfolding pckcert_pool_def by (intro guarantees_seq guarantees_pure) (simp add: guarantees_pure)
qed

lemma tcb_infos_read: "guarantees G (tcb_infos_loop X fmspc wanted std tcbs)"
proof (induction wanted arbitrary: std tcbs)
  case (Cons w wanted)
  obtain prd update where w: "w = (prd, update)" by fastforce
  show ?case
    unfolding w tcb_infos_loop.simps
    by (intro guarantees_match fetch_ok) (auto split: sum.splits intro: Cons)
qed (simp add: guarantees_pure)

lemma store_pckcerts_atomic:
  assumes "cx_mode X \<noteq> Req"
  shows "atomic (store_pckcerts X qeid pceid context resp requested)"
  unfolding store_pckcerts_def
  by (intro atomic_after_read lazy_pool_ok [OF assms] guarantees_pure atomic_store_then)
     (simp add: fetch_tcb_infos_def tcb_infos_read del: tcb_infos_loop.simps)

lemma fill_pckcert_atomic:
  assumes "cx_mode X \<noteq> Req"
  shows "atomic (fill_pckcert X qeid cpusvn pcesvn pceid context)"
  unfolding fill_pckcert_def Let_def
  by (auto intro!: atomic_after_read fetch_ok atomic_store_then atomic_pure store_pckcerts_atomic [OF assms])

lemma store_pckcerts_some:
  "yields (\<lambda>x. x \<noteq> None) (store_pckcerts X qeid pceid context resp (Some req))"
  unfolding yields_def store_pckcerts_def by (cases req) (auto simp: seq_Inr)

lemma writes_some_pure: "writes_some (ret None)"
  by (simp add: writes_some_def)

lemma writes_some_seq:
  "guarantees G m \<Longrightarrow> never_fails m \<Longrightarrow> (\<And>x. writes_some (f x)) \<Longrightarrow> writes_some (seq m f)"
  unfolding writes_some_def never_fails_def guarantees_def seq_def
  by (auto split: prod.splits sum.splits) (metis snd_conv)+

lemma writes_some_match: "guarantees G m \<Longrightarrow> (\<And>r. writes_some (f r)) \<Longrightarrow> writes_some (match_res m f)"
  unfolding writes_some_def never_fails_def guarantees_def match_res_def
  by (auto split: prod.splits) (metis snd_conv)+

lemma writes_some_timeout:
  assumes "atomic m" "yields (\<lambda>x. x \<noteq> None) m"
  shows "writes_some (match_res (timeout X m) (\<lambda>r. ret (case r of Inr (Some (Some rec)) \<Rightarrow> Some rec | _ \<Rightarrow> None)))"
proof -
  have "db_of t = db_of s"
    if run: "timeout X m s = (r, t)" and none: "(case r of Inr (Some (Some rec)) \<Rightarrow> Some rec | _ \<Rightarrow> None) = None" for s t r
  proof (cases "cx_cut X s")
    case (Some s')
    then show ?thesis using run cut_step by (auto simp: timeout_def)
  next
    case None
    obtain r' t' where m: "m s = (r', t')" by fastforce
    show ?thesis
    proof (cases r')
      case (Inl e)
      with run None m assms(1) show ?thesis by (auto simp: timeout_def seq_def atomic_def)
    next
      case (Inr x)
      with yieldsD [OF assms(2)] m obtain rec where "x = Some rec" by blast
      with Inr run None none m show ?thesis by (auto simp: timeout_def seq_def)
    qed
  qed
  then show ?thesis
    by (auto simp: writes_some_def never_fails_def match_res_def split: prod.splits)
qed

lemma steps_never_fail:
  "never_fails (load X f)" "never_fails (refetch_due X platform)" "never_fails (mark_refetch X platform)"
  by (auto simp: never_fails_def load_def refetch_due_def mark_refetch_def Let_def)

lemma refetch_pool_atomic:
  assumes "cx_mode X \<noteq> Req"
  shows "atomic (refetch_pool X pool cpusvn pcesvn)"
  unfolding refetch_pool_def
  by (auto intro!: atomic_after_read fetch_ok store_pckcerts_atomic [OF assms])

lemma refetch_pool_some: "yields (\<lambda>x. x \<noteq> None) (refetch_pool X pool cpusvn pcesvn)"
  unfolding refetch_pool_def by (intro yields_seq store_pckcerts_some)

lemma refetch_writes_some:
  "writes_some (refetch_pool_for_new_raw_tcb X qeid pceid cpusvn pcesvn version)"
  unfolding refetch_pool_for_new_raw_tcb_def Let_def
  by (auto intro!: writes_some_seq writes_some_match writes_some_timeout refetch_pool_atomic refetch_pool_some writes_some_pure
      load_ok key_lock_ok marks_ok steps_never_fail split: option.splits sum.splits)

lemma fill_pckcert_some:
  assumes "cpusvn \<noteq> []" "pcesvn \<noteq> []"
  shows "yields (\<lambda>x. x \<noteq> None) (fill_pckcert X qeid cpusvn pcesvn pceid context)"
  unfolding fill_pckcert_def Let_def
  by (rule yields_if yields_fails yields_seq yields_pure(1) store_pckcerts_some | use assms in \<open>simp; fail\<close>
      | simp only: assms if_False simp_thms)+

lemma atomic_ok_or:
  "atomic m \<Longrightarrow> yields (\<lambda>x. x \<noteq> None) m \<Longrightarrow> atomic (seq m (\<lambda>x. lift_res (ok_or e x)))"
  unfolding atomic_def yields_def seq_def by (fastforce simp: ok_or_def split: prod.splits sum.splits option.splits)

lemma cache_get_pckcert_atomic:
  assumes "cpusvn \<noteq> []" "pcesvn \<noteq> []"
  shows "atomic (cache_get_pckcert X qeid cpusvn pcesvn pceid enc_ppid version)"
proof -
  let ?select = "store_ret X (\<lambda>db. select_platform_cert (cx_rocks X) (cx_serde X) db qeid pceid True
                     (\<lambda>pool. select_from_pool X db pool cpusvn pcesvn pceid))"
  note fill = atomic_ok_or [OF fill_pckcert_atomic fill_pckcert_some [OF assms]]
  have refetched: "atomic (seq (refetch_pool_for_new_raw_tcb X qeid pceid cpusvn pcesvn version) (\<lambda>refetched.
      case refetched of Some rec \<Rightarrow> ret rec | None \<Rightarrow> match_res ?select (\<lambda>selected.
        case selected of Inr rec \<Rightarrow> ret rec | Inl e \<Rightarrow> f e)))" if "\<And>e. atomic (f e)" for f
    by (rule atomic_some [OF refetch_writes_some])
       (auto intro!: atomic_match_ret atomic_store_db that split: sum.splits)
  show ?thesis
    unfolding cache_get_pckcert_def Let_def
    by (rule refetched atomic_cases atomic_pure atomic_note fill atomic_store_db atomic_after_read load_ok key_lock_ok
        | simp; fail)+
qed

lemma collateral_atomic:
  "atomic (cache_get_tcb X prod_type fmspc version update)" "atomic (cache_get_identity X enclave_id version update)"
  "atomic (cache_get_pckcrl X ca version)" "atomic (cache_get_rootcacrl X version)" "atomic (cache_get_crl X uri version)"
  unfolding cache_get_tcb_def cache_get_identity_def cache_get_pckcrl_def cache_get_rootcacrl_def cache_get_crl_def
  by (intro fill_slot_atomic fetch_ok)+

end

section \<open>An undisturbed request\<close>

text \<open>Nothing but the request itself changes the database while it runs.\<close>

definition undisturbed :: "('db, 'w) ctx \<Rightarrow> bool" where
  "undisturbed X \<longleftrightarrow>
     (\<forall>s. db_of (cx_env X s) = db_of s) \<and> (\<forall>key s. db_of (cx_lock X key s) = db_of s) \<and>
     (\<forall>d s. db_of (nw_sleep (cx_net X) d s) = db_of s) \<and>
     (\<forall>rq s. db_of (snd (nw_exchange (cx_net X) rq s)) = db_of s) \<and>
     (\<forall>s t. cx_cut X s = Some t \<longrightarrow> db_of t = db_of s)"

lemma undisturbed_quiet: "undisturbed X \<Longrightarrow> quiet X"
  by unfold_locales (auto simp: undisturbed_def)

interpretation quiet_solo: quiet "solo N X" for N X
  by unfold_locales

end
