(* ===== verification/Http_Security.thy ===== *)
theory Http_Security
  imports Http Atomic_Fill
begin

text \<open>
  Properties of the whole HTTP service: which requests may change the state, what an error answer says
  about the database, and which headers a response carries.
\<close>

section \<open>Layers\<close>

definition head_keeps_status :: "axum \<Rightarrow> bool" where
  "head_keeps_status A \<longleftrightarrow> (\<forall>r. resp_status (ax_head A r) = resp_status r)"

lemma with_headers_status [simp]: "resp_status (with_headers f r) = resp_status r" "resp_body (with_headers f r) = resp_body r"
  by (simp_all add: with_headers_def)

lemma not_found_status [simp]: "resp_status not_found = 404"
  by (simp add: not_found_def)

lemma into_response_status [simp]: "resp_status (into_response e) = err_status e"
  by (simp add: into_response_def text_html_def)

text \<open>The layers that only add headers.\<close>

definition same_answer :: "response \<times> ('db, 'w) sys \<Rightarrow> response \<times> ('db, 'w) sys \<Rightarrow> bool" where
  "same_answer x y \<longleftrightarrow> resp_status (fst x) = resp_status (fst y) \<and> snd x = snd y"

lemma header_layers:
  "same_answer (add_request_id A g rq s) (g rq s)" "same_answer (v3_layer A g rq s) (g rq s)"
  "same_answer (collateral_cache_control A age g rq s) (g rq s)"
  "hq_method rq \<noteq> OPTIONS \<or> \<not> is_collateral_path (hq_path rq) \<Longrightarrow> same_answer (cors A g rq s) (g rq s)"
  by (auto simp: same_answer_def add_request_id_def v3_layer_def v3_eol_warning_def collateral_cache_control_def cors_def
      Let_def split: prod.splits)

lemma same_answer_trans: "same_answer x y \<Longrightarrow> same_answer y z \<Longrightarrow> same_answer x z"
  by (simp add: same_answer_def)

definition inner_app :: "('db, 'w) app_state \<Rightarrow> ('db, 'w) service" where
  "inner_app A =
     (case as_collateral_cache_max_age_secs A of
        Some max_age \<Rightarrow> collateral_cache_control A max_age (v3_layer A (routed A)) | None \<Rightarrow> v3_layer A (routed A))"

lemma create_app_layers:
  "create_app A = add_request_id A (cors A (reject_trailing_slash (reject_unexpected_body (inner_app A))))"
  by (simp add: create_app_def inner_app_def)

lemma inner_app_answer: "same_answer (inner_app A rq s) (routed A rq s)"
  unfolding inner_app_def by (auto split: option.splits intro: header_layers same_answer_trans)

text \<open>Status and state of a response come from the router, unless the request was rejected before it.\<close>

lemma create_app_cases:
  obtains (routed) "same_answer (create_app A rq s) (routed A rq s)"
  | (preflight) "hq_method rq = OPTIONS" "resp_status (fst (create_app A rq s)) = 204" "snd (create_app A rq s) = s"
  | (rejected) "resp_status (fst (create_app A rq s)) \<in> {404, 413}" "snd (create_app A rq s) = s"
proof -
  let ?g = "reject_trailing_slash (reject_unexpected_body (inner_app A))"
  have top: "same_answer (create_app A rq s) (cors A ?g rq s)"
    unfolding create_app_layers by (rule header_layers)
  show ?thesis
  proof (cases "hq_method rq = OPTIONS \<and> is_collateral_path (hq_path rq)")
    case True
    have "resp_status (fst (cors A ?g rq s)) = 204 \<and> snd (cors A ?g rq s) = s"
      using True by (simp add: cors_def Let_def)
    then show ?thesis using top True by (intro preflight) (simp_all add: same_answer_def)
  next
    case False
    then have pass: "same_answer (create_app A rq s) (?g rq s)"
      by (intro same_answer_trans [OF top] header_layers(4)) blast
    have "?g rq s \<in> {(not_found, s), (into_response CONTENT_TOO_LARGE, s), inner_app A rq s}"
      by (simp add: reject_trailing_slash_def reject_unexpected_body_def)
    then consider "?g rq s = (not_found, s)" | "?g rq s = (into_response CONTENT_TOO_LARGE, s)"
      | "?g rq s = inner_app A rq s" by blast
    then show ?thesis
    proof cases
      case 3
      show ?thesis by (rule routed [OF same_answer_trans [OF pass [unfolded 3] inner_app_answer]])
    qed (use pass in \<open>simp_all add: same_answer_def rejected\<close>)
  qed
qed

section \<open>Operator endpoints\<close>

definition holds_token :: "ext \<Rightarrow> http_request \<Rightarrow> string \<Rightarrow> string \<Rightarrow> bool" where
  "holds_token E rq name hash \<longleftrightarrow>
     (\<exists>token. hq_header rq name = Some (Some token) \<and> token \<noteq> [] \<and> length hash = 128 \<and>
        x_hex_decode E hash = Some (x_sha512 E (as_bytes token)))"

lemma verify_token_iff: "verify_token E (header_token rq name) hash = Inr () \<Longrightarrow> holds_token E rq name hash"
  by (auto simp: verify_token_def holds_token_def header_token_def parse_expected_hash_def ok_or_def opt_filter_def Let_def
      split: option.splits if_splits bind_splits)

lemma verify_token_fails: "verify_token E t hash = Inl e \<Longrightarrow> e = UNAUTHORIZED"
  by (auto simp: verify_token_def ok_or_def Let_def split: option.splits if_splits)

lemma guarded_rejects:
  assumes "acc = Admin \<and> \<not> holds_token (cx_ext (as_ctx A)) rq ADMIN_TOKEN (as_admin_token_hash A) \<or>
    acc = User \<and> \<not> holds_token (cx_ext (as_ctx A)) rq USER_TOKEN (as_user_token_hash A)"
  shows "respond (guarded acc h A rq) s = (into_response UNAUTHORIZED, s)"
proof -
  have "verify_token E (header_token rq name) hash = Inl UNAUTHORIZED" if "\<not> holds_token E rq name hash" for E name hash
    using that verify_token_iff verify_token_fails by (metis (full_types) old.unit.exhaust sum.exhaust)
  with assms show ?thesis
    by (auto simp: guarded_def require_admin_def require_user_def respond_def)
qed

text \<open>C8: operator endpoints need the operator's token. A request for the platform list, a collateral upload,
  a refresh or a policy upload whose admin token does not hash to the configured hash, and a registration
  without the user token, is refused (401, or 404 or 413 where it was malformed already) and changes nothing.\<close>

theorem operator_endpoints_guarded:
  assumes "head_keeps_status (as_axum A)" and "route_of A rq = Some r"
    and "ro_endpoint r \<in> {GetPlatforms, PutPlatformCollateral, RefreshCache, PutAppraisalPolicy} \<and>
          \<not> holds_token (cx_ext (as_ctx A)) rq ADMIN_TOKEN (as_admin_token_hash A) \<or>
        ro_endpoint r = PostPlatforms \<and> \<not> holds_token (cx_ext (as_ctx A)) rq USER_TOKEN (as_user_token_hash A)"
  shows "snd (create_app A rq s) = s \<and> resp_status (fst (create_app A rq s)) \<in> {401, 404, 413}"
proof -
  let ?rs = "app_routes (cx_pcs_version (as_ctx A))"
  have r: "r \<in> set ?rs" "ro_method r = (if hq_method rq = HEAD then GET else hq_method rq)"
    using assms(2) by (auto simp: route_of_def find_Some_iff split: bind_splits)
  have access: "list_all (\<lambda>r. (ro_endpoint r \<in> {GetPlatforms, PutPlatformCollateral, RefreshCache, PutAppraisalPolicy} \<longrightarrow>
      ro_access r = Admin) \<and> (ro_endpoint r = PostPlatforms \<longrightarrow> ro_access r = User) \<and> ro_method r \<noteq> OPTIONS) (app_routes v)" for v
    by (simp add: app_routes_def nest_def sgx_router_def tdx_router_def healthz_router_def amd_kds_router_def
        nvidia_rim_router_def nvidia_ocsp_router_def nvidia_nras_router_def route_at_def)
  then have "respond (guarded (ro_access r) (handler_of (ro_endpoint r)) A rq) s = (into_response UNAUTHORIZED, s)"
    using r(1) assms(3) by (intro guarded_rejects) (auto simp: list_all_iff)
  then have "snd (routed A rq s) = s" "resp_status (fst (routed A rq s)) = 401"
    using assms(1,2) by (auto simp: routed_def route_of_def head_keeps_status_def split: option.splits bind_splits)
  moreover have "hq_method rq \<noteq> OPTIONS" using access r by (auto simp: list_all_iff split: if_splits)
  ultimately show ?thesis by (cases A rq s rule: create_app_cases) (auto simp: same_answer_def)
qed

section \<open>Error answers\<close>

lemma atomic_check: "(\<And>x. r = Inr x \<Longrightarrow> atomic (f x)) \<Longrightarrow> atomic (seq (lift_res r) f)"
  by (cases r) (auto simp: atomic_def seq_def)

lemma yields_check: "(\<And>x. r = Inr x \<Longrightarrow> yields P (f x)) \<Longrightarrow> yields P (seq (lift_res r) f)"
  by (cases r) (auto simp: yields_def seq_def)

lemma require_hex_nonempty: "require_hex v n = Inr x \<Longrightarrow> 0 < n \<Longrightarrow> x \<noteq> []"
  by (auto simp: require_hex_def opt_filter_def split: option.splits if_splits)

definition collateral_endpoints :: "endpoint set" where
  "collateral_endpoints =
     {GetPckcert, GetPckcrl, GetTcb 0, GetTcb 1, GetIdentity 1, GetIdentity 2, GetIdentity 3, GetRootcacrl, GetCrl}"

lemma collateral_handlers_ok: "e \<in> collateral_endpoints \<Longrightarrow> yields (\<lambda>r. resp_status r = 200) (handler_of e A rq)"
  unfolding collateral_endpoints_def handler_of_def h_get_pckcert_def h_get_pckcrl_def h_get_tcb_def h_get_identity_def
    h_get_rootcacrl_def h_get_crl_def with_query_def with_version_def json_value_def Let_def
  by (auto intro!: yields_seq yields_pure(1) yields_fails split: option.splits)

lemma collateral_handlers_atomic:
  assumes "undisturbed (as_ctx A)" "e \<in> collateral_endpoints"
  shows "atomic (handler_of e A rq)"
proof -
  note Q = undisturbed_quiet [OF assms(1)]
  have get: "atomic (h_get_pckcrl A rq)" "atomic (h_get_tcb prod_type A rq)" "atomic (h_get_identity enclave_id A rq)"
    "atomic (h_get_rootcacrl A rq)" "atomic (h_get_crl A rq)" for prod_type enclave_id
    unfolding h_get_pckcrl_def h_get_tcb_def h_get_identity_def h_get_rootcacrl_def h_get_crl_def with_query_def with_version_def
    by (auto intro!: atomic_check atomic_then_ret quiet.collateral_atomic [OF Q] atomic_pure simp: Let_def split: option.splits)
  have "atomic (h_get_pckcert A rq)"
    unfolding h_get_pckcert_def with_query_def with_version_def v_cpusvn_def v_pcesvn_def
    by (auto intro!: atomic_check atomic_then_ret quiet.cache_get_pckcert_atomic [OF Q] dest: require_hex_nonempty)
  with get assms(2) show ?thesis by (auto simp: collateral_endpoints_def handler_of_def)
qed

lemma route_of_listed: "route_of A rq = Some r \<Longrightarrow> r \<in> set (app_routes (cx_pcs_version (as_ctx A)))"
  by (auto simp: route_of_def find_Some_iff split: bind_splits)

lemmas router_defs = app_routes_def nest_def sgx_router_def tdx_router_def healthz_router_def amd_kds_router_def
  nvidia_rim_router_def nvidia_ocsp_router_def nvidia_nras_router_def route_at_def

lemma collateral_public:
  assumes "route_of A rq = Some r" "ro_endpoint r \<in> collateral_endpoints"
  shows "ro_access r = Public \<and> ro_method r = GET"
proof -
  have "list_all (\<lambda>r. ro_endpoint r \<in> collateral_endpoints \<longrightarrow> ro_access r = Public \<and> ro_method r = GET) (app_routes v)" for v
    by (simp add: router_defs collateral_endpoints_def)
  with route_of_listed [OF assms(1)] assms(2) show ?thesis by (auto simp: list_all_iff)
qed

text \<open>C7: an error answer means that nothing was written. If a request for a certificate, a TCB info, an
  identity or a CRL gets a status other than 200, the database is what it was before the request, wherever
  in validation, lookup, upstream exchange or storing it failed.\<close>

theorem error_answers_write_nothing:
  assumes "head_keeps_status (as_axum A)" "undisturbed (as_ctx A)"
    and "route_of A rq = Some r" "ro_endpoint r \<in> collateral_endpoints"
    and "resp_status (fst (create_app A rq s)) \<noteq> 200"
  shows "db_of (snd (create_app A rq s)) = db_of s"
proof (cases A rq s rule: create_app_cases)
  case routed
  let ?h = "handler_of (ro_endpoint r) A rq"
  obtain x t where run: "?h s = (x, t)" by fastforce
  have "guarded (ro_access r) (handler_of (ro_endpoint r)) A rq = ?h"
    using collateral_public [OF assms(3,4)] by (simp add: guarded_def)
  then have answer: "resp_status (fst (routed A rq s)) = resp_status (case x of Inl e \<Rightarrow> into_response e | Inr r \<Rightarrow> r)"
      "snd (routed A rq s) = t"
    using assms(1,3) run
    by (auto simp: routed_def route_of_def respond_def head_keeps_status_def split: option.splits bind_splits sum.splits)
  show ?thesis
  proof (cases x)
    case (Inl e)
    with collateral_handlers_atomic [OF assms(2,4), of rq] run routed answer show ?thesis
      by (auto simp: atomic_def same_answer_def)
  next
    case (Inr resp)
    with yieldsD [OF collateral_handlers_ok [OF assms(4)]] run have "resp_status resp = 200" by blast
    with Inr assms(5) routed answer show ?thesis by (simp add: same_answer_def)
  qed
qed simp_all

section \<open>Headers\<close>

definition reserved :: "string list" where
  "reserved = [''request-id'', ''access-control-allow-origin'', ''cache-control'']"

definition unreserved_headers :: "response \<Rightarrow> bool" where
  "unreserved_headers r \<longleftrightarrow> list_all (\<lambda>kv. fst kv \<notin> set reserved) (resp_headers r)"

text \<open>What axum itself answers carries none of these headers, and HEAD keeps those of GET.\<close>

definition plain_axum :: "axum \<Rightarrow> bool" where
  "plain_axum A \<longleftrightarrow>
     (\<forall>rq. unreserved_headers (ax_not_allowed A rq)) \<and>
     (\<forall>r. unreserved_headers r \<longrightarrow> unreserved_headers (ax_head A r)) \<and> head_keeps_status A"

lemma other_length: "length n \<notin> {10, 13, 27} \<Longrightarrow> to_ascii_lowercase n \<notin> set reserved"
  by (auto simp: reserved_def dest!: arg_cong [of _ _ length])

lemma ca_type_name: "to_ascii_lowercase SGX_PCK_CERTIFICATE_CA_TYPE \<notin> set reserved"
proof -
  have "hd (to_ascii_lowercase SGX_PCK_CERTIFICATE_CA_TYPE) = CHR ''s''" by code_simp
  then show ?thesis by (auto simp: reserved_def)
qed

lemma lower_names:
  "list_all (\<lambda>n. to_ascii_lowercase n \<notin> set reserved)
     [''content-type'', ''retry-after'', ''content-disposition'', SGX_PCK_CERTIFICATE_ISSUER_CHAIN, SGX_PCK_CERTIFICATE_CA_TYPE,
      SGX_FMSPC, SGX_TCBM, SGX_PCK_CRL_ISSUER_CHAIN, SGX_TCB_INFO_ISSUER_CHAIN, TCB_INFO_ISSUER_CHAIN,
      SGX_ENCLAVE_IDENTITY_ISSUER_CHAIN, PLATFORM_COUNT, WARNING]"
  by (simp only: list.pred_inject ca_type_name simp_thms, intro conjI other_length)
     (simp_all add: SGX_PCK_CERTIFICATE_ISSUER_CHAIN_def SGX_FMSPC_def SGX_TCBM_def SGX_PCK_CRL_ISSUER_CHAIN_def
      SGX_TCB_INFO_ISSUER_CHAIN_def TCB_INFO_ISSUER_CHAIN_def SGX_ENCLAVE_IDENTITY_ISSUER_CHAIN_def PLATFORM_COUNT_def WARNING_def)

definition plain :: "(string \<times> string) list \<Rightarrow> bool" where
  "plain h \<longleftrightarrow> list_all (\<lambda>kv. fst kv \<notin> set reserved) h"

lemma plain_set:
  "plain []" "plain h \<Longrightarrow> to_ascii_lowercase name \<notin> set reserved \<Longrightarrow> plain (set_header name val h)"
  "plain h \<Longrightarrow> to_ascii_lowercase name \<notin> set reserved \<Longrightarrow> plain (insert_hdr X name val h)"
  by (auto simp: plain_def set_header_def insert_hdr_def list_all_iff)

lemma plain_response: "plain (resp_headers r) \<longleftrightarrow> unreserved_headers r"
  by (simp add: plain_def unreserved_headers_def)

lemma error_plain: "plain (resp_headers (into_response e))" "plain (resp_headers not_found)"
    "plain (resp_headers (text_html st b))" "plain (resp_headers (json_response E st v))"
  using lower_names by (simp_all add: into_response_def text_html_def not_found_def json_response_def plain_def reserved_def)

lemma amd_plain: "plain (resp_headers (amd_response X rec))"
  using lower_names by (auto simp: amd_response_def Let_def intro!: plain_set split: option.splits)

lemma handlers_plain: "yields (\<lambda>r. plain (resp_headers r)) (handler_of e A rq)"
  using lower_names
  unfolding handler_of_def h_get_pckcert_def h_get_pckcrl_def h_get_tcb_def h_get_identity_def
    h_get_rootcacrl_def h_get_crl_def h_get_platforms_def h_put_platform_collateral_def h_refresh_def h_put_appraisal_policy_def
    h_post_platforms_def h_get_appraisal_policy_def h_get_amd_kds_def h_get_nvidia_rim_def h_post_nvidia_ocsp_def
    h_post_nvidia_nras_attest_gpu_def h_liveness_def h_readiness_def h_startup_def
    with_query_def with_version_def json_value_def success_response_def tcb_issuer_chain_name_def Let_def
  by (cases e) (auto intro!: yields_seq yields_pure(1) yields_fails plain_set amd_plain error_plain split: option.splits)

lemma map_of_set_header: "map_of (set_header n v h) k = (if k = to_ascii_lowercase n then Some v else map_of h k)"
proof -
  have "map_of (filter (\<lambda>kv. fst kv \<noteq> x) h) k = (if k = x then None else map_of h k)" for x
    by (induction h) auto
  then show ?thesis by (simp add: set_header_def)
qed

lemma plain_lookup: "plain h \<Longrightarrow> k \<in> set reserved \<Longrightarrow> map_of h k = None"
  by (auto simp: plain_def list_all_iff map_of_eq_None_iff)

lemma routed_plain:
  assumes "plain_axum (as_axum A)"
  shows "plain (resp_headers (fst (routed A rq s)))"
proof -
  have "plain (resp_headers (fst (respond (guarded acc (handler_of e) A rq) s)))" for acc e s
    using yieldsD [OF handlers_plain [of e A rq]] error_plain(1)
    by (cases "guarded acc (handler_of e) A rq s"; cases acc)
       (fastforce simp: respond_def guarded_def require_user_def require_admin_def seq_def split: sum.splits)+
  then show ?thesis
    using assms error_plain(2) unfolding routed_def plain_axum_def plain_response [symmetric]
    by (auto split: option.splits prod.splits) (metis fst_conv)+
qed

text \<open>A response may be kept by a shared cache only if it is a successful answer to a read of public
  collateral.\<close>

definition cache_rule :: "('db, 'w) app_state \<Rightarrow> http_request \<Rightarrow> response \<Rightarrow> bool" where
  "cache_rule A rq r \<longleftrightarrow>
     (\<forall>v. map_of (resp_headers r) ''cache-control'' = Some v \<longrightarrow>
        v = ''no-store'' \<or>
        resp_status r = 200 \<and> hq_method rq \<in> {GET, HEAD} \<and> matched_path A rq \<in> Some ` set CACHEABLE_COLLATERAL)"

lemma cache_control_name [simp]: "to_ascii_lowercase ''cache-control'' = ''cache-control''"
  by code_simp

lemma inner_headers:
  assumes "plain_axum (as_axum A)"
  shows "map_of (resp_headers (fst (inner_app A rq s))) ''access-control-allow-origin'' = None"
    "cache_rule A rq (fst (inner_app A rq s))"
proof -
  have warn: "to_ascii_lowercase WARNING \<notin> set reserved" using lower_names by (simp only: list.pred_inject simp_thms)
  have v3: "plain (resp_headers (fst (v3_layer A (routed A) rq s)))"
    using routed_plain [OF assms, of rq s]
    by (auto simp: v3_layer_def v3_eol_warning_def with_headers_def intro!: plain_set warn split: prod.splits)
  have names: "''cache-control'' \<in> set reserved" "''access-control-allow-origin'' \<in> set reserved" by (simp_all add: reserved_def)
  note none = plain_lookup [OF v3 names(1)] plain_lookup [OF v3 names(2)]
  show "map_of (resp_headers (fst (inner_app A rq s))) ''access-control-allow-origin'' = None"
    using none(2) by (auto simp: inner_app_def collateral_cache_control_def with_headers_def map_of_set_header
        split: option.splits prod.splits)
  show "cache_rule A rq (fst (inner_app A rq s))"
    using none(1) by (auto simp: cache_rule_def inner_app_def collateral_cache_control_def with_headers_def map_of_set_header
        split: option.splits prod.splits if_splits)
qed

text \<open>\<open>HeaderValue::from_str\<close> accepts every text of visible ASCII characters.\<close>

definition visible :: "string \<Rightarrow> bool" where
  "visible v \<longleftrightarrow> list_all (\<lambda>c. 32 \<le> (of_char c :: nat) \<and> (of_char c :: nat) < 127) v"

definition visible_values_ok :: "axum \<Rightarrow> bool" where
  "visible_values_ok A \<longleftrightarrow> (\<forall>v. visible v \<longrightarrow> ax_value_ok A v)"

lemma cors_names [simp]:
  "to_ascii_lowercase ''access-control-max-age'' = ''access-control-max-age''"
  "to_ascii_lowercase ''access-control-expose-headers'' = ''access-control-expose-headers''"
  "to_ascii_lowercase ''access-control-allow-headers'' = ''access-control-allow-headers''"
  "to_ascii_lowercase ''access-control-allow-methods'' = ''access-control-allow-methods''"
  "to_ascii_lowercase ''access-control-allow-origin'' = ''access-control-allow-origin''"
  "to_ascii_lowercase REQUEST_ID = ''request-id''"
  by code_simp+

lemma map_of_insert_hdr:
  "map_of (insert_hdr X n v h) k = (if ax_value_ok X v \<and> k = to_ascii_lowercase n then Some v else map_of h k)"
  by (simp add: insert_hdr_def map_of_set_header)

lemma insert_cors_lookup:
  assumes "visible_values_ok X"
  shows "map_of (insert_cors X h) ''access-control-allow-origin'' = Some ''*''"
    "map_of (insert_cors X h) ''cache-control'' = map_of h ''cache-control''"
proof -
  have "ax_value_ok X ''*''" using assms by (simp add: visible_values_ok_def visible_def)
  then show "map_of (insert_cors X h) ''access-control-allow-origin'' = Some ''*''"
    "map_of (insert_cors X h) ''cache-control'' = map_of h ''cache-control''"
    by (simp_all add: insert_cors_def map_of_insert_hdr)
qed

text \<open>C10: every response, also a rejection or the answer to a preflight, carries the fresh request id; a browser
  may read it across origins exactly if the path is one of the public collateral paths; and it is marked as
  storable by a shared cache only if it is a successful answer to a read of platform-independent collateral.\<close>

theorem response_headers:
  assumes "plain_axum (as_axum A)" "visible_values_ok (as_axum A)" "visible (as_request_id A)"
    and resp: "resp = fst (create_app A rq s)"
  shows "map_of (resp_headers resp) ''request-id'' = Some (as_request_id A) \<and>
    map_of (resp_headers resp) ''access-control-allow-origin'' =
      (if is_collateral_path (hq_path rq) then Some ''*'' else None) \<and>
    cache_rule A rq resp"
proof -
  let ?g = "reject_trailing_slash (reject_unexpected_body (inner_app A))"
  have names: "''cache-control'' \<in> set reserved" "''access-control-allow-origin'' \<in> set reserved" by (simp_all add: reserved_def)
  have early: "map_of (resp_headers r) ''access-control-allow-origin'' = None \<and> cache_rule A rq r" if "plain (resp_headers r)" for r
    using plain_lookup [OF that names(1)] plain_lookup [OF that names(2)] by (simp add: cache_rule_def)
  have "?g rq s \<in> {(not_found, s), (into_response CONTENT_TOO_LARGE, s), inner_app A rq s}"
    by (simp add: reject_trailing_slash_def reject_unexpected_body_def)
  then have g: "map_of (resp_headers (fst (?g rq s))) ''access-control-allow-origin'' = None \<and> cache_rule A rq (fst (?g rq s))"
    using inner_headers [OF assms(1), of rq s] early [OF error_plain(1)] early [OF error_plain(2)] by auto
  obtain r t where gr: "?g rq s = (r, t)" by fastforce
  have origin: "map_of (resp_headers (fst (cors A ?g rq s))) ''access-control-allow-origin'' =
      (if is_collateral_path (hq_path rq) then Some ''*'' else None)"
    using g gr insert_cors_lookup [OF assms(2)]
    by (simp add: cors_def Let_def with_headers_def map_of_insert_hdr)
  have store: "cache_rule A rq (fst (cors A ?g rq s))"
    using g gr insert_cors_lookup [OF assms(2)]
    by (auto simp: cache_rule_def cors_def Let_def with_headers_def map_of_insert_hdr split: if_splits)
  have "ax_value_ok (as_axum A) (as_request_id A)" using assms(2,3) by (simp add: visible_values_ok_def)
  then show ?thesis
    using origin store
    by (cases "cors A ?g rq s")
       (simp add: resp create_app_layers add_request_id_def with_headers_def map_of_insert_hdr cache_rule_def)
qed

section \<open>A concrete service\<close>

definition sample_axum :: axum where
  "sample_axum = \<lparr>ax_match = (\<lambda>ts p. if p \<in> set ts then Some p else None), ax_nests = (\<lambda>p s. starts_with s p),
     ax_not_allowed = (\<lambda>_. \<lparr>resp_status = 405, resp_headers = [], resp_body = []\<rparr>),
     ax_head = (\<lambda>r. r\<lparr>resp_body := []\<rparr>), ax_value_ok = (\<lambda>_. True)\<rparr>"

definition sample_app :: "(mem, exchange list) app_state" where
  "sample_app = \<lparr>as_ctx = sample_ctx Lazy,
     as_cfg = \<lparr>cf_mode = Lazy, cf_amd_kds_uri = [], cf_amd_kds_cache_ttl_secs = 1, cf_nvidia_rim_uri = [],
       cf_nvidia_rim_cache_ttl_secs = 1, cf_nvidia_nras_uri = [], cf_nvidia_ocsp_uri = [],
       cf_nvidia_ocsp_max_ttl_secs = 1, cf_nvidia_ocsp_default_ttl_secs = 1\<rparr>,
     as_upstream = (\<lambda>_. Inl ()), as_poster = (\<lambda>_ _. Inl ()),
     as_env = \<lparr>en_now1 = 0, en_now2 = 0, en_now3 = 0, en_micros = 0, en_instant1 = 0, en_instant2 = 0, en_wait = id, en_fetch = id\<rparr>,
     as_join = (\<lambda>_ _. None), as_axum = sample_axum, as_user_token_hash = [], as_admin_token_hash = [],
     as_collateral_cache_max_age_secs = Some 60, as_request_id = ''1d'', as_timestamp = [], as_latency_ms = 0,
     as_is_healthy = (\<lambda>_. True), as_started = True\<rparr>"

definition sample_get :: "string \<Rightarrow> http_request" where
  "sample_get path = \<lparr>hq_method = GET, hq_path = path, hq_query = None, hq_header = (\<lambda>_. None), hq_json = None, hq_body = None\<rparr>"

lemma sample_axum_ok: "head_keeps_status sample_axum" "plain_axum sample_axum" "visible_values_ok sample_axum"
  by (simp_all add: head_keeps_status_def plain_axum_def visible_values_ok_def sample_axum_def unreserved_headers_def)

lemma sample_app_simps [simp]: "as_axum sample_app = sample_axum" "as_ctx sample_app = sample_ctx Lazy"
  "as_request_id sample_app = ''1d''"
  by (simp_all add: sample_app_def)

lemma sample_routes:
  "route_of sample_app (sample_get ''/sgx/certification/v4/refresh'') =
     Some (route_at ''/sgx/certification/v4/refresh'' GET Admin RefreshCache)"
  "route_of sample_app (sample_get ''/sgx/certification/v4/tcb'') =
     Some (route_at ''/sgx/certification/v4/tcb'' GET Public (GetTcb 0))"
  by (simp_all add: route_of_def matched_path_def sample_get_def sample_axum_def router_defs)

theorem operator_endpoints_guarded_witness:
  "snd (create_app sample_app (sample_get ''/sgx/certification/v4/refresh'') (sample_sys [] [])) = sample_sys [] []"
proof -
  have "\<not> holds_token E (sample_get p) name hash" for E p name hash by (simp add: holds_token_def sample_get_def)
  with operator_endpoints_guarded [OF _ sample_routes(1)] show ?thesis
    by (simp add: sample_axum_ok route_at_def)
qed

lemma sample_tcb_status:
  "resp_status (fst (create_app sample_app (sample_get ''/sgx/certification/v4/tcb'') (sample_sys [] []))) \<noteq> 200"
proof -
  let ?rq = "sample_get ''/sgx/certification/v4/tcb''"
  have "api_version_from_url ''/sgx/certification/v4/tcb'' = Inr 4" by code_simp
  moreover have "v_fmspc None = Inl INVALID_REQ" "query_params None = Inr Map.empty"
    by (simp_all add: v_fmspc_def require_hex_def query_params_def)
  moreover have "matched_path sample_app ?rq \<noteq> None" using sample_routes(2)
    by (cases "matched_path sample_app ?rq") (simp_all add: route_of_def)
  ultimately have "resp_status (fst (routed sample_app ?rq (sample_sys [] []))) = 400"
    using sample_routes(2)
    by (auto simp: routed_def route_at_def guarded_def handler_of_def h_get_tcb_def with_query_def with_version_def
        respond_def sample_get_def)
  moreover have "hq_method ?rq \<noteq> OPTIONS" by (simp add: sample_get_def)
  ultimately show ?thesis
    by (cases sample_app ?rq "sample_sys [] []" rule: create_app_cases) (auto simp: same_answer_def)
qed

theorem error_answers_write_nothing_witness:
  "db_of (snd (create_app sample_app (sample_get ''/sgx/certification/v4/tcb'') (sample_sys [] []))) = []"
proof -
  have "undisturbed (sample_ctx Lazy)" by (simp add: undisturbed_def)
  with error_answers_write_nothing [OF _ _ sample_routes(2), of "sample_sys [] []"] sample_tcb_status show ?thesis
    by (simp add: sample_axum_ok route_at_def collateral_endpoints_def)
qed

theorem response_headers_witness:
  "map_of (resp_headers (fst (create_app sample_app (sample_get ''/sgx/certification/v4/tcb'') (sample_sys [] []))))
     ''request-id'' = Some ''1d''"
  using response_headers [of sample_app, OF _ _ _ refl] by (simp add: sample_axum_ok visible_def)

end
