(* ===== verification/Metrics_Series.thy ===== *)
theory Metrics_Series
  imports Metrics Http_Security
begin

text \<open>
  What a scrape says of the events before it: each counter series prints the number of its events, each
  histogram the Prometheus cumulative counts, and every route of the application has its own series. The
  two interfaces are an array of counters and an array of histograms that events address.
\<close>

section \<open>Banks of cells\<close>

definition bump :: "('e \<Rightarrow> nat option) \<Rightarrow> 'e \<Rightarrow> u64 list \<Rightarrow> u64 list" where
  "bump cell e xs = (case cell e of None \<Rightarrow> xs | Some i \<Rightarrow> incr i xs)"

definition sight :: "('e \<Rightarrow> (nat \<times> nat) option) \<Rightarrow> 'e \<Rightarrow> histogram list \<Rightarrow> histogram list" where
  "sight cell e hs = (case cell e of None \<Rightarrow> hs | Some (i, d) \<Rightarrow> observe_at i d hs)"

text \<open>The durations that the events of cell \<open>i\<close> carry.\<close>

definition seen :: "('e \<Rightarrow> (nat \<times> nat) option) \<Rightarrow> nat \<Rightarrow> 'e list \<Rightarrow> nat list" where
  "seen cell i es = map (\<lambda>e. snd (the (cell e))) (filter (\<lambda>e. map_option fst (cell e) = Some i) es)"

locale counter_bank =
  fixes cell :: "'e \<Rightarrow> nat option" and size :: nat
  assumes cell_less: "cell e = Some i \<Longrightarrow> i < size"
begin

lemma length_tally [simp]: "length (fold (bump cell) es xs) = length xs"
  by (induction es arbitrary: xs) (auto simp: bump_def incr_def split: option.splits)

lemma tally_from:
  "length xs = size \<Longrightarrow> i < size \<Longrightarrow>
   fold (bump cell) es xs ! i = xs ! i + of_nat (length (filter (\<lambda>e. cell e = Some i) es))"
proof (induction es arbitrary: xs)
  case (Cons e es)
  then have "fold (bump cell) es (bump cell e xs) ! i =
      bump cell e xs ! i + of_nat (length (filter (\<lambda>e. cell e = Some i) es))"
    by (intro Cons.IH) (auto simp: bump_def incr_def split: option.splits)
  moreover have "bump cell e xs ! i = xs ! i + (if cell e = Some i then 1 else 0)"
    using Cons.prems cell_less [of e] by (auto simp: bump_def incr_def nth_list_update split: option.splits)
  ultimately show ?case by simp
qed simp

lemma tally:
  "i < size \<Longrightarrow> fold (bump cell) es (replicate size 0) ! i = of_nat (length (filter (\<lambda>e. cell e = Some i) es))"
  by (subst tally_from) simp_all

end

locale histogram_bank =
  fixes cell :: "'e \<Rightarrow> (nat \<times> nat) option" and size :: nat
  assumes cell_less: "cell e = Some (i, d) \<Longrightarrow> i < size"
begin

lemma sightings_from:
  "length hs = size \<Longrightarrow> i < size \<Longrightarrow> fold (sight cell) es hs ! i = fold observe (seen cell i es) (hs ! i)"
proof (induction es arbitrary: hs)
  case (Cons e es)
  then have "fold (sight cell) es (sight cell e hs) ! i = fold observe (seen cell i es) (sight cell e hs ! i)"
    by (intro Cons.IH) (auto simp: sight_def observe_at_def split: option.splits)
  moreover have "sight cell e hs ! i = fold observe (seen cell i [e]) (hs ! i)"
    using Cons.prems cell_less [of e]
    by (auto simp: sight_def seen_def observe_at_def nth_list_update split: option.splits)
  moreover have "seen cell i (e # es) = seen cell i [e] @ seen cell i es" by (simp add: seen_def)
  ultimately show ?case by simp
qed (simp add: seen_def)

lemma sightings:
  "i < size \<Longrightarrow> fold (sight cell) es (replicate size new_histogram) ! i = fold observe (seen cell i es) new_histogram"
  by (subst sightings_from) simp_all

end

section \<open>Histograms\<close>

definition bucket_of :: "nat \<Rightarrow> nat" where
  "bucket_of d = partition_point (\<lambda>bound. d > bound) BUCKET_NANOS"

lemma length_BUCKETS [simp]: "length BUCKET_NANOS = 15" "length BUCKET_LABELS = 16"
  by (simp_all add: BUCKET_NANOS_def BUCKET_LABELS_def)

lemma sorted_BUCKET_NANOS: "sorted BUCKET_NANOS"
  by (simp add: BUCKET_NANOS_def)

lemma bucket_of_less: "bucket_of d < 16"
  using length_takeWhile_le [of "\<lambda>bound. d > bound" BUCKET_NANOS]
  by (simp add: bucket_of_def partition_point_def)

lemma takeWhile_sorted_le:
  assumes "sorted xs" "i < length xs"
  shows "length (takeWhile (\<lambda>b. b < d) xs) \<le> i \<longleftrightarrow> (d :: nat) \<le> xs ! i"
proof
  assume *: "length (takeWhile (\<lambda>b. b < d) xs) \<le> i"
  then have "length (takeWhile (\<lambda>b. b < d) xs) < length xs" using assms(2) by simp
  then have "\<not> xs ! length (takeWhile (\<lambda>b. b < d) xs) < d" by (rule nth_length_takeWhile)
  moreover have "xs ! length (takeWhile (\<lambda>b. b < d) xs) \<le> xs ! i"
    using assms * by (simp add: sorted_iff_nth_mono)
  ultimately show "d \<le> xs ! i" by simp
next
  assume *: "d \<le> xs ! i"
  show "length (takeWhile (\<lambda>b. b < d) xs) \<le> i"
  proof (rule ccontr)
    assume "\<not> ?thesis"
    then have "i < length (takeWhile (\<lambda>b. b < d) xs)" by simp
    then have "xs ! i < d" by (metis nth_mem set_takeWhileD takeWhile_nth)
    with * show False by simp
  qed
qed

lemma bucket_of_le:
  "i < 15 \<Longrightarrow> bucket_of d \<le> i \<longleftrightarrow> d \<le> BUCKET_NANOS ! i"
  unfolding bucket_of_def partition_point_def
  by (rule takeWhile_sorted_le [OF sorted_BUCKET_NANOS]) simp

text \<open>What a histogram holds after observations \<open>ds\<close>.\<close>

interpretation buckets: counter_bank "\<lambda>d. Some (bucket_of d)" 16
  by unfold_locales (use bucket_of_less in auto)

lemma observe_buckets: "hi_buckets (observe d h) = bump (\<lambda>d. Some (bucket_of d)) d (hi_buckets h)"
  by (simp add: observe_def bump_def bucket_of_def Let_def)

lemma fold_proj: "(\<And>e s. p (g e s) = h e (p s)) \<Longrightarrow> p (fold g es s) = fold h es (p s)"
  by (induction es arbitrary: s) simp_all

lemma observe_fold:
  "hi_buckets (fold observe ds h) = fold (bump (\<lambda>d. Some (bucket_of d))) ds (hi_buckets h)"
  by (rule fold_proj) (rule observe_buckets)

lemma observed_buckets:
  "i < 16 \<Longrightarrow>
   hi_buckets (fold observe ds new_histogram) ! i = of_nat (length (filter (\<lambda>d. bucket_of d = i) ds))"
  unfolding observe_fold
  using buckets.tally [of i ds] by (simp add: new_histogram_def)

lemma observed_length: "length (hi_buckets (fold observe ds new_histogram)) = 16"
  unfolding observe_fold by (simp add: new_histogram_def)

lemma observed_count: "hi_count (fold observe ds new_histogram) = of_nat (length ds)"
proof -
  have "hi_count (fold observe ds h) = hi_count h + of_nat (length ds)" for h
    by (induction ds arbitrary: h) (simp_all add: observe_def Let_def)
  then show ?thesis by (simp add: new_histogram_def)
qed

lemma observed_sum:
  "hi_sum_nanos (fold observe ds new_histogram) = of_nat (sum_list (map (\<lambda>d. min d (2 ^ 64 - 1)) ds))"
proof -
  have "hi_sum_nanos (fold observe ds h) = hi_sum_nanos h + of_nat (sum_list (map (\<lambda>d. min d (2 ^ 64 - 1)) ds))" for h
    by (induction ds arbitrary: h) (simp_all add: observe_def Let_def algebra_simps)
  then show ?thesis by (simp add: new_histogram_def)
qed

text \<open>The cumulative loop prints running sums.\<close>

definition bucket_line :: "string \<Rightarrow> (string \<times> string) list \<Rightarrow> string \<Rightarrow> u64 \<Rightarrow> string" where
  "bucket_line name labels le n =
     name @ ''_bucket'' @ render_labels labels (Some (''le'', le)) @ '' '' @ word_string n @ newline"

lemma filter_le_Suc:
  "length (filter (\<lambda>d. f d \<le> Suc i) ds) = length (filter (\<lambda>d. f d \<le> i) ds) + length (filter (\<lambda>d. f d = Suc i) ds)"
  for f :: "'a \<Rightarrow> nat"
  by (induction ds) auto

lemma sat_add_of_nat: "a + b < 2 ^ 64 \<Longrightarrow> sat_add (of_nat a) (of_nat b) = of_nat (a + b)"
  by (simp add: sat_add_def u64_unat_of_nat)

lemma render_buckets_counts:
  fixes f :: "'d \<Rightarrow> nat"
  assumes "length ds < 2 ^ 64"
  shows "render_buckets name labels (map (\<lambda>i. (of_nat (length (filter (\<lambda>d. f d = i) ds)), le i)) [k..<k + n])
           (of_nat (length (filter (\<lambda>d. f d < k) ds))) =
         (concat (map (\<lambda>i. bucket_line name labels (le i) (of_nat (length (filter (\<lambda>d. f d \<le> i) ds)))) [k..<k + n]),
          of_nat (length (filter (\<lambda>d. f d < k + n) ds)))"
proof (induction n arbitrary: k)
  case (Suc n)
  have part: "length (filter (\<lambda>d. f d < k) ds) + length (filter (\<lambda>d. f d = k) ds) = length (filter (\<lambda>d. f d \<le> k) ds)"
    by (induction ds) auto
  have "length (filter (\<lambda>d. f d \<le> k) ds) < 2 ^ 64"
    using assms length_filter_le [of _ ds] by (rule le_less_trans [rotated])
  then have step: "sat_add (of_nat (length (filter (\<lambda>d. f d < k) ds))) (of_nat (length (filter (\<lambda>d. f d = k) ds))) =
      of_nat (length (filter (\<lambda>d. f d \<le> k) ds))"
    using sat_add_of_nat part by metis
  have "[k..<k + Suc n] = k # [Suc k..<Suc k + n]" by (simp add: upt_rec)
  then show ?case
    using Suc.IH [of "Suc k"] by (simp add: step Let_def bucket_line_def less_Suc_eq_le)
qed simp

lemma observed_zip:
  "zip (hi_buckets (fold observe ds new_histogram)) BUCKET_LABELS =
     map (\<lambda>i. (of_nat (length (filter (\<lambda>d. bucket_of d = i) ds)), BUCKET_LABELS ! i)) [0..<16]"
  by (rule nth_equalityI) (simp_all add: observed_length observed_buckets)

lemma within_bucket: "i < 16 \<Longrightarrow> bucket_of d \<le> i \<longleftrightarrow> i = 15 \<or> d \<le> BUCKET_NANOS ! i"
  using bucket_of_less [of d] bucket_of_le [of i d] by (cases "i = 15") auto

lemma bucket_lines:
  "map (\<lambda>i. bucket_line name labels (BUCKET_LABELS ! i) (of_nat (length (filter (\<lambda>d. bucket_of d \<le> i) ds)))) [0..<16] =
   map (\<lambda>i. bucket_line name labels (BUCKET_LABELS ! i)
     (of_nat (length (filter (\<lambda>d. i = 15 \<or> d \<le> BUCKET_NANOS ! i) ds)))) [0..<16]"
  by (intro map_cong refl) (simp add: within_bucket)

lemma le_sat_add: "a \<le> sat_add a b"
proof (cases "unat a + unat b < 2 ^ 64")
  case True
  then show ?thesis by (simp add: sat_add_def word_le_nat_alt unat_word_ariths)
qed (simp add: sat_add_def)

lemma render_buckets_sorted:
  "\<exists>cs. render_buckets name labels zs c = (concat (map2 (bucket_line name labels) (map snd zs) cs), last (c # cs)) \<and>
        length cs = length zs \<and> sorted (c # cs)"
proof (induction zs arbitrary: c)
  case (Cons z zs)
  obtain b le where z: "z = (b, le)" by (cases z)
  obtain cs where cs: "render_buckets name labels zs (sat_add c b) =
      (concat (map2 (bucket_line name labels) (map snd zs) cs), last (sat_add c b # cs))"
      "length cs = length zs" "sorted (sat_add c b # cs)"
    using Cons.IH by blast
  have "sorted (c # sat_add c b # cs)" using cs(3) le_sat_add [of c b] by auto
  with cs show ?case
    by (intro exI [of _ "sat_add c b # cs"]) (simp add: z Let_def bucket_line_def)
qed simp

definition total_lines :: "float_format \<Rightarrow> string \<Rightarrow> (string \<times> string) list \<Rightarrow> u64 \<Rightarrow> u64 \<Rightarrow> string" where
  "total_lines F name labels nanos n =
     name @ ''_sum'' @ render_labels labels None @ '' '' @ ff_seconds F nanos @ newline @
     name @ ''_count'' @ render_labels labels None @ '' '' @ word_string n @ newline"

text \<open>C17: A histogram prints the Prometheus cumulative counts. After observations \<open>ds\<close> (fewer than \<open>2 ^ 64\<close>)
  the bucket of bound \<open>b\<close> prints how many of them are at most \<open>b\<close>, and the last bucket and the count print
  their number; nothing is printed before the first one. And whatever mixture of old and new cells a racing
  scrape reads, the printed bucket values never decrease and the last one is the printed count.\<close>
theorem histogram_text:
  "(length ds < 2 ^ 64 \<longrightarrow>
     hist_render F name labels (fold observe ds new_histogram) =
       (if ds = [] then []
        else concat (map (\<lambda>i. bucket_line name labels (BUCKET_LABELS ! i)
               (of_nat (length (filter (\<lambda>d. i = 15 \<or> d \<le> BUCKET_NANOS ! i) ds)))) [0..<16]) @
             total_lines F name labels (of_nat (sum_list (map (\<lambda>d. min d (2 ^ 64 - 1)) ds))) (of_nat (length ds)))) \<and>
   (hi_count h \<noteq> 0 \<and> length (hi_buckets h) = 16 \<longrightarrow>
     (\<exists>cs. length cs = 16 \<and> sorted cs \<and>
       hist_render F name labels h =
         concat (map2 (bucket_line name labels) BUCKET_LABELS cs) @ total_lines F name labels (hi_sum_nanos h) (last cs)))"
proof (intro conjI impI)
  assume len: "length ds < 2 ^ 64"
  have "zip (hi_buckets (fold observe ds new_histogram)) BUCKET_LABELS =
      map (\<lambda>i. (of_nat (length (filter (\<lambda>d. bucket_of d = i) ds)), BUCKET_LABELS ! i)) [0..<0 + 16]"
    by (simp only: observed_zip add_0)
  then have rendered: "render_buckets name labels (zip (hi_buckets (fold observe ds new_histogram)) BUCKET_LABELS) 0 =
      (concat (map (\<lambda>i. bucket_line name labels (BUCKET_LABELS ! i)
         (of_nat (length (filter (\<lambda>d. i = 15 \<or> d \<le> BUCKET_NANOS ! i) ds)))) [0..<16]), of_nat (length ds))"
    using render_buckets_counts [OF len, of name labels bucket_of "\<lambda>i. BUCKET_LABELS ! i" 0 16]
    by (simp add: bucket_of_less bucket_lines [symmetric] del: upt.simps upt_conv_Cons)
  show "hist_render F name labels (fold observe ds new_histogram) =
       (if ds = [] then []
        else concat (map (\<lambda>i. bucket_line name labels (BUCKET_LABELS ! i)
               (of_nat (length (filter (\<lambda>d. i = 15 \<or> d \<le> BUCKET_NANOS ! i) ds)))) [0..<16]) @
             total_lines F name labels (of_nat (sum_list (map (\<lambda>d. min d (2 ^ 64 - 1)) ds))) (of_nat (length ds)))"
    unfolding hist_render_def rendered observed_count observed_sum u64_of_nat_0 [OF len] total_lines_def by simp
next
  assume h: "hi_count h \<noteq> 0 \<and> length (hi_buckets h) = 16"
  then obtain cs where cs: "render_buckets name labels (zip (hi_buckets h) BUCKET_LABELS) 0 =
      (concat (map2 (bucket_line name labels) BUCKET_LABELS cs), last (0 # cs))" "length cs = 16" "sorted (0 # cs)"
    using render_buckets_sorted [of name labels "zip (hi_buckets h) BUCKET_LABELS" 0] by auto
  moreover have "last (0 # cs) = last cs" using cs(2) by auto
  ultimately show "\<exists>cs. length cs = 16 \<and> sorted cs \<and> hist_render F name labels h =
      concat (map2 (bucket_line name labels) BUCKET_LABELS cs) @ total_lines F name labels (hi_sum_nanos h) (last cs)"
    using h by (intro exI [of _ cs]) (simp add: hist_render_def total_lines_def)
qed

section \<open>Series\<close>

datatype metric_event =
    CacheLookup kind cache_result
  | StoreRead kind nat
  | SingleflightWait kind nat
  | UpstreamAttempt upstream_service upstream_status nat
  | UpstreamThrottled upstream_service
  | PermitWait nat
  | InflightAdd
  | InflightSub
  | RefreshRun u64 bool nat
  | RefreshItem kind bool
  | HttpRequest string nat nat

fun record_event :: "float_format \<Rightarrow> metric_event \<Rightarrow> recording" where
  "record_event F (CacheLookup k r) = cache_lookup k r"
| "record_event F (StoreRead k d) = store_read k d"
| "record_event F (SingleflightWait k d) = singleflight_wait k d"
| "record_event F (UpstreamAttempt u st d) = upstream_attempt u st d"
| "record_event F (UpstreamThrottled u) = upstream_throttled u"
| "record_event F (PermitWait d) = permit_wait d"
| "record_event F InflightAdd = inflight_add"
| "record_event F InflightSub = inflight_sub"
| "record_event F (RefreshRun now ok d) = refresh_run F now ok d"
| "record_event F (RefreshItem k ok) = refresh_item k ok"
| "record_event F (HttpRequest route status d) = http_request route status d"

definition registry_after :: "float_format \<Rightarrow> u64 \<Rightarrow> timing option \<Rightarrow> metric_event list \<Rightarrow> metrics" where
  "registry_after F now t es = fst (fold (record_event F) es (new_metrics now, t))"

text \<open>The cell of each bank that an event addresses.\<close>

fun cache_cell :: "metric_event \<Rightarrow> nat option" where
  "cache_cell (CacheLookup k r) = Some (kind_ix k * length cache_result_ALL + cache_result_ix r)"
| "cache_cell _ = None"

fun upstream_cell :: "metric_event \<Rightarrow> nat option" where
  "upstream_cell (UpstreamAttempt u st d) = Some (upstream_ix u * length upstream_status_ALL + upstream_status_ix st)"
| "upstream_cell _ = None"

fun throttled_cell :: "metric_event \<Rightarrow> nat option" where
  "throttled_cell (UpstreamThrottled u) = Some (upstream_ix u)"
| "throttled_cell _ = None"

fun item_cell :: "metric_event \<Rightarrow> nat option" where
  "item_cell (RefreshItem k ok) = Some (kind_ix k * 2 + (if ok then 1 else 0))"
| "item_cell _ = None"

fun http_cell :: "metric_event \<Rightarrow> nat option" where
  "http_cell (HttpRequest route status d) = Some (route_index route * length STATUS_CLASSES + status_class status)"
| "http_cell _ = None"

fun store_sight :: "metric_event \<Rightarrow> (nat \<times> nat) option" where
  "store_sight (StoreRead k d) = Some (kind_ix k, d)"
| "store_sight _ = None"

fun wait_sight :: "metric_event \<Rightarrow> (nat \<times> nat) option" where
  "wait_sight (SingleflightWait k d) = Some (kind_ix k, d)"
| "wait_sight _ = None"

fun upstream_sight :: "metric_event \<Rightarrow> (nat \<times> nat) option" where
  "upstream_sight (UpstreamAttempt u st d) = Some (upstream_ix u, d)"
| "upstream_sight _ = None"

fun http_sight :: "metric_event \<Rightarrow> (nat \<times> nat) option" where
  "http_sight (HttpRequest route status d) = Some (route_index route, d)"
| "http_sight _ = None"

lemma record_event_cells:
  "me_cache (fst (record_event F e s)) = bump cache_cell e (me_cache (fst s))"
  "me_upstream (fst (record_event F e s)) = bump upstream_cell e (me_upstream (fst s))"
  "me_throttled (fst (record_event F e s)) = bump throttled_cell e (me_throttled (fst s))"
  "me_refresh_items (fst (record_event F e s)) = bump item_cell e (me_refresh_items (fst s))"
  "me_http (fst (record_event F e s)) = bump http_cell e (me_http (fst s))"
  "me_store (fst (record_event F e s)) = sight store_sight e (me_store (fst s))"
  "me_singleflight (fst (record_event F e s)) = sight wait_sight e (me_singleflight (fst s))"
  "me_upstream_duration (fst (record_event F e s)) = sight upstream_sight e (me_upstream_duration (fst s))"
  "me_http_duration (fst (record_event F e s)) = sight http_sight e (me_http_duration (fst s))"
  by (cases e; cases s; simp add: bump_def sight_def cache_lookup_def store_read_def singleflight_wait_def
      upstream_attempt_def upstream_throttled_def permit_wait_def inflight_add_def inflight_sub_def refresh_run_def
      refresh_item_def http_request_def)+

lemma registry_cells:
  "me_cache (registry_after F now t es) = fold (bump cache_cell) es (replicate (length kind_ALL * length cache_result_ALL) 0)"
  "me_upstream (registry_after F now t es) =
     fold (bump upstream_cell) es (replicate (length upstream_ALL * length upstream_status_ALL) 0)"
  "me_throttled (registry_after F now t es) = fold (bump throttled_cell) es (replicate (length upstream_ALL) 0)"
  "me_refresh_items (registry_after F now t es) = fold (bump item_cell) es (replicate (length kind_ALL * 2) 0)"
  "me_http (registry_after F now t es) = fold (bump http_cell) es (replicate (length ROUTES * length STATUS_CLASSES) 0)"
  "me_store (registry_after F now t es) = fold (sight store_sight) es (replicate (length kind_ALL) new_histogram)"
  "me_singleflight (registry_after F now t es) = fold (sight wait_sight) es (replicate (length kind_ALL) new_histogram)"
  "me_upstream_duration (registry_after F now t es) =
     fold (sight upstream_sight) es (replicate (length upstream_ALL) new_histogram)"
  "me_http_duration (registry_after F now t es) = fold (sight http_sight) es (replicate (length ROUTES) new_histogram)"
  unfolding registry_after_def
  by (rule trans [OF fold_proj [where p = "\<lambda>s. _ (fst s)"]], rule record_event_cells, simp add: new_metrics_def)+

section \<open>Labels\<close>

lemma place_less: "x \<in> set xs \<Longrightarrow> place xs x < length xs"
  unfolding place_def by (induction xs) auto

lemma nth_place: "x \<in> set xs \<Longrightarrow> xs ! place xs x = x"
  unfolding place_def by (induction xs) auto

lemma place_inj: "x \<in> set xs \<Longrightarrow> y \<in> set xs \<Longrightarrow> place xs x = place xs y \<longleftrightarrow> x = y"
  by (metis nth_place)

lemma all_labels:
  "k \<in> set kind_ALL" "r \<in> set cache_result_ALL" "u \<in> set upstream_ALL" "st \<in> set upstream_status_ALL"
  subgoal by (cases k) (simp_all add: kind_ALL_def)
  subgoal by (cases r) (simp_all add: cache_result_ALL_def)
  subgoal by (cases u) (simp_all add: upstream_ALL_def)
  subgoal by (cases st) (simp_all add: upstream_status_ALL_def)
  done

lemma label_places [simp]:
  "kind_ix k < length kind_ALL" "cache_result_ix r < length cache_result_ALL"
  "upstream_ix u < length upstream_ALL" "upstream_status_ix st < length upstream_status_ALL"
  by (auto intro!: place_less all_labels)

lemma label_places_inj [simp]:
  "kind_ix k = kind_ix k' \<longleftrightarrow> k = k'" "cache_result_ix r = cache_result_ix r' \<longleftrightarrow> r = r'"
  "upstream_ix u = upstream_ix u' \<longleftrightarrow> u = u'" "upstream_status_ix st = upstream_status_ix st' \<longleftrightarrow> st = st'"
  by (auto intro!: place_inj all_labels)

lemma pair_less: "i < m \<Longrightarrow> j < n \<Longrightarrow> i * n + j < m * (n :: nat)"
proof -
  assume "i < m" "j < n"
  then have "i * n + j < Suc i * n" by simp
  also have "\<dots> \<le> m * n" using \<open>i < m\<close> by (intro mult_le_mono1) simp
  finally show ?thesis .
qed

lemma pair_inj: "j < n \<Longrightarrow> j' < n \<Longrightarrow> i * n + j = i' * n + j' \<longleftrightarrow> i = i' \<and> j = (j' :: nat)"
  by (metis Euclidean_Rings.div_eq_0_iff add.commute add.right_neutral div_mult_self1 gr_implies_not_zero
      mod_less mod_mult_self1)

lemma status_class_less: "status_class st < length STATUS_CLASSES"
  by (simp add: status_class_def STATUS_CLASSES_def)

lemma route_index_less: "route_index r < length ROUTES"
proof (cases "r \<in> set ROUTES")
  case False
  then show ?thesis by (simp add: route_index_def ROUTES_def)
qed (simp add: route_index_def place_less)

section \<open>What a scrape shows\<close>

interpretation cache_bank: counter_bank cache_cell "length kind_ALL * length cache_result_ALL"
  by unfold_locales (auto elim!: cache_cell.elims intro!: pair_less)

interpretation upstream_bank: counter_bank upstream_cell "length upstream_ALL * length upstream_status_ALL"
  by unfold_locales (auto elim!: upstream_cell.elims intro!: pair_less)

interpretation throttled_bank: counter_bank throttled_cell "length upstream_ALL"
  by unfold_locales (auto elim!: throttled_cell.elims)

interpretation item_bank: counter_bank item_cell "length kind_ALL * 2"
  by unfold_locales (auto elim!: item_cell.elims intro!: pair_less)

interpretation http_bank: counter_bank http_cell "length ROUTES * length STATUS_CLASSES"
  by unfold_locales (auto elim!: http_cell.elims intro!: pair_less route_index_less status_class_less)

interpretation store_bank: histogram_bank store_sight "length kind_ALL"
  by unfold_locales (auto elim!: store_sight.elims)

interpretation wait_bank: histogram_bank wait_sight "length kind_ALL"
  by unfold_locales (auto elim!: wait_sight.elims)

interpretation upstream_hist: histogram_bank upstream_sight "length upstream_ALL"
  by unfold_locales (auto elim!: upstream_sight.elims)

interpretation http_hist: histogram_bank http_sight "length ROUTES"
  by unfold_locales (auto elim!: http_sight.elims intro!: route_index_less)

lemma cell_events:
  "cache_cell e = Some (kind_ix k * length cache_result_ALL + cache_result_ix r) \<longleftrightarrow> e = CacheLookup k r"
  "upstream_cell e = Some (upstream_ix u * length upstream_status_ALL + upstream_status_ix st) \<longleftrightarrow>
     (\<exists>d. e = UpstreamAttempt u st d)"
  "throttled_cell e = Some (upstream_ix u) \<longleftrightarrow> e = UpstreamThrottled u"
  "item_cell e = Some (kind_ix k * 2 + (if ok then 1 else 0)) \<longleftrightarrow> e = RefreshItem k ok"
  subgoal by (cases e) (auto simp: pair_inj)
  subgoal by (cases e) (auto simp: pair_inj)
  subgoal by (cases e) auto
  subgoal by (cases e) (auto simp: pair_inj split: if_splits)
  done

lemma http_cell_events:
  "c < length STATUS_CLASSES \<Longrightarrow> http_cell e = Some (i * length STATUS_CLASSES + c) \<longleftrightarrow>
     (\<exists>route status d. e = HttpRequest route status d \<and> route_index route = i \<and> status_class status = c)"
  using status_class_less by (cases e) (auto simp: pair_inj)

lemma count_list_filter: "count_list es x = length (filter (\<lambda>e. e = x) es)"
  by (induction es) auto

lemma item_less: "kind_ix k * 2 + (if ok then 1 else 0) < length kind_ALL * 2"
  by (rule pair_less) simp_all

lemma counter_values:
  "me_cache (registry_after F now t es) ! (kind_ix k * length cache_result_ALL + cache_result_ix r) =
     of_nat (count_list es (CacheLookup k r))"
  "me_upstream (registry_after F now t es) ! (upstream_ix u * length upstream_status_ALL + upstream_status_ix st) =
     of_nat (length (filter (\<lambda>e. \<exists>d. e = UpstreamAttempt u st d) es))"
  "me_throttled (registry_after F now t es) ! upstream_ix u = of_nat (count_list es (UpstreamThrottled u))"
  "me_refresh_items (registry_after F now t es) ! (kind_ix k * 2 + (if ok then 1 else 0)) =
     of_nat (count_list es (RefreshItem k ok))"
  unfolding registry_cells
  subgoal by (simp add: cache_bank.tally pair_less cell_events count_list_filter)
  subgoal by (simp add: upstream_bank.tally pair_less cell_events)
  subgoal by (simp add: throttled_bank.tally cell_events count_list_filter)
  subgoal by (subst item_bank.tally) (simp_all only: cell_events count_list_filter item_less)
  done

lemma http_value:
  "me_http (registry_after F now t es) ! (route_index route * length STATUS_CLASSES + status_class status) =
     of_nat (length (filter (\<lambda>e. \<exists>r st d. e = HttpRequest r st d \<and>
       route_index r = route_index route \<and> status_class st = status_class status) es))"
  unfolding registry_cells
  by (simp add: http_bank.tally pair_less route_index_less status_class_less http_cell_events)

lemma sublist_appendI1: "sublist x y \<Longrightarrow> sublist x (y @ z)"
  by (auto simp: sublist_def) (metis append.assoc)

lemma sublist_appendI2: "sublist x z \<Longrightarrow> sublist x (y @ z)"
  by (auto simp: sublist_def) (metis append.assoc)

lemma sublist_concat: "y \<in> set xs \<Longrightarrow> sublist x (f y) \<Longrightarrow> sublist x (concat (map f xs))"
  by (induction xs) (auto intro: sublist_appendI1 sublist_appendI2)

lemmas skip2 = sublist_appendI2 [THEN sublist_appendI2]
lemmas skip3 = skip2 [THEN sublist_appendI2]
lemmas skip5 = skip3 [THEN skip2]

lemma in_enumerate: "i < length xs \<Longrightarrow> (i, xs ! i) \<in> set (enumerate 0 xs)"
  by (simp add: in_set_enumerate_eq)

lemma printed_parts:
  "sublist x (render_cache m) \<Longrightarrow> sublist x (render F m)"
  "sublist x (render_upstream F m) \<Longrightarrow> sublist x (render F m)"
  "sublist x (render_refresh F m) \<Longrightarrow> sublist x (render F m)"
  "sublist x (render_http F m) \<Longrightarrow> sublist x (render F m)"
  unfolding render_def by (simp_all add: sublist_appendI1 sublist_appendI2)

lemma printed_cache:
  "sublist (sample ''pccs_cache_lookups_total'' [(''kind'', kind_str k), (''result'', cache_result_str r)]
     (me_cache m ! (kind_ix k * length cache_result_ALL + cache_result_ix r))) (render F m)"
  by (intro printed_parts(1), unfold render_cache_def)
    (rule skip5, intro sublist_concat [OF all_labels(1) [of k]] sublist_concat [OF all_labels(2) [of r]] sublist_order.order.refl)

lemma printed_upstream:
  "sublist (sample ''pccs_upstream_requests_total''
     [(''upstream'', upstream_str u), (''status'', upstream_status_str st)]
     (me_upstream m ! (upstream_ix u * length upstream_status_ALL + upstream_status_ix st))) (render F m)"
  by (intro printed_parts(2), unfold render_upstream_def, rule sublist_appendI2, rule sublist_appendI1)
    (intro sublist_concat [OF all_labels(3) [of u]] sublist_concat [OF all_labels(4) [of st]] sublist_order.order.refl)

lemma printed_throttled:
  "sublist (sample ''pccs_upstream_throttled_total'' [(''upstream'', upstream_str u)] (me_throttled m ! upstream_ix u))
     (render F m)"
  by (intro printed_parts(2), unfold render_upstream_def, rule skip5, rule sublist_appendI1)
    (intro sublist_concat [OF all_labels(3) [of u]] sublist_order.order.refl)

lemma printed_items:
  "sublist (sample ''pccs_refresh_items_total'' [(''kind'', kind_str k), (''result'', if ok then ''success'' else ''error'')]
     (me_refresh_items m ! (kind_ix k * 2 + (if ok then 1 else 0)))) (render F m)"
proof -
  have member: "(if ok then 1 else 0, if ok then ''success'' else ''error'') \<in> set (enumerate 0 RESULTS)"
    by (simp add: RESULTS_def)
  show ?thesis
    by (intro printed_parts(3), unfold render_refresh_def, rule skip3, rule sublist_appendI1)
      (rule sublist_concat [OF all_labels(1) [of k]], rule sublist_concat [OF member], simp)
qed

lemma printed_http:
  assumes "i < length ROUTES" "c < length STATUS_CLASSES"
  shows "sublist (sample ''pccs_http_requests_total'' [(''route'', ROUTES ! i), (''status_class'', STATUS_CLASSES ! c)]
     (me_http m ! (i * length STATUS_CLASSES + c))) (render F m)"
  by (intro printed_parts(4), unfold render_http_def, rule sublist_appendI2, rule sublist_appendI1)
    (rule sublist_concat [OF in_enumerate [OF assms(1)]], unfold split,
      rule sublist_concat [OF in_enumerate [OF assms(2)]], simp)

lemma printed_histograms:
  "sublist (hist_render F ''pccs_store_read_duration_seconds'' [(''kind'', kind_str k)] (me_store m ! kind_ix k)) (render F m)"
  "sublist (hist_render F ''pccs_cache_singleflight_wait_seconds'' [(''kind'', kind_str k)] (me_singleflight m ! kind_ix k))
     (render F m)"
  "sublist (hist_render F ''pccs_upstream_attempt_duration_seconds'' [(''upstream'', upstream_str u)]
     (me_upstream_duration m ! upstream_ix u)) (render F m)"
  "i < length ROUTES \<Longrightarrow>
     sublist (hist_render F ''pccs_http_request_duration_seconds'' [(''route'', ROUTES ! i)] (me_http_duration m ! i)) (render F m)"
  subgoal by (unfold render_def render_kinds_def, rule sublist_appendI2, rule sublist_appendI1, rule sublist_appendI2)
      (intro sublist_concat [OF all_labels(1) [of k]] sublist_order.order.refl)
  subgoal by (unfold render_def render_kinds_def, rule skip2, rule sublist_appendI1, rule sublist_appendI2)
      (intro sublist_concat [OF all_labels(1) [of k]] sublist_order.order.refl)
  subgoal by (intro printed_parts(2), unfold render_upstream_def, rule skip3, rule sublist_appendI1)
      (intro sublist_concat [OF all_labels(3) [of u]] sublist_order.order.refl)
  subgoal by (intro printed_parts(4), unfold render_http_def, rule skip3)
      (rule sublist_concat [OF in_enumerate], assumption, simp)
  done

lemma histogram_values:
  "me_store (registry_after F now t es) ! kind_ix k = fold observe (seen store_sight (kind_ix k) es) new_histogram"
  "me_singleflight (registry_after F now t es) ! kind_ix k = fold observe (seen wait_sight (kind_ix k) es) new_histogram"
  "me_upstream_duration (registry_after F now t es) ! upstream_ix u =
     fold observe (seen upstream_sight (upstream_ix u) es) new_histogram"
  "me_http_duration (registry_after F now t es) ! route_index route =
     fold observe (seen http_sight (route_index route) es) new_histogram"
  unfolding registry_cells
  by (simp_all add: store_bank.sightings wait_bank.sightings upstream_hist.sightings http_hist.sightings route_index_less)


section \<open>The middleware\<close>

text \<open>\<open>http_middleware\<close> around an inner service that records to the registry and to the timing of the request;
  \<open>run_time\<close> and \<open>full_time\<close> are the two readings of the clock.\<close>

definition server_timing :: "float_format \<Rightarrow> nat \<Rightarrow> timing \<Rightarrow> string" where
  "server_timing F elapsed t =
     (let app = elapsed - duration_add (duration_add (ti_store t) (ti_lock t)) (ti_upstream t)
      in ''cache;desc='' @ (case ti_cache t of Some r \<Rightarrow> cache_result_str r | None \<Rightarrow> ''none'') @
         '', store;dur='' @ ff_millis F (ti_store t) @ '', lock;dur='' @ ff_millis F (ti_lock t) @
         '', upstream;dur='' @ ff_millis F (ti_upstream t) @ '', app;dur='' @ ff_millis F app)"

type_synonym 's measured = "http_request \<Rightarrow> metrics \<times> timing option \<Rightarrow> 's \<Rightarrow> response \<times> (metrics \<times> timing option) \<times> 's"

definition http_middleware ::
  "float_format \<Rightarrow> ('db, 'w) app_state \<Rightarrow> bool \<Rightarrow> nat \<Rightarrow> nat \<Rightarrow> 's measured \<Rightarrow> http_request \<Rightarrow> metrics \<Rightarrow> 's \<Rightarrow>
   response \<times> metrics \<times> 's" where
  "http_middleware F A timing run_time full_time next rq m s =
     (let route = (case matched_path A rq of Some p \<Rightarrow> route_index p | None \<Rightarrow> length ROUTES - 1)
      in case (if timing
               then case next rq (m, Some default_timing) s of
                      (resp, (m, Some t), s) \<Rightarrow>
                        (with_headers (insert_hdr (as_axum A) ''server-timing'' (server_timing F run_time t)) resp, m, s)
                    | (resp, (m, None), s) \<Rightarrow> (resp, m, s)
               else case next rq (m, None) s of (resp, (m, _), s) \<Rightarrow> (resp, m, s)) of
           (resp, m, s) \<Rightarrow> (resp, fst (http_request (ROUTES ! route) (resp_status resp) full_time (m, None)), s))"

text \<open>The application under the middleware; \<open>recorded\<close> is what the request and the requests beside it
  record while it runs.\<close>

definition measured_app ::
  "float_format \<Rightarrow> ('db, 'w) app_state \<Rightarrow> bool \<Rightarrow> nat \<Rightarrow> nat \<Rightarrow> (http_request \<Rightarrow> ('db, 'w) sys \<Rightarrow> metric_event list) \<Rightarrow>
   http_request \<Rightarrow> metrics \<Rightarrow> ('db, 'w) sys \<Rightarrow> response \<times> metrics \<times> ('db, 'w) sys" where
  "measured_app F A timing run_time full_time recorded =
     http_middleware F A timing run_time full_time
       (\<lambda>rq mt s. case create_app A rq s of (resp, s') \<Rightarrow> (resp, fold (record_event F) (recorded rq s) mt, s'))"

text \<open>axum matches a request against the registered templates only.\<close>

definition matches_registered :: "axum \<Rightarrow> bool" where
  "matches_registered A \<longleftrightarrow> (\<forall>ps path p. ax_match A ps path = Some p \<longrightarrow> p \<in> set ps)"

lemma app_paths:
  "set (map ro_path (app_routes v)) \<subseteq> set ROUTES - {''/metrics'', ''unmatched''}"
  "set (map ro_path (app_routes 4)) = set ROUTES - {''/metrics'', ''unmatched''}"
  by (auto simp: app_routes_def nest_def sgx_router_def tdx_router_def healthz_router_def amd_kds_router_def
      nvidia_rim_router_def nvidia_ocsp_router_def nvidia_nras_router_def route_at_def ROUTES_def split: if_splits)

lemma record_event_timing:
  "fst s = fst s' \<Longrightarrow> fst (record_event F e s) = fst (record_event F e s')"
  "snd (record_event F e s) = None \<longleftrightarrow> snd s = None"
  by (cases e; cases s; cases s'; simp add: cache_lookup_def store_read_def singleflight_wait_def
      upstream_attempt_def upstream_throttled_def permit_wait_def inflight_add_def inflight_sub_def refresh_run_def
      refresh_item_def http_request_def timing_add_def timing_cache_def)+

lemma fold_record_timing:
  "fst s = fst s' \<Longrightarrow> fst (fold (record_event F) es s) = fst (fold (record_event F) es s')"
  "snd (fold (record_event F) es s) = None \<longleftrightarrow> snd s = None"
proof (induction es arbitrary: s s')
  case (Cons e es)
  { case 1 show ?case using Cons.IH(1) [OF record_event_timing(1) [OF 1]] by simp }
  { case 2 show ?case using Cons.IH(2) record_event_timing(2) by simp }
qed simp_all

lemma route_label:
  "(\<And>p. mp = Some p \<Longrightarrow> p \<in> set ROUTES) \<Longrightarrow>
   ROUTES ! (case mp of Some p \<Rightarrow> route_index p | None \<Rightarrow> length ROUTES - 1) =
   (case mp of Some p \<Rightarrow> p | None \<Rightarrow> ''unmatched'')"
  by (auto simp: route_index_def nth_place split: option.splits) (simp add: ROUTES_def)

text \<open>C15: The metrics layer is transparent and complete. Around the application it leaves the state and the
  response as they are, but for a \<open>Server-Timing\<close> header where timing is on, and it records each request
  exactly once, with its status and under the template it matched. Every template of the application has
  a series of its own: with API version 4 the listed labels are exactly the registered templates, the
  scrape path and \<open>unmatched\<close>.\<close>
theorem requests_measured:
  assumes "matches_registered (as_axum A)" and "create_app A rq s = (resp, s')"
  shows "(\<exists>timings. measured_app F A timing run_time full_time recorded rq (registry_after F now None es) s =
       (if timing then with_headers (insert_hdr (as_axum A) ''server-timing'' timings) resp else resp,
        registry_after F now None (es @ recorded rq s @
          [HttpRequest (case matched_path A rq of Some p \<Rightarrow> p | None \<Rightarrow> ''unmatched'') (resp_status resp) full_time]), s')) \<and>
     (\<forall>p. matched_path A rq = Some p \<longrightarrow> p \<in> set ROUTES - {''/metrics'', ''unmatched''}) \<and>
     set (map ro_path (app_routes 4)) = set ROUTES - {''/metrics'', ''unmatched''}"
proof -
  have path: "p \<in> set ROUTES - {''/metrics'', ''unmatched''}" if "matched_path A rq = Some p" for p
    using that assms(1) app_paths(1) unfolding matched_path_def matches_registered_def by blast
  then have label: "ROUTES ! (case matched_path A rq of Some p \<Rightarrow> route_index p | None \<Rightarrow> length ROUTES - 1) =
      (case matched_path A rq of Some p \<Rightarrow> p | None \<Rightarrow> ''unmatched'')"
    by (intro route_label) blast
  let ?s0 = "fold (record_event F) es (new_metrics now, None)"
  let ?e = "HttpRequest (case matched_path A rq of Some p \<Rightarrow> p | None \<Rightarrow> ''unmatched'') (resp_status resp) full_time"
  have base: "registry_after F now None (es @ es' @ [e]) =
      fst (record_event F e (fst (fold (record_event F) es' (fst ?s0, t)), None))" for es' e and t
    unfolding registry_after_def fold_append comp_apply fold_simps id_apply
    by (intro record_event_timing(1)) (simp add: fold_record_timing(1) [of "(fst ?s0, t)" ?s0])
  have "\<exists>m t. fold (record_event F) (recorded rq s) (fst ?s0, Some default_timing) = (m, Some t)"
    using fold_record_timing(2) [of F "recorded rq s" "(fst ?s0, Some default_timing)"]
    by (cases "fold (record_event F) (recorded rq s) (fst ?s0, Some default_timing)") auto
  then have "\<exists>timings. measured_app F A timing run_time full_time recorded rq (fst ?s0) s =
       (if timing then with_headers (insert_hdr (as_axum A) ''server-timing'' timings) resp else resp,
        registry_after F now None (es @ recorded rq s @
          [HttpRequest (case matched_path A rq of Some p \<Rightarrow> p | None \<Rightarrow> ''unmatched'') (resp_status resp) full_time]), s')"
    using base [of "recorded rq s" ?e None] base [of "recorded rq s" ?e "Some default_timing"]
    by (auto simp: measured_app_def http_middleware_def assms(2) label Let_def split: prod.splits)
  then show ?thesis
    using path app_paths(2) unfolding registry_after_def [of F now None es] by blast
qed

definition sample_format :: float_format where
  "sample_format =
     \<lparr>ff_seconds = (\<lambda>n. dec_string (unat n)), ff_bits = (\<lambda>n. dec_string (unat n)), ff_to_bits = of_nat, ff_millis = dec_string\<rparr>"

theorem histogram_text_witness:
  "hist_render sample_format ''h'' [] (fold observe [40000, 60000, 70000000000] new_histogram) =
     concat (map (\<lambda>i. bucket_line ''h'' [] (BUCKET_LABELS ! i)
       (of_nat (length (filter (\<lambda>d. i = 15 \<or> d \<le> BUCKET_NANOS ! i) [40000, 60000, 70000000000])))) [0..<16]) @
     total_lines sample_format ''h'' [] 70000100000 3"
  using histogram_text [of "[40000, 60000, 70000000000]" sample_format "''h''" "[]"] by (simp del: upt.simps upt_conv_Cons)

theorem requests_measured_witness:
  "snd (snd (measured_app sample_format sample_app False 1 2 (\<lambda>_ _. [CacheLookup K_SgxTcb C_Miss])
      (sample_get ''/sgx/certification/v4/tcb'') (registry_after sample_format 0 None []) (sample_sys [] []))) =
   snd (create_app sample_app (sample_get ''/sgx/certification/v4/tcb'') (sample_sys [] []))"
proof -
  have "matches_registered (as_axum sample_app)"
    by (auto simp: matches_registered_def sample_axum_def split: if_splits)
  from requests_measured [OF this, of "sample_get ''/sgx/certification/v4/tcb''" "sample_sys [] []"]
  show ?thesis by (metis prod.collapse snd_conv)
qed

end
