(* ===== verification/Config.thy ===== *)
theory Config
  imports Http
begin

text \<open>
  \<^verbatim>\<open>src/config.rs\<close>: the server configuration. Built-in defaults are overridden by a TOML file and then by
  the command line (or the environment); \<open>config import\<close> translates a Node configuration into TOML.
  Reading and parsing the files is a parameter: what a path holds, \<open>None\<close> where the program exits.
\<close>

type_synonym u16 = "16 word"
type_synonym i32 = "32 word"

section \<open>Settings\<close>

definition DEFAULT_USER_TOKEN_HASH :: string where
  "DEFAULT_USER_TOKEN_HASH =
     ''b14361404c078ffd549c03db443c3fede2f3e534d73f78f77301ed97d4a436a9fd9db05ee8b325c0ad36438b43fec8510c204fc1c1edb21d0941c00e9e2c1ce2''"

definition DEFAULT_ADMIN_TOKEN_HASH :: string where
  "DEFAULT_ADMIN_TOKEN_HASH =
     ''c7ad44cbad762a5da0a452f9e854fdc1e0e7a52a38015f23f3eab1d80b931dd472634dfac71cd34ebc35d16ab7fb8a90c81f975113d6c7538dc69dd8de9077ec''"

definition DEFAULT_MAX_BODY_SIZE :: u64 where
  "DEFAULT_MAX_BODY_SIZE = 2 * 1024 * 1024"

record rocksdb_opts =
  ro_block_cache_mb :: u64
  ro_write_buffer_mb :: u64
  ro_max_write_buffers :: i32
  ro_max_open_files :: i32

definition default_rocksdb_opts :: rocksdb_opts where
  "default_rocksdb_opts =
     \<lparr>ro_block_cache_mb = 8, ro_write_buffer_mb = 64, ro_max_write_buffers = 2, ro_max_open_files = - 1\<rparr>"

definition saturating_mul :: "u64 \<Rightarrow> u64 \<Rightarrow> u64" where
  "saturating_mul a b = (if unat a * unat b < 2 ^ 64 then a * b else - 1)"

definition block_cache_bytes :: "rocksdb_opts \<Rightarrow> u64" where
  "block_cache_bytes r = saturating_mul (ro_block_cache_mb r) (1024 * 1024)"

definition write_buffer_bytes :: "rocksdb_opts \<Rightarrow> u64" where
  "write_buffer_bytes r = saturating_mul (ro_write_buffer_mb r) (1024 * 1024)"

definition mode_str :: "cache_mode \<Rightarrow> string" where
  "mode_str m = (case m of Lazy \<Rightarrow> ''LAZY'' | Offline \<Rightarrow> ''OFFLINE'' | Req \<Rightarrow> ''REQ'')"

definition parse_mode :: "string \<Rightarrow> cache_mode option" where
  "parse_mode s =
     (let t = to_ascii_uppercase s
      in if t = ''LAZY'' then Some Lazy else if t = ''OFFLINE'' then Some Offline
         else if t = ''REQ'' then Some Req else None)"

text \<open>The two problems that are reported once logging is up.\<close>

datatype config_warning = BadBodySize string | ZeroMaxAge

record config =
  co_host :: string
  co_port :: u16
  co_metrics_listen :: "string option"
  co_server_timing :: bool
  co_http :: bool
  co_https :: bool
  co_cert :: string
  co_key :: string
  co_cache_mode :: cache_mode
  co_user_token_hash :: string
  co_admin_token_hash :: string
  co_uri :: string
  co_api_key :: string
  co_amd_kds_uri :: string
  co_amd_kds_cache_ttl_secs :: u64
  co_nvidia_rim_uri :: string
  co_nvidia_rim_cache_ttl_secs :: u64
  co_nvidia_nras_uri :: string
  co_nvidia_ocsp_uri :: string
  co_nvidia_ocsp_max_ttl_secs :: u64
  co_nvidia_ocsp_default_ttl_secs :: u64
  co_readthrough_max_entries_per_kind :: u64
  co_proxy :: string
  co_refresh_schedule :: string
  co_db_path :: string
  co_log_level :: string
  co_max_body_size :: u64
  co_seed :: "string option"
  co_no_seed :: bool
  co_block_cache_mb :: u64
  co_write_buffer_mb :: u64
  co_max_write_buffers :: i32
  co_max_open_files :: i32
  co_request_timeout_secs :: u64
  co_headers_timeout_secs :: u64
  co_keepalive_timeout_secs :: u64
  co_upstream_max_concurrent :: u64
  co_upstream_max_attempts :: u32
  co_upstream_pool_idle_secs :: u64
  co_collateral_cache_max_age_secs :: "u64 option"
  co_pool_refetch_on_new_tcb :: bool
  co_pool_refetch_interval_secs :: u64
  co_scheduled_pool_refresh :: bool
  co_warnings :: "config_warning list"

record serve_args =
  sa_config :: "string option"
  sa_host :: "string option"
  sa_port :: "u16 option"
  sa_metrics_listen :: "string option"
  sa_server_timing :: "bool option"
  sa_http :: bool
  sa_https :: bool
  sa_cert :: "string option"
  sa_key :: "string option"
  sa_cache_mode :: "cache_mode option"
  sa_user_token_hash :: "string option"
  sa_admin_token_hash :: "string option"
  sa_uri :: "string option"
  sa_api_key :: "string option"
  sa_amd_kds_uri :: "string option"
  sa_amd_kds_cache_ttl_seconds :: "u64 option"
  sa_nvidia_rim_uri :: "string option"
  sa_nvidia_rim_cache_ttl_seconds :: "u64 option"
  sa_nvidia_nras_uri :: "string option"
  sa_nvidia_ocsp_uri :: "string option"
  sa_nvidia_ocsp_max_ttl_seconds :: "u64 option"
  sa_nvidia_ocsp_default_ttl_seconds :: "u64 option"
  sa_readthrough_max_entries_per_kind :: "u64 option"
  sa_proxy :: "string option"
  sa_refresh_schedule :: "string option"
  sa_db_path :: "string option"
  sa_log_level :: "string option"
  sa_max_body_size :: "string option"
  sa_seed :: "string option"
  sa_no_seed :: bool
  sa_block_cache_mb :: "u64 option"
  sa_write_buffer_mb :: "u64 option"
  sa_max_write_buffers :: "i32 option"
  sa_max_open_files :: "i32 option"
  sa_request_timeout_seconds :: "u64 option"
  sa_headers_timeout_seconds :: "u64 option"
  sa_keepalive_timeout_seconds :: "u64 option"
  sa_collateral_cache_max_age :: "u64 option"
  sa_upstream_max_concurrent :: "u64 option"
  sa_upstream_max_attempts :: "u32 option"
  sa_upstream_pool_idle_seconds :: "u64 option"
  sa_dev_tokens :: bool

record toml_config =
  tc_host :: "string option"
  tc_port :: "u16 option"
  tc_metrics_listen :: "string option"
  tc_server_timing :: "bool option"
  tc_https :: "bool option"
  tc_cert :: "string option"
  tc_key :: "string option"
  tc_cache_mode :: "string option"
  tc_user_token_hash :: "string option"
  tc_admin_token_hash :: "string option"
  tc_uri :: "string option"
  tc_api_key :: "string option"
  tc_amd_kds_uri :: "string option"
  tc_amd_kds_cache_ttl_seconds :: "u64 option"
  tc_nvidia_rim_uri :: "string option"
  tc_nvidia_rim_cache_ttl_seconds :: "u64 option"
  tc_nvidia_nras_uri :: "string option"
  tc_nvidia_ocsp_uri :: "string option"
  tc_nvidia_ocsp_max_ttl_seconds :: "u64 option"
  tc_nvidia_ocsp_default_ttl_seconds :: "u64 option"
  tc_readthrough_max_entries_per_kind :: "u64 option"
  tc_proxy :: "string option"
  tc_refresh_schedule :: "string option"
  tc_db_path :: "string option"
  tc_log_level :: "string option"
  tc_max_request_body_size :: "string option"
  tc_rocksdb_block_cache_mb :: "u64 option"
  tc_rocksdb_write_buffer_mb :: "u64 option"
  tc_rocksdb_max_write_buffers :: "i32 option"
  tc_rocksdb_max_open_files :: "i32 option"
  tc_request_timeout_seconds :: "u64 option"
  tc_headers_timeout_seconds :: "u64 option"
  tc_keepalive_timeout_seconds :: "u64 option"
  tc_collateral_cache_max_age_seconds :: "u64 option"
  tc_upstream_max_concurrent :: "u64 option"
  tc_upstream_max_attempts :: "u32 option"
  tc_upstream_pool_idle_seconds :: "u64 option"
  tc_pool_refetch_on_new_tcb :: "bool option"
  tc_pool_refetch_interval_seconds :: "u64 option"
  tc_scheduled_pool_refresh :: "bool option"

record json_config =
  jc_https_port :: "u16 option"
  jc_hosts :: "string option"
  jc_uri :: "string option"
  jc_api_key :: "string option"
  jc_proxy :: "string option"
  jc_refresh_schedule :: "string option"
  jc_user_token_hash :: "string option"
  jc_admin_token_hash :: "string option"
  jc_caching_fill_mode :: "string option"
  jc_log_level :: "string option"
  jc_db_path :: "string option"
  jc_max_request_body_size :: "string option"
  jc_block_cache_mb :: "u64 option"
  jc_write_buffer_mb :: "u64 option"
  jc_max_write_buffers :: "i32 option"
  jc_max_open_files :: "i32 option"
  jc_request_timeout_seconds :: "u64 option"
  jc_headers_timeout_seconds :: "u64 option"
  jc_keepalive_timeout_seconds :: "u64 option"
  jc_upstream_max_concurrent :: "u64 option"
  jc_upstream_max_attempts :: "u32 option"
  jc_upstream_pool_idle_seconds :: "u64 option"

definition default_config :: config where
  "default_config =
     \<lparr>co_host = ''127.0.0.1'',
      co_port = 8081,
      co_metrics_listen = None,
      co_server_timing = False,
      co_http = True,
      co_https = False,
      co_cert = ''certs/file.crt'',
      co_key = ''certs/private.pem'',
      co_cache_mode = Lazy,
      co_user_token_hash = [],
      co_admin_token_hash = [],
      co_uri = ''https://api.trustedservices.intel.com/sgx/certification/v4/'',
      co_api_key = [],
      co_amd_kds_uri = ''https://kdsintf.amd.com'',
      co_amd_kds_cache_ttl_secs = 30 * 24 * 60 * 60,
      co_nvidia_rim_uri = ''https://rim.attestation.nvidia.com'',
      co_nvidia_rim_cache_ttl_secs = 30 * 24 * 60 * 60,
      co_nvidia_nras_uri = ''https://nras.attestation.nvidia.com'',
      co_nvidia_ocsp_uri = ''https://ocsp.ndis.nvidia.com'',
      co_nvidia_ocsp_max_ttl_secs = 24 * 60 * 60,
      co_nvidia_ocsp_default_ttl_secs = 60 * 60,
      co_readthrough_max_entries_per_kind = 10000,
      co_proxy = [],
      co_refresh_schedule = ''0 0 1 * * *'',
      co_db_path = ''pccs-db'',
      co_log_level = ''info'',
      co_max_body_size = DEFAULT_MAX_BODY_SIZE,
      co_seed = None,
      co_no_seed = False,
      co_block_cache_mb = ro_block_cache_mb default_rocksdb_opts,
      co_write_buffer_mb = ro_write_buffer_mb default_rocksdb_opts,
      co_max_write_buffers = ro_max_write_buffers default_rocksdb_opts,
      co_max_open_files = ro_max_open_files default_rocksdb_opts,
      co_request_timeout_secs = 60,
      co_headers_timeout_secs = 30,
      co_keepalive_timeout_secs = 60,
      co_upstream_max_concurrent = 64,
      co_upstream_max_attempts = 6,
      co_upstream_pool_idle_secs = 60,
      co_collateral_cache_max_age_secs = None,
      co_pool_refetch_on_new_tcb = True,
      co_pool_refetch_interval_secs = 86400,
      co_scheduled_pool_refresh = True,
      co_warnings = []\<rparr>"

definition opt_set :: "('a \<Rightarrow> 'c \<Rightarrow> 'c) \<Rightarrow> 'a option \<Rightarrow> 'c \<Rightarrow> 'c" where
  "opt_set f v c = (case v of Some x \<Rightarrow> f x c | None \<Rightarrow> c)"

section \<open>Sizes\<close>

definition try_parse_body_size :: "string \<Rightarrow> u64 option" where
  "try_parse_body_size s =
     (let u = to_ascii_uppercase (trim s);
          (num, mul) =
            (case strip_suffix u ''MB'' of
               Some n \<Rightarrow> (trim n, 1024 * 1024)
             | None \<Rightarrow>
                 (case strip_suffix u ''KB'' of
                    Some n \<Rightarrow> (trim n, 1024)
                  | None \<Rightarrow> (case strip_suffix u ''B'' of Some n \<Rightarrow> (trim n, 1) | None \<Rightarrow> (trim u, 1))))
      in Option.bind (parse_uint (2 ^ 64) num) (\<lambda>n.
         if n * mul < 2 ^ 64 \<and> n * mul > 0 then Some (word_of_int (n * mul)) else None))"

text \<open>The size, and the warning it adds.\<close>

definition set_max_body_size :: "string \<Rightarrow> config \<Rightarrow> config" where
  "set_max_body_size s cfg =
     (case try_parse_body_size s of
        Some n \<Rightarrow> cfg\<lparr>co_max_body_size := n\<rparr>
      | None \<Rightarrow> cfg\<lparr>co_max_body_size := DEFAULT_MAX_BODY_SIZE, co_warnings := co_warnings cfg @ [BadBodySize s]\<rparr>)"

definition set_collateral_cache_max_age :: "u64 \<Rightarrow> config \<Rightarrow> config" where
  "set_collateral_cache_max_age secs cfg =
     (if secs = 0
      then cfg\<lparr>co_collateral_cache_max_age_secs := None,
               co_warnings := co_warnings cfg @ [ZeroMaxAge]\<rparr>
      else cfg\<lparr>co_collateral_cache_max_age_secs := Some secs\<rparr>)"

section \<open>Layers of settings\<close>

definition apply_toml_1 :: "toml_config \<Rightarrow> config \<Rightarrow> config" where
  "apply_toml_1 file cfg0 =
     (let cfg1 = opt_set (\<lambda>v cfg. cfg\<lparr>co_host := v\<rparr>) (tc_host file) cfg0;
          cfg2 = opt_set (\<lambda>v cfg. cfg\<lparr>co_port := v\<rparr>) (tc_port file) cfg1;
          cfg3 = opt_set (\<lambda>v cfg. cfg\<lparr>co_metrics_listen := Some v\<rparr>) (tc_metrics_listen file) cfg2;
          cfg4 = opt_set (\<lambda>v cfg. cfg\<lparr>co_server_timing := v\<rparr>) (tc_server_timing file) cfg3;
          cfg5 = opt_set (\<lambda>v cfg. cfg\<lparr>co_https := v, co_http := \<not> v\<rparr>) (tc_https file) cfg4;
          cfg6 = opt_set (\<lambda>v cfg. cfg\<lparr>co_cert := v\<rparr>) (tc_cert file) cfg5;
          cfg7 = opt_set (\<lambda>v cfg. cfg\<lparr>co_key := v\<rparr>) (tc_key file) cfg6;
          cfg8 = opt_set (\<lambda>v cfg. cfg\<lparr>co_uri := v\<rparr>) (tc_uri file) cfg7;
          cfg9 = opt_set (\<lambda>v cfg. cfg\<lparr>co_api_key := v\<rparr>) (tc_api_key file) cfg8;
          cfg10 = opt_set (\<lambda>v cfg. cfg\<lparr>co_amd_kds_uri := v\<rparr>) (tc_amd_kds_uri file) cfg9;
          cfg11 = opt_set (\<lambda>v cfg. cfg\<lparr>co_amd_kds_cache_ttl_secs := v\<rparr>) (tc_amd_kds_cache_ttl_seconds file) cfg10
      in cfg11)"

definition apply_toml_2 :: "toml_config \<Rightarrow> config \<Rightarrow> config" where
  "apply_toml_2 file cfg0 =
     (let cfg1 = opt_set (\<lambda>v cfg. cfg\<lparr>co_nvidia_rim_uri := v\<rparr>) (tc_nvidia_rim_uri file) cfg0;
          cfg2 = opt_set (\<lambda>v cfg. cfg\<lparr>co_nvidia_rim_cache_ttl_secs := v\<rparr>) (tc_nvidia_rim_cache_ttl_seconds file) cfg1;
          cfg3 = opt_set (\<lambda>v cfg. cfg\<lparr>co_nvidia_nras_uri := v\<rparr>) (tc_nvidia_nras_uri file) cfg2;
          cfg4 = opt_set (\<lambda>v cfg. cfg\<lparr>co_nvidia_ocsp_uri := v\<rparr>) (tc_nvidia_ocsp_uri file) cfg3;
          cfg5 = opt_set (\<lambda>v cfg. cfg\<lparr>co_nvidia_ocsp_max_ttl_secs := v\<rparr>) (tc_nvidia_ocsp_max_ttl_seconds file) cfg4;
          cfg6 = opt_set (\<lambda>v cfg. cfg\<lparr>co_nvidia_ocsp_default_ttl_secs := v\<rparr>) (tc_nvidia_ocsp_default_ttl_seconds file) cfg5;
          cfg7 = opt_set (\<lambda>v cfg. cfg\<lparr>co_readthrough_max_entries_per_kind := v\<rparr>) (tc_readthrough_max_entries_per_kind file) cfg6;
          cfg8 = opt_set (\<lambda>v cfg. cfg\<lparr>co_proxy := v\<rparr>) (tc_proxy file) cfg7;
          cfg9 = opt_set (\<lambda>v cfg. cfg\<lparr>co_refresh_schedule := v\<rparr>) (tc_refresh_schedule file) cfg8;
          cfg10 = opt_set (\<lambda>v cfg. cfg\<lparr>co_user_token_hash := v\<rparr>) (opt_filter (\<lambda>s. s \<noteq> []) (tc_user_token_hash file)) cfg9;
          cfg11 = opt_set (\<lambda>v cfg. cfg\<lparr>co_admin_token_hash := v\<rparr>) (opt_filter (\<lambda>s. s \<noteq> []) (tc_admin_token_hash file)) cfg10
      in cfg11)"

definition apply_toml_3 :: "toml_config \<Rightarrow> config \<Rightarrow> config" where
  "apply_toml_3 file cfg0 =
     (let cfg1 = opt_set (\<lambda>v cfg. cfg\<lparr>co_cache_mode := v\<rparr>) (Option.bind (tc_cache_mode file) parse_mode) cfg0;
          cfg2 = opt_set (\<lambda>v cfg. cfg\<lparr>co_log_level := v\<rparr>) (tc_log_level file) cfg1;
          cfg3 = opt_set (\<lambda>v cfg. cfg\<lparr>co_db_path := v\<rparr>) (tc_db_path file) cfg2;
          cfg4 = opt_set set_max_body_size (tc_max_request_body_size file) cfg3;
          cfg5 = opt_set (\<lambda>v cfg. cfg\<lparr>co_block_cache_mb := v\<rparr>) (tc_rocksdb_block_cache_mb file) cfg4;
          cfg6 = opt_set (\<lambda>v cfg. cfg\<lparr>co_write_buffer_mb := v\<rparr>) (tc_rocksdb_write_buffer_mb file) cfg5;
          cfg7 = opt_set (\<lambda>v cfg. cfg\<lparr>co_max_write_buffers := v\<rparr>) (tc_rocksdb_max_write_buffers file) cfg6;
          cfg8 = opt_set (\<lambda>v cfg. cfg\<lparr>co_max_open_files := v\<rparr>) (tc_rocksdb_max_open_files file) cfg7;
          cfg9 = opt_set (\<lambda>v cfg. cfg\<lparr>co_request_timeout_secs := v\<rparr>) (tc_request_timeout_seconds file) cfg8;
          cfg10 = opt_set (\<lambda>v cfg. cfg\<lparr>co_headers_timeout_secs := v\<rparr>) (tc_headers_timeout_seconds file) cfg9;
          cfg11 = opt_set (\<lambda>v cfg. cfg\<lparr>co_keepalive_timeout_secs := v\<rparr>) (tc_keepalive_timeout_seconds file) cfg10
      in cfg11)"

definition apply_toml_4 :: "toml_config \<Rightarrow> config \<Rightarrow> config" where
  "apply_toml_4 file cfg0 =
     (let cfg1 = opt_set (\<lambda>v cfg. cfg\<lparr>co_upstream_max_concurrent := v\<rparr>) (tc_upstream_max_concurrent file) cfg0;
          cfg2 = opt_set (\<lambda>v cfg. cfg\<lparr>co_upstream_max_attempts := v\<rparr>) (tc_upstream_max_attempts file) cfg1;
          cfg3 = opt_set (\<lambda>v cfg. cfg\<lparr>co_upstream_pool_idle_secs := v\<rparr>) (tc_upstream_pool_idle_seconds file) cfg2;
          cfg4 = opt_set (\<lambda>v cfg. cfg\<lparr>co_pool_refetch_on_new_tcb := v\<rparr>) (tc_pool_refetch_on_new_tcb file) cfg3;
          cfg5 = opt_set set_collateral_cache_max_age (tc_collateral_cache_max_age_seconds file) cfg4;
          cfg6 = opt_set (\<lambda>v cfg. cfg\<lparr>co_pool_refetch_interval_secs := v\<rparr>) (tc_pool_refetch_interval_seconds file) cfg5;
          cfg7 = opt_set (\<lambda>v cfg. cfg\<lparr>co_scheduled_pool_refresh := v\<rparr>) (tc_scheduled_pool_refresh file) cfg6
      in cfg7)"

definition apply_toml :: "toml_config \<Rightarrow> config \<Rightarrow> config" where
  "apply_toml file cfg = apply_toml_4 file (apply_toml_3 file (apply_toml_2 file (apply_toml_1 file cfg)))"

definition set_transport :: "serve_args \<Rightarrow> config \<Rightarrow> config" where
  "set_transport c cfg =
     (if sa_https c then cfg\<lparr>co_https := True, co_http := False\<rparr>
      else if sa_http c then cfg\<lparr>co_https := False, co_http := True\<rparr> else cfg)"

definition set_dev_tokens :: "serve_args \<Rightarrow> config \<Rightarrow> config" where
  "set_dev_tokens c cfg =
     (if \<not> sa_dev_tokens c then cfg
      else cfg\<lparr>co_user_token_hash := (if co_user_token_hash cfg = [] then DEFAULT_USER_TOKEN_HASH else co_user_token_hash cfg),
               co_admin_token_hash := (if co_admin_token_hash cfg = [] then DEFAULT_ADMIN_TOKEN_HASH else co_admin_token_hash cfg)\<rparr>)"

definition set_seed :: "serve_args \<Rightarrow> config \<Rightarrow> config" where
  "set_seed c cfg = cfg\<lparr>co_seed := sa_seed c, co_no_seed := sa_no_seed c\<rparr>"

definition apply_cli_1 :: "serve_args \<Rightarrow> config \<Rightarrow> config" where
  "apply_cli_1 c cfg0 =
     (let cfg1 = opt_set (\<lambda>v cfg. cfg\<lparr>co_host := v\<rparr>) (sa_host c) cfg0;
          cfg2 = opt_set (\<lambda>v cfg. cfg\<lparr>co_port := v\<rparr>) (sa_port c) cfg1;
          cfg3 = opt_set (\<lambda>v cfg. cfg\<lparr>co_metrics_listen := Some v\<rparr>) (sa_metrics_listen c) cfg2;
          cfg4 = opt_set (\<lambda>v cfg. cfg\<lparr>co_server_timing := v\<rparr>) (sa_server_timing c) cfg3;
          cfg5 = opt_set set_collateral_cache_max_age (sa_collateral_cache_max_age c) cfg4;
          cfg6 = set_transport c cfg5;
          cfg7 = opt_set (\<lambda>v cfg. cfg\<lparr>co_cert := v\<rparr>) (sa_cert c) cfg6;
          cfg8 = opt_set (\<lambda>v cfg. cfg\<lparr>co_key := v\<rparr>) (sa_key c) cfg7;
          cfg9 = opt_set (\<lambda>v cfg. cfg\<lparr>co_cache_mode := v\<rparr>) (sa_cache_mode c) cfg8;
          cfg10 = opt_set (\<lambda>v cfg. cfg\<lparr>co_user_token_hash := v\<rparr>) (sa_user_token_hash c) cfg9;
          cfg11 = opt_set (\<lambda>v cfg. cfg\<lparr>co_admin_token_hash := v\<rparr>) (sa_admin_token_hash c) cfg10
      in cfg11)"

definition apply_cli_2 :: "serve_args \<Rightarrow> config \<Rightarrow> config" where
  "apply_cli_2 c cfg0 =
     (let cfg1 = opt_set (\<lambda>v cfg. cfg\<lparr>co_uri := v\<rparr>) (sa_uri c) cfg0;
          cfg2 = opt_set (\<lambda>v cfg. cfg\<lparr>co_api_key := v\<rparr>) (sa_api_key c) cfg1;
          cfg3 = opt_set (\<lambda>v cfg. cfg\<lparr>co_amd_kds_uri := v\<rparr>) (sa_amd_kds_uri c) cfg2;
          cfg4 = opt_set (\<lambda>v cfg. cfg\<lparr>co_amd_kds_cache_ttl_secs := v\<rparr>) (sa_amd_kds_cache_ttl_seconds c) cfg3;
          cfg5 = opt_set (\<lambda>v cfg. cfg\<lparr>co_nvidia_rim_uri := v\<rparr>) (sa_nvidia_rim_uri c) cfg4;
          cfg6 = opt_set (\<lambda>v cfg. cfg\<lparr>co_nvidia_rim_cache_ttl_secs := v\<rparr>) (sa_nvidia_rim_cache_ttl_seconds c) cfg5;
          cfg7 = opt_set (\<lambda>v cfg. cfg\<lparr>co_nvidia_nras_uri := v\<rparr>) (sa_nvidia_nras_uri c) cfg6;
          cfg8 = opt_set (\<lambda>v cfg. cfg\<lparr>co_nvidia_ocsp_uri := v\<rparr>) (sa_nvidia_ocsp_uri c) cfg7;
          cfg9 = opt_set (\<lambda>v cfg. cfg\<lparr>co_nvidia_ocsp_max_ttl_secs := v\<rparr>) (sa_nvidia_ocsp_max_ttl_seconds c) cfg8;
          cfg10 = opt_set (\<lambda>v cfg. cfg\<lparr>co_nvidia_ocsp_default_ttl_secs := v\<rparr>) (sa_nvidia_ocsp_default_ttl_seconds c) cfg9;
          cfg11 = opt_set (\<lambda>v cfg. cfg\<lparr>co_readthrough_max_entries_per_kind := v\<rparr>) (sa_readthrough_max_entries_per_kind c) cfg10
      in cfg11)"

definition apply_cli_3 :: "serve_args \<Rightarrow> config \<Rightarrow> config" where
  "apply_cli_3 c cfg0 =
     (let cfg1 = opt_set (\<lambda>v cfg. cfg\<lparr>co_proxy := v\<rparr>) (sa_proxy c) cfg0;
          cfg2 = opt_set (\<lambda>v cfg. cfg\<lparr>co_refresh_schedule := v\<rparr>) (sa_refresh_schedule c) cfg1;
          cfg3 = opt_set (\<lambda>v cfg. cfg\<lparr>co_db_path := v\<rparr>) (sa_db_path c) cfg2;
          cfg4 = opt_set (\<lambda>v cfg. cfg\<lparr>co_log_level := v\<rparr>) (sa_log_level c) cfg3;
          cfg5 = opt_set set_max_body_size (sa_max_body_size c) cfg4;
          cfg6 = opt_set (\<lambda>v cfg. cfg\<lparr>co_block_cache_mb := v\<rparr>) (sa_block_cache_mb c) cfg5;
          cfg7 = opt_set (\<lambda>v cfg. cfg\<lparr>co_write_buffer_mb := v\<rparr>) (sa_write_buffer_mb c) cfg6;
          cfg8 = opt_set (\<lambda>v cfg. cfg\<lparr>co_max_write_buffers := v\<rparr>) (sa_max_write_buffers c) cfg7;
          cfg9 = opt_set (\<lambda>v cfg. cfg\<lparr>co_max_open_files := v\<rparr>) (sa_max_open_files c) cfg8;
          cfg10 = opt_set (\<lambda>v cfg. cfg\<lparr>co_request_timeout_secs := v\<rparr>) (sa_request_timeout_seconds c) cfg9;
          cfg11 = opt_set (\<lambda>v cfg. cfg\<lparr>co_headers_timeout_secs := v\<rparr>) (sa_headers_timeout_seconds c) cfg10
      in cfg11)"

definition apply_cli_4 :: "serve_args \<Rightarrow> config \<Rightarrow> config" where
  "apply_cli_4 c cfg0 =
     (let cfg1 = opt_set (\<lambda>v cfg. cfg\<lparr>co_keepalive_timeout_secs := v\<rparr>) (sa_keepalive_timeout_seconds c) cfg0;
          cfg2 = opt_set (\<lambda>v cfg. cfg\<lparr>co_upstream_max_concurrent := v\<rparr>) (sa_upstream_max_concurrent c) cfg1;
          cfg3 = opt_set (\<lambda>v cfg. cfg\<lparr>co_upstream_max_attempts := v\<rparr>) (sa_upstream_max_attempts c) cfg2;
          cfg4 = opt_set (\<lambda>v cfg. cfg\<lparr>co_upstream_pool_idle_secs := v\<rparr>) (sa_upstream_pool_idle_seconds c) cfg3;
          cfg5 = set_dev_tokens c cfg4;
          cfg6 = set_seed c cfg5
      in cfg6)"

definition apply_cli :: "serve_args \<Rightarrow> config \<Rightarrow> config" where
  "apply_cli c cfg = apply_cli_4 c (apply_cli_3 c (apply_cli_2 c (apply_cli_1 c cfg)))"

definition default_toml :: toml_config where
  "default_toml =
     \<lparr>tc_host = None,
      tc_port = None,
      tc_metrics_listen = None,
      tc_server_timing = None,
      tc_https = None,
      tc_cert = None,
      tc_key = None,
      tc_cache_mode = None,
      tc_user_token_hash = None,
      tc_admin_token_hash = None,
      tc_uri = None,
      tc_api_key = None,
      tc_amd_kds_uri = None,
      tc_amd_kds_cache_ttl_seconds = None,
      tc_nvidia_rim_uri = None,
      tc_nvidia_rim_cache_ttl_seconds = None,
      tc_nvidia_nras_uri = None,
      tc_nvidia_ocsp_uri = None,
      tc_nvidia_ocsp_max_ttl_seconds = None,
      tc_nvidia_ocsp_default_ttl_seconds = None,
      tc_readthrough_max_entries_per_kind = None,
      tc_proxy = None,
      tc_refresh_schedule = None,
      tc_db_path = None,
      tc_log_level = None,
      tc_max_request_body_size = None,
      tc_rocksdb_block_cache_mb = None,
      tc_rocksdb_write_buffer_mb = None,
      tc_rocksdb_max_write_buffers = None,
      tc_rocksdb_max_open_files = None,
      tc_request_timeout_seconds = None,
      tc_headers_timeout_seconds = None,
      tc_keepalive_timeout_seconds = None,
      tc_collateral_cache_max_age_seconds = None,
      tc_upstream_max_concurrent = None,
      tc_upstream_max_attempts = None,
      tc_upstream_pool_idle_seconds = None,
      tc_pool_refetch_on_new_tcb = None,
      tc_pool_refetch_interval_seconds = None,
      tc_scheduled_pool_refresh = None\<rparr>"

definition from_serve_args ::
  "(string \<Rightarrow> bool) \<Rightarrow> (string \<Rightarrow> toml_config option) \<Rightarrow> serve_args \<Rightarrow> string option \<Rightarrow> config option" where
  "from_serve_args is_file load_toml c implicit_config =
     (let path = (case sa_config c of Some p \<Rightarrow> Some p | None \<Rightarrow> opt_filter is_file implicit_config)
      in map_option (\<lambda>file. apply_cli c (apply_toml file default_config))
           (case path of Some p \<Rightarrow> load_toml p | None \<Rightarrow> Some default_toml))"

section \<open>Derived values\<close>

definition is_sha512_hex :: "string \<Rightarrow> bool" where
  "is_sha512_hex s \<longleftrightarrow> length s = 128 \<and> list_all is_ascii_hexdigit s"

text \<open>\<open>split(..).next()\<close> and \<open>rsplit(..).next()\<close>.\<close>

definition before_any :: "char set \<Rightarrow> string \<Rightarrow> string" where
  "before_any cs s = takeWhile (\<lambda>c. c \<notin> cs) s"

definition uri_host :: "string \<Rightarrow> string option" where
  "uri_host uri =
     (let rest = (case split_once_str ''://'' uri of Some (_, r) \<Rightarrow> r | None \<Rightarrow> uri);
          authority = before_any {CHR ''/'', CHR ''?'', CHR ''#''} rest;
          authority = rev (before_any {CHR ''@''} (rev authority));
          host = (case strip_prefix authority ''['' of
                    Some v6 \<Rightarrow> before_any {CHR '']''} v6
                  | None \<Rightarrow> before_any {CHR '':''} authority)
      in if host = [] then None else Some (to_ascii_lowercase host))"

definition pcs_version :: "config \<Rightarrow> u32" where
  "pcs_version cfg = (case api_version_from_url (co_uri cfg) of Inr v \<Rightarrow> v | Inl _ \<Rightarrow> 4)"

definition is_intel_upstream :: "config \<Rightarrow> bool" where
  "is_intel_upstream cfg =
     (case uri_host (co_uri cfg) of
        Some h \<Rightarrow> h = ''trustedservices.intel.com'' \<or> ends_with h ''.trustedservices.intel.com''
      | None \<Rightarrow> False)"

definition has_upstream :: "config \<Rightarrow> bool" where
  "has_upstream cfg \<longleftrightarrow> trim (co_uri cfg) \<noteq> []"

definition bind_addr :: "config \<Rightarrow> string" where
  "bind_addr cfg = co_host cfg @ '':'' @ dec_string (unat (co_port cfg))"

definition rocksdb_opts_of :: "config \<Rightarrow> rocksdb_opts" where
  "rocksdb_opts_of cfg =
     \<lparr>ro_block_cache_mb = co_block_cache_mb cfg, ro_write_buffer_mb = co_write_buffer_mb cfg,
      ro_max_write_buffers = co_max_write_buffers cfg, ro_max_open_files = co_max_open_files cfg\<rparr>"

section \<open>Import\<close>

datatype toml_value = TStr string | TInt "64 word"

definition apply_json_to_toml :: "json_config \<Rightarrow> (string \<rightharpoonup> toml_value) \<Rightarrow> (string \<rightharpoonup> toml_value)" where
  "apply_json_to_toml src doc0 =
     (let doc1 = opt_set (\<lambda>v doc. doc(''host'' \<mapsto> TStr v)) (jc_hosts src) doc0;
          doc2 = opt_set (\<lambda>v doc. doc(''port'' \<mapsto> TInt (ucast v))) (jc_https_port src) doc1;
          doc3 = opt_set (\<lambda>v doc. doc(''uri'' \<mapsto> TStr v)) (jc_uri src) doc2;
          doc4 = opt_set (\<lambda>v doc. doc(''api_key'' \<mapsto> TStr v)) (jc_api_key src) doc3;
          doc5 = opt_set (\<lambda>v doc. doc(''proxy'' \<mapsto> TStr v)) (jc_proxy src) doc4;
          doc6 = opt_set (\<lambda>v doc. doc(''refresh_schedule'' \<mapsto> TStr v)) (jc_refresh_schedule src) doc5;
          doc7 = opt_set (\<lambda>v doc. doc(''user_token_hash'' \<mapsto> TStr v)) (jc_user_token_hash src) doc6;
          doc8 = opt_set (\<lambda>v doc. doc(''admin_token_hash'' \<mapsto> TStr v)) (jc_admin_token_hash src) doc7;
          doc9 = opt_set (\<lambda>v doc. doc(''cache_mode'' \<mapsto> TStr (case parse_mode v of Some m \<Rightarrow> to_ascii_lowercase (mode_str m) | None \<Rightarrow> to_ascii_lowercase v))) (jc_caching_fill_mode src) doc8;
          doc10 = opt_set (\<lambda>v doc. doc(''log_level'' \<mapsto> TStr v)) (jc_log_level src) doc9;
          doc11 = opt_set (\<lambda>v doc. doc(''db_path'' \<mapsto> TStr v)) (jc_db_path src) doc10;
          doc12 = opt_set (\<lambda>v doc. doc(''max_request_body_size'' \<mapsto> TStr v)) (jc_max_request_body_size src) doc11;
          doc13 = opt_set (\<lambda>v doc. doc(''rocksdb_block_cache_mb'' \<mapsto> TInt (ucast v))) (jc_block_cache_mb src) doc12;
          doc14 = opt_set (\<lambda>v doc. doc(''rocksdb_write_buffer_mb'' \<mapsto> TInt (ucast v))) (jc_write_buffer_mb src) doc13;
          doc15 = opt_set (\<lambda>v doc. doc(''rocksdb_max_write_buffers'' \<mapsto> TInt (scast v))) (jc_max_write_buffers src) doc14;
          doc16 = opt_set (\<lambda>v doc. doc(''rocksdb_max_open_files'' \<mapsto> TInt (scast v))) (jc_max_open_files src) doc15;
          doc17 = opt_set (\<lambda>v doc. doc(''request_timeout_seconds'' \<mapsto> TInt (ucast v))) (jc_request_timeout_seconds src) doc16;
          doc18 = opt_set (\<lambda>v doc. doc(''headers_timeout_seconds'' \<mapsto> TInt (ucast v))) (jc_headers_timeout_seconds src) doc17;
          doc19 = opt_set (\<lambda>v doc. doc(''keepalive_timeout_seconds'' \<mapsto> TInt (ucast v))) (jc_keepalive_timeout_seconds src) doc18;
          doc20 = opt_set (\<lambda>v doc. doc(''upstream_max_concurrent'' \<mapsto> TInt (ucast v))) (jc_upstream_max_concurrent src) doc19;
          doc21 = opt_set (\<lambda>v doc. doc(''upstream_max_attempts'' \<mapsto> TInt (ucast v))) (jc_upstream_max_attempts src) doc20;
          doc22 = opt_set (\<lambda>v doc. doc(''upstream_pool_idle_seconds'' \<mapsto> TInt (ucast v))) (jc_upstream_pool_idle_seconds src) doc21
      in doc22)"

section \<open>Reading a layered configuration\<close>

lemma opt_set_update:
  "opt_set (\<lambda>v cfg. cfg\<lparr>co_host := v\<rparr>) o0 cfg = cfg\<lparr>co_host := unwrap_or (co_host cfg) o0\<rparr>"
  "opt_set (\<lambda>v cfg. cfg\<lparr>co_port := v\<rparr>) o1 cfg = cfg\<lparr>co_port := unwrap_or (co_port cfg) o1\<rparr>"
  "opt_set (\<lambda>v cfg. cfg\<lparr>co_server_timing := v\<rparr>) o2 cfg = cfg\<lparr>co_server_timing := unwrap_or (co_server_timing cfg) o2\<rparr>"
  "opt_set (\<lambda>v cfg. cfg\<lparr>co_cert := v\<rparr>) o3 cfg = cfg\<lparr>co_cert := unwrap_or (co_cert cfg) o3\<rparr>"
  "opt_set (\<lambda>v cfg. cfg\<lparr>co_key := v\<rparr>) o4 cfg = cfg\<lparr>co_key := unwrap_or (co_key cfg) o4\<rparr>"
  "opt_set (\<lambda>v cfg. cfg\<lparr>co_cache_mode := v\<rparr>) o5 cfg = cfg\<lparr>co_cache_mode := unwrap_or (co_cache_mode cfg) o5\<rparr>"
  "opt_set (\<lambda>v cfg. cfg\<lparr>co_user_token_hash := v\<rparr>) o6 cfg = cfg\<lparr>co_user_token_hash := unwrap_or (co_user_token_hash cfg) o6\<rparr>"
  "opt_set (\<lambda>v cfg. cfg\<lparr>co_admin_token_hash := v\<rparr>) o7 cfg = cfg\<lparr>co_admin_token_hash := unwrap_or (co_admin_token_hash cfg) o7\<rparr>"
  "opt_set (\<lambda>v cfg. cfg\<lparr>co_uri := v\<rparr>) o8 cfg = cfg\<lparr>co_uri := unwrap_or (co_uri cfg) o8\<rparr>"
  "opt_set (\<lambda>v cfg. cfg\<lparr>co_api_key := v\<rparr>) o9 cfg = cfg\<lparr>co_api_key := unwrap_or (co_api_key cfg) o9\<rparr>"
  "opt_set (\<lambda>v cfg. cfg\<lparr>co_amd_kds_uri := v\<rparr>) o10 cfg = cfg\<lparr>co_amd_kds_uri := unwrap_or (co_amd_kds_uri cfg) o10\<rparr>"
  "opt_set (\<lambda>v cfg. cfg\<lparr>co_amd_kds_cache_ttl_secs := v\<rparr>) o11 cfg = cfg\<lparr>co_amd_kds_cache_ttl_secs := unwrap_or (co_amd_kds_cache_ttl_secs cfg) o11\<rparr>"
  "opt_set (\<lambda>v cfg. cfg\<lparr>co_nvidia_rim_uri := v\<rparr>) o12 cfg = cfg\<lparr>co_nvidia_rim_uri := unwrap_or (co_nvidia_rim_uri cfg) o12\<rparr>"
  "opt_set (\<lambda>v cfg. cfg\<lparr>co_nvidia_rim_cache_ttl_secs := v\<rparr>) o13 cfg = cfg\<lparr>co_nvidia_rim_cache_ttl_secs := unwrap_or (co_nvidia_rim_cache_ttl_secs cfg) o13\<rparr>"
  "opt_set (\<lambda>v cfg. cfg\<lparr>co_nvidia_nras_uri := v\<rparr>) o14 cfg = cfg\<lparr>co_nvidia_nras_uri := unwrap_or (co_nvidia_nras_uri cfg) o14\<rparr>"
  "opt_set (\<lambda>v cfg. cfg\<lparr>co_nvidia_ocsp_uri := v\<rparr>) o15 cfg = cfg\<lparr>co_nvidia_ocsp_uri := unwrap_or (co_nvidia_ocsp_uri cfg) o15\<rparr>"
  "opt_set (\<lambda>v cfg. cfg\<lparr>co_nvidia_ocsp_max_ttl_secs := v\<rparr>) o16 cfg = cfg\<lparr>co_nvidia_ocsp_max_ttl_secs := unwrap_or (co_nvidia_ocsp_max_ttl_secs cfg) o16\<rparr>"
  "opt_set (\<lambda>v cfg. cfg\<lparr>co_nvidia_ocsp_default_ttl_secs := v\<rparr>) o17 cfg = cfg\<lparr>co_nvidia_ocsp_default_ttl_secs := unwrap_or (co_nvidia_ocsp_default_ttl_secs cfg) o17\<rparr>"
  "opt_set (\<lambda>v cfg. cfg\<lparr>co_readthrough_max_entries_per_kind := v\<rparr>) o18 cfg = cfg\<lparr>co_readthrough_max_entries_per_kind := unwrap_or (co_readthrough_max_entries_per_kind cfg) o18\<rparr>"
  "opt_set (\<lambda>v cfg. cfg\<lparr>co_proxy := v\<rparr>) o19 cfg = cfg\<lparr>co_proxy := unwrap_or (co_proxy cfg) o19\<rparr>"
  "opt_set (\<lambda>v cfg. cfg\<lparr>co_refresh_schedule := v\<rparr>) o20 cfg = cfg\<lparr>co_refresh_schedule := unwrap_or (co_refresh_schedule cfg) o20\<rparr>"
  "opt_set (\<lambda>v cfg. cfg\<lparr>co_db_path := v\<rparr>) o21 cfg = cfg\<lparr>co_db_path := unwrap_or (co_db_path cfg) o21\<rparr>"
  "opt_set (\<lambda>v cfg. cfg\<lparr>co_log_level := v\<rparr>) o22 cfg = cfg\<lparr>co_log_level := unwrap_or (co_log_level cfg) o22\<rparr>"
  "opt_set (\<lambda>v cfg. cfg\<lparr>co_block_cache_mb := v\<rparr>) o23 cfg = cfg\<lparr>co_block_cache_mb := unwrap_or (co_block_cache_mb cfg) o23\<rparr>"
  "opt_set (\<lambda>v cfg. cfg\<lparr>co_write_buffer_mb := v\<rparr>) o24 cfg = cfg\<lparr>co_write_buffer_mb := unwrap_or (co_write_buffer_mb cfg) o24\<rparr>"
  "opt_set (\<lambda>v cfg. cfg\<lparr>co_max_write_buffers := v\<rparr>) o25 cfg = cfg\<lparr>co_max_write_buffers := unwrap_or (co_max_write_buffers cfg) o25\<rparr>"
  "opt_set (\<lambda>v cfg. cfg\<lparr>co_max_open_files := v\<rparr>) o26 cfg = cfg\<lparr>co_max_open_files := unwrap_or (co_max_open_files cfg) o26\<rparr>"
  "opt_set (\<lambda>v cfg. cfg\<lparr>co_request_timeout_secs := v\<rparr>) o27 cfg = cfg\<lparr>co_request_timeout_secs := unwrap_or (co_request_timeout_secs cfg) o27\<rparr>"
  "opt_set (\<lambda>v cfg. cfg\<lparr>co_headers_timeout_secs := v\<rparr>) o28 cfg = cfg\<lparr>co_headers_timeout_secs := unwrap_or (co_headers_timeout_secs cfg) o28\<rparr>"
  "opt_set (\<lambda>v cfg. cfg\<lparr>co_keepalive_timeout_secs := v\<rparr>) o29 cfg = cfg\<lparr>co_keepalive_timeout_secs := unwrap_or (co_keepalive_timeout_secs cfg) o29\<rparr>"
  "opt_set (\<lambda>v cfg. cfg\<lparr>co_upstream_max_concurrent := v\<rparr>) o30 cfg = cfg\<lparr>co_upstream_max_concurrent := unwrap_or (co_upstream_max_concurrent cfg) o30\<rparr>"
  "opt_set (\<lambda>v cfg. cfg\<lparr>co_upstream_max_attempts := v\<rparr>) o31 cfg = cfg\<lparr>co_upstream_max_attempts := unwrap_or (co_upstream_max_attempts cfg) o31\<rparr>"
  "opt_set (\<lambda>v cfg. cfg\<lparr>co_upstream_pool_idle_secs := v\<rparr>) o32 cfg = cfg\<lparr>co_upstream_pool_idle_secs := unwrap_or (co_upstream_pool_idle_secs cfg) o32\<rparr>"
  "opt_set (\<lambda>v cfg. cfg\<lparr>co_pool_refetch_on_new_tcb := v\<rparr>) o33 cfg = cfg\<lparr>co_pool_refetch_on_new_tcb := unwrap_or (co_pool_refetch_on_new_tcb cfg) o33\<rparr>"
  "opt_set (\<lambda>v cfg. cfg\<lparr>co_pool_refetch_interval_secs := v\<rparr>) o34 cfg = cfg\<lparr>co_pool_refetch_interval_secs := unwrap_or (co_pool_refetch_interval_secs cfg) o34\<rparr>"
  "opt_set (\<lambda>v cfg. cfg\<lparr>co_scheduled_pool_refresh := v\<rparr>) o35 cfg = cfg\<lparr>co_scheduled_pool_refresh := unwrap_or (co_scheduled_pool_refresh cfg) o35\<rparr>"
  by (simp_all add: opt_set_def unwrap_or_def split: option.split)

end
