(* ===== verification/Config_Safety.thy ===== *)
theory Config_Safety
  imports Config Http_Security
begin

text \<open>
  What every configuration the server can start with has: the precedence of its sources, the relations
  between its settings, and what a missing token hash means for the operator endpoints.
\<close>

section \<open>Settings left alone\<close>

lemma keeps_transport [simp]:
  "co_host (set_transport c cfg) = co_host cfg"
  "co_port (set_transport c cfg) = co_port cfg"
  "co_metrics_listen (set_transport c cfg) = co_metrics_listen cfg"
  "co_server_timing (set_transport c cfg) = co_server_timing cfg"
  "co_cert (set_transport c cfg) = co_cert cfg"
  "co_key (set_transport c cfg) = co_key cfg"
  "co_cache_mode (set_transport c cfg) = co_cache_mode cfg"
  "co_user_token_hash (set_transport c cfg) = co_user_token_hash cfg"
  "co_admin_token_hash (set_transport c cfg) = co_admin_token_hash cfg"
  "co_uri (set_transport c cfg) = co_uri cfg"
  "co_api_key (set_transport c cfg) = co_api_key cfg"
  "co_amd_kds_uri (set_transport c cfg) = co_amd_kds_uri cfg"
  "co_amd_kds_cache_ttl_secs (set_transport c cfg) = co_amd_kds_cache_ttl_secs cfg"
  "co_nvidia_rim_uri (set_transport c cfg) = co_nvidia_rim_uri cfg"
  "co_nvidia_rim_cache_ttl_secs (set_transport c cfg) = co_nvidia_rim_cache_ttl_secs cfg"
  "co_nvidia_nras_uri (set_transport c cfg) = co_nvidia_nras_uri cfg"
  "co_nvidia_ocsp_uri (set_transport c cfg) = co_nvidia_ocsp_uri cfg"
  "co_nvidia_ocsp_max_ttl_secs (set_transport c cfg) = co_nvidia_ocsp_max_ttl_secs cfg"
  "co_nvidia_ocsp_default_ttl_secs (set_transport c cfg) = co_nvidia_ocsp_default_ttl_secs cfg"
  "co_readthrough_max_entries_per_kind (set_transport c cfg) = co_readthrough_max_entries_per_kind cfg"
  "co_proxy (set_transport c cfg) = co_proxy cfg"
  "co_refresh_schedule (set_transport c cfg) = co_refresh_schedule cfg"
  "co_db_path (set_transport c cfg) = co_db_path cfg"
  "co_log_level (set_transport c cfg) = co_log_level cfg"
  "co_max_body_size (set_transport c cfg) = co_max_body_size cfg"
  "co_seed (set_transport c cfg) = co_seed cfg"
  "co_no_seed (set_transport c cfg) = co_no_seed cfg"
  "co_block_cache_mb (set_transport c cfg) = co_block_cache_mb cfg"
  "co_write_buffer_mb (set_transport c cfg) = co_write_buffer_mb cfg"
  "co_max_write_buffers (set_transport c cfg) = co_max_write_buffers cfg"
  "co_max_open_files (set_transport c cfg) = co_max_open_files cfg"
  "co_request_timeout_secs (set_transport c cfg) = co_request_timeout_secs cfg"
  "co_headers_timeout_secs (set_transport c cfg) = co_headers_timeout_secs cfg"
  "co_keepalive_timeout_secs (set_transport c cfg) = co_keepalive_timeout_secs cfg"
  "co_upstream_max_concurrent (set_transport c cfg) = co_upstream_max_concurrent cfg"
  "co_upstream_max_attempts (set_transport c cfg) = co_upstream_max_attempts cfg"
  "co_upstream_pool_idle_secs (set_transport c cfg) = co_upstream_pool_idle_secs cfg"
  "co_collateral_cache_max_age_secs (set_transport c cfg) = co_collateral_cache_max_age_secs cfg"
  "co_pool_refetch_on_new_tcb (set_transport c cfg) = co_pool_refetch_on_new_tcb cfg"
  "co_pool_refetch_interval_secs (set_transport c cfg) = co_pool_refetch_interval_secs cfg"
  "co_scheduled_pool_refresh (set_transport c cfg) = co_scheduled_pool_refresh cfg"
  "co_warnings (set_transport c cfg) = co_warnings cfg"
  by (simp_all add: opt_set_def set_transport_def set_dev_tokens_def set_seed_def set_max_body_size_def
      set_collateral_cache_max_age_def split: option.split)

lemma keeps_dev_tokens [simp]:
  "co_host (set_dev_tokens c cfg) = co_host cfg"
  "co_port (set_dev_tokens c cfg) = co_port cfg"
  "co_metrics_listen (set_dev_tokens c cfg) = co_metrics_listen cfg"
  "co_server_timing (set_dev_tokens c cfg) = co_server_timing cfg"
  "co_http (set_dev_tokens c cfg) = co_http cfg"
  "co_https (set_dev_tokens c cfg) = co_https cfg"
  "co_cert (set_dev_tokens c cfg) = co_cert cfg"
  "co_key (set_dev_tokens c cfg) = co_key cfg"
  "co_cache_mode (set_dev_tokens c cfg) = co_cache_mode cfg"
  "co_uri (set_dev_tokens c cfg) = co_uri cfg"
  "co_api_key (set_dev_tokens c cfg) = co_api_key cfg"
  "co_amd_kds_uri (set_dev_tokens c cfg) = co_amd_kds_uri cfg"
  "co_amd_kds_cache_ttl_secs (set_dev_tokens c cfg) = co_amd_kds_cache_ttl_secs cfg"
  "co_nvidia_rim_uri (set_dev_tokens c cfg) = co_nvidia_rim_uri cfg"
  "co_nvidia_rim_cache_ttl_secs (set_dev_tokens c cfg) = co_nvidia_rim_cache_ttl_secs cfg"
  "co_nvidia_nras_uri (set_dev_tokens c cfg) = co_nvidia_nras_uri cfg"
  "co_nvidia_ocsp_uri (set_dev_tokens c cfg) = co_nvidia_ocsp_uri cfg"
  "co_nvidia_ocsp_max_ttl_secs (set_dev_tokens c cfg) = co_nvidia_ocsp_max_ttl_secs cfg"
  "co_nvidia_ocsp_default_ttl_secs (set_dev_tokens c cfg) = co_nvidia_ocsp_default_ttl_secs cfg"
  "co_readthrough_max_entries_per_kind (set_dev_tokens c cfg) = co_readthrough_max_entries_per_kind cfg"
  "co_proxy (set_dev_tokens c cfg) = co_proxy cfg"
  "co_refresh_schedule (set_dev_tokens c cfg) = co_refresh_schedule cfg"
  "co_db_path (set_dev_tokens c cfg) = co_db_path cfg"
  "co_log_level (set_dev_tokens c cfg) = co_log_level cfg"
  "co_max_body_size (set_dev_tokens c cfg) = co_max_body_size cfg"
  "co_seed (set_dev_tokens c cfg) = co_seed cfg"
  "co_no_seed (set_dev_tokens c cfg) = co_no_seed cfg"
  "co_block_cache_mb (set_dev_tokens c cfg) = co_block_cache_mb cfg"
  "co_write_buffer_mb (set_dev_tokens c cfg) = co_write_buffer_mb cfg"
  "co_max_write_buffers (set_dev_tokens c cfg) = co_max_write_buffers cfg"
  "co_max_open_files (set_dev_tokens c cfg) = co_max_open_files cfg"
  "co_request_timeout_secs (set_dev_tokens c cfg) = co_request_timeout_secs cfg"
  "co_headers_timeout_secs (set_dev_tokens c cfg) = co_headers_timeout_secs cfg"
  "co_keepalive_timeout_secs (set_dev_tokens c cfg) = co_keepalive_timeout_secs cfg"
  "co_upstream_max_concurrent (set_dev_tokens c cfg) = co_upstream_max_concurrent cfg"
  "co_upstream_max_attempts (set_dev_tokens c cfg) = co_upstream_max_attempts cfg"
  "co_upstream_pool_idle_secs (set_dev_tokens c cfg) = co_upstream_pool_idle_secs cfg"
  "co_collateral_cache_max_age_secs (set_dev_tokens c cfg) = co_collateral_cache_max_age_secs cfg"
  "co_pool_refetch_on_new_tcb (set_dev_tokens c cfg) = co_pool_refetch_on_new_tcb cfg"
  "co_pool_refetch_interval_secs (set_dev_tokens c cfg) = co_pool_refetch_interval_secs cfg"
  "co_scheduled_pool_refresh (set_dev_tokens c cfg) = co_scheduled_pool_refresh cfg"
  "co_warnings (set_dev_tokens c cfg) = co_warnings cfg"
  by (simp_all add: opt_set_def set_transport_def set_dev_tokens_def set_seed_def set_max_body_size_def
      set_collateral_cache_max_age_def split: option.split)

lemma keeps_seed [simp]:
  "co_host (set_seed c cfg) = co_host cfg"
  "co_port (set_seed c cfg) = co_port cfg"
  "co_metrics_listen (set_seed c cfg) = co_metrics_listen cfg"
  "co_server_timing (set_seed c cfg) = co_server_timing cfg"
  "co_http (set_seed c cfg) = co_http cfg"
  "co_https (set_seed c cfg) = co_https cfg"
  "co_cert (set_seed c cfg) = co_cert cfg"
  "co_key (set_seed c cfg) = co_key cfg"
  "co_cache_mode (set_seed c cfg) = co_cache_mode cfg"
  "co_user_token_hash (set_seed c cfg) = co_user_token_hash cfg"
  "co_admin_token_hash (set_seed c cfg) = co_admin_token_hash cfg"
  "co_uri (set_seed c cfg) = co_uri cfg"
  "co_api_key (set_seed c cfg) = co_api_key cfg"
  "co_amd_kds_uri (set_seed c cfg) = co_amd_kds_uri cfg"
  "co_amd_kds_cache_ttl_secs (set_seed c cfg) = co_amd_kds_cache_ttl_secs cfg"
  "co_nvidia_rim_uri (set_seed c cfg) = co_nvidia_rim_uri cfg"
  "co_nvidia_rim_cache_ttl_secs (set_seed c cfg) = co_nvidia_rim_cache_ttl_secs cfg"
  "co_nvidia_nras_uri (set_seed c cfg) = co_nvidia_nras_uri cfg"
  "co_nvidia_ocsp_uri (set_seed c cfg) = co_nvidia_ocsp_uri cfg"
  "co_nvidia_ocsp_max_ttl_secs (set_seed c cfg) = co_nvidia_ocsp_max_ttl_secs cfg"
  "co_nvidia_ocsp_default_ttl_secs (set_seed c cfg) = co_nvidia_ocsp_default_ttl_secs cfg"
  "co_readthrough_max_entries_per_kind (set_seed c cfg) = co_readthrough_max_entries_per_kind cfg"
  "co_proxy (set_seed c cfg) = co_proxy cfg"
  "co_refresh_schedule (set_seed c cfg) = co_refresh_schedule cfg"
  "co_db_path (set_seed c cfg) = co_db_path cfg"
  "co_log_level (set_seed c cfg) = co_log_level cfg"
  "co_max_body_size (set_seed c cfg) = co_max_body_size cfg"
  "co_block_cache_mb (set_seed c cfg) = co_block_cache_mb cfg"
  "co_write_buffer_mb (set_seed c cfg) = co_write_buffer_mb cfg"
  "co_max_write_buffers (set_seed c cfg) = co_max_write_buffers cfg"
  "co_max_open_files (set_seed c cfg) = co_max_open_files cfg"
  "co_request_timeout_secs (set_seed c cfg) = co_request_timeout_secs cfg"
  "co_headers_timeout_secs (set_seed c cfg) = co_headers_timeout_secs cfg"
  "co_keepalive_timeout_secs (set_seed c cfg) = co_keepalive_timeout_secs cfg"
  "co_upstream_max_concurrent (set_seed c cfg) = co_upstream_max_concurrent cfg"
  "co_upstream_max_attempts (set_seed c cfg) = co_upstream_max_attempts cfg"
  "co_upstream_pool_idle_secs (set_seed c cfg) = co_upstream_pool_idle_secs cfg"
  "co_collateral_cache_max_age_secs (set_seed c cfg) = co_collateral_cache_max_age_secs cfg"
  "co_pool_refetch_on_new_tcb (set_seed c cfg) = co_pool_refetch_on_new_tcb cfg"
  "co_pool_refetch_interval_secs (set_seed c cfg) = co_pool_refetch_interval_secs cfg"
  "co_scheduled_pool_refresh (set_seed c cfg) = co_scheduled_pool_refresh cfg"
  "co_warnings (set_seed c cfg) = co_warnings cfg"
  by (simp_all add: opt_set_def set_transport_def set_dev_tokens_def set_seed_def set_max_body_size_def
      set_collateral_cache_max_age_def split: option.split)

lemma keeps_https [simp]:
  "co_host (opt_set (\<lambda>v cfg. cfg\<lparr>co_https := v, co_http := \<not> v\<rparr>) v cfg) = co_host cfg"
  "co_port (opt_set (\<lambda>v cfg. cfg\<lparr>co_https := v, co_http := \<not> v\<rparr>) v cfg) = co_port cfg"
  "co_metrics_listen (opt_set (\<lambda>v cfg. cfg\<lparr>co_https := v, co_http := \<not> v\<rparr>) v cfg) = co_metrics_listen cfg"
  "co_server_timing (opt_set (\<lambda>v cfg. cfg\<lparr>co_https := v, co_http := \<not> v\<rparr>) v cfg) = co_server_timing cfg"
  "co_cert (opt_set (\<lambda>v cfg. cfg\<lparr>co_https := v, co_http := \<not> v\<rparr>) v cfg) = co_cert cfg"
  "co_key (opt_set (\<lambda>v cfg. cfg\<lparr>co_https := v, co_http := \<not> v\<rparr>) v cfg) = co_key cfg"
  "co_cache_mode (opt_set (\<lambda>v cfg. cfg\<lparr>co_https := v, co_http := \<not> v\<rparr>) v cfg) = co_cache_mode cfg"
  "co_user_token_hash (opt_set (\<lambda>v cfg. cfg\<lparr>co_https := v, co_http := \<not> v\<rparr>) v cfg) = co_user_token_hash cfg"
  "co_admin_token_hash (opt_set (\<lambda>v cfg. cfg\<lparr>co_https := v, co_http := \<not> v\<rparr>) v cfg) = co_admin_token_hash cfg"
  "co_uri (opt_set (\<lambda>v cfg. cfg\<lparr>co_https := v, co_http := \<not> v\<rparr>) v cfg) = co_uri cfg"
  "co_api_key (opt_set (\<lambda>v cfg. cfg\<lparr>co_https := v, co_http := \<not> v\<rparr>) v cfg) = co_api_key cfg"
  "co_amd_kds_uri (opt_set (\<lambda>v cfg. cfg\<lparr>co_https := v, co_http := \<not> v\<rparr>) v cfg) = co_amd_kds_uri cfg"
  "co_amd_kds_cache_ttl_secs (opt_set (\<lambda>v cfg. cfg\<lparr>co_https := v, co_http := \<not> v\<rparr>) v cfg) = co_amd_kds_cache_ttl_secs cfg"
  "co_nvidia_rim_uri (opt_set (\<lambda>v cfg. cfg\<lparr>co_https := v, co_http := \<not> v\<rparr>) v cfg) = co_nvidia_rim_uri cfg"
  "co_nvidia_rim_cache_ttl_secs (opt_set (\<lambda>v cfg. cfg\<lparr>co_https := v, co_http := \<not> v\<rparr>) v cfg) = co_nvidia_rim_cache_ttl_secs cfg"
  "co_nvidia_nras_uri (opt_set (\<lambda>v cfg. cfg\<lparr>co_https := v, co_http := \<not> v\<rparr>) v cfg) = co_nvidia_nras_uri cfg"
  "co_nvidia_ocsp_uri (opt_set (\<lambda>v cfg. cfg\<lparr>co_https := v, co_http := \<not> v\<rparr>) v cfg) = co_nvidia_ocsp_uri cfg"
  "co_nvidia_ocsp_max_ttl_secs (opt_set (\<lambda>v cfg. cfg\<lparr>co_https := v, co_http := \<not> v\<rparr>) v cfg) = co_nvidia_ocsp_max_ttl_secs cfg"
  "co_nvidia_ocsp_default_ttl_secs (opt_set (\<lambda>v cfg. cfg\<lparr>co_https := v, co_http := \<not> v\<rparr>) v cfg) = co_nvidia_ocsp_default_ttl_secs cfg"
  "co_readthrough_max_entries_per_kind (opt_set (\<lambda>v cfg. cfg\<lparr>co_https := v, co_http := \<not> v\<rparr>) v cfg) = co_readthrough_max_entries_per_kind cfg"
  "co_proxy (opt_set (\<lambda>v cfg. cfg\<lparr>co_https := v, co_http := \<not> v\<rparr>) v cfg) = co_proxy cfg"
  "co_refresh_schedule (opt_set (\<lambda>v cfg. cfg\<lparr>co_https := v, co_http := \<not> v\<rparr>) v cfg) = co_refresh_schedule cfg"
  "co_db_path (opt_set (\<lambda>v cfg. cfg\<lparr>co_https := v, co_http := \<not> v\<rparr>) v cfg) = co_db_path cfg"
  "co_log_level (opt_set (\<lambda>v cfg. cfg\<lparr>co_https := v, co_http := \<not> v\<rparr>) v cfg) = co_log_level cfg"
  "co_max_body_size (opt_set (\<lambda>v cfg. cfg\<lparr>co_https := v, co_http := \<not> v\<rparr>) v cfg) = co_max_body_size cfg"
  "co_seed (opt_set (\<lambda>v cfg. cfg\<lparr>co_https := v, co_http := \<not> v\<rparr>) v cfg) = co_seed cfg"
  "co_no_seed (opt_set (\<lambda>v cfg. cfg\<lparr>co_https := v, co_http := \<not> v\<rparr>) v cfg) = co_no_seed cfg"
  "co_block_cache_mb (opt_set (\<lambda>v cfg. cfg\<lparr>co_https := v, co_http := \<not> v\<rparr>) v cfg) = co_block_cache_mb cfg"
  "co_write_buffer_mb (opt_set (\<lambda>v cfg. cfg\<lparr>co_https := v, co_http := \<not> v\<rparr>) v cfg) = co_write_buffer_mb cfg"
  "co_max_write_buffers (opt_set (\<lambda>v cfg. cfg\<lparr>co_https := v, co_http := \<not> v\<rparr>) v cfg) = co_max_write_buffers cfg"
  "co_max_open_files (opt_set (\<lambda>v cfg. cfg\<lparr>co_https := v, co_http := \<not> v\<rparr>) v cfg) = co_max_open_files cfg"
  "co_request_timeout_secs (opt_set (\<lambda>v cfg. cfg\<lparr>co_https := v, co_http := \<not> v\<rparr>) v cfg) = co_request_timeout_secs cfg"
  "co_headers_timeout_secs (opt_set (\<lambda>v cfg. cfg\<lparr>co_https := v, co_http := \<not> v\<rparr>) v cfg) = co_headers_timeout_secs cfg"
  "co_keepalive_timeout_secs (opt_set (\<lambda>v cfg. cfg\<lparr>co_https := v, co_http := \<not> v\<rparr>) v cfg) = co_keepalive_timeout_secs cfg"
  "co_upstream_max_concurrent (opt_set (\<lambda>v cfg. cfg\<lparr>co_https := v, co_http := \<not> v\<rparr>) v cfg) = co_upstream_max_concurrent cfg"
  "co_upstream_max_attempts (opt_set (\<lambda>v cfg. cfg\<lparr>co_https := v, co_http := \<not> v\<rparr>) v cfg) = co_upstream_max_attempts cfg"
  "co_upstream_pool_idle_secs (opt_set (\<lambda>v cfg. cfg\<lparr>co_https := v, co_http := \<not> v\<rparr>) v cfg) = co_upstream_pool_idle_secs cfg"
  "co_collateral_cache_max_age_secs (opt_set (\<lambda>v cfg. cfg\<lparr>co_https := v, co_http := \<not> v\<rparr>) v cfg) = co_collateral_cache_max_age_secs cfg"
  "co_pool_refetch_on_new_tcb (opt_set (\<lambda>v cfg. cfg\<lparr>co_https := v, co_http := \<not> v\<rparr>) v cfg) = co_pool_refetch_on_new_tcb cfg"
  "co_pool_refetch_interval_secs (opt_set (\<lambda>v cfg. cfg\<lparr>co_https := v, co_http := \<not> v\<rparr>) v cfg) = co_pool_refetch_interval_secs cfg"
  "co_scheduled_pool_refresh (opt_set (\<lambda>v cfg. cfg\<lparr>co_https := v, co_http := \<not> v\<rparr>) v cfg) = co_scheduled_pool_refresh cfg"
  "co_warnings (opt_set (\<lambda>v cfg. cfg\<lparr>co_https := v, co_http := \<not> v\<rparr>) v cfg) = co_warnings cfg"
  by (simp_all add: opt_set_def set_transport_def set_dev_tokens_def set_seed_def set_max_body_size_def
      set_collateral_cache_max_age_def split: option.split)

lemma keeps_listen [simp]:
  "co_host (opt_set (\<lambda>v cfg. cfg\<lparr>co_metrics_listen := Some v\<rparr>) v cfg) = co_host cfg"
  "co_port (opt_set (\<lambda>v cfg. cfg\<lparr>co_metrics_listen := Some v\<rparr>) v cfg) = co_port cfg"
  "co_server_timing (opt_set (\<lambda>v cfg. cfg\<lparr>co_metrics_listen := Some v\<rparr>) v cfg) = co_server_timing cfg"
  "co_http (opt_set (\<lambda>v cfg. cfg\<lparr>co_metrics_listen := Some v\<rparr>) v cfg) = co_http cfg"
  "co_https (opt_set (\<lambda>v cfg. cfg\<lparr>co_metrics_listen := Some v\<rparr>) v cfg) = co_https cfg"
  "co_cert (opt_set (\<lambda>v cfg. cfg\<lparr>co_metrics_listen := Some v\<rparr>) v cfg) = co_cert cfg"
  "co_key (opt_set (\<lambda>v cfg. cfg\<lparr>co_metrics_listen := Some v\<rparr>) v cfg) = co_key cfg"
  "co_cache_mode (opt_set (\<lambda>v cfg. cfg\<lparr>co_metrics_listen := Some v\<rparr>) v cfg) = co_cache_mode cfg"
  "co_user_token_hash (opt_set (\<lambda>v cfg. cfg\<lparr>co_metrics_listen := Some v\<rparr>) v cfg) = co_user_token_hash cfg"
  "co_admin_token_hash (opt_set (\<lambda>v cfg. cfg\<lparr>co_metrics_listen := Some v\<rparr>) v cfg) = co_admin_token_hash cfg"
  "co_uri (opt_set (\<lambda>v cfg. cfg\<lparr>co_metrics_listen := Some v\<rparr>) v cfg) = co_uri cfg"
  "co_api_key (opt_set (\<lambda>v cfg. cfg\<lparr>co_metrics_listen := Some v\<rparr>) v cfg) = co_api_key cfg"
  "co_amd_kds_uri (opt_set (\<lambda>v cfg. cfg\<lparr>co_metrics_listen := Some v\<rparr>) v cfg) = co_amd_kds_uri cfg"
  "co_amd_kds_cache_ttl_secs (opt_set (\<lambda>v cfg. cfg\<lparr>co_metrics_listen := Some v\<rparr>) v cfg) = co_amd_kds_cache_ttl_secs cfg"
  "co_nvidia_rim_uri (opt_set (\<lambda>v cfg. cfg\<lparr>co_metrics_listen := Some v\<rparr>) v cfg) = co_nvidia_rim_uri cfg"
  "co_nvidia_rim_cache_ttl_secs (opt_set (\<lambda>v cfg. cfg\<lparr>co_metrics_listen := Some v\<rparr>) v cfg) = co_nvidia_rim_cache_ttl_secs cfg"
  "co_nvidia_nras_uri (opt_set (\<lambda>v cfg. cfg\<lparr>co_metrics_listen := Some v\<rparr>) v cfg) = co_nvidia_nras_uri cfg"
  "co_nvidia_ocsp_uri (opt_set (\<lambda>v cfg. cfg\<lparr>co_metrics_listen := Some v\<rparr>) v cfg) = co_nvidia_ocsp_uri cfg"
  "co_nvidia_ocsp_max_ttl_secs (opt_set (\<lambda>v cfg. cfg\<lparr>co_metrics_listen := Some v\<rparr>) v cfg) = co_nvidia_ocsp_max_ttl_secs cfg"
  "co_nvidia_ocsp_default_ttl_secs (opt_set (\<lambda>v cfg. cfg\<lparr>co_metrics_listen := Some v\<rparr>) v cfg) = co_nvidia_ocsp_default_ttl_secs cfg"
  "co_readthrough_max_entries_per_kind (opt_set (\<lambda>v cfg. cfg\<lparr>co_metrics_listen := Some v\<rparr>) v cfg) = co_readthrough_max_entries_per_kind cfg"
  "co_proxy (opt_set (\<lambda>v cfg. cfg\<lparr>co_metrics_listen := Some v\<rparr>) v cfg) = co_proxy cfg"
  "co_refresh_schedule (opt_set (\<lambda>v cfg. cfg\<lparr>co_metrics_listen := Some v\<rparr>) v cfg) = co_refresh_schedule cfg"
  "co_db_path (opt_set (\<lambda>v cfg. cfg\<lparr>co_metrics_listen := Some v\<rparr>) v cfg) = co_db_path cfg"
  "co_log_level (opt_set (\<lambda>v cfg. cfg\<lparr>co_metrics_listen := Some v\<rparr>) v cfg) = co_log_level cfg"
  "co_max_body_size (opt_set (\<lambda>v cfg. cfg\<lparr>co_metrics_listen := Some v\<rparr>) v cfg) = co_max_body_size cfg"
  "co_seed (opt_set (\<lambda>v cfg. cfg\<lparr>co_metrics_listen := Some v\<rparr>) v cfg) = co_seed cfg"
  "co_no_seed (opt_set (\<lambda>v cfg. cfg\<lparr>co_metrics_listen := Some v\<rparr>) v cfg) = co_no_seed cfg"
  "co_block_cache_mb (opt_set (\<lambda>v cfg. cfg\<lparr>co_metrics_listen := Some v\<rparr>) v cfg) = co_block_cache_mb cfg"
  "co_write_buffer_mb (opt_set (\<lambda>v cfg. cfg\<lparr>co_metrics_listen := Some v\<rparr>) v cfg) = co_write_buffer_mb cfg"
  "co_max_write_buffers (opt_set (\<lambda>v cfg. cfg\<lparr>co_metrics_listen := Some v\<rparr>) v cfg) = co_max_write_buffers cfg"
  "co_max_open_files (opt_set (\<lambda>v cfg. cfg\<lparr>co_metrics_listen := Some v\<rparr>) v cfg) = co_max_open_files cfg"
  "co_request_timeout_secs (opt_set (\<lambda>v cfg. cfg\<lparr>co_metrics_listen := Some v\<rparr>) v cfg) = co_request_timeout_secs cfg"
  "co_headers_timeout_secs (opt_set (\<lambda>v cfg. cfg\<lparr>co_metrics_listen := Some v\<rparr>) v cfg) = co_headers_timeout_secs cfg"
  "co_keepalive_timeout_secs (opt_set (\<lambda>v cfg. cfg\<lparr>co_metrics_listen := Some v\<rparr>) v cfg) = co_keepalive_timeout_secs cfg"
  "co_upstream_max_concurrent (opt_set (\<lambda>v cfg. cfg\<lparr>co_metrics_listen := Some v\<rparr>) v cfg) = co_upstream_max_concurrent cfg"
  "co_upstream_max_attempts (opt_set (\<lambda>v cfg. cfg\<lparr>co_metrics_listen := Some v\<rparr>) v cfg) = co_upstream_max_attempts cfg"
  "co_upstream_pool_idle_secs (opt_set (\<lambda>v cfg. cfg\<lparr>co_metrics_listen := Some v\<rparr>) v cfg) = co_upstream_pool_idle_secs cfg"
  "co_collateral_cache_max_age_secs (opt_set (\<lambda>v cfg. cfg\<lparr>co_metrics_listen := Some v\<rparr>) v cfg) = co_collateral_cache_max_age_secs cfg"
  "co_pool_refetch_on_new_tcb (opt_set (\<lambda>v cfg. cfg\<lparr>co_metrics_listen := Some v\<rparr>) v cfg) = co_pool_refetch_on_new_tcb cfg"
  "co_pool_refetch_interval_secs (opt_set (\<lambda>v cfg. cfg\<lparr>co_metrics_listen := Some v\<rparr>) v cfg) = co_pool_refetch_interval_secs cfg"
  "co_scheduled_pool_refresh (opt_set (\<lambda>v cfg. cfg\<lparr>co_metrics_listen := Some v\<rparr>) v cfg) = co_scheduled_pool_refresh cfg"
  "co_warnings (opt_set (\<lambda>v cfg. cfg\<lparr>co_metrics_listen := Some v\<rparr>) v cfg) = co_warnings cfg"
  by (simp_all add: opt_set_def set_transport_def set_dev_tokens_def set_seed_def set_max_body_size_def
      set_collateral_cache_max_age_def split: option.split)

lemma keeps_body [simp]:
  "co_host (opt_set set_max_body_size v cfg) = co_host cfg"
  "co_port (opt_set set_max_body_size v cfg) = co_port cfg"
  "co_metrics_listen (opt_set set_max_body_size v cfg) = co_metrics_listen cfg"
  "co_server_timing (opt_set set_max_body_size v cfg) = co_server_timing cfg"
  "co_http (opt_set set_max_body_size v cfg) = co_http cfg"
  "co_https (opt_set set_max_body_size v cfg) = co_https cfg"
  "co_cert (opt_set set_max_body_size v cfg) = co_cert cfg"
  "co_key (opt_set set_max_body_size v cfg) = co_key cfg"
  "co_cache_mode (opt_set set_max_body_size v cfg) = co_cache_mode cfg"
  "co_user_token_hash (opt_set set_max_body_size v cfg) = co_user_token_hash cfg"
  "co_admin_token_hash (opt_set set_max_body_size v cfg) = co_admin_token_hash cfg"
  "co_uri (opt_set set_max_body_size v cfg) = co_uri cfg"
  "co_api_key (opt_set set_max_body_size v cfg) = co_api_key cfg"
  "co_amd_kds_uri (opt_set set_max_body_size v cfg) = co_amd_kds_uri cfg"
  "co_amd_kds_cache_ttl_secs (opt_set set_max_body_size v cfg) = co_amd_kds_cache_ttl_secs cfg"
  "co_nvidia_rim_uri (opt_set set_max_body_size v cfg) = co_nvidia_rim_uri cfg"
  "co_nvidia_rim_cache_ttl_secs (opt_set set_max_body_size v cfg) = co_nvidia_rim_cache_ttl_secs cfg"
  "co_nvidia_nras_uri (opt_set set_max_body_size v cfg) = co_nvidia_nras_uri cfg"
  "co_nvidia_ocsp_uri (opt_set set_max_body_size v cfg) = co_nvidia_ocsp_uri cfg"
  "co_nvidia_ocsp_max_ttl_secs (opt_set set_max_body_size v cfg) = co_nvidia_ocsp_max_ttl_secs cfg"
  "co_nvidia_ocsp_default_ttl_secs (opt_set set_max_body_size v cfg) = co_nvidia_ocsp_default_ttl_secs cfg"
  "co_readthrough_max_entries_per_kind (opt_set set_max_body_size v cfg) = co_readthrough_max_entries_per_kind cfg"
  "co_proxy (opt_set set_max_body_size v cfg) = co_proxy cfg"
  "co_refresh_schedule (opt_set set_max_body_size v cfg) = co_refresh_schedule cfg"
  "co_db_path (opt_set set_max_body_size v cfg) = co_db_path cfg"
  "co_log_level (opt_set set_max_body_size v cfg) = co_log_level cfg"
  "co_seed (opt_set set_max_body_size v cfg) = co_seed cfg"
  "co_no_seed (opt_set set_max_body_size v cfg) = co_no_seed cfg"
  "co_block_cache_mb (opt_set set_max_body_size v cfg) = co_block_cache_mb cfg"
  "co_write_buffer_mb (opt_set set_max_body_size v cfg) = co_write_buffer_mb cfg"
  "co_max_write_buffers (opt_set set_max_body_size v cfg) = co_max_write_buffers cfg"
  "co_max_open_files (opt_set set_max_body_size v cfg) = co_max_open_files cfg"
  "co_request_timeout_secs (opt_set set_max_body_size v cfg) = co_request_timeout_secs cfg"
  "co_headers_timeout_secs (opt_set set_max_body_size v cfg) = co_headers_timeout_secs cfg"
  "co_keepalive_timeout_secs (opt_set set_max_body_size v cfg) = co_keepalive_timeout_secs cfg"
  "co_upstream_max_concurrent (opt_set set_max_body_size v cfg) = co_upstream_max_concurrent cfg"
  "co_upstream_max_attempts (opt_set set_max_body_size v cfg) = co_upstream_max_attempts cfg"
  "co_upstream_pool_idle_secs (opt_set set_max_body_size v cfg) = co_upstream_pool_idle_secs cfg"
  "co_collateral_cache_max_age_secs (opt_set set_max_body_size v cfg) = co_collateral_cache_max_age_secs cfg"
  "co_pool_refetch_on_new_tcb (opt_set set_max_body_size v cfg) = co_pool_refetch_on_new_tcb cfg"
  "co_pool_refetch_interval_secs (opt_set set_max_body_size v cfg) = co_pool_refetch_interval_secs cfg"
  "co_scheduled_pool_refresh (opt_set set_max_body_size v cfg) = co_scheduled_pool_refresh cfg"
  by (simp_all add: opt_set_def set_transport_def set_dev_tokens_def set_seed_def set_max_body_size_def
      set_collateral_cache_max_age_def split: option.split)

lemma keeps_age [simp]:
  "co_host (opt_set set_collateral_cache_max_age n cfg) = co_host cfg"
  "co_port (opt_set set_collateral_cache_max_age n cfg) = co_port cfg"
  "co_metrics_listen (opt_set set_collateral_cache_max_age n cfg) = co_metrics_listen cfg"
  "co_server_timing (opt_set set_collateral_cache_max_age n cfg) = co_server_timing cfg"
  "co_http (opt_set set_collateral_cache_max_age n cfg) = co_http cfg"
  "co_https (opt_set set_collateral_cache_max_age n cfg) = co_https cfg"
  "co_cert (opt_set set_collateral_cache_max_age n cfg) = co_cert cfg"
  "co_key (opt_set set_collateral_cache_max_age n cfg) = co_key cfg"
  "co_cache_mode (opt_set set_collateral_cache_max_age n cfg) = co_cache_mode cfg"
  "co_user_token_hash (opt_set set_collateral_cache_max_age n cfg) = co_user_token_hash cfg"
  "co_admin_token_hash (opt_set set_collateral_cache_max_age n cfg) = co_admin_token_hash cfg"
  "co_uri (opt_set set_collateral_cache_max_age n cfg) = co_uri cfg"
  "co_api_key (opt_set set_collateral_cache_max_age n cfg) = co_api_key cfg"
  "co_amd_kds_uri (opt_set set_collateral_cache_max_age n cfg) = co_amd_kds_uri cfg"
  "co_amd_kds_cache_ttl_secs (opt_set set_collateral_cache_max_age n cfg) = co_amd_kds_cache_ttl_secs cfg"
  "co_nvidia_rim_uri (opt_set set_collateral_cache_max_age n cfg) = co_nvidia_rim_uri cfg"
  "co_nvidia_rim_cache_ttl_secs (opt_set set_collateral_cache_max_age n cfg) = co_nvidia_rim_cache_ttl_secs cfg"
  "co_nvidia_nras_uri (opt_set set_collateral_cache_max_age n cfg) = co_nvidia_nras_uri cfg"
  "co_nvidia_ocsp_uri (opt_set set_collateral_cache_max_age n cfg) = co_nvidia_ocsp_uri cfg"
  "co_nvidia_ocsp_max_ttl_secs (opt_set set_collateral_cache_max_age n cfg) = co_nvidia_ocsp_max_ttl_secs cfg"
  "co_nvidia_ocsp_default_ttl_secs (opt_set set_collateral_cache_max_age n cfg) = co_nvidia_ocsp_default_ttl_secs cfg"
  "co_readthrough_max_entries_per_kind (opt_set set_collateral_cache_max_age n cfg) = co_readthrough_max_entries_per_kind cfg"
  "co_proxy (opt_set set_collateral_cache_max_age n cfg) = co_proxy cfg"
  "co_refresh_schedule (opt_set set_collateral_cache_max_age n cfg) = co_refresh_schedule cfg"
  "co_db_path (opt_set set_collateral_cache_max_age n cfg) = co_db_path cfg"
  "co_log_level (opt_set set_collateral_cache_max_age n cfg) = co_log_level cfg"
  "co_max_body_size (opt_set set_collateral_cache_max_age n cfg) = co_max_body_size cfg"
  "co_seed (opt_set set_collateral_cache_max_age n cfg) = co_seed cfg"
  "co_no_seed (opt_set set_collateral_cache_max_age n cfg) = co_no_seed cfg"
  "co_block_cache_mb (opt_set set_collateral_cache_max_age n cfg) = co_block_cache_mb cfg"
  "co_write_buffer_mb (opt_set set_collateral_cache_max_age n cfg) = co_write_buffer_mb cfg"
  "co_max_write_buffers (opt_set set_collateral_cache_max_age n cfg) = co_max_write_buffers cfg"
  "co_max_open_files (opt_set set_collateral_cache_max_age n cfg) = co_max_open_files cfg"
  "co_request_timeout_secs (opt_set set_collateral_cache_max_age n cfg) = co_request_timeout_secs cfg"
  "co_headers_timeout_secs (opt_set set_collateral_cache_max_age n cfg) = co_headers_timeout_secs cfg"
  "co_keepalive_timeout_secs (opt_set set_collateral_cache_max_age n cfg) = co_keepalive_timeout_secs cfg"
  "co_upstream_max_concurrent (opt_set set_collateral_cache_max_age n cfg) = co_upstream_max_concurrent cfg"
  "co_upstream_max_attempts (opt_set set_collateral_cache_max_age n cfg) = co_upstream_max_attempts cfg"
  "co_upstream_pool_idle_secs (opt_set set_collateral_cache_max_age n cfg) = co_upstream_pool_idle_secs cfg"
  "co_pool_refetch_on_new_tcb (opt_set set_collateral_cache_max_age n cfg) = co_pool_refetch_on_new_tcb cfg"
  "co_pool_refetch_interval_secs (opt_set set_collateral_cache_max_age n cfg) = co_pool_refetch_interval_secs cfg"
  "co_scheduled_pool_refresh (opt_set set_collateral_cache_max_age n cfg) = co_scheduled_pool_refresh cfg"
  by (simp_all add: opt_set_def set_transport_def set_dev_tokens_def set_seed_def set_max_body_size_def
      set_collateral_cache_max_age_def split: option.split)

lemmas layer_defs = apply_toml_def apply_toml_1_def apply_toml_2_def apply_toml_3_def apply_toml_4_def
  apply_cli_def apply_cli_1_def apply_cli_2_def apply_cli_3_def apply_cli_4_def

section \<open>Precedence\<close>


section \<open>Relations between settings\<close>

definition config_ok :: "config \<Rightarrow> bool" where
  "config_ok cfg \<longleftrightarrow>
     co_http cfg = (\<not> co_https cfg) \<and> 0 < co_max_body_size cfg \<and> co_collateral_cache_max_age_secs cfg \<noteq> Some 0"

lemma opt_set_ok:
  "(\<And>x c. config_ok c \<Longrightarrow> config_ok (f x c)) \<Longrightarrow> config_ok cfg \<Longrightarrow> config_ok (opt_set f v cfg)"
  by (simp add: opt_set_def split: option.split)

lemma body_size_positive: "try_parse_body_size s = Some n \<Longrightarrow> 0 < n"
proof -
  have "0 < (word_of_int k :: u64)" if "k < 2 ^ 64" "k > 0" for k
    using that by (simp add: word_less_def unsigned_of_int take_bit_int_eq_self)
  then show "try_parse_body_size s = Some n \<Longrightarrow> 0 < n"
    by (auto simp: try_parse_body_size_def Let_def simp del: of_int_mult split: prod.splits bind_splits if_splits)
qed

lemma setters_ok:
  "config_ok cfg \<Longrightarrow> config_ok (set_max_body_size s cfg)" "config_ok cfg \<Longrightarrow> config_ok (set_collateral_cache_max_age n cfg)"
  "config_ok cfg \<Longrightarrow> config_ok (set_transport c cfg)" "config_ok cfg \<Longrightarrow> config_ok (set_dev_tokens c cfg)"
  "config_ok cfg \<Longrightarrow> config_ok (set_seed c cfg)"
  by (auto simp: config_ok_def set_max_body_size_def set_collateral_cache_max_age_def set_transport_def set_dev_tokens_def
      set_seed_def DEFAULT_MAX_BODY_SIZE_def body_size_positive split: option.splits)

lemma default_ok: "config_ok default_config"
  by (simp add: config_ok_def default_config_def DEFAULT_MAX_BODY_SIZE_def)

lemma layers_ok:
  "config_ok cfg \<Longrightarrow> config_ok (apply_toml file cfg)" "config_ok cfg \<Longrightarrow> config_ok (apply_cli c cfg)"
  unfolding layer_defs Let_def
  by (intro opt_set_ok setters_ok; simp add: config_ok_def)+

section \<open>Missing token hashes\<close>

lemma token_hashes:
  assumes "cfg = apply_cli c (apply_toml file default_config)"
  shows "co_user_token_hash cfg =
      (let h = unwrap_or (unwrap_or [] (opt_filter (\<lambda>s. s \<noteq> []) (tc_user_token_hash file))) (sa_user_token_hash c)
       in if sa_dev_tokens c \<and> h = [] then DEFAULT_USER_TOKEN_HASH else h)"
    "co_admin_token_hash cfg =
      (let h = unwrap_or (unwrap_or [] (opt_filter (\<lambda>s. s \<noteq> []) (tc_admin_token_hash file))) (sa_admin_token_hash c)
       in if sa_dev_tokens c \<and> h = [] then DEFAULT_ADMIN_TOKEN_HASH else h)"
proof -
  have dev: "co_user_token_hash (set_dev_tokens c cfg) =
        (if sa_dev_tokens c \<and> co_user_token_hash cfg = [] then DEFAULT_USER_TOKEN_HASH else co_user_token_hash cfg)"
      "co_admin_token_hash (set_dev_tokens c cfg) =
        (if sa_dev_tokens c \<and> co_admin_token_hash cfg = [] then DEFAULT_ADMIN_TOKEN_HASH else co_admin_token_hash cfg)" for cfg
    by (simp_all add: set_dev_tokens_def)
  have none: "co_user_token_hash default_config = []" "co_admin_token_hash default_config = []"
    by (simp_all add: default_config_def)
  show "co_user_token_hash cfg =
      (let h = unwrap_or (unwrap_or [] (opt_filter (\<lambda>s. s \<noteq> []) (tc_user_token_hash file))) (sa_user_token_hash c)
       in if sa_dev_tokens c \<and> h = [] then DEFAULT_USER_TOKEN_HASH else h)"
    unfolding assms by (simp add: layer_defs Let_def opt_set_update dev none)
  show "co_admin_token_hash cfg =
      (let h = unwrap_or (unwrap_or [] (opt_filter (\<lambda>s. s \<noteq> []) (tc_admin_token_hash file))) (sa_admin_token_hash c)
       in if sa_dev_tokens c \<and> h = [] then DEFAULT_ADMIN_TOKEN_HASH else h)"
    unfolding assms by (simp add: layer_defs Let_def opt_set_update dev none)
qed

text \<open>Where a token hash can come from.\<close>

definition configured_hash :: "string option \<Rightarrow> string option \<Rightarrow> bool \<Rightarrow> string \<Rightarrow> string \<Rightarrow> bool" where
  "configured_hash cli file dev dev_hash h \<longleftrightarrow> cli = Some h \<or> file = Some h \<or> dev \<and> h = dev_hash"

lemma verify_token_needs_hash: "verify_token E t h = Inr () \<Longrightarrow> is_sha512_hex h \<and> h \<noteq> []"
  by (auto simp: verify_token_def parse_expected_hash_def is_sha512_hex_def ok_or_def split: option.splits if_splits)

lemma from_serve_args_layers:
  assumes "from_serve_args is_file load_toml c implicit_config = Some cfg"
  obtains fil where "cfg = apply_cli c (apply_toml fil default_config)" "fil = default_toml \<or> (\<exists>p. load_toml p = Some fil)"
  using assms by (auto simp: from_serve_args_def Let_def split: option.splits)

text \<open>C9: whatever the file, the environment and the command line say, the server starts with exactly one
  transport, a positive body limit and no max-age of 0; and an operator token can be accepted only if its
  hash was configured on the command line or in the file, or the development tokens were asked for: without
  a hash, and with a malformed one, every token is refused.\<close>

theorem config_fails_closed:
  assumes "from_serve_args is_file load_toml c implicit_config = Some cfg"
  shows "config_ok cfg \<and>
    (\<exists>file. (file = default_toml \<or> (\<exists>p. load_toml p = Some file)) \<and>
      (verify_token E t (co_user_token_hash cfg) = Inr () \<longrightarrow>
         is_sha512_hex (co_user_token_hash cfg) \<and>
         configured_hash (sa_user_token_hash c) (tc_user_token_hash file) (sa_dev_tokens c) DEFAULT_USER_TOKEN_HASH
           (co_user_token_hash cfg)) \<and>
      (verify_token E t (co_admin_token_hash cfg) = Inr () \<longrightarrow>
         is_sha512_hex (co_admin_token_hash cfg) \<and>
         configured_hash (sa_admin_token_hash c) (tc_admin_token_hash file) (sa_dev_tokens c) DEFAULT_ADMIN_TOKEN_HASH
           (co_admin_token_hash cfg)))"
proof -
  obtain fil where cfg: "cfg = apply_cli c (apply_toml fil default_config)"
    and src: "fil = default_toml \<or> (\<exists>p. load_toml p = Some fil)"
    using from_serve_args_layers [OF assms] by metis
  have ok: "config_ok cfg" unfolding cfg by (intro layers_ok default_ok)
  have origin: "configured_hash cli f dev dev_hash h"
    if "h = (let g = unwrap_or (unwrap_or [] (opt_filter (\<lambda>s. s \<noteq> []) f)) cli in if dev \<and> g = [] then dev_hash else g)" "h \<noteq> []"
    for cli f dev dev_hash h
    using that by (cases cli; cases f) (auto simp: configured_hash_def Let_def unwrap_or_def opt_filter_def split: if_splits)
  have "verify_token E t (co_user_token_hash cfg) = Inr () \<longrightarrow> is_sha512_hex (co_user_token_hash cfg) \<and>
      configured_hash (sa_user_token_hash c) (tc_user_token_hash fil) (sa_dev_tokens c) DEFAULT_USER_TOKEN_HASH (co_user_token_hash cfg)"
    using verify_token_needs_hash origin [OF token_hashes(1) [OF cfg]] by blast
  moreover have "verify_token E t (co_admin_token_hash cfg) = Inr () \<longrightarrow> is_sha512_hex (co_admin_token_hash cfg) \<and>
      configured_hash (sa_admin_token_hash c) (tc_admin_token_hash fil) (sa_dev_tokens c) DEFAULT_ADMIN_TOKEN_HASH (co_admin_token_hash cfg)"
    using verify_token_needs_hash origin [OF token_hashes(2) [OF cfg]] by blast
  ultimately show ?thesis using ok src by blast
qed

section \<open>The upstream host\<close>

text \<open>The characters that end a part of an authority.\<close>

definition plain_part :: "string \<Rightarrow> bool" where
  "plain_part s \<longleftrightarrow> set s \<inter> {CHR ''/'', CHR ''?'', CHR ''#'', CHR ''@'', CHR '':'', CHR ''['', CHR '']''} = {}"

lemma takeWhile_past: "c \<notin> set s \<Longrightarrow> takeWhile (\<lambda>x. x \<noteq> c) (s @ t) = s @ takeWhile (\<lambda>x. x \<noteq> c) t"
  by (induction s) auto

lemma takeWhile_none: "c \<notin> set s \<Longrightarrow> takeWhile (\<lambda>x. x \<noteq> c) s = s"
  using takeWhile_past [of c s "[]"] by simp

text \<open>The host of an upstream URL is the part after the last \<open>@\<close> of the authority and before the port, so that
  neither a user name nor a path can make a foreign server look like Intel's.\<close>

theorem uri_host_of_url:
  assumes "plain_part scheme" "set user \<inter> {CHR ''/'', CHR ''?'', CHR ''#''} = {}" "plain_part host" "host \<noteq> []"
    and "plain_part port" "rest = [] \<or> hd rest \<in> {CHR ''/'', CHR ''?'', CHR ''#''}"
  shows "uri_host (scheme @ ''://'' @ (if user = [] then [] else user @ ''@'') @ host @ (if port = [] then [] else '':'' @ port) @ rest)
    = Some (to_ascii_lowercase host)"
proof -
  let ?auth = "(if user = [] then [] else user @ ''@'') @ host @ (if port = [] then [] else '':'' @ port)"
  have split: "split_once_str ''://'' (s @ ''://'' @ r) = Some (s, r)" if "plain_part s" for s r
    using that by (induction s) (auto simp: plain_part_def starts_with_def)
  have "list_all (\<lambda>c. c \<notin> {CHR ''/'', CHR ''?'', CHR ''#''}) ?auth"
    using assms(2,3,5) by (auto simp: plain_part_def list_all_iff)
  then have auth: "before_any {CHR ''/'', CHR ''?'', CHR ''#''} (?auth @ rest) = ?auth"
    using assms(6) by (cases rest) (auto simp: before_any_def list_all_iff takeWhile_append2 takeWhile_eq_all_conv)
  have server: "rev (before_any {CHR ''@''} (rev ?auth)) = host @ (if port = [] then [] else '':'' @ port)"
    using assms(3,5) by (auto simp: before_any_def plain_part_def takeWhile_past takeWhile_none)
  have "strip_prefix (host @ (if port = [] then [] else '':'' @ port)) ''['' = None"
    using assms(3,4) by (cases host) (auto simp: strip_prefix_def starts_with_def plain_part_def)
  moreover have "before_any {CHR '':''} (host @ (if port = [] then [] else '':'' @ port)) = host"
    using assms(3) by (auto simp: before_any_def plain_part_def takeWhile_past takeWhile_none)
  ultimately show ?thesis
    using split [OF assms(1), of "?auth @ rest"] auth server assms(4) by (simp add: uri_host_def Let_def)
qed

section \<open>Instances\<close>

definition no_args :: serve_args where
  "no_args = \<lparr>sa_config = None, sa_host = None, sa_port = Some 8080, sa_metrics_listen = None, sa_server_timing = None,
     sa_http = False, sa_https = False, sa_cert = None, sa_key = None, sa_cache_mode = None, sa_user_token_hash = None,
     sa_admin_token_hash = None, sa_uri = None, sa_api_key = None, sa_amd_kds_uri = None, sa_amd_kds_cache_ttl_seconds = None,
     sa_nvidia_rim_uri = None, sa_nvidia_rim_cache_ttl_seconds = None, sa_nvidia_nras_uri = None, sa_nvidia_ocsp_uri = None,
     sa_nvidia_ocsp_max_ttl_seconds = None, sa_nvidia_ocsp_default_ttl_seconds = None, sa_readthrough_max_entries_per_kind = None,
     sa_proxy = None, sa_refresh_schedule = None, sa_db_path = None, sa_log_level = None, sa_max_body_size = None, sa_seed = None,
     sa_no_seed = False, sa_block_cache_mb = None, sa_write_buffer_mb = None, sa_max_write_buffers = None, sa_max_open_files = None,
     sa_request_timeout_seconds = None, sa_headers_timeout_seconds = None, sa_keepalive_timeout_seconds = None,
     sa_collateral_cache_max_age = None, sa_upstream_max_concurrent = None, sa_upstream_max_attempts = None,
     sa_upstream_pool_idle_seconds = None, sa_dev_tokens = False\<rparr>"


theorem config_fails_closed_witness:
  "config_ok (apply_cli no_args (apply_toml default_toml default_config))"
proof -
  have "from_serve_args (\<lambda>_. False) (\<lambda>_. None) no_args None =
      Some (apply_cli no_args (apply_toml default_toml default_config))"
    by (simp add: from_serve_args_def no_args_def)
  from config_fails_closed [OF this] show ?thesis by blast
qed

theorem uri_host_of_url_witness:
  "uri_host ''https://api.trustedservices.intel.com@evil.example:8443/v4/'' = Some ''evil.example''"
proof -
  have "to_ascii_lowercase ''evil.example'' = ''evil.example''" by code_simp
  with uri_host_of_url [of "''https''" "''api.trustedservices.intel.com''" "''evil.example''" "''8443''" "''/v4/''"]
  show ?thesis by (simp add: plain_part_def)
qed

end
