(* ===== verification/Import.thy ===== *)
theory Import
  imports Appraisal Selection "HOL-Library.Char_ord" "HOL-Library.Product_Lexorder"
begin

text \<open>
  \<^verbatim>\<open>src/intel_import.rs\<close>: restoring a snapshot of an Intel PCCS into a fresh store. SQLite is the record
  \<open>sqlite\<close>, what its queries return; the DER parser for revocation lists is an argument. A \<open>BTreeMap\<close> is its
  list of entries in key order. Texts of foreign errors are left out of the messages. Rows are read only
  once, so tables are not removed from the snapshot as they are consumed.
\<close>

type_synonym 'a imp = "string + 'a"

section \<open>Ordered maps and loops\<close>

fun btree_insert :: "'k::linorder \<Rightarrow> 'v \<Rightarrow> ('k \<times> 'v) list \<Rightarrow> ('k \<times> 'v) list" where
  "btree_insert k v [] = [(k, v)]"
| "btree_insert k v ((k', v') # m) =
     (if k < k' then (k, v) # (k', v') # m else if k = k' then (k, v) # m else (k', v') # btree_insert k v m)"

text \<open>\<open>if m.insert(k, v).is_some() { return Err(e) }\<close>.\<close>

definition insert_new :: "string \<Rightarrow> 'k::linorder \<Rightarrow> 'v \<Rightarrow> ('k \<times> 'v) list \<Rightarrow> ('k \<times> 'v) list imp" where
  "insert_new e k v m = (if map_of m k \<noteq> None then Inl e else Inr (btree_insert k v m))"

text \<open>\<open>for x in xs { .. ? }\<close> over a state.\<close>

fun try_fold :: "('a \<Rightarrow> 's \<Rightarrow> 'e + 's) \<Rightarrow> 'a list \<Rightarrow> 's \<Rightarrow> 'e + 's" where
  "try_fold f [] s = Inr s"
| "try_fold f (x # xs) s = and_then (f x s) (try_fold f xs)"

section \<open>Rows\<close>

datatype sql_value = SqlNull | SqlInteger int | SqlReal u64 | SqlText string | SqlBlob bytes

record row =
  rw_table :: string
  rw_fields :: "string \<rightharpoonup> sql_value"

definition at :: "row \<Rightarrow> string \<Rightarrow> string" where
  "at r column = rw_table r @ ''.'' @ column"

definition row_value :: "row \<Rightarrow> string \<Rightarrow> sql_value imp" where
  "row_value r column = ok_or (at r column @ '': missing column'') (rw_fields r column)"

definition row_text :: "row \<Rightarrow> string \<Rightarrow> string imp" where
  "row_text r column =
     and_then (row_value r column) (\<lambda>v.
       case v of
         SqlText s \<Rightarrow> Inr s
       | SqlBlob b \<Rightarrow> ok_or (at r column @ '': invalid UTF-8'') (from_utf8 b)
       | _ \<Rightarrow> Inl (at r column @ '': expected text/UTF-8 BLOB''))"

definition nullable_text :: "row \<Rightarrow> string \<Rightarrow> string imp" where
  "nullable_text r column =
     and_then (row_value r column) (\<lambda>v. if v = SqlNull then Inr [] else row_text r column)"

definition row_blob :: "row \<Rightarrow> string \<Rightarrow> bytes imp" where
  "row_blob r column =
     and_then (row_value r column) (\<lambda>v.
       case v of
         SqlNull \<Rightarrow> Inr []
       | SqlBlob b \<Rightarrow> Inr b
       | SqlText s \<Rightarrow> if s = [] then Inr [] else Inl (at r column @ '': expected binary BLOB or NULL'')
       | _ \<Rightarrow> Inl (at r column @ '': expected binary BLOB or NULL''))"

definition row_int :: "row \<Rightarrow> string \<Rightarrow> int imp" where
  "row_int r column =
     and_then (row_value r column) (\<lambda>v.
       case v of SqlInteger i \<Rightarrow> Inr i | _ \<Rightarrow> Inl (at r column @ '': expected integer''))"

section \<open>Reading the snapshot\<close>

definition TABLES :: "string list" where
  "TABLES =
     [''pcs_version'', ''platforms'', ''pck_cert'', ''platform_tcbs'', ''pcs_certificates'', ''pck_certchain'',
      ''fmspc_tcbs'', ''enclave_identities'', ''pck_crl'', ''crl_cache'', ''platforms_registered'',
      ''appraisal_policies'']"

definition required_columns :: "string \<Rightarrow> string list" where
  "required_columns table = unwrap_or [] (map_of
     [(''pcs_version'', [''id'', ''api_version'', ''db_version'', ''server_addr'']),
      (''platforms'', [''qe_id'', ''pce_id'', ''platform_manifest'', ''enc_ppid'', ''fmspc'', ''ca'']),
      (''pck_cert'', [''qe_id'', ''pce_id'', ''tcbm'', ''pck_cert'']),
      (''platform_tcbs'', [''qe_id'', ''pce_id'', ''cpu_svn'', ''pce_svn'', ''tcbm'']),
      (''pcs_certificates'', [''id'', ''cert'', ''crl'']),
      (''pck_certchain'', [''ca'', ''root_cert_id'', ''intmd_cert_id'']),
      (''fmspc_tcbs'',
       [''fmspc'', ''type'', ''version'', ''update_type'', ''tcbinfo'', ''root_cert_id'', ''signing_cert_id'']),
      (''enclave_identities'',
       [''id'', ''version'', ''update_type'', ''identity'', ''root_cert_id'', ''signing_cert_id'']),
      (''pck_crl'', [''ca'', ''pck_crl'', ''root_cert_id'', ''intmd_cert_id'']),
      (''crl_cache'', [''cdp_url'', ''crl'']),
      (''platforms_registered'',
       [''qe_id'', ''pce_id'', ''cpu_svn'', ''pce_svn'', ''enc_ppid'', ''platform_manifest'', ''state'']),
      (''appraisal_policies'', [''id'', ''type'', ''policy'', ''is_default'', ''fmspc''])] table)"

record import_report =
  rp_source_sha256 :: string
  rp_db_version :: int
  rp_api_version :: int
  rp_source_rows :: "(string \<times> nat) list"
  rp_destination_records :: nat

record snapshot =
  sn_rows :: "(string \<times> row list) list"
  sn_entries :: "(string \<times> bytes) list"
  sn_report :: import_report

text \<open>What the queries return: the table names, and the column names and rows of a statement.\<close>

record sqlite =
  sq_tables :: "string list imp"
  sq_columns :: "string \<Rightarrow> string list imp"
  sq_rows :: "string \<Rightarrow> sql_value list list imp"

definition quoted_query :: "string \<Rightarrow> string" where
  "quoted_query table =
     ''SELECT * FROM '' @ [CHR 0x22] @ concat (map (\<lambda>c. if c = CHR 0x22 then [c, c] else [c]) table) @ [CHR 0x22]"

definition check_columns :: "string \<Rightarrow> string list \<Rightarrow> unit imp" where
  "check_columns table columns =
     and_then (try_each (\<lambda>required.
         if required \<in> set columns then Inr () else Inl (table @ ''.'' @ required @ '': missing required column''))
       (required_columns table)) (\<lambda>_.
     if table \<notin> set TABLES then Inr ()
     else try_each (\<lambda>column.
            if column \<notin> set (required_columns table) \<and> column \<notin> {''created_time'', ''updated_time''}
            then Inl (table @ ''.'' @ column @ '': unsupported column'') else Inr ()) columns)"

type_synonym tables = "(string \<times> row list) list \<times> (string \<times> nat) list"

definition read_table :: "sqlite \<Rightarrow> string \<Rightarrow> tables \<Rightarrow> tables imp" where
  "read_table Q table = (\<lambda>(rows, source_rows).
     and_then (sq_columns Q (quoted_query table)) (\<lambda>columns.
     and_then (check_columns table columns) (\<lambda>_.
     and_then (sq_rows Q (quoted_query table)) (\<lambda>values.
     let records = map (\<lambda>vs. \<lparr>rw_table = table, rw_fields = map_of (rev (zip columns vs))\<rparr>) values;
         source_rows = btree_insert table (length records) source_rows
     in if table \<notin> set TABLES \<and> table \<noteq> ''umzug'' \<and> records \<noteq> []
        then Inl (''unsupported nonempty table: '' @ table)
        else Inr (btree_insert table records rows, source_rows)))))"

definition table_rows :: "(string \<times> row list) list \<Rightarrow> string \<Rightarrow> row list" where
  "table_rows rows table = unwrap_or [] (map_of rows table)"

definition read_snapshot :: "sqlite \<Rightarrow> string \<Rightarrow> snapshot imp" where
  "read_snapshot Q source_hash =
     and_then (sq_tables Q) (\<lambda>tables.
     and_then (try_each (\<lambda>table.
         if table \<in> set tables then Inr () else Inl (''missing required db_version=5 table: '' @ table)) TABLES) (\<lambda>_.
     and_then (try_fold (read_table Q) tables ([], [])) (\<lambda>(rows, source_rows).
     and_then (case table_rows rows ''pcs_version'' of
                 [v] \<Rightarrow> and_then (row_int v ''id'') (\<lambda>i. if i = 1 then Inr v
                          else Inl ''pcs_version must contain exactly the id=1 row'')
               | _ \<Rightarrow> Inl ''pcs_version must contain exactly the id=1 row'') (\<lambda>v.
     and_then (row_int v ''db_version'') (\<lambda>db_version.
     and_then (row_int v ''api_version'') (\<lambda>api_version.
     if db_version \<noteq> 5 \<or> api_version \<noteq> 4
     then Inl ''only Intel db_version=5/api_version=4 snapshots are supported''
     else Inr \<lparr>sn_rows = rows, sn_entries = [],
               sn_report = \<lparr>rp_source_sha256 = source_hash, rp_db_version = db_version,
                            rp_api_version = api_version, rp_source_rows = source_rows,
                            rp_destination_records = 0\<rparr>\<rparr>))))))"

section \<open>Field checks\<close>

definition ca :: "row \<Rightarrow> string imp" where
  "ca r =
     and_then (row_text r ''ca'') (\<lambda>t.
     let t = to_ascii_uppercase t
     in if t \<noteq> ''PLATFORM'' \<and> t \<noteq> ''PROCESSOR'' then Inl (rw_table r @ ''.ca: unsupported CA'') else Inr t)"

type_synonym certificates = "(int \<times> string) list"

definition chain :: "certificates \<Rightarrow> row \<Rightarrow> string \<Rightarrow> string imp" where
  "chain certificates r issuer =
     and_then (row_int r ''root_cert_id'') (\<lambda>root_id.
     if root_id \<noteq> 1 then Inl (rw_table r @ ''.root_cert_id: expected Intel root id=1'')
     else
     and_then (if issuer = ''signing_cert_id'' then Inr 3
               else and_then (ca r) (\<lambda>c. if c = ''PROCESSOR'' then Inr 2 else Inr 4)) (\<lambda>expected_issuer.
     and_then (row_int r issuer) (\<lambda>issuer_id.
     if issuer_id \<noteq> expected_issuer then Inl (rw_table r @ ''.'' @ issuer @ '': inconsistent issuer pointer'')
     else
     and_then (ok_or (rw_table r @ '': missing root certificate join'') (map_of certificates root_id)) (\<lambda>root.
     and_then (ok_or (rw_table r @ '': missing issuer certificate join'') (map_of certificates issuer_id)) (\<lambda>signing.
     Inr (signing @ root))))))"

definition hex_field :: "row \<Rightarrow> string \<Rightarrow> nat \<Rightarrow> string imp" where
  "hex_field r field len =
     and_then (row_text r field) (\<lambda>text.
     if length text \<noteq> len \<or> \<not> list_all is_ascii_hexdigit text
     then Inl (at r field @ '': invalid hex identifier'') else Inr (to_ascii_uppercase text))"

definition row_version :: "row \<Rightarrow> u32 imp" where
  "row_version r =
     and_then (row_int r ''version'') (\<lambda>n.
     if n = 3 \<or> n = 4 then Inr (of_int n) else Inl (rw_table r @ '': unsupported API version''))"

definition row_update :: "row \<Rightarrow> string imp" where
  "row_update r =
     and_then (row_text r ''update_type'') (\<lambda>t.
     if t = ''STANDARD'' then Inr ''STANDARD'' else if t = ''EARLY'' then Inr ''EARLY''
     else Inl (rw_table r @ '': unsupported update_type''))"

definition row_qeid :: "row \<Rightarrow> string imp" where
  "row_qeid r =
     and_then (row_text r ''qe_id'') (\<lambda>i.
     if i = [] \<or> length i > 260 \<or> \<not> list_all is_ascii_hexdigit i
     then Inl (rw_table r @ ''.qe_id: invalid hex identifier'') else Inr (to_ascii_uppercase i))"

definition row_platform_key :: "row \<Rightarrow> (string \<times> string) imp" where
  "row_platform_key r =
     and_then (row_qeid r) (\<lambda>qe. and_then (hex_field r ''pce_id'' 4) (\<lambda>pce. Inr (qe, pce)))"

definition row_credentials :: "ext \<Rightarrow> row \<Rightarrow> (string \<times> string) imp" where
  "row_credentials E r =
     and_then (row_blob r ''enc_ppid'') (\<lambda>ppid.
     if ppid \<noteq> [] \<and> length ppid \<noteq> 384
     then Inl (rw_table r @ ''.enc_ppid: expected 384-byte encrypted PPID'')
     else
     and_then (row_blob r ''platform_manifest'') (\<lambda>manifest.
     Inr (x_hex_encode_upper E ppid, x_hex_encode_upper E manifest)))"

definition signed_document :: "ext \<Rightarrow> string \<Rightarrow> string \<Rightarrow> json imp" where
  "signed_document E raw_body field =
     and_then (ok_or (field @ '': invalid JSON'') (x_json_from_slice E (as_bytes raw_body))) (\<lambda>document.
     if (case get_str document ''signature'' of None \<Rightarrow> True | Some s \<Rightarrow> s = [])
     then Inl (field @ '': missing signature'') else Inr document)"

text \<open>\<open>parses\<close>: whether the bytes are one DER \<open>CertificateList\<close>.\<close>

definition der_crl :: "(bytes \<Rightarrow> bool) \<Rightarrow> bytes \<Rightarrow> string \<Rightarrow> bytes imp" where
  "der_crl parses bytes table = (if parses bytes then Inr bytes else Inl (table @ '': invalid DER CRL''))"

section \<open>Certificates and TCB infos\<close>

type_synonym entries = "(string \<times> bytes) list"

definition add_entry :: "'r codec \<Rightarrow> string \<Rightarrow> 'r \<Rightarrow> entries \<Rightarrow> entries imp" where
  "add_entry C key r es =
     and_then (ok_or ''serialize record'' (enc C r)) (\<lambda>bytes.
     insert_new (''duplicate canonical destination key: '' @ key) key bytes es)"

definition certificate_row :: "row \<Rightarrow> certificates \<Rightarrow> certificates imp" where
  "certificate_row r certificates =
     and_then (row_int r ''id'') (\<lambda>i.
     if \<not> (1 \<le> i \<and> i \<le> 4) then Inl ''unsupported pcs_certificates id''
     else
     and_then (row_text r ''cert'') (\<lambda>cert.
     if cert = [] \<or> CHR 0x0D \<in> set cert \<or> CHR 0x0A \<in> set cert \<or>
        \<not> starts_with cert ''-----BEGIN%20CERTIFICATE-----'' \<or> \<not> contains_str cert ''-----END%20CERTIFICATE-----''
     then Inl ''pcs_certificates.cert: expected URL-encoded PEM''
     else insert_new ''pcs_certificates: duplicate id'' i cert certificates))"

definition tcb_record_of :: "ext \<Rightarrow> certificates \<Rightarrow> row \<Rightarrow> tcb_record imp" where
  "tcb_record_of E certificates r =
     and_then (row_text r ''tcbinfo'') (\<lambda>raw_body.
     and_then (signed_document E raw_body ''fmspc_tcbs.tcbinfo'') (\<lambda>tcbinfo.
     and_then (row_int r ''type'') (\<lambda>ty.
     and_then (if ty = 0 then Inr 0 else if ty = 1 then Inr 1 else Inl ''fmspc_tcbs: unsupported type'') (\<lambda>prod_type :: u8.
     and_then (hex_field r ''fmspc'' 12) (\<lambda>fmspc.
     and_then (row_version r) (\<lambda>version.
     and_then (ok_or ''fmspc_tcbs: missing tcbInfo'' (jget tcbinfo ''tcbInfo'')) (\<lambda>info.
     let expected_id = (if prod_type = 0 then ''SGX'' else ''TDX'');
         valid_id = (get_str info ''id'' = Some expected_id \<or>
                     version = 3 \<and> prod_type = 0 \<and> jget info ''id'' = None)
     in if map_option to_ascii_uppercase (get_str info ''fmspc'') \<noteq> Some fmspc \<or> \<not> valid_id
        then Inl ''fmspc_tcbs: document identity does not match row''
        else
        and_then (row_update r) (\<lambda>update_type.
        and_then (chain certificates r ''signing_cert_id'') (\<lambda>issuer_chain.
        Inr \<lparr>tr_prod_type = prod_type, tr_fmspc = fmspc, tr_version = version, tr_update_type = update_type,
             tr_tcbinfo = tcbinfo, tr_raw_body = raw_body, tr_issuer_chain = issuer_chain\<rparr>)))))))))"

definition tcb_row :: "ext \<Rightarrow> serde \<Rightarrow> certificates \<Rightarrow> row \<Rightarrow> entries \<Rightarrow> entries imp" where
  "tcb_row E S certificates r es =
     and_then (tcb_record_of E certificates r) (\<lambda>rec.
     add_entry (sd_tcb S) (key_tcb (prod_name (tr_prod_type rec)) (tr_version rec) (tr_fmspc rec) (tr_update_type rec))
       rec es)"

section \<open>Platforms\<close>

definition chain_row :: "certificates \<Rightarrow> row \<Rightarrow> (string \<times> string) list \<Rightarrow> (string \<times> string) list imp" where
  "chain_row certificates r known =
     and_then (ca r) (\<lambda>c.
     and_then (chain certificates r ''intmd_cert_id'') (\<lambda>ch.
     insert_new ''pck_certchain: duplicate canonical CA'' c ch known))"

type_synonym pools = "((string \<times> string) \<times> platform_pool) list"

definition platform_row :: "ext \<Rightarrow> (string \<times> string) list \<Rightarrow> row \<Rightarrow> pools \<Rightarrow> pools imp" where
  "platform_row E known r pools =
     and_then (row_platform_key r) (\<lambda>(qe_id, pce_id).
     and_then (row_credentials E r) (\<lambda>(enc_ppid, platform_manifest).
     and_then (nullable_text r ''fmspc'') (\<lambda>fmspc.
     let fmspc = to_ascii_uppercase fmspc
     in if fmspc \<noteq> [] \<and> (length fmspc \<noteq> 12 \<or> \<not> list_all is_ascii_hexdigit fmspc)
        then Inl ''platforms.fmspc: invalid hex identifier''
        else
        and_then (nullable_text r ''ca'') (\<lambda>t.
        and_then (if t = [] then Inr [] else ca r) (\<lambda>c.
        insert_new ''platforms: duplicate canonical platform'' (qe_id, pce_id)
          \<lparr>pp_qe_id = qe_id, pp_pce_id = pce_id, pp_enc_ppid = enc_ppid, pp_platform_manifest = platform_manifest,
           pp_fmspc = fmspc, pp_ca = c, pp_issuer_chain = unwrap_or [] (map_of known c), pp_certs = [],
           pp_raw_tcbs = []\<rparr> pools)))))"

type_synonym ppids = "((string \<times> string) \<times> string) list"

definition check_pck :: "pck_cert_info \<Rightarrow> platform_pool \<Rightarrow> string \<Rightarrow> unit imp" where
  "check_pck parsed pool tcbm =
     and_then (if ci_version parsed \<noteq> 3 \<or> ci_pce_id parsed \<noteq> pp_pce_id pool \<or> ci_fmspc parsed \<noteq> pp_fmspc pool \<or>
                  ci_ca parsed \<noteq> pp_ca pool \<or> ci_cpusvn parsed \<noteq> take 32 tcbm
               then Inr True
               else and_then (ok_or ''pck_cert: invalid TCBm'' (little_endian_hex_to_int (drop 32 tcbm)))
                      (\<lambda>n. Inr (ci_pcesvn parsed \<noteq> n))) (\<lambda>mismatch.
     if mismatch then Inl ''pck_cert: certificate metadata/TCBm does not match platform row'' else Inr ())"

definition pck_cert_row :: "ext \<Rightarrow> row \<Rightarrow> pools \<times> ppids \<Rightarrow> (pools \<times> ppids) imp" where
  "pck_cert_row E r = (\<lambda>(pools, ppids).
     and_then (row_platform_key r) (\<lambda>key.
     and_then (ok_or ''pck_cert: missing platform join'' (map_of pools key)) (\<lambda>pool.
     and_then (hex_field r ''tcbm'' 36) (\<lambda>tcbm.
     and_then (row_text r ''pck_cert'') (\<lambda>cert.
     and_then (map_err (\<lambda>_. ''pck_cert: invalid SGX PCK certificate'') (parse_pck_cert E cert)) (\<lambda>parsed.
     and_then (check_pck parsed pool tcbm) (\<lambda>_.
     if pp_issuer_chain pool = [] then Inl ''pck_cert: missing issuer chain join''
     else if (case map_of ppids key of Some previous \<Rightarrow> previous \<noteq> ci_ppid parsed | None \<Rightarrow> False)
     then Inl ''pck_cert: mixed PPIDs in a platform pool''
     else if list_ex (\<lambda>c. pt_tcbm c = tcbm) (pp_certs pool) then Inl ''pck_cert: duplicate canonical TCBm''
     else Inr (btree_insert key (pool\<lparr>pp_certs := pp_certs pool @ [\<lparr>pt_tcbm = tcbm, pt_cert = cert\<rparr>]\<rparr>) pools,
               btree_insert key (ci_ppid parsed) ppids))))))))"

definition raw_tcb_record :: "platform_pool \<Rightarrow> raw_tcb \<Rightarrow> platform_cert \<Rightarrow> pckcert_record" where
  "raw_tcb_record pool raw cert =
     \<lparr>pk_qeid = pp_qe_id pool, pk_pceid = pp_pce_id pool, pk_cpusvn = rt_cpu_svn raw, pk_pcesvn = rt_pce_svn raw,
      pk_cert = pt_cert cert, pk_tcbm = rt_tcbm raw, pk_fmspc = pp_fmspc pool, pk_ca = pp_ca pool,
      pk_issuer_chain = pp_issuer_chain pool,
      pk_encrypted_ppid = (if pp_enc_ppid pool = [] then None else Some (pp_enc_ppid pool)),
      pk_platform_manifest = pp_platform_manifest pool\<rparr>"

definition platform_tcb_row :: "serde \<Rightarrow> row \<Rightarrow> pools \<times> entries \<Rightarrow> (pools \<times> entries) imp" where
  "platform_tcb_row S r = (\<lambda>(pools, es).
     and_then (row_platform_key r) (\<lambda>key.
     and_then (ok_or ''platform_tcbs: missing platform join'' (map_of pools key)) (\<lambda>pool.
     and_then (hex_field r ''cpu_svn'' 32) (\<lambda>cpu_svn.
     and_then (hex_field r ''pce_svn'' 4) (\<lambda>pce_svn.
     and_then (hex_field r ''tcbm'' 36) (\<lambda>tcbm.
     and_then (ok_or ''platform_tcbs: missing PCK certificate join'' (find (\<lambda>c. pt_tcbm c = tcbm) (pp_certs pool))) (\<lambda>cert.
     if list_ex (\<lambda>t. rt_cpu_svn t = cpu_svn \<and> rt_pce_svn t = pce_svn) (pp_raw_tcbs pool)
     then Inl ''platform_tcbs: duplicate canonical raw TCB''
     else
     let raw = \<lparr>rt_cpu_svn = cpu_svn, rt_pce_svn = pce_svn, rt_tcbm = tcbm\<rparr>;
         rec = raw_tcb_record pool raw cert
     in and_then (add_entry (sd_pckcert S) (key_pckcert (pk_qeid rec) (pk_pceid rec) (pk_cpusvn rec) (pk_pcesvn rec)) rec es) (\<lambda>es.
        Inr (btree_insert key (pool\<lparr>pp_raw_tcbs := pp_raw_tcbs pool @ [raw]\<rparr>) pools, es)))))))))"

definition pool_entry :: "serde \<Rightarrow> platform_pool \<Rightarrow> entries \<Rightarrow> entries imp" where
  "pool_entry S pool es = add_entry (sd_platform S) (key_platform (pp_qe_id pool) (pp_pce_id pool)) pool es"

definition convert_platforms ::
  "ext \<Rightarrow> serde \<Rightarrow> (string \<times> row list) list \<Rightarrow> certificates \<Rightarrow> entries \<Rightarrow> entries imp" where
  "convert_platforms E S rows certificates es =
     and_then (try_fold (chain_row certificates) (table_rows rows ''pck_certchain'') []) (\<lambda>known.
     and_then (try_fold (platform_row E known) (table_rows rows ''platforms'') []) (\<lambda>pools.
     and_then (try_fold (pck_cert_row E) (table_rows rows ''pck_cert'') (pools, [])) (\<lambda>(pools, ppids).
     and_then (try_fold (platform_tcb_row S) (table_rows rows ''platform_tcbs'') (pools, es)) (\<lambda>(pools, es).
     try_fold (pool_entry S) (map snd pools) es))))"

section \<open>Identities and revocation lists\<close>

definition identity_record_of :: "ext \<Rightarrow> certificates \<Rightarrow> row \<Rightarrow> identity_record imp" where
  "identity_record_of E certificates r =
     and_then (row_int r ''id'') (\<lambda>n.
     and_then (if 1 \<le> n \<and> n \<le> 3 then Inr (of_int n) else Inl ''enclave_identities: unsupported id'') (\<lambda>enclave_id :: u8.
     and_then (row_text r ''identity'') (\<lambda>raw_body.
     and_then (signed_document E raw_body ''enclave_identities.identity'') (\<lambda>identity.
     let expected = (if enclave_id = 1 then ''QE'' else if enclave_id = 2 then ''QVE'' else ''TD_QE'')
     in if Option.bind (jget identity ''enclaveIdentity'') (\<lambda>i. get_str i ''id'') \<noteq> Some expected
        then Inl ''enclave_identities: document identity does not match row''
        else
        and_then (row_version r) (\<lambda>version.
        and_then (row_update r) (\<lambda>update_type.
        and_then (chain certificates r ''signing_cert_id'') (\<lambda>issuer_chain.
        Inr \<lparr>ir_enclave_id = enclave_id, ir_version = version, ir_update_type = update_type, ir_identity = identity,
             ir_raw_body = raw_body, ir_issuer_chain = issuer_chain\<rparr>)))))))"

definition identity_row :: "ext \<Rightarrow> serde \<Rightarrow> certificates \<Rightarrow> row \<Rightarrow> entries \<Rightarrow> entries imp" where
  "identity_row E S certificates r es =
     and_then (identity_record_of E certificates r) (\<lambda>rec.
     add_entry (sd_identity S) (key_identity (identity_name (ir_enclave_id rec)) (ir_version rec) (ir_update_type rec)) rec es)"

definition root_crl_row :: "serde \<Rightarrow> (bytes \<Rightarrow> bool) \<Rightarrow> row \<Rightarrow> entries \<Rightarrow> entries imp" where
  "root_crl_row S parses r es =
     and_then (row_blob r ''crl'') (\<lambda>crl.
     if crl = [] then Inr es
     else
     and_then (row_int r ''id'') (\<lambda>i.
     if i \<noteq> 1 then Inl ''pcs_certificates: unsupported non-root CRL''
     else
     and_then (der_crl parses crl ''pcs_certificates.crl'') (\<lambda>crl.
     and_then (ok_or [] (enc (sd_rootcacrl S) crl)) (\<lambda>bytes.
     insert_new ''duplicate root CA CRL'' key_rootcacrl bytes es))))"

definition pckcrl_record_of :: "(bytes \<Rightarrow> bool) \<Rightarrow> certificates \<Rightarrow> row \<Rightarrow> pckcrl_record imp" where
  "pckcrl_record_of parses certificates r =
     and_then (ca r) (\<lambda>c.
     and_then (row_blob r ''pck_crl'') (\<lambda>b.
     and_then (der_crl parses b ''pck_crl'') (\<lambda>crl.
     and_then (chain certificates r ''intmd_cert_id'') (\<lambda>ch.
     Inr \<lparr>pl_ca = c, pl_pckcrl = crl, pl_issuer_chain = ch\<rparr>))))"

definition pckcrl_row :: "serde \<Rightarrow> (bytes \<Rightarrow> bool) \<Rightarrow> certificates \<Rightarrow> row \<Rightarrow> entries \<Rightarrow> entries imp" where
  "pckcrl_row S parses certificates r es =
     and_then (pckcrl_record_of parses certificates r) (\<lambda>rec. add_entry (sd_pckcrl S) (key_pckcrl (pl_ca rec)) rec es)"

definition crl_record_of :: "(bytes \<Rightarrow> bool) \<Rightarrow> row \<Rightarrow> crl_record imp" where
  "crl_record_of parses r =
     and_then (row_text r ''cdp_url'') (\<lambda>uri.
     if \<not> is_valid_crl_uri uri then Inl ''crl_cache: unsupported CDP URI''
     else
     and_then (row_blob r ''crl'') (\<lambda>b.
     and_then (der_crl parses b ''crl_cache'') (\<lambda>crl. Inr \<lparr>cr_uri = uri, cr_crl = crl\<rparr>)))"

definition crl_row :: "serde \<Rightarrow> (bytes \<Rightarrow> bool) \<Rightarrow> row \<Rightarrow> entries \<Rightarrow> entries imp" where
  "crl_row S parses r es =
     and_then (crl_record_of parses r) (\<lambda>rec. add_entry (sd_crl S) (key_crl (cr_uri rec)) rec es)"

definition convert_collateral ::
  "ext \<Rightarrow> serde \<Rightarrow> (bytes \<Rightarrow> bool) \<Rightarrow> (string \<times> row list) list \<Rightarrow> certificates \<Rightarrow> entries \<Rightarrow> entries imp" where
  "convert_collateral E S parses rows certificates es =
     and_then (try_fold (identity_row E S certificates) (table_rows rows ''enclave_identities'') es) (\<lambda>es.
     and_then (try_fold (root_crl_row S parses) (table_rows rows ''pcs_certificates'') es) (\<lambda>es.
     and_then (try_fold (pckcrl_row S parses certificates) (table_rows rows ''pck_crl'') es) (\<lambda>es.
     try_fold (crl_row S parses) (table_rows rows ''crl_cache'') es)))"

section \<open>Registrations and policies\<close>

definition check_raw_svns :: "string \<Rightarrow> string \<Rightarrow> u8 \<Rightarrow> unit imp" where
  "check_raw_svns cpu_svn pce_svn state =
     (let hex_svn = (length pce_svn = 4 \<and> list_all is_ascii_hexdigit pce_svn);
          decimal_svn = (state \<in> {1, 9} \<and> list_all is_ascii_digit pce_svn \<and> parse_uint (2 ^ 16) pce_svn \<noteq> None)
      in if cpu_svn \<noteq> [] \<and> (length cpu_svn \<noteq> 32 \<or> \<not> list_all is_ascii_hexdigit cpu_svn)
         then Inl ''platforms_registered.cpu_svn: invalid raw SVN''
         else if \<not> (pce_svn = [] \<or> hex_svn \<or> decimal_svn)
         then Inl ''platforms_registered.pce_svn: invalid raw SVN'' else Inr ())"

definition registered_of :: "ext \<Rightarrow> row \<Rightarrow> registered_platform imp" where
  "registered_of E r =
     and_then (row_platform_key r) (\<lambda>(qe_id, pce_id).
     and_then (row_credentials E r) (\<lambda>(enc_ppid, platform_manifest).
     and_then (row_int r ''state'') (\<lambda>n.
     if n \<notin> {0, 1, 9} then Inl ''platforms_registered: unsupported state''
     else
     and_then (row_text r ''cpu_svn'') (\<lambda>cpu.
     and_then (row_text r ''pce_svn'') (\<lambda>pce.
     let state = of_int n :: u8; cpu_svn = to_ascii_uppercase cpu; pce_svn = to_ascii_uppercase pce
     in and_then (check_raw_svns cpu_svn pce_svn state) (\<lambda>_.
        Inr \<lparr>rg_qe_id = qe_id, rg_pce_id = pce_id, rg_cpu_svn = cpu_svn, rg_pce_svn = pce_svn,
             rg_enc_ppid = enc_ppid, rg_platform_manifest = platform_manifest, rg_state = state\<rparr>))))))"

definition registered_row :: "ext \<Rightarrow> serde \<Rightarrow> row \<Rightarrow> entries \<Rightarrow> entries imp" where
  "registered_row E S r es =
     and_then (registered_of E r) (\<lambda>rec.
     add_entry (sd_reg S) (key_preg (rg_qe_id rec) (rg_pce_id rec) (rg_cpu_svn rec) (rg_pce_svn rec)) rec es)"

definition policy_of :: "ext \<Rightarrow> row \<Rightarrow> appraisal_policy imp" where
  "policy_of E r =
     and_then (row_text r ''policy'') (\<lambda>policy.
     and_then (hex_field r ''id'' 96) (\<lambda>i.
     let pid = to_ascii_lowercase i
     in if policy = [] \<or> pid \<noteq> sha384_hex E policy then Inl ''appraisal_policies: policy hash mismatch''
        else
        and_then (row_int r ''type'') (\<lambda>n.
        if \<not> (0 \<le> n \<and> n \<le> 2) then Inl ''appraisal_policies: unsupported type''
        else
        and_then (row_int r ''is_default'') (\<lambda>d.
        if d \<noteq> 0 \<and> d \<noteq> 1 then Inl ''appraisal_policies: unsupported is_default''
        else
        and_then (hex_field r ''fmspc'' 12) (\<lambda>fmspc.
        Inr \<lparr>po_id = pid, po_fmspc = fmspc, po_is_default = (d = 1), po_policy = policy, po_policy_type = of_int n\<rparr>)))))"

type_synonym policies = "(string \<times> appraisal_policy list) list"

definition policy_row :: "ext \<Rightarrow> row \<Rightarrow> policies \<Rightarrow> policies imp" where
  "policy_row E r policies =
     and_then (policy_of E r) (\<lambda>p.
     let entries = unwrap_or [] (map_of policies (po_fmspc p))
     in if list_ex (\<lambda>q. po_id q = po_id p) entries then Inl ''appraisal_policies: duplicate canonical policy''
        else Inr (btree_insert (po_fmspc p) (entries @ [p]) policies))"

definition policies_entry :: "serde \<Rightarrow> string \<times> appraisal_policy list \<Rightarrow> entries \<Rightarrow> entries imp" where
  "policies_entry S = (\<lambda>(fmspc, policies) es. add_entry (sd_appraisal S) (key_appraisal fmspc) policies es)"

definition convert_queue_and_policies ::
  "ext \<Rightarrow> serde \<Rightarrow> (string \<times> row list) list \<Rightarrow> entries \<Rightarrow> entries imp" where
  "convert_queue_and_policies E S rows es =
     and_then (try_fold (registered_row E S) (table_rows rows ''platforms_registered'') es) (\<lambda>es.
     and_then (try_fold (policy_row E) (table_rows rows ''appraisal_policies'') []) (\<lambda>policies.
     try_fold (policies_entry S) policies es))"

definition convert_entries ::
  "ext \<Rightarrow> serde \<Rightarrow> (bytes \<Rightarrow> bool) \<Rightarrow> (string \<times> row list) list \<Rightarrow> entries \<Rightarrow> entries imp" where
  "convert_entries E S parses rows es =
     and_then (try_fold certificate_row (table_rows rows ''pcs_certificates'') []) (\<lambda>certificates.
     and_then (try_fold (tcb_row E S certificates) (table_rows rows ''fmspc_tcbs'') es) (\<lambda>es.
     and_then (convert_platforms E S rows certificates es) (\<lambda>es.
     and_then (convert_collateral E S parses rows certificates es) (\<lambda>es.
     convert_queue_and_policies E S rows es))))"

definition convert :: "ext \<Rightarrow> serde \<Rightarrow> (bytes \<Rightarrow> bool) \<Rightarrow> snapshot \<Rightarrow> snapshot imp" where
  "convert E S parses sn =
     and_then (convert_entries E S parses (sn_rows sn) (sn_entries sn)) (\<lambda>es. Inr (sn\<lparr>sn_entries := es\<rparr>))"

section \<open>Publication\<close>

text \<open>A path holds a directory, with the database and the report in it, or something foreign. Before each
  step other processes may change the file system (\<open>di_others\<close>), and each step may report an error
  (\<open>di_fails\<close>). \<open>di_fresh\<close> is the database that opening an empty directory creates.\<close>

datatype 'db node = Dir "'db option" "import_report option" | Foreign nat

type_synonym 'db fs = "string \<rightharpoonup> 'db node"

datatype publish_step =
    MkDir | OpenStaging | WriteStaging | FlushStaging | ReopenStaging | WriteReport | SyncReport | SyncStaging
  | Rename | SyncParent | RemoveStaging

record 'db disk =
  di_rocks :: "'db rocks"
  di_fresh :: 'db
  di_others :: "publish_step \<Rightarrow> 'db fs \<Rightarrow> 'db fs"
  di_fails :: "publish_step \<Rightarrow> bool"

type_synonym ('db, 'a) fs_act = "'db fs \<Rightarrow> 'a imp \<times> 'db fs"

definition fs_step :: "'db disk \<Rightarrow> publish_step \<Rightarrow> string \<Rightarrow> ('db fs \<Rightarrow> ('a \<times> 'db fs) option) \<Rightarrow> ('db, 'a) fs_act" where
  "fs_step D st e f fs =
     (let fs = di_others D st fs
      in if di_fails D st then (Inl e, fs) else case f fs of None \<Rightarrow> (Inl e, fs) | Some (x, fs) \<Rightarrow> (Inr x, fs))"

definition fs_then :: "('db, 'a) fs_act \<Rightarrow> ('a \<Rightarrow> ('db, 'b) fs_act) \<Rightarrow> ('db, 'b) fs_act" where
  "fs_then m f fs = (case m fs of (Inl e, fs) \<Rightarrow> (Inl e, fs) | (Inr x, fs) \<Rightarrow> f x fs)"

definition private_directory :: "'db disk \<Rightarrow> string \<Rightarrow> ('db, unit) fs_act" where
  "private_directory D path =
     fs_step D MkDir ''create private destination''
       (\<lambda>fs. if fs path \<noteq> None then None else Some ((), fs(path \<mapsto> Dir None None)))"

definition open_staging :: "'db disk \<Rightarrow> string \<Rightarrow> ('db, 'db) fs_act" where
  "open_staging D staging =
     fs_step D OpenStaging ''open staging RocksDB'' (\<lambda>fs.
       case fs staging of
         Some (Dir d rep) \<Rightarrow> (let db = unwrap_or (di_fresh D) d in Some (db, fs(staging \<mapsto> Dir (Some db) rep)))
       | _ \<Rightarrow> None)"

definition write_staging :: "'db disk \<Rightarrow> string \<Rightarrow> entries \<Rightarrow> 'db \<Rightarrow> ('db, unit) fs_act" where
  "write_staging D staging es db =
     fs_step D WriteStaging ''write staging RocksDB'' (\<lambda>fs.
       case fs staging of
         Some (Dir _ rep) \<Rightarrow>
           (case rk_write (di_rocks D) db (map (\<lambda>(key, val). Put (as_bytes key) val) es) of
              Inl _ \<Rightarrow> None
            | Inr db \<Rightarrow> Some ((), fs(staging \<mapsto> Dir (Some db) rep)))
       | _ \<Rightarrow> None)"

definition reopen_staging :: "'db disk \<Rightarrow> string \<Rightarrow> ('db, 'db) fs_act" where
  "reopen_staging D staging =
     fs_step D ReopenStaging ''reopen staging'' (\<lambda>fs.
       case fs staging of Some (Dir (Some db) _) \<Rightarrow> Some (db, fs) | _ \<Rightarrow> None)"

fun verify_entries :: "entries \<Rightarrow> (unit + bytes \<times> bytes) list \<Rightarrow> nat \<Rightarrow> nat imp" where
  "verify_entries es [] n = Inr n"
| "verify_entries es (Inl e # items) n = Inl ''readback staging''"
| "verify_entries es (Inr (k, v) # items) n =
     (case from_utf8 k of
        None \<Rightarrow> Inl ''invalid staging key''
      | Some key \<Rightarrow>
          if map_of es key \<noteq> Some v then Inl ''staging record failed byte-exact verification''
          else verify_entries es items (n + 1))"

definition verify_staging :: "'db disk \<Rightarrow> entries \<Rightarrow> 'db \<Rightarrow> unit imp" where
  "verify_staging D es db =
     and_then (verify_entries es (rk_iter (di_rocks D) db []) 0) (\<lambda>n.
     if n \<noteq> length es then Inl ''staging record count mismatch'' else Inr ())"

definition write_report :: "'db disk \<Rightarrow> string \<Rightarrow> import_report \<Rightarrow> ('db, unit) fs_act" where
  "write_report D staging report =
     fs_step D WriteReport ''write report'' (\<lambda>fs.
       case fs staging of Some (Dir d _) \<Rightarrow> Some ((), fs(staging \<mapsto> Dir d (Some report))) | _ \<Rightarrow> None)"

definition sync_path :: "'db disk \<Rightarrow> publish_step \<Rightarrow> string \<Rightarrow> ('db, unit) fs_act" where
  "sync_path D st e = fs_step D st e (\<lambda>fs. Some ((), fs))"

text \<open>\<open>renameat2\<close> with \<open>RENAME_NOREPLACE\<close>, one operation of the kernel.\<close>

definition publish_directory :: "'db disk \<Rightarrow> string \<Rightarrow> string \<Rightarrow> ('db, unit) fs_act" where
  "publish_directory D staging destination =
     fs_step D Rename ''publish destination'' (\<lambda>fs.
       if fs staging = None \<or> fs destination \<noteq> None then None
       else Some ((), fs(destination := fs staging, staging := None)))"

definition fill_and_publish :: "'db disk \<Rightarrow> snapshot \<Rightarrow> string \<Rightarrow> string \<Rightarrow> ('db, unit) fs_act" where
  "fill_and_publish D sn staging destination =
     fs_then (open_staging D staging) (\<lambda>db.
     fs_then (write_staging D staging (sn_entries sn) db) (\<lambda>_.
     fs_then (sync_path D FlushStaging ''flush staging RocksDB'') (\<lambda>_.
     fs_then (reopen_staging D staging) (\<lambda>db.
     fs_then (\<lambda>fs. (verify_staging D (sn_entries sn) db, fs)) (\<lambda>_.
     fs_then (write_report D staging (sn_report sn)) (\<lambda>_.
     fs_then (sync_path D SyncReport ''sync report'') (\<lambda>_.
     fs_then (sync_path D SyncStaging ''sync staging directory'') (\<lambda>_.
     fs_then (publish_directory D staging destination) (\<lambda>_.
     sync_path D SyncParent ''destination published but parent directory sync failed; inspect before retry'')))))))))"

definition publish :: "'db disk \<Rightarrow> snapshot \<Rightarrow> string \<Rightarrow> string \<Rightarrow> ('db, unit) fs_act" where
  "publish D sn staging destination =
     fs_then (private_directory D staging) (\<lambda>_ fs.
       case fill_and_publish D sn staging destination fs of
         (Inr u, fs) \<Rightarrow> (Inr u, fs)
       | (Inl e, fs) \<Rightarrow>
           (let fs = di_others D RemoveStaging fs
            in (Inl e, if di_fails D RemoveStaging then fs else fs(staging := None))))"

section \<open>The import\<close>

text \<open>What the import sees of the source file: its type, its side files, its bytes at the two readings, and
  the read-only connection with its integrity check.\<close>

record source =
  so_regular :: "bool imp"
  so_sidecar :: "string \<Rightarrow> bool"
  so_bytes :: "bytes imp"
  so_sqlite :: "sqlite imp"
  so_integrity :: "string imp"
  so_bytes_after :: "bytes imp"

definition hash_file :: "ext \<Rightarrow> bytes imp \<Rightarrow> string imp" where
  "hash_file E contents = and_then contents (\<lambda>b. Inr (x_hex_encode E (x_sha256 E b)))"

definition prepare :: "ext \<Rightarrow> serde \<Rightarrow> (bytes \<Rightarrow> bool) \<Rightarrow> source \<Rightarrow> snapshot imp" where
  "prepare E S parses src =
     and_then (so_regular src) (\<lambda>regular.
     if \<not> regular then Inl ''source must be a regular standalone SQLite snapshot''
     else if list_ex (so_sidecar src) [''-wal'', ''-shm'', ''-journal'']
     then Inl ''source has SQLite sidecars; use VACUUM INTO, not a live database''
     else
     and_then (hash_file E (so_bytes src)) (\<lambda>source_hash.
     and_then (so_sqlite src) (\<lambda>Q.
     and_then (so_integrity src) (\<lambda>integrity.
     if integrity \<noteq> ''ok'' then Inl ''SQLite integrity check failed''
     else
     and_then (read_snapshot Q source_hash) (\<lambda>sn.
     and_then (convert E S parses sn) (\<lambda>sn.
     and_then (hash_file E (so_bytes_after src)) (\<lambda>after.
     if after \<noteq> rp_source_sha256 (sn_report sn)
     then Inl ''source changed during import; obtain a stable snapshot''
     else Inr (sn\<lparr>sn_report := (sn_report sn)\<lparr>rp_destination_records := length (sn_entries sn)\<rparr>\<rparr>))))))))"

definition import_intel ::
  "ext \<Rightarrow> serde \<Rightarrow> (bytes \<Rightarrow> bool) \<Rightarrow> 'db disk \<Rightarrow> source \<Rightarrow> string \<Rightarrow> string \<Rightarrow> ('db, import_report) fs_act" where
  "import_intel E S parses D src staging destination fs =
     (if fs destination \<noteq> None then (Inl ''destination already exists; use a fresh directory'', fs)
      else case prepare E S parses src of
             Inl e \<Rightarrow> (Inl e, fs)
           | Inr sn \<Rightarrow> fs_then (publish D sn staging destination) (\<lambda>_ fs. (Inr (sn_report sn), fs)) fs)"

end
