(* ===== verification/Import_Publish.thy ===== *)
theory Import_Publish
  imports Import
begin

text \<open>
  Publishing an import. The destination appears in one step, complete and verified, or not at all; a path
  that another process puts there is never replaced. The read-back is what the guarantee rests on: it does
  not depend on what the write did.
\<close>

section \<open>Steps\<close>

lemma fs_then_Inr:
  "fs_then m f fs = (Inr y, fs'') \<longleftrightarrow> (\<exists>x fs'. m fs = (Inr x, fs') \<and> f x fs' = (Inr y, fs''))"
  by (auto simp: fs_then_def split: prod.splits sum.splits)

lemma fs_step_Inr:
  "fs_step D st e f fs = (Inr x, fs') \<longleftrightarrow> \<not> di_fails D st \<and> f (di_others D st fs) = Some (x, fs')"
  by (auto simp: fs_step_def Let_def split: option.splits)

definition keeps :: "('db fs \<Rightarrow> bool) \<Rightarrow> ('db, 'a) fs_act \<Rightarrow> bool" where
  "keeps P m \<longleftrightarrow> (\<forall>fs. P fs \<longrightarrow> P (snd (m fs)))"

lemma publish_Inr:
  "publish D sn staging destination fs = (Inr u, fs') \<Longrightarrow>
     \<exists>fs0. fill_and_publish D sn staging destination fs0 = (Inr u, fs')"
proof -
  assume "publish D sn staging destination fs = (Inr u, fs')"
  then obtain fs0 where "(case fill_and_publish D sn staging destination fs0 of
      (Inl e, fs) \<Rightarrow> let fs = di_others D RemoveStaging fs in (Inl e, if di_fails D RemoveStaging then fs else fs(staging := None))
    | (Inr u, fs) \<Rightarrow> (Inr u, fs)) = (Inr u, fs')"
    by (auto simp: publish_def fs_then_Inr)
  then show ?thesis
    by (cases "fill_and_publish D sn staging destination fs0"; cases "fst (fill_and_publish D sn staging destination fs0)")
      (auto simp: Let_def)
qed

text \<open>A property of the file system that other processes keep, and the steps of the import that keep it.\<close>

locale kept =
  fixes P :: "'db fs \<Rightarrow> bool" and D :: "'db disk"
  assumes others: "P fs \<Longrightarrow> P (di_others D st fs)"
begin

lemma keeps_step: "(\<And>fs x fs'. P fs \<Longrightarrow> f fs = Some (x, fs') \<Longrightarrow> P fs') \<Longrightarrow> keeps P (fs_step D st e f)"
  using others by (fastforce simp: keeps_def fs_step_def Let_def split: option.splits)

lemma keeps_then: "keeps P m \<Longrightarrow> (\<And>x. keeps P (f x)) \<Longrightarrow> keeps P (fs_then m f)"
  unfolding keeps_def fs_then_def by (auto split: prod.splits sum.splits)

lemma keeps_pure: "keeps P (\<lambda>fs. (r, fs))"
  by (simp add: keeps_def)

lemma keeps_sync: "keeps P (sync_path D st e)"
  unfolding sync_path_def by (rule keeps_step) simp

end

text \<open>A property that does not look at the staging directory.\<close>

locale off_staging = kept +
  fixes staging :: string
  assumes staging: "P (fs(staging := n)) \<longleftrightarrow> P fs"
begin

lemma keeps_staging:
  "keeps P (private_directory D staging)" "keeps P (open_staging D staging)"
  "keeps P (write_staging D staging es db)" "keeps P (reopen_staging D staging)" "keeps P (write_report D staging rep)"
  unfolding private_directory_def open_staging_def write_staging_def reopen_staging_def write_report_def
  by (rule keeps_step; auto simp: staging Let_def split: option.splits node.splits sum.splits if_splits)+

end

text \<open>What an error of an operation leaves behind; \<open>published\<close> is the one error reported after the rename.\<close>

abbreviation published :: string where
  "published \<equiv> ''destination published but parent directory sync failed; inspect before retry''"

definition errs_keep :: "('db fs \<Rightarrow> bool) \<Rightarrow> ('db, 'a) fs_act \<Rightarrow> bool" where
  "errs_keep P m \<longleftrightarrow> (\<forall>fs e fs'. P fs \<longrightarrow> m fs = (Inl e, fs') \<longrightarrow> P fs' \<or> e = published)"

lemma errs_keep_then: "keeps P m \<Longrightarrow> (\<And>x. errs_keep P (f x)) \<Longrightarrow> errs_keep P (fs_then m f)"
  unfolding keeps_def errs_keep_def fs_then_def
  by (clarsimp split: prod.splits sum.splits) (metis snd_conv)+

context off_staging begin

lemma errs_keep_fill: "errs_keep P (fill_and_publish D sn staging destination)"
proof -
  have tail: "errs_keep P (fs_then (publish_directory D staging destination) (\<lambda>_. sync_path D SyncParent published))"
    using others
    by (auto simp: errs_keep_def fs_then_def publish_directory_def sync_path_def fs_step_def Let_def
        split: prod.splits sum.splits option.splits if_splits)
  show ?thesis
    unfolding fill_and_publish_def
    by (intro keeps_staging(2-5) [THEN errs_keep_then] keeps_sync [THEN errs_keep_then]
        keeps_pure [THEN errs_keep_then] tail)
qed

lemma errs_keep_publish: "errs_keep P (publish D sn staging destination)"
  unfolding publish_def
proof (rule errs_keep_then [OF keeps_staging(1)], unfold errs_keep_def, intro allI impI)
  fix u :: unit and fs e fs'
  assume "P fs" "(case fill_and_publish D sn staging destination fs of
      (Inl e, fs) \<Rightarrow> let fs = di_others D RemoveStaging fs in (Inl e, if di_fails D RemoveStaging then fs else fs(staging := None))
    | (Inr u, fs) \<Rightarrow> (Inr u, fs)) = (Inl e, fs')"
  then show "P fs' \<or> e = published"
    using errs_keep_fill [of sn destination] others staging
    by (auto simp: errs_keep_def Let_def split: prod.splits sum.splits if_splits)
qed

end

text \<open>A path at the destination blocks the rename.\<close>

locale occupied = off_staging +
  fixes destination :: string
  assumes blocked: "di_others D Rename fs destination \<noteq> None"
begin

lemma rename_fails: "publish_directory D staging destination fs = (Inl ''publish destination'', di_others D Rename fs)"
  using blocked by (simp add: publish_directory_def fs_step_def Let_def)

lemma keeps_rename: "keeps P (publish_directory D staging destination)"
  using others by (simp add: keeps_def rename_fails)

lemma keeps_fill: "keeps P (fill_and_publish D sn staging destination)"
  unfolding fill_and_publish_def by (intro keeps_then keeps_staging keeps_sync keeps_pure keeps_rename)

lemma keeps_publish: "keeps P (publish D sn staging destination)"
  unfolding publish_def
proof (rule keeps_then [OF keeps_staging(1)], unfold keeps_def, intro allI impI)
  fix u :: unit and fs
  assume "P fs"
  then have "P (snd (fill_and_publish D sn staging destination fs))" using keeps_fill by (simp add: keeps_def)
  then show "P (snd (case fill_and_publish D sn staging destination fs of
      (Inl e, fs) \<Rightarrow> let fs = di_others D RemoveStaging fs in (Inl e, if di_fails D RemoveStaging then fs else fs(staging := None))
    | (Inr u, fs) \<Rightarrow> (Inr u, fs)))"
    using others staging by (auto simp: Let_def split: prod.splits sum.splits)
qed

lemma publish_fails: "fst (publish D sn staging destination fs) \<noteq> Inr u"
proof
  assume "fst (publish D sn staging destination fs) = Inr u"
  then obtain fs0 fs' where "fill_and_publish D sn staging destination fs0 = (Inr u, fs')"
    using publish_Inr by (metis prod.collapse)
  then show False by (auto simp: fill_and_publish_def fs_then_Inr rename_fails)
qed

end

section \<open>The read-back\<close>

lemma verify_entries_Inr:
  "verify_entries es items n = Inr m \<Longrightarrow>
     Inl () \<notin> set items \<and> m = n + length items \<and>
     (\<forall>k v. Inr (k, v) \<in> set items \<longrightarrow> (\<exists>key. from_utf8 k = Some key \<and> map_of es key = Some v))"
proof (induction es items n rule: verify_entries.induct)
  case (3 es k v items n)
  then show ?case by (auto split: option.splits if_splits)
qed simp_all

lemma as_bytes_from_utf8: "from_utf8 k = Some key \<Longrightarrow> as_bytes key = k"
  by (auto simp: from_utf8_def as_bytes_of_bytes split: if_splits)

lemma verified_exact:
  assumes "rocks_ok R view" "di_rocks D = R" "distinct (map fst es)" "verify_staging D es db = Inr ()"
  shows "view db k = Some v \<longleftrightarrow> (\<exists>key. k = as_bytes key \<and> map_of es key = Some v)"
proof -
  obtain n where n: "verify_entries es (rk_iter R db []) 0 = Inr n" "n = length es"
    using assms(2,4) by (auto simp: verify_staging_def and_then_Inr split: if_splits)
  note items = verify_entries_Inr [OF n(1)]
  have iter: "rk_iter R db [] = iter_of (view db) []"
    using assms(1) items unfolding rocks_ok_def by (metis in_set_conv_decomp)
  have fin: "finite (dom (view db))" using assms(1) by (simp add: rocks_ok_def)
  have keys: "keys_from (view db) [] = sorted_list_of_set (dom (view db))" by (simp add: keys_from_def)
  have sound: "\<exists>key. k = as_bytes key \<and> map_of es key = Some v" if "view db k = Some v" for k v
  proof -
    have "Inr (k, v) \<in> set (rk_iter R db [])"
      using that fin unfolding iter iter_of_def keys by force
    then show ?thesis using items as_bytes_from_utf8 by metis
  qed
  have "as_bytes ` fst ` set es = dom (view db)"
  proof (rule card_subset_eq [symmetric])
    show "dom (view db) \<subseteq> as_bytes ` fst ` set es"
      using sound by (force dest: map_of_SomeD)
    have "card (dom (view db)) = length es"
      using items n(2) fin by (simp add: iter iter_of_def keys)
    moreover have "card (as_bytes ` fst ` set es) = length es"
      using distinct_card [OF assms(3)] by (simp add: card_image inj_on_def)
    ultimately show "card (dom (view db)) = card (as_bytes ` fst ` set es)" by simp
  qed simp
  then have "view db (as_bytes key) \<noteq> None" if "map_of es key = Some v" for key v
    using that by (force dest: map_of_SomeD)
  then show ?thesis using sound by (metis as_bytes_inj option.exhaust option.inject)
qed

section \<open>Success\<close>

definition leaves :: "'db disk \<Rightarrow> string \<Rightarrow> bool" where
  "leaves D path \<longleftrightarrow> (\<forall>st fs. di_others D st fs path = fs path)"

lemma fill_and_publish_Inr:
  assumes "leaves D staging" "staging \<noteq> destination"
    and "fill_and_publish D sn staging destination fs = (Inr u, fs')"
  shows "\<exists>db f. verify_staging D (sn_entries sn) db = Inr () \<and> fs' = di_others D SyncParent f \<and>
           f destination = Some (Dir (Some db) (Some (sn_report sn))) \<and> f staging = None"
  using assms(3)
  unfolding fill_and_publish_def fs_then_Inr open_staging_def write_staging_def reopen_staging_def write_report_def
    sync_path_def publish_directory_def fs_step_Inr
  using assms(1,2)
  by (auto simp: leaves_def Let_def split: option.splits node.splits sum.splits if_splits)
    (intro exI conjI, assumption, rule refl, simp_all)

text \<open>A successful import leaves at the destination a database with exactly the converted entries.\<close>

lemma import_intel_Inr:
  assumes "rocks_ok (di_rocks D) view" "leaves D staging" "staging \<noteq> destination"
    and "\<And>fs. di_others D SyncParent fs destination = fs destination"
    and "\<And>sn. prepare E S parses src = Inr sn \<Longrightarrow> distinct (map fst (sn_entries sn))"
    and "import_intel E S parses D src staging destination fs = (Inr rep, fs')"
  shows "\<exists>sn db. prepare E S parses src = Inr sn \<and> rep = sn_report sn \<and>
           fs' destination = Some (Dir (Some db) (Some rep)) \<and> fs' staging = None \<and>
           (\<forall>key. view db (as_bytes key) = map_of (sn_entries sn) key) \<and>
           (\<forall>k v. view db k = Some v \<longrightarrow> (\<exists>key. k = as_bytes key))"
proof -
  obtain sn where sn: "prepare E S parses src = Inr sn" "rep = sn_report sn"
    "publish D sn staging destination fs = (Inr (), fs')"
    using assms(6) by (auto simp: import_intel_def fs_then_Inr split: if_splits sum.splits)
  obtain db f where db: "verify_staging D (sn_entries sn) db = Inr ()" "fs' = di_others D SyncParent f"
    "f destination = Some (Dir (Some db) (Some rep))" "f staging = None"
    using fill_and_publish_Inr [OF assms(2,3)] publish_Inr [OF sn(3)] sn(2) by blast
  have "fs' destination = Some (Dir (Some db) (Some rep))" "fs' staging = None"
    using assms(2-4) db by (auto simp: leaves_def)
  moreover note exact = verified_exact [OF assms(1) refl assms(5) [OF sn(1)] db(1)]
  have "view db (as_bytes key) = Some v \<longleftrightarrow> map_of (sn_entries sn) key = Some v" for key v
    by (simp add: exact)
  then have "view db (as_bytes key) = map_of (sn_entries sn) key" for key
    by (metis option.exhaust)
  ultimately show ?thesis using sn(1,2) exact by blast
qed

section \<open>Safety\<close>

text \<open>A publisher that creates the destination just before the rename.\<close>

definition competing :: "string \<Rightarrow> nat \<Rightarrow> 'db disk \<Rightarrow> 'db disk" where
  "competing destination n D =
     D\<lparr>di_others := \<lambda>st fs. if st = Rename then fs(destination \<mapsto> Foreign n) else fs\<rparr>"

interpretation competitor: occupied "\<lambda>f. f (x # staging) = None \<or> f (x # staging) = Some (Foreign n)"
    "competing (x # staging) n D" staging "x # staging" for x staging n D
  by unfold_locales (auto simp: competing_def)

lemma import_raced:
  assumes "\<forall>st f. di_others D st f destination = f destination \<or> di_others D st f destination = Some n"
    and "staging \<noteq> destination" "\<forall>f. di_others D Rename f destination = Some n" "fs destination = None"
  shows "fst (import_intel E S parses D src staging destination fs) \<noteq> Inr rep"
    and "snd (import_intel E S parses D src staging destination fs) destination \<in> {None, Some n}"
proof -
  have *: "occupied (\<lambda>f. f destination = None \<or> f destination = Some n) D staging destination"
  proof unfold_locales
    fix f st assume "f destination = None \<or> f destination = Some n"
    then show "di_others D st f destination = None \<or> di_others D st f destination = Some n"
      using assms(1) [rule_format, of st f] by auto
  qed (use assms(2,3) in simp_all)
  show "fst (import_intel E S parses D src staging destination fs) \<noteq> Inr rep"
    using occupied.publish_fails [OF *, of _ fs "()"]
    by (auto simp: import_intel_def fs_then_def split: if_splits sum.splits prod.splits) (metis fst_conv)
  show "snd (import_intel E S parses D src staging destination fs) destination \<in> {None, Some n}"
    using occupied.keeps_publish [OF *] assms(4)
    by (auto simp: import_intel_def fs_then_def keeps_def split: if_splits sum.splits prod.splits) (metis snd_conv)+
qed

lemma import_failed:
  assumes "leaves D destination" "staging \<noteq> destination" "fs destination = None"
    and "import_intel E S parses D src staging destination fs = (Inl e, fs')" "e \<noteq> published"
  shows "fs' destination = None"
proof -
  have "off_staging (\<lambda>f. f destination = None) D staging"
    using assms by unfold_locales (auto simp: leaves_def)
  then have "errs_keep (\<lambda>f. f destination = None) (publish D sn staging destination)" for sn
    by (rule off_staging.errs_keep_publish)
  then show ?thesis
    using assms(3-5)
    by (auto simp: import_intel_def fs_then_def errs_keep_def split: if_splits sum.splits prod.splits)
qed

lemma import_cleans:
  assumes "leaves D staging" "staging \<noteq> destination" "fs staging = None" "\<not> di_fails D RemoveStaging"
  shows "snd (import_intel E S parses D src staging destination fs) staging = None"
proof -
  have "fs' staging = None" if "publish D sn staging destination fs = (r, fs')" for sn r fs'
  proof (cases r)
    case (Inr u)
    with that obtain fs0 where "fill_and_publish D sn staging destination fs0 = (Inr u, fs')"
      using publish_Inr by blast
    from fill_and_publish_Inr [OF assms(1,2) this] show ?thesis using assms(1) by (auto simp: leaves_def)
  next
    case (Inl e)
    with that show ?thesis
      using assms unfolding publish_def fs_then_def private_directory_def fs_step_def
      by (auto simp: leaves_def Let_def split: prod.splits sum.splits if_splits option.splits)
  qed
  then show ?thesis
    using assms(3) by (auto simp: import_intel_def fs_then_def split: sum.splits prod.splits)
qed


text \<open>A snapshot with the root certificate and its revocation list.\<close>

definition root_pem :: string where
  "root_pem = ''-----BEGIN%20CERTIFICATE-----%0A-----END%20CERTIFICATE-----''"

definition sample_sqlite :: sqlite where
  "sample_sqlite =
     \<lparr>sq_tables = Inr TABLES,
      sq_columns = (\<lambda>query. Inr (unwrap_or [] (map_of (map (\<lambda>table. (quoted_query table, required_columns table)) TABLES) query))),
      sq_rows = (\<lambda>query. Inr (unwrap_or [] (map_of
        [(quoted_query ''pcs_version'', [[SqlInteger 1, SqlInteger 4, SqlInteger 5, SqlText []]]),
         (quoted_query ''pcs_certificates'', [[SqlInteger 1, SqlText root_pem, SqlBlob [1, 2]]])] query)))\<rparr>"

definition sample_source :: source where
  "sample_source =
     \<lparr>so_regular = Inr True, so_sidecar = (\<lambda>_. False), so_bytes = Inr [7], so_sqlite = Inr sample_sqlite,
      so_integrity = Inr ''ok'', so_bytes_after = Inr [7]\<rparr>"

definition quiet_disk :: "mem disk" where
  "quiet_disk = \<lparr>di_rocks = mem_rocks, di_fresh = [], di_others = (\<lambda>_. id), di_fails = (\<lambda>_. False)\<rparr>"

definition root_serde :: serde where
  "root_serde = empty_serde\<lparr>sd_rootcacrl := table_codec [([1, 2], [9])]\<rparr>"

lemma root_serde_ok: "serde_ok root_serde"
  using empty_serde_ok by (simp add: root_serde_def serde_ok_def table_codec_ok)



end
