(* ===== verification/Import_Records.thy ===== *)
theory Import_Records
  imports Import_Publish Fill
begin

text \<open>
  The parts of the conversion of a snapshot: loops that add one record per row, issuer chains that a client
  can verify with, well-formed records of each kind, and platform pools that agree with their certificates
  and raw TCB levels.
\<close>

section \<open>Ordered maps\<close>

lemma map_of_btree_insert [simp]: "map_of (btree_insert k v m) = (map_of m)(k \<mapsto> v)"
  by (induction k v m rule: btree_insert.induct) (auto simp: fun_eq_iff)

lemma set_btree_insert_new: "k \<notin> fst ` set m \<Longrightarrow> set (btree_insert k v m) = insert (k, v) (set m)"
  by (induction k v m rule: btree_insert.induct) auto

lemma keys_btree_insert [simp]: "fst ` set (btree_insert k v m) = insert k (fst ` set m)"
  by (induction k v m rule: btree_insert.induct) auto

lemma distinct_btree_insert:
  "k \<notin> fst ` set m \<Longrightarrow> distinct (map fst m) \<Longrightarrow> distinct (map fst (btree_insert k v m))"
  by (induction k v m rule: btree_insert.induct) auto

lemma btree_insert_elem: "x \<in> set (btree_insert k v m) \<Longrightarrow> x = (k, v) \<or> x \<in> set m"
  by (induction k v m rule: btree_insert.induct) (auto split: if_splits)

lemma insert_new_Inr: "insert_new e k v m = Inr m' \<longleftrightarrow> k \<notin> fst ` set m \<and> m' = btree_insert k v m"
  by (auto simp: insert_new_def map_of_eq_None_iff)

lemma add_entry_Inr:
  "add_entry C key r es = Inr es' \<longleftrightarrow>
     (\<exists>b. enc C r = Some b \<and> key \<notin> fst ` set es \<and> es' = btree_insert key b es)"
  by (auto simp: add_entry_def and_then_Inr insert_new_Inr)

section \<open>Loops that add entries\<close>

lemma try_fold_induct:
  assumes "try_fold f xs s = Inr s'" "P s" "\<And>x s s'. x \<in> set xs \<Longrightarrow> f x s = Inr s' \<Longrightarrow> P s \<Longrightarrow> P s'"
  shows "P s'"
  using assms by (induction xs arbitrary: s) (auto simp: and_then_Inr)

lemma try_fold_each:
  assumes "try_fold f xs s = Inr s'" "x \<in> set xs"
  shows "\<exists>t t'. f x t = Inr t'"
  using assms by (induction xs arbitrary: s) (auto simp: and_then_Inr)

lemma try_fold_covers:
  assumes "try_fold f xs s = Inr s'" "\<And>x s s'. f x s = Inr s' \<Longrightarrow> Q x s'"
    and "\<And>x y s s'. f x s = Inr s' \<Longrightarrow> Q y s \<Longrightarrow> Q y s'" "x \<in> set xs"
  shows "Q x s'"
  using assms(1,4)
proof (induction xs arbitrary: s)
  case (Cons y ys)
  then obtain t where t: "f y s = Inr t" "try_fold f ys t = Inr s'" by (auto simp: and_then_Inr)
  show ?case
  proof (cases "x = y")
    case True
    then show ?thesis using try_fold_induct [OF t(2), of "Q x"] assms(2) [OF t(1)] assms(3) by blast
  qed (use Cons t in auto)
qed simp

locale entry_rows =
  fixes f :: "'a \<Rightarrow> entries \<Rightarrow> entries imp" and makes :: "'a \<Rightarrow> string \<times> bytes \<Rightarrow> bool"
  assumes adds: "f x es = Inr es' \<Longrightarrow> distinct (map fst es) \<Longrightarrow>
    distinct (map fst es') \<and> set es' = set es \<union> {kb. makes x kb}"
begin

lemma all_added:
  "try_fold f xs es = Inr es' \<Longrightarrow> distinct (map fst es) \<Longrightarrow>
   distinct (map fst es') \<and> set es' = set es \<union> {kb. \<exists>x\<in>set xs. makes x kb}"
proof (induction xs arbitrary: es)
  case (Cons x xs)
  then obtain es1 where "f x es = Inr es1" "try_fold f xs es1 = Inr es'" by (auto simp: and_then_Inr)
  with Cons adds [of x es es1] show ?case by auto
qed simp

end

text \<open>A row that becomes one record, stored under the key of the record.\<close>

definition stores :: "('a \<Rightarrow> 'r imp) \<Rightarrow> 'r codec \<Rightarrow> ('r \<Rightarrow> string) \<Rightarrow> 'a \<Rightarrow> string \<times> bytes \<Rightarrow> bool" where
  "stores conv C key x kb \<longleftrightarrow> (\<exists>r. conv x = Inr r \<and> enc C r = Some (snd kb) \<and> fst kb = key r)"

definition add_record :: "('a \<Rightarrow> 'r imp) \<Rightarrow> 'r codec \<Rightarrow> ('r \<Rightarrow> string) \<Rightarrow> 'a \<Rightarrow> entries \<Rightarrow> entries imp" where
  "add_record conv C key x es = and_then (conv x) (\<lambda>r. add_entry C (key r) r es)"

interpretation records: entry_rows "add_record conv C key" "stores conv C key" for conv C key
proof unfold_locales
  fix x es es'
  assume a: "add_record conv C key x es = Inr es'" "distinct (map fst es)"
  then obtain r b where r: "conv x = Inr r" "enc C r = Some b" "key r \<notin> fst ` set es" "es' = btree_insert (key r) b es"
    by (auto simp: add_record_def and_then_Inr add_entry_Inr)
  then have "{kb. stores conv C key x kb} = {(key r, b)}" by (auto simp: stores_def)
  then show "distinct (map fst es') \<and> set es' = set es \<union> {kb. stores conv C key x kb}"
    using r a(2) by (simp add: distinct_btree_insert set_btree_insert_new)
qed

definition tcb_key :: "tcb_record \<Rightarrow> string" where
  "tcb_key r = key_tcb (prod_name (tr_prod_type r)) (tr_version r) (tr_fmspc r) (tr_update_type r)"

definition identity_key :: "identity_record \<Rightarrow> string" where
  "identity_key r = key_identity (identity_name (ir_enclave_id r)) (ir_version r) (ir_update_type r)"

definition pckcert_key :: "pckcert_record \<Rightarrow> string" where
  "pckcert_key r = key_pckcert (pk_qeid r) (pk_pceid r) (pk_cpusvn r) (pk_pcesvn r)"

definition pool_key :: "platform_pool \<Rightarrow> string" where
  "pool_key p = key_platform (pp_qe_id p) (pp_pce_id p)"

definition registered_key :: "registered_platform \<Rightarrow> string" where
  "registered_key r = key_preg (rg_qe_id r) (rg_pce_id r) (rg_cpu_svn r) (rg_pce_svn r)"

lemma row_loops:
  "tcb_row E S certs = add_record (tcb_record_of E certs) (sd_tcb S) tcb_key"
  "identity_row E S certs = add_record (identity_record_of E certs) (sd_identity S) identity_key"
  "pckcrl_row S parses certs = add_record (pckcrl_record_of parses certs) (sd_pckcrl S) (\<lambda>r. key_pckcrl (pl_ca r))"
  "crl_row S parses = add_record (crl_record_of parses) (sd_crl S) (\<lambda>r. key_crl (cr_uri r))"
  "registered_row E S = add_record (registered_of E) (sd_reg S) registered_key"
  "pool_entry S = add_record Inr (sd_platform S) pool_key"
  by (simp_all add: fun_eq_iff add_record_def tcb_row_def identity_row_def pckcrl_row_def crl_row_def registered_row_def
      pool_entry_def tcb_key_def identity_key_def registered_key_def pool_key_def)

lemma policies_loop:
  "policies_entry S = (\<lambda>fp es. add_entry (sd_appraisal S) (key_appraisal (fst fp)) (snd fp) es)"
  by (auto simp: policies_entry_def fun_eq_iff)

interpretation policy_lists: entry_rows "policies_entry S"
    "\<lambda>fp kb. enc (sd_appraisal S) (snd fp) = Some (snd kb) \<and> fst kb = key_appraisal (fst fp)" for S
proof unfold_locales
  fix x es es'
  assume a: "policies_entry S x es = Inr es'" "distinct (map fst es)"
  then obtain b where b: "enc (sd_appraisal S) (snd x) = Some b" "key_appraisal (fst x) \<notin> fst ` set es"
    "es' = btree_insert (key_appraisal (fst x)) b es"
    by (auto simp: policies_loop add_entry_Inr)
  then show "distinct (map fst es') \<and> set es' = set es \<union>
      {kb. enc (sd_appraisal S) (snd x) = Some (snd kb) \<and> fst kb = key_appraisal (fst x)}"
    using a(2) by (auto simp: distinct_btree_insert set_btree_insert_new)
qed

definition root_crl_made :: "serde \<Rightarrow> (bytes \<Rightarrow> bool) \<Rightarrow> row \<Rightarrow> string \<times> bytes \<Rightarrow> bool" where
  "root_crl_made S parses r kb \<longleftrightarrow>
     (\<exists>crl. row_blob r ''crl'' = Inr crl \<and> crl \<noteq> [] \<and> row_int r ''id'' = Inr 1 \<and> parses crl \<and>
        enc (sd_rootcacrl S) crl = Some (snd kb) \<and> fst kb = key_rootcacrl)"

interpretation root_crls: entry_rows "root_crl_row S parses" "root_crl_made S parses" for S parses
proof unfold_locales
  fix x es es'
  assume a: "root_crl_row S parses x es = Inr es'" "distinct (map fst es)"
  then obtain crl where crl: "row_blob x ''crl'' = Inr crl" by (auto simp: root_crl_row_def and_then_Inr)
  show "distinct (map fst es') \<and> set es' = set es \<union> {kb. root_crl_made S parses x kb}"
  proof (cases "crl = []")
    case True
    with a crl show ?thesis by (auto simp: root_crl_row_def root_crl_made_def)
  next
    case False
    with a crl obtain b where "row_int x ''id'' = Inr 1" "parses crl" "enc (sd_rootcacrl S) crl = Some b"
      "key_rootcacrl \<notin> fst ` set es" "es' = btree_insert key_rootcacrl b es"
      by (auto simp: root_crl_row_def and_then_Inr insert_new_Inr der_crl_def split: if_splits)
    with a(2) crl False show ?thesis
      by (auto simp: root_crl_made_def distinct_btree_insert set_btree_insert_new)
  qed
qed

section \<open>Issuer chains\<close>

lemma ws_len_skips: "45 \<notin> set (take (ws_len r) r)"
  by (cases r rule: ws_len.cases) (auto split: if_splits)

lemma ws_len_rev_skips: "45 \<notin> set (take (ws_len_rev r) r)"
proof -
  have "45 \<notin> set (take k r)" if "ws_len (rev (take k r)) = k" for k
    using ws_len_skips [of "rev (take k r)"] that by simp
  then show ?thesis by simp
qed

lemma dash_kept:
  assumes "CHR ''-'' \<in> set s" "45 \<notin> set (take n (map code s))"
  shows "CHR ''-'' \<in> set (drop n s)"
proof -
  have "CHR ''-'' \<notin> set (take n s)"
    using assms(2) image_eqI [of 45 code "CHR ''-''" "set (take n s)"] by (auto simp: take_map)
  then show ?thesis using assms(1) append_take_drop_id [of n s] by (metis Un_iff set_append)
qed

lemma trim_start_dash: "CHR ''-'' \<in> set s \<Longrightarrow> CHR ''-'' \<in> set (trim_start s)"
proof (induction s rule: trim_start.induct)
  case (1 s)
  then show ?case
    using dash_kept [OF "1.prems" ws_len_skips] by (subst trim_start.simps) (auto simp: Let_def)
qed

lemma trim_end_rev_dash: "CHR ''-'' \<in> set s \<Longrightarrow> CHR ''-'' \<in> set (trim_end_rev s)"
proof (induction s rule: trim_end_rev.induct)
  case (1 s)
  then show ?case
    using dash_kept [OF "1.prems" ws_len_rev_skips] by (subst trim_end_rev.simps) (auto simp: Let_def simp del: ws_len_rev.simps)
qed

lemma cacheable_dash: "CHR ''-'' \<in> set s \<Longrightarrow> cacheable s"
  using trim_end_rev_dash [of "rev (trim_start s)"] trim_start_dash [of s]
  by (auto simp: cacheable_def trim_def)

definition certs_ok :: "certificates \<Rightarrow> bool" where
  "certs_ok certs \<longleftrightarrow> (\<forall>(i, c)\<in>set certs. CHR ''-'' \<in> set c)"

lemma certificates_ok:
  assumes "try_fold certificate_row rows [] = Inr certs"
  shows "certs_ok certs"
proof (rule try_fold_induct [OF assms])
  fix r s s'
  assume "certificate_row r s = Inr s'" "certs_ok s"
  then show "certs_ok s'"
    by (auto simp: certificate_row_def and_then_Inr insert_new_Inr certs_ok_def starts_with_iff
        split: if_splits dest!: btree_insert_elem)
qed (simp add: certs_ok_def)

lemma chain_cacheable:
  assumes "certs_ok certs" "chain certs r issuer = Inr ch"
  shows "cacheable ch"
proof -
  obtain i root j signing where "map_of certs i = Some root" "map_of certs j = Some signing" "ch = signing @ root"
    using assms(2) by (auto simp: chain_def and_then_Inr ok_or_Inr split: if_splits)
  then show ?thesis
    using assms(1) by (intro cacheable_dash) (auto simp: certs_ok_def dest!: map_of_SomeD)
qed

section \<open>Well-formed records\<close>

definition upper_hex :: "nat \<Rightarrow> string \<Rightarrow> bool" where
  "upper_hex n s \<longleftrightarrow> length s = n \<and> list_all is_ascii_hexdigit s \<and> to_ascii_uppercase s = s"

lemma hexdigits_upper: "list_all is_ascii_hexdigit s \<Longrightarrow> list_all is_ascii_hexdigit (to_ascii_uppercase s)"
  using is_ascii_hexdigit_upper by (auto simp: to_ascii_uppercase_def list_all_iff)

lemma hex_field_Inr: "hex_field r field n = Inr s \<Longrightarrow> upper_hex n s"
  by (auto simp: hex_field_def and_then_Inr upper_hex_def hexdigits_upper to_ascii_uppercase_idem length_to_ascii
      split: if_splits)

definition doc_version_ok :: "u32 \<Rightarrow> string \<Rightarrow> bool" where
  "doc_version_ok version update \<longleftrightarrow> version \<in> {3, 4} \<and> update \<in> {''STANDARD'', ''EARLY''}"

lemma version_update_Inr: "row_version r = Inr v \<Longrightarrow> row_update r = Inr u \<Longrightarrow> doc_version_ok v u"
  by (auto simp: row_version_def row_update_def and_then_Inr doc_version_ok_def split: if_splits)

definition tcb_ok :: "tcb_record \<Rightarrow> bool" where
  "tcb_ok r \<longleftrightarrow> tr_prod_type r \<in> {0, 1} \<and> upper_hex 12 (tr_fmspc r) \<and> doc_version_ok (tr_version r) (tr_update_type r) \<and>
     cacheable (tr_issuer_chain r) \<and>
     (\<exists>info. jget (tr_tcbinfo r) ''tcbInfo'' = Some info \<and>
        map_option to_ascii_uppercase (get_str info ''fmspc'') = Some (tr_fmspc r))"

definition identity_ok :: "identity_record \<Rightarrow> bool" where
  "identity_ok r \<longleftrightarrow> ir_enclave_id r \<in> {1, 2, 3} \<and> doc_version_ok (ir_version r) (ir_update_type r) \<and>
     cacheable (ir_issuer_chain r)"

definition pckcrl_ok :: "(bytes \<Rightarrow> bool) \<Rightarrow> pckcrl_record \<Rightarrow> bool" where
  "pckcrl_ok parses r \<longleftrightarrow> pl_ca r \<in> {''PLATFORM'', ''PROCESSOR''} \<and> parses (pl_pckcrl r) \<and> cacheable (pl_issuer_chain r)"

definition crl_ok :: "(bytes \<Rightarrow> bool) \<Rightarrow> crl_record \<Rightarrow> bool" where
  "crl_ok parses r \<longleftrightarrow> is_valid_crl_uri (cr_uri r) \<and> parses (cr_crl r)"

definition registered_ok :: "registered_platform \<Rightarrow> bool" where
  "registered_ok r \<longleftrightarrow> rg_state r \<in> {0, 1, 9} \<and> upper_hex 4 (rg_pce_id r) \<and> rg_qe_id r \<noteq> []"

lemma tcb_record_of_ok:
  "certs_ok certs \<Longrightarrow> tcb_record_of E certs r = Inr rec \<Longrightarrow> tcb_ok rec"
  using chain_cacheable
  by (auto simp: tcb_record_of_def and_then_Inr ok_or_Inr Let_def tcb_ok_def hex_field_Inr version_update_Inr
      simp del: get_str_Some split: if_splits)

lemma identity_record_of_ok:
  assumes "certs_ok certs" "identity_record_of E certs r = Inr rec"
  shows "identity_ok rec"
proof -
  obtain n :: int where n: "1 \<le> n" "n \<le> 3" "ir_enclave_id rec = of_int n"
    and "\<exists>v u. row_version r = Inr v \<and> row_update r = Inr u \<and> ir_version rec = v \<and> ir_update_type rec = u"
    and "chain certs r ''signing_cert_id'' = Inr (ir_issuer_chain rec)"
    using assms(2) by (auto simp: identity_record_of_def and_then_Inr Let_def split: if_splits)
  moreover from n have "n = 1 \<or> n = 2 \<or> n = 3" by auto
  ultimately show ?thesis
    using chain_cacheable [OF assms(1)] version_update_Inr by (auto simp: identity_ok_def)
qed

lemma ca_Inr: "ca r = Inr c \<Longrightarrow> c \<in> {''PLATFORM'', ''PROCESSOR''}"
  by (auto simp: ca_def and_then_Inr Let_def split: if_splits)

lemma crl_records_of_ok:
  "certs_ok certs \<Longrightarrow> pckcrl_record_of parses certs r = Inr rec \<Longrightarrow> pckcrl_ok parses rec"
  "crl_record_of parses r = Inr rec' \<Longrightarrow> crl_ok parses rec'"
  using chain_cacheable
  by (auto dest: ca_Inr simp: pckcrl_record_of_def crl_record_of_def der_crl_def and_then_Inr pckcrl_ok_def crl_ok_def split: if_splits)

lemma row_platform_key_Inr: "row_platform_key r = Inr (qe, pce) \<Longrightarrow> qe \<noteq> [] \<and> upper_hex 4 pce"
  by (auto simp: row_platform_key_def row_qeid_def and_then_Inr hex_field_Inr split: if_splits)

lemma registered_of_ok:
  assumes "registered_of E r = Inr rec"
  shows "registered_ok rec"
  using assms row_platform_key_Inr [of r]
  by (auto simp: registered_of_def and_then_Inr Let_def registered_ok_def split: if_splits)

section \<open>Platform pools\<close>

definition btree :: "('k::linorder \<times> 'v) list \<Rightarrow> bool" where
  "btree m \<longleftrightarrow> sorted_wrt (<) (map fst m)"

lemma btree_insert_btree: "btree m \<Longrightarrow> btree (btree_insert k v m)"
proof (induction k v m rule: btree_insert.induct)
  case (2 k v k' v' m)
  have head: "\<forall>x\<in>fst ` set m. k' < x" and rest: "btree m" using 2(2) by (auto simp: btree_def)
  consider "k < k'" | "k = k'" | "k' < k" by (rule linorder_cases)
  then show ?case
  proof cases
    case 1
    then show ?thesis using head rest by (fastforce simp: btree_def)
  next
    case 3
    then have "btree (btree_insert k v m)" using 2(1) rest by auto
    moreover have "\<forall>x\<in>fst ` set (btree_insert k v m). k' < x" using head 3 by simp
    ultimately show ?thesis using 3 by (auto simp: btree_def)
  qed (use 2(2) in \<open>simp add: btree_def\<close>)
qed (simp add: btree_def)

lemma btree_map_of: "btree m \<Longrightarrow> map_of m k = Some v \<longleftrightarrow> (k, v) \<in> set m"
  by (intro map_of_eq_Some_iff) (simp add: btree_def strict_sorted_iff)

text \<open>The entry of a raw TCB level, and a pool that is consistent with the entries.\<close>

definition level_entry :: "serde \<Rightarrow> platform_pool \<Rightarrow> raw_tcb \<Rightarrow> string \<times> bytes \<Rightarrow> bool" where
  "level_entry S pool raw kb \<longleftrightarrow>
     (\<exists>cert\<in>set (pp_certs pool). pt_tcbm cert = rt_tcbm raw \<and>
        enc (sd_pckcert S) (raw_tcb_record pool raw cert) = Some (snd kb) \<and>
        fst kb = pckcert_key (raw_tcb_record pool raw cert))"

definition pool_ok :: "serde \<Rightarrow> (string \<times> bytes) set \<Rightarrow> platform_pool \<Rightarrow> bool" where
  "pool_ok S es pool \<longleftrightarrow>
     pp_qe_id pool \<noteq> [] \<and> upper_hex 4 (pp_pce_id pool) \<and>
     (pp_issuer_chain pool = [] \<or> cacheable (pp_issuer_chain pool)) \<and>
     (pp_certs pool \<noteq> [] \<longrightarrow> pp_issuer_chain pool \<noteq> []) \<and> distinct (map pt_tcbm (pp_certs pool)) \<and>
     (\<forall>raw\<in>set (pp_raw_tcbs pool). \<exists>kb\<in>es. level_entry S pool raw kb)"

lemma level_entry_updates [simp]:
  "level_entry S (pool\<lparr>pp_raw_tcbs := t\<rparr>) raw kb = level_entry S pool raw kb"
  "level_entry S pool raw kb \<Longrightarrow> level_entry S (pool\<lparr>pp_certs := pp_certs pool @ cs\<rparr>) raw kb"
  by (auto simp: level_entry_def raw_tcb_record_def)

lemma pool_ok_mono: "pool_ok S es pool \<Longrightarrow> es \<subseteq> es' \<Longrightarrow> pool_ok S es' pool"
  unfolding pool_ok_def by blast

definition pools_ok :: "serde \<Rightarrow> (string \<times> bytes) set \<Rightarrow> pools \<Rightarrow> bool" where
  "pools_ok S es pools \<longleftrightarrow> btree pools \<and>
     (\<forall>key pool. map_of pools key = Some pool \<longrightarrow> pool_ok S es pool \<and> key = (pp_qe_id pool, pp_pce_id pool))"

lemma pools_ok_insert:
  "pools_ok S es pools \<Longrightarrow> es \<subseteq> es' \<Longrightarrow> pool_ok S es' pool \<Longrightarrow> key = (pp_qe_id pool, pp_pce_id pool) \<Longrightarrow>
   pools_ok S es' (btree_insert key pool pools)"
  unfolding pools_ok_def by (simp add: btree_insert_btree del: split_paired_All) (metis pool_ok_mono)

lemma chains_ok:
  assumes "try_fold (chain_row certs) rows [] = Inr known" "certs_ok certs"
  shows "\<forall>c ch. map_of known c = Some ch \<longrightarrow> cacheable ch"
proof (rule try_fold_induct [OF assms(1)])
  fix r s s'
  assume "chain_row certs r s = Inr s'" "\<forall>c ch. map_of s c = Some ch \<longrightarrow> cacheable ch"
  then show "\<forall>c ch. map_of s' c = Some ch \<longrightarrow> cacheable ch"
    using chain_cacheable [OF assms(2)]
    by (auto simp: chain_row_def and_then_Inr insert_new_Inr split: if_splits)
qed simp

lemma platform_row_ok:
  assumes "platform_row E known r pools = Inr pools'" "pools_ok S es pools"
    and "\<forall>c ch. map_of known c = Some ch \<longrightarrow> cacheable ch"
  shows "pools_ok S es pools'"
proof -
  obtain qe pce ppid manifest fmspc c where pools': "pools' = btree_insert (qe, pce)
      \<lparr>pp_qe_id = qe, pp_pce_id = pce, pp_enc_ppid = ppid, pp_platform_manifest = manifest, pp_fmspc = fmspc, pp_ca = c,
       pp_issuer_chain = unwrap_or [] (map_of known c), pp_certs = [], pp_raw_tcbs = []\<rparr> pools"
    and "row_platform_key r = Inr (qe, pce)"
    using assms(1) by (auto simp: platform_row_def and_then_Inr insert_new_Inr Let_def split: if_splits)
  then have "pool_ok S es \<lparr>pp_qe_id = qe, pp_pce_id = pce, pp_enc_ppid = ppid, pp_platform_manifest = manifest,
      pp_fmspc = fmspc, pp_ca = c, pp_issuer_chain = unwrap_or [] (map_of known c), pp_certs = [], pp_raw_tcbs = []\<rparr>"
    using assms(3) row_platform_key_Inr [of r qe pce] by (auto simp: pool_ok_def unwrap_or_def split: option.splits)
  then show ?thesis unfolding pools' by (rule pools_ok_insert [OF assms(2) subset_refl]) simp
qed

lemma pck_cert_row_ok:
  assumes "pck_cert_row E r (pools, ppids) = Inr (pools', ppids')" "pools_ok S es pools"
  shows "pools_ok S es pools'"
proof -
  obtain key pool tcbm cert where pools': "pools' = btree_insert key
      (pool\<lparr>pp_certs := pp_certs pool @ [\<lparr>pt_tcbm = tcbm, pt_cert = cert\<rparr>]\<rparr>) pools"
    and pool: "map_of pools key = Some pool" "pp_issuer_chain pool \<noteq> []" "\<not> list_ex (\<lambda>d. pt_tcbm d = tcbm) (pp_certs pool)"
    using assms(1) by (auto simp: pck_cert_row_def and_then_Inr ok_or_Inr split: if_splits)
  have "pool_ok S es pool" and key: "key = (pp_qe_id pool, pp_pce_id pool)"
    using assms(2) pool(1) unfolding pools_ok_def by blast+
  then have "pool_ok S es (pool\<lparr>pp_certs := pp_certs pool @ [\<lparr>pt_tcbm = tcbm, pt_cert = cert\<rparr>]\<rparr>)"
    using pool(2,3) unfolding pool_ok_def by (auto simp: list_ex_iff) (metis level_entry_updates(2))
  then show ?thesis unfolding pools' by (rule pools_ok_insert [OF assms(2) subset_refl]) (simp add: key)
qed

text \<open>The loop over the raw TCB levels: entries beyond \<open>base\<close> are those of levels of a pool.\<close>

definition levels_ok :: "serde \<Rightarrow> (string \<times> bytes) set \<Rightarrow> pools \<times> entries \<Rightarrow> bool" where
  "levels_ok S base = (\<lambda>(pools, es).
     distinct (map fst es) \<and> base \<subseteq> set es \<and> pools_ok S (set es) pools \<and>
     (\<forall>kb\<in>set es - base. \<exists>key pool raw. map_of pools key = Some pool \<and> raw \<in> set (pp_raw_tcbs pool) \<and> level_entry S pool raw kb))"

definition is_level :: "row \<Rightarrow> raw_tcb \<Rightarrow> bool" where
  "is_level r raw \<longleftrightarrow> hex_field r ''cpu_svn'' 32 = Inr (rt_cpu_svn raw) \<and>
     hex_field r ''pce_svn'' 4 = Inr (rt_pce_svn raw) \<and> hex_field r ''tcbm'' 36 = Inr (rt_tcbm raw)"

lemma platform_tcb_row_Inr:
  assumes "platform_tcb_row S r (pools, es) = Inr (pools', es')"
  obtains key pool cert raw b where "row_platform_key r = Inr key" "is_level r raw" "map_of pools key = Some pool"
    "find (\<lambda>c. pt_tcbm c = rt_tcbm raw) (pp_certs pool) = Some cert"
    "enc (sd_pckcert S) (raw_tcb_record pool raw cert) = Some b"
    "pckcert_key (raw_tcb_record pool raw cert) \<notin> fst ` set es"
    "es' = btree_insert (pckcert_key (raw_tcb_record pool raw cert)) b es"
    "pools' = btree_insert key (pool\<lparr>pp_raw_tcbs := pp_raw_tcbs pool @ [raw]\<rparr>) pools"
proof -
  obtain key pool cpu pce tcbm cert where
    "row_platform_key r = Inr key" "map_of pools key = Some pool" "find (\<lambda>c. pt_tcbm c = tcbm) (pp_certs pool) = Some cert"
    "is_level r \<lparr>rt_cpu_svn = cpu, rt_pce_svn = pce, rt_tcbm = tcbm\<rparr>"
    "add_entry (sd_pckcert S)
       (pckcert_key (raw_tcb_record pool \<lparr>rt_cpu_svn = cpu, rt_pce_svn = pce, rt_tcbm = tcbm\<rparr> cert))
       (raw_tcb_record pool \<lparr>rt_cpu_svn = cpu, rt_pce_svn = pce, rt_tcbm = tcbm\<rparr> cert) es = Inr es'"
    "pools' = btree_insert key (pool\<lparr>pp_raw_tcbs := pp_raw_tcbs pool @ [\<lparr>rt_cpu_svn = cpu, rt_pce_svn = pce, rt_tcbm = tcbm\<rparr>]\<rparr>) pools"
    using assms
    by (auto simp: platform_tcb_row_def and_then_Inr ok_or_Inr Let_def pckcert_key_def is_level_def split: if_splits)
  then show ?thesis using that unfolding add_entry_Inr by (metis raw_tcb.select_convs(3))
qed

lemma platform_tcb_row_ok:
  assumes "platform_tcb_row S r (pools, es) = Inr (pools', es')" "levels_ok S base (pools, es)"
  shows "levels_ok S base (pools', es')"
proof -
  obtain key pool cert raw b where
    pool: "map_of pools key = Some pool" "find (\<lambda>c. pt_tcbm c = rt_tcbm raw) (pp_certs pool) = Some cert"
    and b: "enc (sd_pckcert S) (raw_tcb_record pool raw cert) = Some b"
    and es': "pckcert_key (raw_tcb_record pool raw cert) \<notin> fst ` set es"
      "es' = btree_insert (pckcert_key (raw_tcb_record pool raw cert)) b es"
    and pools': "pools' = btree_insert key (pool\<lparr>pp_raw_tcbs := pp_raw_tcbs pool @ [raw]\<rparr>) pools"
    using platform_tcb_row_Inr [OF assms(1)] by metis
  let ?kb = "(pckcert_key (raw_tcb_record pool raw cert), b)"
  have old: "distinct (map fst es)" "base \<subseteq> set es" "pools_ok S (set es) pools"
    and src: "\<And>kb. kb \<in> set es - base \<Longrightarrow>
      \<exists>key pool raw. map_of pools key = Some pool \<and> raw \<in> set (pp_raw_tcbs pool) \<and> level_entry S pool raw kb"
    using assms(2) unfolding levels_ok_def prod.case by blast+
  have set': "set es' = insert ?kb (set es)" using es' by (simp add: set_btree_insert_new)
  have lev: "level_entry S pool raw ?kb"
    using pool(2) b by (auto simp: level_entry_def find_Some_iff)
  have "pool_ok S (set es) pool" and key: "key = (pp_qe_id pool, pp_pce_id pool)"
    using old(3) pool(1) unfolding pools_ok_def by blast+
  then have "pool_ok S (set es') (pool\<lparr>pp_raw_tcbs := pp_raw_tcbs pool @ [raw]\<rparr>)"
    using lev unfolding pool_ok_def set' by auto
  then have "pools_ok S (set es') pools'"
    unfolding pools' by (intro pools_ok_insert [OF old(3)]) (auto simp: set' key)
  moreover have "\<exists>key pool raw. map_of pools' key = Some pool \<and> raw \<in> set (pp_raw_tcbs pool) \<and> level_entry S pool raw kb"
    if kb: "kb \<in> set es' - base" for kb
  proof (cases "kb = ?kb")
    case True
    then show ?thesis using lev
      by (intro exI [of _ key] exI [of _ "pool\<lparr>pp_raw_tcbs := pp_raw_tcbs pool @ [raw]\<rparr>"] exI [of _ raw])
        (simp add: pools')
  next
    case False
    with kb src obtain key1 pool1 raw1 where *: "map_of pools key1 = Some pool1" "raw1 \<in> set (pp_raw_tcbs pool1)"
      "level_entry S pool1 raw1 kb" by (metis Diff_iff insertE set')
    show ?thesis
    proof (cases "key1 = key")
      case True
      with * pool(1) show ?thesis
        by (intro exI [of _ key] exI [of _ "pool\<lparr>pp_raw_tcbs := pp_raw_tcbs pool @ [raw]\<rparr>"] exI [of _ raw1])
          (simp add: pools')
    next
      case False
      with * show ?thesis by (intro exI [of _ key1] exI [of _ pool1] exI [of _ raw1]) (simp add: pools')
    qed
  qed
  moreover have "distinct (map fst es')" "base \<subseteq> set es'" using old(1,2) es' set' by (auto simp: distinct_btree_insert)
  ultimately show ?thesis unfolding levels_ok_def prod.case by blast
qed

definition has_level :: "row \<Rightarrow> platform_pool \<Rightarrow> bool" where
  "has_level r pool \<longleftrightarrow> (\<exists>raw\<in>set (pp_raw_tcbs pool). is_level r raw)"

lemma platform_row_key:
  assumes "platform_row E known r pools = Inr pools'"
  shows "\<exists>key. row_platform_key r = Inr key \<and> fst ` set pools' = insert key (fst ` set pools)"
proof -
  have "\<exists>key v. row_platform_key r = Inr key \<and> pools' = btree_insert key v pools"
    using assms by (auto simp: platform_row_def and_then_Inr insert_new_Inr Let_def split: if_splits)
  then show ?thesis using keys_btree_insert by metis
qed

lemma pck_cert_row_keys:
  assumes "pck_cert_row E r s = Inr s'"
  shows "fst ` set (fst s) \<subseteq> fst ` set (fst s')"
proof -
  have "\<exists>key v. fst s' = btree_insert key v (fst s)"
    using assms by (cases s) (auto simp: pck_cert_row_def and_then_Inr simp del: split_paired_Ex split: if_splits,
        intro exI, rule refl)
  then show ?thesis using keys_btree_insert by (metis subset_insertI)
qed

lemma platform_tcb_row_keys:
  assumes "platform_tcb_row S r s = Inr s'"
  shows "fst ` set (fst s) \<subseteq> fst ` set (fst s')"
proof -
  obtain pools es pools' es' where s: "s = (pools, es)" "s' = (pools', es')" by (cases s; cases s')
  from assms obtain key pool where "pools' = btree_insert key pool pools"
    unfolding s by (rule platform_tcb_row_Inr)
  then show ?thesis using keys_btree_insert [of key pool pools] by (simp add: s) blast
qed

lemma level_row_covered:
  assumes "try_fold (platform_tcb_row S) rows s = Inr (pools', es')" "r \<in> set rows"
  shows "\<exists>key pool. row_platform_key r = Inr key \<and> map_of pools' key = Some pool \<and> has_level r pool"
proof -
  let ?Q = "\<lambda>r s. \<exists>key pool. row_platform_key r = Inr key \<and> map_of (fst s) key = Some pool \<and> has_level r pool"
  have "?Q r (pools', es')"
  proof (rule try_fold_covers [OF assms(1) _ _ assms(2), of ?Q])
    fix x s s' assume "platform_tcb_row S x s = Inr s'"
    then show "?Q x s'"
      by (cases s; cases s') (auto elim!: platform_tcb_row_Inr simp: has_level_def simp del: split_paired_Ex)
  next
    fix x y s s' assume *: "platform_tcb_row S x s = Inr s'" "?Q y s"
    obtain pools es pools' es' where s: "s = (pools, es)" "s' = (pools', es')" by (cases s; cases s')
    from *(1) obtain key pool raw where upd: "map_of pools key = Some pool"
      "pools' = btree_insert key (pool\<lparr>pp_raw_tcbs := pp_raw_tcbs pool @ [raw]\<rparr>) pools"
      unfolding s by (rule platform_tcb_row_Inr)
    from *(2) obtain key1 pool1 where "row_platform_key y = Inr key1" "map_of pools key1 = Some pool1" "has_level y pool1"
      unfolding s by auto
    then show "?Q y s'" using upd by (cases "key1 = key") (auto simp: s has_level_def)
  qed
  then show ?thesis by simp
qed

lemma convert_platforms_ok:
  assumes "convert_platforms E S rows certs es = Inr es'" "certs_ok certs" "distinct (map fst es)"
  shows "distinct (map fst es') \<and> set es \<subseteq> set es' \<and>
    (\<exists>ps. (\<forall>p\<in>ps. pool_ok S (set es') p \<and> (\<exists>b. enc (sd_platform S) p = Some b \<and> (pool_key p, b) \<in> set es')) \<and>
      (\<forall>kb\<in>set es' - set es. \<exists>p\<in>ps. enc (sd_platform S) p = Some (snd kb) \<and> fst kb = pool_key p \<or>
         (\<exists>raw\<in>set (pp_raw_tcbs p). level_entry S p raw kb)) \<and>
      (\<forall>r\<in>set (table_rows rows ''platforms''). \<exists>p\<in>ps. row_platform_key r = Inr (pp_qe_id p, pp_pce_id p)) \<and>
      (\<forall>r\<in>set (table_rows rows ''platform_tcbs''). \<exists>p\<in>ps.
         row_platform_key r = Inr (pp_qe_id p, pp_pce_id p) \<and> has_level r p))"
proof -
  obtain known pools pools1 ppids pools2 es2 where
    known: "try_fold (chain_row certs) (table_rows rows ''pck_certchain'') [] = Inr known"
    and pools: "try_fold (platform_row E known) (table_rows rows ''platforms'') [] = Inr pools"
    and pools1: "try_fold (pck_cert_row E) (table_rows rows ''pck_cert'') (pools, []) = Inr (pools1, ppids)"
    and pools2: "try_fold (platform_tcb_row S) (table_rows rows ''platform_tcbs'') (pools1, es) = Inr (pools2, es2)"
    and es': "try_fold (pool_entry S) (map snd pools2) es2 = Inr es'"
    using assms(1) by (auto simp: convert_platforms_def and_then_Inr)
  have "pools_ok S (set es) pools"
  proof (rule try_fold_induct [OF pools])
    show "pools_ok S (set es) []" by (simp add: pools_ok_def btree_def)
  qed (rule platform_row_ok [OF _ _ chains_ok [OF known assms(2)]])
  then have "pools_ok S (set es) (fst (pools1, ppids))"
    by (intro try_fold_induct [OF pools1, where P = "\<lambda>s. pools_ok S (set es) (fst s)"], simp)
      (metis pck_cert_row_ok prod.collapse)
  then have "levels_ok S (set es) (pools1, es)"
    using assms(3) by (simp add: levels_ok_def)
  then have "levels_ok S (set es) (pools2, es2)"
    by (rule try_fold_induct [OF pools2]) (metis platform_tcb_row_ok surj_pair)
  then have lev: "distinct (map fst es2)" "set es \<subseteq> set es2" "pools_ok S (set es2) pools2"
    and src: "\<And>kb. kb \<in> set es2 - set es \<Longrightarrow>
      \<exists>key pool raw. map_of pools2 key = Some pool \<and> raw \<in> set (pp_raw_tcbs pool) \<and> level_entry S pool raw kb"
    unfolding levels_ok_def prod.case by blast+
  have fin: "distinct (map fst es')"
    "set es' = set es2 \<union> {kb. \<exists>p\<in>set (map snd pools2). stores Inr (sd_platform S) pool_key p kb}"
    using records.all_added [OF es' [unfolded row_loops] lev(1)] by auto
  have f1: "pool_ok S (set es') p" if "p \<in> snd ` set pools2" for p
    using that lev(3) fin(2) btree_map_of [of pools2] pool_ok_mono [of S "set es2" p "set es'"]
    by (auto simp: pools_ok_def)
  have f2: "\<exists>b. enc (sd_platform S) p = Some b \<and> (pool_key p, b) \<in> set es'" if p: "p \<in> snd ` set pools2" for p
  proof -
    from p have "p \<in> set (map snd pools2)" by simp
    then obtain t t' where "pool_entry S p t = Inr t'" using try_fold_each [OF es'] by blast
    then obtain b where "enc (sd_platform S) p = Some b"
      by (auto simp: pool_entry_def add_entry_Inr)
    with p show ?thesis unfolding fin(2) by (auto simp: stores_def)
  qed
  have f3: "\<exists>p\<in>snd ` set pools2. enc (sd_platform S) p = Some (snd kb) \<and> fst kb = pool_key p \<or>
      (\<exists>raw\<in>set (pp_raw_tcbs p). level_entry S p raw kb)" if "kb \<in> set es' - set es" for kb
  proof (cases "kb \<in> set es2")
    case True
    then obtain key pool raw where "map_of pools2 key = Some pool" "raw \<in> set (pp_raw_tcbs pool)" "level_entry S pool raw kb"
      using src [of kb] \<open>kb \<in> set es' - set es\<close> by blast
    then show ?thesis by (force dest: map_of_SomeD)
  next
    case False
    with \<open>kb \<in> set es' - set es\<close> show ?thesis unfolding fin(2) by (auto simp: stores_def)
  qed
  have f4: "\<exists>p\<in>snd ` set pools2. row_platform_key r = Inr (pp_qe_id p, pp_pce_id p) \<and> has_level r p"
    if r: "r \<in> set (table_rows rows ''platform_tcbs'')" for r
  proof -
    obtain key p where p: "row_platform_key r = Inr key" "map_of pools2 key = Some p" "has_level r p"
      using level_row_covered [OF pools2 r] by blast
    then have "key = (pp_qe_id p, pp_pce_id p)" "p \<in> snd ` set pools2"
      using lev(3) unfolding pools_ok_def by (blast, metis image_eqI map_of_SomeD snd_conv)
    with p show ?thesis by blast
  qed
  have f5: "\<exists>p\<in>snd ` set pools2. row_platform_key r = Inr (pp_qe_id p, pp_pce_id p)"
    if r: "r \<in> set (table_rows rows ''platforms'')" for r
  proof -
    have "\<exists>key. row_platform_key r = Inr key \<and> key \<in> fst ` set pools"
    proof (rule try_fold_covers [OF pools _ _ r, of "\<lambda>r ps. \<exists>key. row_platform_key r = Inr key \<and> key \<in> fst ` set ps"])
      fix x y s s' assume x: "platform_row E known x s = Inr s'"
      show "\<exists>key. row_platform_key x = Inr key \<and> key \<in> fst ` set s'"
        using platform_row_key [OF x] by (metis insertI1)
      show "\<exists>key. row_platform_key y = Inr key \<and> key \<in> fst ` set s'"
        if "\<exists>key. row_platform_key y = Inr key \<and> key \<in> fst ` set s"
        using platform_row_key [OF x] that by (metis insertI2)
    qed
    then obtain key where key: "row_platform_key r = Inr key" "key \<in> fst ` set pools" by blast
    have "key \<in> fst ` set (fst (pools1, ppids))"
      by (rule try_fold_induct [OF pools1, where P = "\<lambda>s. key \<in> fst ` set (fst s)"])
        (use key(2) pck_cert_row_keys in \<open>simp, blast\<close>)
    then have "key \<in> fst ` set (fst (pools1, es))" by simp
    then have "key \<in> fst ` set (fst (pools2, es2))"
      by (rule try_fold_induct [OF pools2, where P = "\<lambda>s. key \<in> fst ` set (fst s)"])
        (use platform_tcb_row_keys in blast)
    then obtain p where "map_of pools2 key = Some p"
      by (metis fst_conv map_of_eq_None_iff option.exhaust)
    then have "key = (pp_qe_id p, pp_pce_id p)" "p \<in> snd ` set pools2"
      using lev(3) unfolding pools_ok_def by (blast, metis image_eqI map_of_SomeD snd_conv)
    with key(1) show ?thesis by blast
  qed
  have "set es \<subseteq> set es'" using lev(2) unfolding fin(2) by blast
  then show ?thesis
    by (intro conjI exI [of _ "snd ` set pools2"] ballI fin(1)) (assumption, erule f1, erule f2, erule f3, erule f5, erule f4)
qed

end
