(* ===== verification/Import_Restore.thy ===== *)
theory Import_Restore
  imports Import_Records
begin

text \<open>
  What the conversion of a whole snapshot produces: each destination key once, each record under its own key
  and fit to be served, no row lost; and that the store it is published to serves these records.
\<close>

section \<open>The whole conversion\<close>

definition policies_ok :: "ext \<Rightarrow> string \<times> appraisal_policy list \<Rightarrow> bool" where
  "policies_ok E = (\<lambda>(fmspc, ps). distinct (map po_id ps) \<and>
     (\<forall>p\<in>set ps. po_fmspc p = fmspc \<and> po_id p = sha384_hex E (po_policy p)))"

lemma policies_ok_snoc:
  "policies_ok E (f, ps) \<Longrightarrow> po_fmspc p = f \<Longrightarrow> po_id p = sha384_hex E (po_policy p) \<Longrightarrow>
   \<not> list_ex (\<lambda>q. po_id q = po_id p) ps \<Longrightarrow> policies_ok E (f, ps @ [p])"
  unfolding policies_ok_def list_ex_iff prod.case by (auto simp: image_iff dest: sym)

lemma policy_rows_ok:
  assumes "try_fold (policy_row E) rows [] = Inr policies"
  shows "list_all (policies_ok E) policies"
proof (rule try_fold_induct [OF assms])
  fix r s s'
  assume *: "policy_row E r s = Inr s'" "list_all (policies_ok E) s"
  then obtain p where p: "policy_of E r = Inr p" "\<not> list_ex (\<lambda>q. po_id q = po_id p) (unwrap_or [] (map_of s (po_fmspc p)))"
    "s' = btree_insert (po_fmspc p) (unwrap_or [] (map_of s (po_fmspc p)) @ [p]) s"
    by (auto simp: policy_row_def and_then_Inr Let_def split: if_splits)
  have "policies_ok E (po_fmspc p, unwrap_or [] (map_of s (po_fmspc p)))"
  proof (cases "map_of s (po_fmspc p)")
    case (Some ps)
    then show ?thesis using *(2) map_of_SomeD [OF Some] by (simp add: unwrap_or_def list_all_iff)
  qed (simp add: unwrap_or_def policies_ok_def)
  moreover have "po_id p = sha384_hex E (po_policy p)"
    using p(1) by (auto simp: policy_of_def and_then_Inr Let_def split: if_splits)
  ultimately have "policies_ok E (po_fmspc p, unwrap_or [] (map_of s (po_fmspc p)) @ [p])"
    using p(2) by (intro policies_ok_snoc refl)
  with *(2) show "list_all (policies_ok E) s'"
    unfolding p(3) list_all_iff by (auto dest!: btree_insert_elem)
qed simp

text \<open>An entry that holds a well-formed record of its kind under the key of that record.\<close>

definition entry_of :: "'r codec \<Rightarrow> ('r \<Rightarrow> string) \<Rightarrow> ('r \<Rightarrow> bool) \<Rightarrow> string \<times> bytes \<Rightarrow> bool" where
  "entry_of C key ok kb \<longleftrightarrow> (\<exists>r. ok r \<and> enc C r = Some (snd kb) \<and> fst kb = key r)"

definition imported_ok :: "ext \<Rightarrow> serde \<Rightarrow> (bytes \<Rightarrow> bool) \<Rightarrow> (string \<times> bytes) set \<Rightarrow> string \<times> bytes \<Rightarrow> bool" where
  "imported_ok E S parses es kb \<longleftrightarrow>
     entry_of (sd_tcb S) tcb_key tcb_ok kb \<or>
     entry_of (sd_identity S) identity_key identity_ok kb \<or>
     entry_of (sd_pckcrl S) (\<lambda>r. key_pckcrl (pl_ca r)) (pckcrl_ok parses) kb \<or>
     entry_of (sd_rootcacrl S) (\<lambda>_. key_rootcacrl) parses kb \<or>
     entry_of (sd_crl S) (\<lambda>r. key_crl (cr_uri r)) (crl_ok parses) kb \<or>
     entry_of (sd_reg S) registered_key registered_ok kb \<or>
     (\<exists>fmspc ps. policies_ok E (fmspc, ps) \<and> enc (sd_appraisal S) ps = Some (snd kb) \<and> fst kb = key_appraisal fmspc) \<or>
     entry_of (sd_platform S) pool_key (pool_ok S es) kb \<or>
     (\<exists>p raw b. raw \<in> set (pp_raw_tcbs p) \<and> level_entry S p raw kb \<and> pool_ok S es p \<and>
        enc (sd_platform S) p = Some b \<and> (pool_key p, b) \<in> es)"

lemma imported_ok_mono: "imported_ok E S parses es kb \<Longrightarrow> es \<subseteq> es' \<Longrightarrow> imported_ok E S parses es' kb"
proof -
  assume "imported_ok E S parses es kb" and sub: "es \<subseteq> es'"
  moreover have "entry_of (sd_platform S) pool_key (pool_ok S es') kb" if "entry_of (sd_platform S) pool_key (pool_ok S es) kb"
    using that pool_ok_mono [OF _ sub] unfolding entry_of_def by blast
  moreover have "\<exists>p raw b. raw \<in> set (pp_raw_tcbs p) \<and> level_entry S p raw kb \<and> pool_ok S es' p \<and>
        enc (sd_platform S) p = Some b \<and> (pool_key p, b) \<in> es'"
    if "\<exists>p raw b. raw \<in> set (pp_raw_tcbs p) \<and> level_entry S p raw kb \<and> pool_ok S es p \<and>
        enc (sd_platform S) p = Some b \<and> (pool_key p, b) \<in> es"
    using that pool_ok_mono [OF _ sub] sub by blast
  ultimately show ?thesis unfolding imported_ok_def by argo
qed

text \<open>The rows of a snapshot and the entries they become.\<close>

definition rows_restored ::
  "ext \<Rightarrow> serde \<Rightarrow> (bytes \<Rightarrow> bool) \<Rightarrow> (string \<times> row list) list \<Rightarrow> certificates \<Rightarrow> (string \<times> bytes) set \<Rightarrow> bool" where
  "rows_restored E S parses rows certs es \<longleftrightarrow>
     (\<forall>r\<in>set (table_rows rows ''fmspc_tcbs''). \<exists>kb\<in>es. stores (tcb_record_of E certs) (sd_tcb S) tcb_key r kb) \<and>
     (\<forall>r\<in>set (table_rows rows ''enclave_identities''). \<exists>kb\<in>es. stores (identity_record_of E certs) (sd_identity S) identity_key r kb) \<and>
     (\<forall>r\<in>set (table_rows rows ''pck_crl''). \<exists>kb\<in>es. stores (pckcrl_record_of parses certs) (sd_pckcrl S) (\<lambda>r. key_pckcrl (pl_ca r)) r kb) \<and>
     (\<forall>r\<in>set (table_rows rows ''crl_cache''). \<exists>kb\<in>es. stores (crl_record_of parses) (sd_crl S) (\<lambda>r. key_crl (cr_uri r)) r kb) \<and>
     (\<forall>r\<in>set (table_rows rows ''pcs_certificates''). row_blob r ''crl'' \<noteq> Inr [] \<longrightarrow> (\<exists>kb\<in>es. root_crl_made S parses r kb)) \<and>
     (\<forall>r\<in>set (table_rows rows ''platforms_registered''). \<exists>kb\<in>es. stores (registered_of E) (sd_reg S) registered_key r kb) \<and>
     (\<exists>ps. (\<forall>p\<in>ps. pool_ok S es p \<and> (\<exists>b. enc (sd_platform S) p = Some b \<and> (pool_key p, b) \<in> es)) \<and>
        (\<forall>r\<in>set (table_rows rows ''platforms''). \<exists>p\<in>ps. row_platform_key r = Inr (pp_qe_id p, pp_pce_id p)) \<and>
        (\<forall>r\<in>set (table_rows rows ''platform_tcbs''). \<exists>p\<in>ps. row_platform_key r = Inr (pp_qe_id p, pp_pce_id p) \<and> has_level r p))"

lemma add_records_cover:
  assumes "try_fold (add_record conv C key) xs es = Inr es'" "distinct (map fst es)" "x \<in> set xs"
  shows "\<exists>kb\<in>set es'. stores conv C key x kb"
proof -
  obtain t t' where "add_record conv C key x t = Inr t'" using try_fold_each [OF assms(1,3)] by blast
  then have "\<exists>kb. stores conv C key x kb" by (auto simp: add_record_def and_then_Inr add_entry_Inr stores_def)
  then show ?thesis using records.all_added [OF assms(1,2)] assms(3) by blast
qed

lemma add_records_ok:
  assumes "try_fold (add_record conv C key) xs es = Inr es'" "distinct (map fst es)" "\<forall>x r. conv x = Inr r \<longrightarrow> ok r"
  shows "distinct (map fst es')" "set es \<subseteq> set es'" "kb \<in> set es' - set es \<Longrightarrow> entry_of C key ok kb"
  using records.all_added [OF assms(1,2)] assms(3) by (auto simp: stores_def entry_of_def)

lemma convert_collateral_ok:
  assumes "convert_collateral E S parses rows certs es = Inr es'" "certs_ok certs" "distinct (map fst es)"
  shows "distinct (map fst es')" "set es \<subseteq> set es'"
    and "kb \<in> set es' - set es \<Longrightarrow> imported_ok E S parses es0 kb"
    and "r \<in> set (table_rows rows ''enclave_identities'') \<Longrightarrow>
      \<exists>kb\<in>set es'. stores (identity_record_of E certs) (sd_identity S) identity_key r kb"
    and "r \<in> set (table_rows rows ''pck_crl'') \<Longrightarrow>
      \<exists>kb\<in>set es'. stores (pckcrl_record_of parses certs) (sd_pckcrl S) (\<lambda>r. key_pckcrl (pl_ca r)) r kb"
    and "r \<in> set (table_rows rows ''crl_cache'') \<Longrightarrow>
      \<exists>kb\<in>set es'. stores (crl_record_of parses) (sd_crl S) (\<lambda>r. key_crl (cr_uri r)) r kb"
    and "r \<in> set (table_rows rows ''pcs_certificates'') \<Longrightarrow> row_blob r ''crl'' \<noteq> Inr [] \<Longrightarrow>
      \<exists>kb\<in>set es'. root_crl_made S parses r kb"
proof -
  obtain es1 es2 es3 where
    s1: "try_fold (identity_row E S certs) (table_rows rows ''enclave_identities'') es = Inr es1"
    and s2: "try_fold (root_crl_row S parses) (table_rows rows ''pcs_certificates'') es1 = Inr es2"
    and s3: "try_fold (pckcrl_row S parses certs) (table_rows rows ''pck_crl'') es2 = Inr es3"
    and s4: "try_fold (crl_row S parses) (table_rows rows ''crl_cache'') es3 = Inr es'"
    using assms(1) by (auto simp: convert_collateral_def and_then_Inr)
  have ok: "\<forall>x r. identity_record_of E certs x = Inr r \<longrightarrow> identity_ok r"
    "\<forall>x r. pckcrl_record_of parses certs x = Inr r \<longrightarrow> pckcrl_ok parses r"
    "\<forall>x r. crl_record_of parses x = Inr r \<longrightarrow> crl_ok parses r"
    by (auto intro: identity_record_of_ok crl_records_of_ok assms(2))
  note f1 = add_records_ok [OF s1 [unfolded row_loops] assms(3) ok(1)]
  note f2 = root_crls.all_added [OF s2 f1(1)]
  have e2: "distinct (map fst es2)" "set es1 \<subseteq> set es2" using f2 by auto
  note f3 = add_records_ok [OF s3 [unfolded row_loops] e2(1) ok(2)]
  note f4 = add_records_ok [OF s4 [unfolded row_loops] f3(1) ok(3)]
  show "distinct (map fst es')" "set es \<subseteq> set es'" using f1 e2 f3 f4 by auto
  have root: "entry_of (sd_rootcacrl S) (\<lambda>_. key_rootcacrl) parses kb" if "kb \<in> set es2 - set es1" for kb
    using f2 that by (auto simp: root_crl_made_def entry_of_def)
  show "imported_ok E S parses es0 kb" if "kb \<in> set es' - set es"
    using f1(3) [of kb] root [of kb] f3(3) [of kb] f4(3) [of kb] that unfolding imported_ok_def by blast
  show "\<exists>kb\<in>set es'. stores (identity_record_of E certs) (sd_identity S) identity_key r kb"
    if "r \<in> set (table_rows rows ''enclave_identities'')"
    using add_records_cover [OF s1 [unfolded row_loops] assms(3) that] e2(2) f3(2) f4(2) by blast
  show "\<exists>kb\<in>set es'. stores (pckcrl_record_of parses certs) (sd_pckcrl S) (\<lambda>r. key_pckcrl (pl_ca r)) r kb"
    if "r \<in> set (table_rows rows ''pck_crl'')"
    using add_records_cover [OF s3 [unfolded row_loops] e2(1) that] f4(2) by blast
  show "\<exists>kb\<in>set es'. stores (crl_record_of parses) (sd_crl S) (\<lambda>r. key_crl (cr_uri r)) r kb"
    if "r \<in> set (table_rows rows ''crl_cache'')"
    using add_records_cover [OF s4 [unfolded row_loops] f3(1) that] by blast
  show "\<exists>kb\<in>set es'. root_crl_made S parses r kb"
    if r: "r \<in> set (table_rows rows ''pcs_certificates'')" and crl: "row_blob r ''crl'' \<noteq> Inr []"
  proof -
    obtain t t' where "root_crl_row S parses r t = Inr t'" using try_fold_each [OF s2 r] by blast
    then have "\<exists>kb. root_crl_made S parses r kb"
      using crl by (auto simp: root_crl_row_def and_then_Inr der_crl_def root_crl_made_def split: if_splits)
    then show ?thesis using f2 f3(2) f4(2) r by blast
  qed
qed

lemma convert_queue_ok:
  assumes "convert_queue_and_policies E S rows es = Inr es'" "distinct (map fst es)"
  shows "distinct (map fst es')" "set es \<subseteq> set es'"
    and "kb \<in> set es' - set es \<Longrightarrow> imported_ok E S parses es0 kb"
    and "r \<in> set (table_rows rows ''platforms_registered'') \<Longrightarrow>
      \<exists>kb\<in>set es'. stores (registered_of E) (sd_reg S) registered_key r kb"
proof -
  obtain es1 policies where
    s1: "try_fold (registered_row E S) (table_rows rows ''platforms_registered'') es = Inr es1"
    and s2: "try_fold (policy_row E) (table_rows rows ''appraisal_policies'') [] = Inr policies"
    and s3: "try_fold (policies_entry S) policies es1 = Inr es'"
    using assms(1) by (auto simp: convert_queue_and_policies_def and_then_Inr)
  have ok: "\<forall>x r. registered_of E x = Inr r \<longrightarrow> registered_ok r" using registered_of_ok by blast
  note f1 = add_records_ok [OF s1 [unfolded row_loops] assms(2) ok]
  have f3: "distinct (map fst es')" "set es' = set es1 \<union> {kb. \<exists>fp\<in>set policies.
      enc (sd_appraisal S) (snd fp) = Some (snd kb) \<and> fst kb = key_appraisal (fst fp)}"
    using policy_lists.all_added [OF s3 f1(1)] by auto
  show "distinct (map fst es')" "set es \<subseteq> set es'" using f1 f3 by auto
  have pol: "\<exists>fmspc ps. policies_ok E (fmspc, ps) \<and> enc (sd_appraisal S) ps = Some (snd kb) \<and> fst kb = key_appraisal fmspc"
    if kb: "kb \<in> set es' - set es1" for kb
  proof -
    obtain fp where fp: "fp \<in> set policies" "enc (sd_appraisal S) (snd fp) = Some (snd kb)" "fst kb = key_appraisal (fst fp)"
      using kb unfolding f3(2) by blast
    then have "policies_ok E (fst fp, snd fp)" using policy_rows_ok [OF s2] by (simp add: list_all_iff)
    with fp show ?thesis by blast
  qed
  show "imported_ok E S parses es0 kb" if "kb \<in> set es' - set es"
    using f1(3) [of kb] pol [of kb] that unfolding imported_ok_def by blast
  show "\<exists>kb\<in>set es'. stores (registered_of E) (sd_reg S) registered_key r kb"
    if "r \<in> set (table_rows rows ''platforms_registered'')"
    using add_records_cover [OF s1 [unfolded row_loops] assms(2) that] f3(2) by blast
qed

lemma convert_entries_ok:
  assumes "convert_entries E S parses rows [] = Inr es"
  shows "distinct (map fst es)" "kb \<in> set es \<Longrightarrow> imported_ok E S parses (set es) kb"
    and "\<exists>certs. try_fold certificate_row (table_rows rows ''pcs_certificates'') [] = Inr certs \<and>
      rows_restored E S parses rows certs (set es)"
proof -
  obtain certs es1 es2 es3 where
    certs: "try_fold certificate_row (table_rows rows ''pcs_certificates'') [] = Inr certs"
    and s1: "try_fold (tcb_row E S certs) (table_rows rows ''fmspc_tcbs'') [] = Inr es1"
    and s2: "convert_platforms E S rows certs es1 = Inr es2"
    and s3: "convert_collateral E S parses rows certs es2 = Inr es3"
    and s4: "convert_queue_and_policies E S rows es3 = Inr es"
    using assms by (auto simp: convert_entries_def and_then_Inr)
  note ok = certificates_ok [OF certs]
  have nil: "distinct (map fst [])" by simp
  have tok: "\<forall>x r. tcb_record_of E certs x = Inr r \<longrightarrow> tcb_ok r" using tcb_record_of_ok [OF ok] by blast
  note f1 = add_records_ok [OF s1 [unfolded row_loops] nil tok]
  obtain ps where f2: "distinct (map fst es2)" "set es1 \<subseteq> set es2"
    and ps': "\<forall>p\<in>ps. pool_ok S (set es2) p \<and> (\<exists>b. enc (sd_platform S) p = Some b \<and> (pool_key p, b) \<in> set es2)"
    and made: "\<forall>kb\<in>set es2 - set es1. \<exists>p\<in>ps. enc (sd_platform S) p = Some (snd kb) \<and> fst kb = pool_key p \<or>
         (\<exists>raw\<in>set (pp_raw_tcbs p). level_entry S p raw kb)"
    and rows: "\<forall>r\<in>set (table_rows rows ''platforms''). \<exists>p\<in>ps. row_platform_key r = Inr (pp_qe_id p, pp_pce_id p)"
      "\<forall>r\<in>set (table_rows rows ''platform_tcbs''). \<exists>p\<in>ps. row_platform_key r = Inr (pp_qe_id p, pp_pce_id p) \<and> has_level r p"
    using convert_platforms_ok [OF s2 ok f1(1)] by (elim conjE exE) (rule that; assumption)
  have ps: "pool_ok S (set es2) p" "\<exists>b. enc (sd_platform S) p = Some b \<and> (pool_key p, b) \<in> set es2" if "p \<in> ps" for p
    using ps' that by blast+
  note f3 = convert_collateral_ok [OF s3 ok f2(1)]
  note f4 = convert_queue_ok [OF s4 f3(1)]
  have sub: "set es1 \<subseteq> set es" "set es2 \<subseteq> set es" "set es3 \<subseteq> set es" using f2(2) f3(2) f4(2) by auto
  show "distinct (map fst es)" by (rule f4(1))
  have pool: "imported_ok E S parses (set es) kb" if kb: "kb \<in> set es2 - set es1"
  proof -
    obtain p where p: "p \<in> ps" "enc (sd_platform S) p = Some (snd kb) \<and> fst kb = pool_key p \<or>
         (\<exists>raw\<in>set (pp_raw_tcbs p). level_entry S p raw kb)" using bspec [OF made kb] by blast
    have "pool_ok S (set es) p" "\<exists>b. enc (sd_platform S) p = Some b \<and> (pool_key p, b) \<in> set es"
      using ps(2) [OF p(1)] pool_ok_mono [OF ps(1) [OF p(1)] sub(2)] sub(2) by auto
    with p(2) show ?thesis unfolding imported_ok_def entry_of_def by blast
  qed
  have tcb: "imported_ok E S parses (set es) kb" if "kb \<in> set es1"
    using f1(3) [of kb] that unfolding imported_ok_def by simp
  show "imported_ok E S parses (set es) kb" if "kb \<in> set es"
    using that tcb pool f3(3) [of kb "set es"] f4(3) [of kb parses "set es"] by blast
  have "\<forall>p\<in>ps. pool_ok S (set es) p \<and> (\<exists>b. enc (sd_platform S) p = Some b \<and> (pool_key p, b) \<in> set es)"
    using ps pool_ok_mono [OF _ sub(2)] sub(2) by blast
  moreover have "\<forall>r\<in>set (table_rows rows ''fmspc_tcbs''). \<exists>kb\<in>set es. stores (tcb_record_of E certs) (sd_tcb S) tcb_key r kb"
    using add_records_cover [OF s1 [unfolded row_loops] nil] sub(1) by blast
  ultimately have "rows_restored E S parses rows certs (set es)"
    using f3(4-7) f4(4) sub(3) rows unfolding rows_restored_def by blast
  with certs show "\<exists>certs. try_fold certificate_row (table_rows rows ''pcs_certificates'') [] = Inr certs \<and>
      rows_restored E S parses rows certs (set es)" by blast
qed

section \<open>What the import guarantees\<close>

lemma prepare_Inr:
  assumes "prepare E S parses src = Inr sn"
  shows "convert_entries E S parses (sn_rows sn) [] = Inr (sn_entries sn)"
proof -
  obtain Q h sn0 sn1 where "read_snapshot Q h = Inr sn0" "convert E S parses sn0 = Inr sn1"
    "sn_entries sn = sn_entries sn1" "sn_rows sn = sn_rows sn1"
    using assms by (auto simp: prepare_def and_then_Inr split: if_splits)
  moreover from this(1) have "sn_entries sn0 = []"
    by (auto simp: read_snapshot_def and_then_Inr split: if_splits)
  ultimately show ?thesis by (auto simp: convert_def and_then_Inr)
qed

text \<open>C27: Every snapshot that passes the checks becomes a well-formed store. No two records share a key, and each
  entry holds a record of its kind under the key of that record: TCB infos and identities with their
  version, update type and a non-blank issuer chain, CRLs that parse and come from a vendor host,
  registrations in a known state, policies under their own digest and FMSPC, and platform pools whose raw
  TCB levels all have a certificate in the pool and a certificate entry that belongs to a stored pool.\<close>
theorem import_well_formed:
  assumes "prepare E S parses src = Inr sn"
  shows "distinct (map fst (sn_entries sn)) \<and>
    (\<forall>kb\<in>set (sn_entries sn). imported_ok E S parses (set (sn_entries sn)) kb)"
  using convert_entries_ok(1,2) [OF prepare_Inr [OF assms]] by blast

definition served_rows ::
  "ext \<Rightarrow> serde \<Rightarrow> (bytes \<Rightarrow> bool) \<Rightarrow> 'db rocks \<Rightarrow> (string \<times> row list) list \<Rightarrow> certificates \<Rightarrow> 'db \<Rightarrow> bool" where
  "served_rows E S parses R rows certs db \<longleftrightarrow>
     (\<forall>r\<in>set (table_rows rows ''fmspc_tcbs''). \<exists>rec u. tcb_record_of E certs r = Inr rec \<and>
        update_str u = tr_update_type rec \<and> get_tcb R S db (tr_prod_type rec) (tr_fmspc rec) (tr_version rec) u = Some rec) \<and>
     (\<forall>r\<in>set (table_rows rows ''enclave_identities''). \<exists>rec u. identity_record_of E certs r = Inr rec \<and>
        update_str u = ir_update_type rec \<and> get_identity R S db (ir_enclave_id rec) (ir_version rec) u = Some rec) \<and>
     (\<forall>r\<in>set (table_rows rows ''pck_crl''). \<exists>rec. pckcrl_record_of parses certs r = Inr rec \<and>
        get_pckcrl R S db (pl_ca rec) = Some rec) \<and>
     (\<forall>r\<in>set (table_rows rows ''crl_cache''). \<exists>rec. crl_record_of parses r = Inr rec \<and>
        get_crl R S db (cr_uri rec) = Some (cr_crl rec)) \<and>
     (\<forall>r\<in>set (table_rows rows ''pcs_certificates''). row_blob r ''crl'' \<noteq> Inr [] \<longrightarrow>
        map_option Inr (get_rootcacrl R S db) = Some (row_blob r ''crl'')) \<and>
     (\<forall>r\<in>set (table_rows rows ''platforms''). \<exists>qe pce pool. row_platform_key r = Inr (qe, pce) \<and>
        get_platform_pool R S db qe pce = Some pool) \<and>
     (\<forall>r\<in>set (table_rows rows ''platform_tcbs''). \<exists>qe pce raw rec. row_platform_key r = Inr (qe, pce) \<and> is_level r raw \<and>
        get_pckcert R S db qe (rt_cpu_svn raw) (rt_pce_svn raw) pce = Some rec \<and>
        pk_tcbm rec = rt_tcbm raw \<and> cacheable (pk_issuer_chain rec))"

text \<open>A database that holds exactly the entries serves their records.\<close>

locale restored =
  fixes R :: "'db rocks" and view :: "'db \<Rightarrow> kv" and S :: serde and db :: 'db and es :: entries
  assumes R: "rocks_ok R view" "reads_reliable R" and S: "serde_ok S"
    and db: "view db (as_bytes key) = map_of es key" and es: "distinct (map fst es)"
begin

lemma held: "(k, b) \<in> set es \<Longrightarrow> view db (as_bytes k) = Some b"
  using es by (simp add: db)

lemma read: "codec_ok C \<Longrightarrow> enc C r = Some b \<Longrightarrow> (k, b) \<in> set es \<Longrightarrow> read_json R C db k = Some r"
  using held by (simp add: read_json_reliable [OF R] codec_ok_def)

lemma stored: "stores conv C key x kb \<Longrightarrow> kb \<in> set es \<Longrightarrow> codec_ok C \<Longrightarrow>
    \<exists>r. conv x = Inr r \<and> read_json R C db (key r) = Some r"
  unfolding stores_def using read by (metis prod.collapse)

lemma get_stored:
  "read_json R (sd_tcb S) db (tcb_key r) = Some r \<Longrightarrow> doc_version_ok v (tr_update_type r) \<Longrightarrow>
     \<exists>u. update_str u = tr_update_type r \<and> get_tcb R S db (tr_prod_type r) (tr_fmspc r) (tr_version r) u = Some r"
  "read_json R (sd_identity S) db (identity_key i) = Some i \<Longrightarrow> doc_version_ok v (ir_update_type i) \<Longrightarrow>
     \<exists>u. update_str u = ir_update_type i \<and> get_identity R S db (ir_enclave_id i) (ir_version i) u = Some i"
  "read_json R (sd_pckcrl S) db (key_pckcrl (pl_ca p)) = Some p \<Longrightarrow> get_pckcrl R S db (pl_ca p) = Some p"
  "read_json R (sd_crl S) db (key_crl (cr_uri c)) = Some c \<Longrightarrow> get_crl R S db (cr_uri c) = Some (cr_crl c)"
  "read_json R (sd_platform S) db (pool_key pool) = Some pool \<Longrightarrow>
     get_platform_pool R S db (pp_qe_id pool) (pp_pce_id pool) = Some pool"
  "read_json R (sd_pckcert S) db (pckcert_key k) = Some k \<Longrightarrow>
     get_pckcert R S db (pk_qeid k) (pk_cpusvn k) (pk_pcesvn k) (pk_pceid k) = Some k"
  subgoal by (auto simp: doc_version_ok_def tcb_key_def get_tcb_def intro: exI [of _ Standard] exI [of _ Early])
  subgoal by (auto simp: doc_version_ok_def identity_key_def get_identity_def intro: exI [of _ Standard] exI [of _ Early])
  by (simp_all add: get_pckcrl_def get_crl_def pool_key_def get_platform_pool_def pckcert_key_def get_pckcert_def
      pckcert_matches_refl)

lemma pool_served:
  assumes "pool_ok S (set es) p" "enc (sd_platform S) p = Some b" "(pool_key p, b) \<in> set es"
  shows "get_platform_pool R S db (pp_qe_id p) (pp_pce_id p) = Some p"
    and "has_level r p \<Longrightarrow> \<exists>raw rec. is_level r raw \<and>
      get_pckcert R S db (pp_qe_id p) (rt_cpu_svn raw) (rt_pce_svn raw) (pp_pce_id p) = Some rec \<and>
      pk_tcbm rec = rt_tcbm raw \<and> cacheable (pk_issuer_chain rec)"
proof -
  show "get_platform_pool R S db (pp_qe_id p) (pp_pce_id p) = Some p"
    by (rule get_stored(5) [OF read [OF serde_okD(2) [OF S] assms(2,3)]])
  assume "has_level r p"
  then obtain raw where raw: "raw \<in> set (pp_raw_tcbs p)" "is_level r raw" by (auto simp: has_level_def)
  then obtain kb cert where kb: "kb \<in> set es" "cert \<in> set (pp_certs p)"
    "enc (sd_pckcert S) (raw_tcb_record p raw cert) = Some (snd kb)" "fst kb = pckcert_key (raw_tcb_record p raw cert)"
    using assms(1) unfolding pool_ok_def level_entry_def by blast
  have "read_json R (sd_pckcert S) db (pckcert_key (raw_tcb_record p raw cert)) = Some (raw_tcb_record p raw cert)"
    by (rule read [OF serde_okD(1) [OF S] kb(3)]) (use kb(1,4) in \<open>metis prod.collapse\<close>)
  moreover have "cacheable (pp_issuer_chain p)" using assms(1) kb(2) by (auto simp: pool_ok_def)
  ultimately show "\<exists>raw rec. is_level r raw \<and>
      get_pckcert R S db (pp_qe_id p) (rt_cpu_svn raw) (rt_pce_svn raw) (pp_pce_id p) = Some rec \<and>
      pk_tcbm rec = rt_tcbm raw \<and> cacheable (pk_issuer_chain rec)"
    using get_stored(6) [of "raw_tcb_record p raw cert"] raw(2)
    by (intro exI [of _ raw] exI [of _ "raw_tcb_record p raw cert"]) (simp add: raw_tcb_record_def)
qed

lemma row_served:
  assumes "\<forall>r\<in>A. \<exists>kb\<in>set es. stores conv C key r kb" "codec_ok C" "r \<in> A"
  shows "\<exists>rec. conv r = Inr rec \<and> read_json R C db (key rec) = Some rec"
proof -
  from bspec [OF assms(1,3)] obtain kb where "kb \<in> set es" "stores conv C key r kb" by blast
  from stored [OF this(2,1) assms(2)] show ?thesis .
qed

lemma rows_served:
  assumes "rows_restored E S parses rows certs (set es)" "certs_ok certs"
  shows "served_rows E S parses R rows certs db"
proof -
  note c1 = assms(1) [unfolded rows_restored_def, THEN conjunct1]
  note c2 = assms(1) [unfolded rows_restored_def, THEN conjunct2]
  note c3 = c2 [THEN conjunct2] and c2 = c2 [THEN conjunct1]
  note c4 = c3 [THEN conjunct2] and c3 = c3 [THEN conjunct1]
  note c5 = c4 [THEN conjunct2] and c4 = c4 [THEN conjunct1]
  note pools = c5 [THEN conjunct2, THEN conjunct2] and c5 = c5 [THEN conjunct1]
  have tcb: "\<exists>rec u. tcb_record_of E certs r = Inr rec \<and> update_str u = tr_update_type rec \<and>
      get_tcb R S db (tr_prod_type rec) (tr_fmspc rec) (tr_version rec) u = Some rec"
    if r: "r \<in> set (table_rows rows ''fmspc_tcbs'')" for r
  proof -
    obtain rec where rec: "tcb_record_of E certs r = Inr rec" "read_json R (sd_tcb S) db (tcb_key rec) = Some rec"
      using row_served [OF c1 serde_okD(3) [OF S] r] by blast
    then have "doc_version_ok (tr_version rec) (tr_update_type rec)"
      using tcb_record_of_ok [OF assms(2) rec(1)] by (simp add: tcb_ok_def)
    from get_stored(1) [OF rec(2) this] rec(1) show ?thesis by blast
  qed
  have identity: "\<exists>rec u. identity_record_of E certs r = Inr rec \<and> update_str u = ir_update_type rec \<and>
      get_identity R S db (ir_enclave_id rec) (ir_version rec) u = Some rec"
    if r: "r \<in> set (table_rows rows ''enclave_identities'')" for r
  proof -
    obtain rec where rec: "identity_record_of E certs r = Inr rec" "read_json R (sd_identity S) db (identity_key rec) = Some rec"
      using row_served [OF c2 serde_okD(4) [OF S] r] by blast
    then have "doc_version_ok (ir_version rec) (ir_update_type rec)"
      using identity_record_of_ok [OF assms(2) rec(1)] by (simp add: identity_ok_def)
    from get_stored(2) [OF rec(2) this] rec(1) show ?thesis by blast
  qed
  have pckcrl: "\<exists>rec. pckcrl_record_of parses certs r = Inr rec \<and> get_pckcrl R S db (pl_ca rec) = Some rec"
    if "r \<in> set (table_rows rows ''pck_crl'')" for r
    using row_served [OF c3 serde_okD(5) [OF S] that] get_stored(3) by blast
  have crl: "\<exists>rec. crl_record_of parses r = Inr rec \<and> get_crl R S db (cr_uri rec) = Some (cr_crl rec)"
    if "r \<in> set (table_rows rows ''crl_cache'')" for r
    using row_served [OF c4 serde_okD(7) [OF S] that] get_stored(4) by blast
  have root: "map_option Inr (get_rootcacrl R S db) = Some (row_blob r ''crl'')"
    if r: "r \<in> set (table_rows rows ''pcs_certificates'')" "row_blob r ''crl'' \<noteq> Inr []" for r
  proof -
    obtain kb crl where kb: "kb \<in> set es" "row_blob r ''crl'' = Inr crl" "enc (sd_rootcacrl S) crl = Some (snd kb)"
      "fst kb = key_rootcacrl" using c5 r unfolding root_crl_made_def by blast
    then have "read_json R (sd_rootcacrl S) db key_rootcacrl = Some crl"
      by (intro read [OF serde_okD(6) [OF S] kb(3)]) (metis prod.collapse)
    with kb(2) show ?thesis by (simp add: get_rootcacrl_def)
  qed
  obtain ps where ps: "\<forall>p\<in>ps. pool_ok S (set es) p \<and> (\<exists>b. enc (sd_platform S) p = Some b \<and> (pool_key p, b) \<in> set es)"
    "\<forall>r\<in>set (table_rows rows ''platforms''). \<exists>p\<in>ps. row_platform_key r = Inr (pp_qe_id p, pp_pce_id p)"
    "\<forall>r\<in>set (table_rows rows ''platform_tcbs''). \<exists>p\<in>ps. row_platform_key r = Inr (pp_qe_id p, pp_pce_id p) \<and> has_level r p"
    using pools by (elim conjE exE) (rule that; assumption)
  have pool: "\<exists>qe pce pool. row_platform_key r = Inr (qe, pce) \<and> get_platform_pool R S db qe pce = Some pool"
    if "r \<in> set (table_rows rows ''platforms'')" for r
    using ps(1,2) that pool_served(1) by blast
  have level: "\<exists>qe pce raw rec. row_platform_key r = Inr (qe, pce) \<and> is_level r raw \<and>
        get_pckcert R S db qe (rt_cpu_svn raw) (rt_pce_svn raw) pce = Some rec \<and>
        pk_tcbm rec = rt_tcbm raw \<and> cacheable (pk_issuer_chain rec)"
    if r: "r \<in> set (table_rows rows ''platform_tcbs'')" for r
  proof -
    obtain p where "p \<in> ps" "row_platform_key r = Inr (pp_qe_id p, pp_pce_id p)" "has_level r p" using ps(3) r by blast
    moreover from this(1) obtain b where "pool_ok S (set es) p" "enc (sd_platform S) p = Some b" "(pool_key p, b) \<in> set es"
      using ps(1) by blast
    ultimately show ?thesis using pool_served(2) [of p b r] by blast
  qed
  show ?thesis
    unfolding served_rows_def
    by (intro conjI ballI impI) (erule tcb, erule identity, erule pckcrl, erule crl, erule (1) root, erule pool, erule level)
qed

end

section \<open>An undisturbed import succeeds\<close>

definition utf8_keys :: "entries \<Rightarrow> bool" where
  "utf8_keys es \<longleftrightarrow> (\<forall>(k, b)\<in>set es. from_utf8 (as_bytes k) = Some k)"

lemma verify_entries_complete:
  "list_all (\<lambda>i. \<exists>k v. i = Inr (as_bytes k, v) \<and> (k, v) \<in> set es) items \<Longrightarrow> utf8_keys es \<Longrightarrow> distinct (map fst es) \<Longrightarrow>
   verify_entries es items n = Inr (n + length items)"
  by (induction items arbitrary: n) (auto simp: utf8_keys_def)

lemma view_of_puts:
  "distinct (map fst es) \<Longrightarrow>
   apply_batch m (map (\<lambda>(k, v). Put (as_bytes k) v) es) =
     m ++ map_of (map (\<lambda>(k, v). (as_bytes k, v)) es)"
proof (induction es arbitrary: m)
  case (Cons e es)
  then have "as_bytes (fst e) \<notin> dom (map_of (map (\<lambda>(k, v). (as_bytes k, v)) es))"
    by (auto dest!: map_of_SomeD) (metis fst_conv image_eqI)
  with Cons show ?case by (cases e) (auto simp: map_add_upd_left fun_eq_iff map_add_def split: option.splits)
qed simp

lemma verify_written:
  assumes "rocks_ok R view" "reads_reliable R" "di_rocks D = R" "distinct (map fst es)" "utf8_keys es"
    and "view db = map_of (map (\<lambda>(k, v). (as_bytes k, v)) es)"
  shows "verify_staging D es db = Inr ()"
proof -
  let ?m = "map (\<lambda>(k, v). (as_bytes k, v)) es"
  have fin: "finite (dom (map_of ?m))" by (rule finite_dom_map_of)
  have dist: "distinct (map fst ?m)"
    using assms(4) by (induction es) (auto simp: image_iff)
  have iter: "rk_iter R db [] = map (\<lambda>k. Inr (k, the (map_of ?m k))) (sorted_list_of_set (dom (map_of ?m)))"
    by (simp add: rk_iter_reliable [OF assms(1,2)] iter_of_def keys_from_def assms(6))
  have "length (rk_iter R db []) = length es"
    using distinct_card [OF dist] by (simp add: iter dom_map_of_conv_image_fst image_image)
  moreover have "list_all (\<lambda>i. \<exists>k v. i = Inr (as_bytes k, v) \<and> (k, v) \<in> set es) (rk_iter R db [])"
    using fin by (fastforce simp: iter list_all_iff dest: map_of_SomeD)
  ultimately show ?thesis
    using verify_entries_complete [OF _ assms(5,4)] by (simp add: verify_staging_def assms(3))
qed

definition staged_at :: "string \<Rightarrow> string \<Rightarrow> 'db option \<Rightarrow> 'db fs \<Rightarrow> bool" where
  "staged_at staging destination d fs \<longleftrightarrow> fs destination = None \<and> (\<exists>rep. fs staging = Some (Dir d rep))"

text \<open>Nothing fails, and no other process touches the two paths.\<close>

locale undisturbed_import =
  fixes D :: "'db disk" and view :: "'db \<Rightarrow> kv" and staging destination :: string
  assumes rocks: "rocks_ok (di_rocks D) view" "reads_reliable (di_rocks D)" "writes_reliable (di_rocks D)"
    and fresh: "view (di_fresh D) = Map.empty"
    and left: "leaves D staging" "leaves D destination" and works: "\<not> di_fails D st" and paths: "staging \<noteq> destination"
begin

abbreviation staged :: "'db option \<Rightarrow> 'db fs \<Rightarrow> bool" where
  "staged \<equiv> staged_at staging destination"

lemmas step_simps = staged_at_def fs_step_def works left [unfolded leaves_def, rule_format] paths paths [symmetric] Let_def

lemma opens: "staged None fs \<Longrightarrow> \<exists>fs'. open_staging D staging fs = (Inr (di_fresh D), fs') \<and> staged (Some (di_fresh D)) fs'"
  by (auto simp: open_staging_def step_simps unwrap_or_def)

lemma writes:
  assumes "staged d fs"
  shows "\<exists>fs' db'. write_staging D staging es db fs = (Inr (), fs') \<and> staged (Some db') fs' \<and>
    view db' = apply_batch (view db) (map (\<lambda>(k, v). Put (as_bytes k) v) es)"
proof (rule rk_write_cases [OF rocks(1), of db "map (\<lambda>(k, v). Put (as_bytes k) v) es"])
  fix db' assume "rk_write (di_rocks D) db (map (\<lambda>(k, v). Put (as_bytes k) v) es) = Inr db'"
    "view db' = apply_batch (view db) (map (\<lambda>(k, v). Put (as_bytes k) v) es)"
  with assms show ?thesis by (auto simp: write_staging_def step_simps)
qed (use rocks(3) in simp)

lemma syncs: "staged d fs \<Longrightarrow> \<exists>fs'. sync_path D st e fs = (Inr (), fs') \<and> staged d fs'"
  by (simp add: sync_path_def step_simps)

lemma reopens: "staged (Some db) fs \<Longrightarrow> \<exists>fs'. reopen_staging D staging fs = (Inr db, fs') \<and> staged (Some db) fs'"
  by (auto simp: reopen_staging_def step_simps)

lemma reports: "staged d fs \<Longrightarrow> \<exists>fs'. write_report D staging rep fs = (Inr (), fs') \<and> staged d fs'"
  by (auto simp: write_report_def step_simps)

lemma renames: "staged d fs \<Longrightarrow> \<exists>fs'. publish_directory D staging destination fs = (Inr (), fs')"
  by (auto simp: publish_directory_def step_simps)

lemma fills:
  assumes "staged None fs" "distinct (map fst (sn_entries sn))" "utf8_keys (sn_entries sn)"
  shows "\<exists>fs'. fill_and_publish D sn staging destination fs = (Inr (), fs')"
proof -
  obtain f1 where 1: "open_staging D staging fs = (Inr (di_fresh D), f1)" "staged (Some (di_fresh D)) f1"
    using opens [OF assms(1)] by blast
  obtain f2 db where 2: "write_staging D staging (sn_entries sn) (di_fresh D) f1 = (Inr (), f2)" "staged (Some db) f2"
    "view db = apply_batch (view (di_fresh D)) (map (\<lambda>(k, v). Put (as_bytes k) v) (sn_entries sn))"
    using writes [OF 1(2)] by blast
  obtain f3 where 3: "sync_path D FlushStaging ''flush staging RocksDB'' f2 = (Inr (), f3)" "staged (Some db) f3"
    using syncs [OF 2(2)] by blast
  obtain f4 where 4: "reopen_staging D staging f3 = (Inr db, f4)" "staged (Some db) f4"
    using reopens [OF 3(2)] by blast
  obtain f5 where 5: "write_report D staging (sn_report sn) f4 = (Inr (), f5)" "staged (Some db) f5"
    using reports [OF 4(2)] by blast
  obtain f6 where 6: "sync_path D SyncReport ''sync report'' f5 = (Inr (), f6)" "staged (Some db) f6"
    using syncs [OF 5(2)] by blast
  obtain f7 where 7: "sync_path D SyncStaging ''sync staging directory'' f6 = (Inr (), f7)" "staged (Some db) f7"
    using syncs [OF 6(2)] by blast
  obtain f8 where 8: "publish_directory D staging destination f7 = (Inr (), f8)" using renames [OF 7(2)] by blast
  have "verify_staging D (sn_entries sn) db = Inr ()"
    by (rule verify_written [OF rocks(1,2) refl assms(2,3)]) (simp add: 2(3) fresh view_of_puts [OF assms(2)])
  with 1(1) 2(1) 3(1) 4(1) 5(1) 6(1) 7(1) 8 show ?thesis
    by (simp add: fill_and_publish_def fs_then_def) (simp add: sync_path_def fs_step_def works Let_def)
qed

lemma publishes:
  assumes "fs destination = None" "fs staging = None" "distinct (map fst (sn_entries sn))" "utf8_keys (sn_entries sn)"
  shows "\<exists>fs'. publish D sn staging destination fs = (Inr (), fs')"
proof -
  obtain f1 where 1: "private_directory D staging fs = (Inr (), f1)" "staged None f1"
    using assms(1,2) by (auto simp: private_directory_def step_simps)
  from fills [OF 1(2) assms(3,4)] 1(1) show ?thesis by (auto simp: publish_def fs_then_def)
qed

end

interpretation quiet_import: undisturbed_import quiet_disk map_of "''.staging''" "''store''"
  by unfold_locales (simp_all add: quiet_disk_def mem_rocks_ok mem_reliable leaves_def)

interpretation quiet_restored: restored mem_rocks map_of root_serde "[(as_bytes key_rootcacrl, [9])]" "[(key_rootcacrl, [9])]"
  by unfold_locales (simp_all add: mem_rocks_ok mem_reliable root_serde_ok)


lemma sample_prepared:
  "map_sum id (\<lambda>sn. (sn_entries sn, length (sn_rows sn), rp_destination_records (sn_report sn)))
     (prepare sample_ext root_serde (\<lambda>_. True) sample_source) = Inr ([(key_rootcacrl, [9])], 12, 1)"
  by code_simp

lemma sample_prepares:
  obtains sn where "prepare sample_ext root_serde (\<lambda>_. True) sample_source = Inr sn"
    "sn_entries sn = [(key_rootcacrl, [9])]" "rp_destination_records (sn_report sn) = 1"
  using sample_prepared by (auto simp: map_sum_def split: sum.splits)

theorem import_well_formed_witness:
  "\<exists>sn. prepare sample_ext root_serde (\<lambda>_. True) sample_source = Inr sn \<and>
     distinct (map fst (sn_entries sn)) \<and> imported_ok sample_ext root_serde (\<lambda>_. True) (set (sn_entries sn)) (key_rootcacrl, [9])"
proof (rule sample_prepares)
  fix sn assume sn: "prepare sample_ext root_serde (\<lambda>_. True) sample_source = Inr sn"
    "sn_entries sn = [(key_rootcacrl, [9])]"
  from import_well_formed [OF sn(1)] sn show ?thesis by auto
qed


end
