(* ===== verification/Startup.thy ===== *)
theory Startup
  imports Config "HOL-Library.Multiset"
begin

text \<open>
  \<^verbatim>\<open>src/main.rs\<close> and \<^verbatim>\<open>src/server.rs\<close>: starting the server, its connections and its timers. What the
  operating system answers (name resolution, binding, reading key files, data on a socket) is a parameter
  or an event; a run is the list of what it does. Socket options and log texts are left out.
\<close>

section \<open>Connections\<close>

record http_options =
  ho_keep_alive :: bool
  ho_pipeline_flush :: bool
  ho_header_read_timeout :: "u64 option"

definition configure_http :: "config \<Rightarrow> http_options" where
  "configure_http cfg =
     (let keep_alive = co_keepalive_timeout_secs cfg > 0;
          idle = (if keep_alive then co_keepalive_timeout_secs cfg else max (co_headers_timeout_secs cfg) 1)
      in \<lparr>ho_keep_alive = keep_alive, ho_pipeline_flush = True, ho_header_read_timeout = Some idle\<rparr>)"

text \<open>What a peek at a new connection gives before the deadline.\<close>

datatype peek = Peek nat | PeekError | PeekTimeout

definition await_first_byte :: "u64 \<Rightarrow> peek \<Rightarrow> bool" where
  "await_first_byte limit p =
     (if limit = 0 then True else case p of Peek n \<Rightarrow> n \<noteq> 0 | PeekError \<Rightarrow> False | PeekTimeout \<Rightarrow> False)"

text \<open>The accept loop: connections that wait for their first byte in a task of their own, those handed
  back through the channel, and those served.\<close>

record 'c server =
  sv_waiting :: "'c list"
  sv_channel :: "'c list"
  sv_served :: "'c list"
  sv_running :: bool

datatype 'c event = Accepted 'c | AcceptFailed | Peeked 'c peek | Received | Shutdown

definition new_server :: "'c server" where
  "new_server = \<lparr>sv_waiting = [], sv_channel = [], sv_served = [], sv_running = True\<rparr>"

fun serve_http :: "u64 \<Rightarrow> 'c event \<Rightarrow> 'c server \<Rightarrow> 'c server option" where
  "serve_http first_byte (Accepted c) s =
     (if sv_running s then Some (s\<lparr>sv_waiting := sv_waiting s @ [c]\<rparr>) else None)"
| "serve_http first_byte AcceptFailed s = (if sv_running s then Some s else None)"
| "serve_http first_byte (Peeked c p) s =
     (if c \<in> set (sv_waiting s)
      then Some (s\<lparr>sv_waiting := remove1 c (sv_waiting s),
                   sv_channel := sv_channel s @ (if await_first_byte first_byte p then [c] else [])\<rparr>)
      else None)"
| "serve_http first_byte Received s =
     (case sv_channel s of
        c # cs \<Rightarrow> if sv_running s then Some (s\<lparr>sv_channel := cs, sv_served := sv_served s @ [c]\<rparr>) else None
      | [] \<Rightarrow> None)"
| "serve_http first_byte Shutdown s = (if sv_running s then Some (s\<lparr>sv_running := False\<rparr>) else None)"

inductive serves :: "u64 \<Rightarrow> 'c event list \<Rightarrow> 'c server \<Rightarrow> bool" for first_byte where
  listening: "serves first_byte [] new_server"
| happens: "serves first_byte es s \<Longrightarrow> serve_http first_byte e s = Some s' \<Longrightarrow> serves first_byte (es @ [e]) s'"

text \<open>After the response: the write half is shut and what the peer still sends is read and dropped, until
  the end of the stream, an error or the end of the grace period. Each read comes with the time it takes.\<close>

datatype read_result = ReadBytes nat | ReadError

fun drain_and_close :: "nat \<Rightarrow> (nat \<times> read_result) list \<Rightarrow> nat \<times> nat" where
  "drain_and_close grace [] = (0, grace)"
| "drain_and_close grace ((d, r) # rs) =
     (if grace < d then (0, grace)
      else case r of
             ReadBytes n \<Rightarrow>
               if n = 0 then (0, d) else (let (dropped, t) = drain_and_close (grace - d) rs in (n + dropped, d + t))
           | ReadError \<Rightarrow> (0, d))"

section \<open>Warnings\<close>

record sock_addr =
  ad_ip :: string
  ad_port :: u16

text \<open>The operating system and the libraries at start-up.\<close>

record host_env =
  he_resolve :: "string \<Rightarrow> string + sock_addr list"
  he_loopback :: "string \<Rightarrow> bool"
  he_app_state :: "config \<Rightarrow> bool"
  he_bind_metrics :: "string \<Rightarrow> bool"
  he_tls_files :: "string \<Rightarrow> string \<Rightarrow> bool"
  he_bind :: "sock_addr \<Rightarrow> bool"

datatype log_line = TokenHashUnset string | DevTokens | SelfUpstream string string | MetricsNotLoopback string

definition validate_token_hashes :: "config \<Rightarrow> log_line list" where
  "validate_token_hashes cfg =
     concat (map (\<lambda>(name, hash). if is_sha512_hex hash then [] else [TokenHashUnset name])
       [(''UserTokenHash'', co_user_token_hash cfg), (''AdminTokenHash'', co_admin_token_hash cfg)])"

definition warn_on_dev_tokens :: "config \<Rightarrow> log_line list" where
  "warn_on_dev_tokens cfg =
     (if co_user_token_hash cfg = DEFAULT_USER_TOKEN_HASH \<or> co_admin_token_hash cfg = DEFAULT_ADMIN_TOKEN_HASH
      then [DevTokens] else [])"

definition warn_if_uri_is_self :: "host_env \<Rightarrow> config \<Rightarrow> sock_addr \<Rightarrow> string \<Rightarrow> string \<Rightarrow> log_line list" where
  "warn_if_uri_is_self H cfg addr uri label =
     (case uri_host uri of
        None \<Rightarrow> []
      | Some host \<Rightarrow>
          if host = to_ascii_lowercase (co_host cfg) \<or>
             (case he_resolve H host of Inr as \<Rightarrow> list_ex (\<lambda>a. ad_ip a = ad_ip addr) as | Inl _ \<Rightarrow> False)
          then [SelfUpstream label host] else [])"

definition warn_on_self_upstream :: "host_env \<Rightarrow> config \<Rightarrow> sock_addr \<Rightarrow> log_line list" where
  "warn_on_self_upstream H cfg addr =
     warn_if_uri_is_self H cfg addr (co_uri cfg) ''upstream uri host'' @
     warn_if_uri_is_self H cfg addr (co_amd_kds_uri cfg) ''amd_kds_uri host'' @
     warn_if_uri_is_self H cfg addr (co_nvidia_rim_uri cfg) ''nvidia_rim_uri host'' @
     warn_if_uri_is_self H cfg addr (co_nvidia_ocsp_uri cfg) ''nvidia_ocsp_uri host''"

section \<open>The refresh timer\<close>

text \<open>One round of the timer sees the time, the next time of the schedule and how the refresh ended.
  Times are in nanoseconds.\<close>

datatype timer_event = Sleep int | Refreshed bool | TimerOff

fun refresh_rounds :: "(int \<times> int option \<times> bool) list \<Rightarrow> timer_event list" where
  "refresh_rounds [] = []"
| "refresh_rounds ((now, upcoming, ok) # rounds) =
     (case upcoming of
        None \<Rightarrow> [TimerOff]
      | Some t \<Rightarrow>
          Sleep (if t - now < 0 then 60 * 10 ^ 9 else t - now) # Refreshed ok # refresh_rounds rounds)"

text \<open>The schedule in use: the configured one, or daily at one o'clock; \<open>None\<close> where the task panics.\<close>

definition refresh_schedule :: "(string \<Rightarrow> 's option) \<Rightarrow> string \<Rightarrow> 's option" where
  "refresh_schedule cron schedule =
     (case cron schedule of Some s \<Rightarrow> Some s | None \<Rightarrow> cron ''0 0 1 * * *'')"

section \<open>Start-up\<close>

datatype action =
    Log log_line | MetricsUp string | TimerUp | Bound sock_addr | Started | ServeHttp | ServeHttps u64
  | TimerAborted | MetricsDown

datatype stop = Exit string | Panic

definition resolve_bind_addr :: "host_env \<Rightarrow> string \<Rightarrow> string + sock_addr" where
  "resolve_bind_addr H bind =
     (case he_resolve H bind of
        Inr (a # _) \<Rightarrow> Inr a
      | Inr [] \<Rightarrow> Inl ''resolved to no address''
      | Inl e \<Rightarrow> Inl e)"

definition start_metrics_listener :: "host_env \<Rightarrow> string option \<Rightarrow> (stop + bool) \<times> action list" where
  "start_metrics_listener H listen =
     (case listen of
        None \<Rightarrow> (Inr False, [])
      | Some a \<Rightarrow>
          let logs = (if he_loopback H a then [] else [Log (MetricsNotLoopback a)])
          in if he_bind_metrics H a then (Inr True, logs @ [MetricsUp a]) else (Inl (Exit ''metrics listener''), logs))"

definition listen_and_serve :: "host_env \<Rightarrow> config \<Rightarrow> sock_addr \<Rightarrow> (stop + unit) \<times> action list" where
  "listen_and_serve H cfg addr =
     (if co_https cfg
      then if \<not> he_tls_files H (co_cert cfg) (co_key cfg) then (Inl (Exit ''HTTPS cert/key missing or invalid''), [])
           else (Inr (), Started # (if he_bind H addr then [Bound addr, ServeHttps (max (co_headers_timeout_secs cfg) 1)] else []))
      else if \<not> he_bind H addr then (Inl (Exit ''bind''), [])
      else (Inr (), [Bound addr, Started, ServeHttp]))"

definition run_server :: "host_env \<Rightarrow> config \<Rightarrow> (stop + unit) \<times> action list" where
  "run_server H cfg =
     (case resolve_bind_addr H (bind_addr cfg) of
        Inl e \<Rightarrow> (Inl (Exit ''bind address''), [])
      | Inr addr \<Rightarrow>
          let logs = map Log (validate_token_hashes cfg @ warn_on_dev_tokens cfg @ warn_on_self_upstream H cfg addr)
          in if \<not> he_app_state H cfg then (Inl Panic, logs)
             else case start_metrics_listener H (co_metrics_listen cfg) of
                    (Inl e, acts) \<Rightarrow> (Inl e, logs @ acts)
                  | (Inr up, acts) \<Rightarrow>
                      (case listen_and_serve H cfg addr of
                         (Inl e, acts') \<Rightarrow> (Inl e, logs @ acts @ [TimerUp] @ acts')
                       | (Inr _, acts') \<Rightarrow>
                           (Inr (), logs @ acts @ [TimerUp] @ acts' @ [TimerAborted] @ (if up then [MetricsDown] else []))))"

section \<open>Properties\<close>

subsection \<open>The accept loop\<close>

fun serve_events :: "u64 \<Rightarrow> 'c event list \<Rightarrow> 'c server \<Rightarrow> 'c server option" where
  "serve_events limit [] s = Some s"
| "serve_events limit (e # es) s = Option.bind (serve_http limit e s) (serve_events limit es)"

lemma serve_events_append:
  "serve_events limit (es @ es') s = Option.bind (serve_events limit es s) (serve_events limit es')"
  by (induction es arbitrary: s) (simp_all, metis bind_assoc)

lemma serves_iff: "serves limit es s \<longleftrightarrow> serve_events limit es new_server = Some s"
proof
  show "serves limit es s \<Longrightarrow> serve_events limit es new_server = Some s"
    by (induction rule: serves.induct) (simp_all add: serve_events_append)
  show "serve_events limit es new_server = Some s \<Longrightarrow> serves limit es s"
  proof (induction es arbitrary: s rule: rev_induct)
    case (snoc e es)
    then show ?case by (auto simp: serve_events_append bind_eq_Some_conv intro: serves.happens)
  qed (auto intro: serves.listening)
qed

text \<open>The connections an event concerns.\<close>

fun accepted_by :: "'c event \<Rightarrow> 'c list" where
  "accepted_by (Accepted c) = [c]"
| "accepted_by _ = []"

fun peeked_by :: "'c event \<Rightarrow> 'c list" where
  "peeked_by (Peeked c p) = [c]"
| "peeked_by _ = []"

fun ready_by :: "u64 \<Rightarrow> 'c event \<Rightarrow> 'c list" where
  "ready_by limit (Peeked c p) = (if await_first_byte limit p then [c] else [])"
| "ready_by limit _ = []"

lemma serve_http_step:
  assumes "serve_http limit e s = Some s'"
  shows "sv_served s' @ sv_channel s' = (sv_served s @ sv_channel s) @ ready_by limit e"
    and "mset (sv_waiting s') + mset (peeked_by e) = mset (sv_waiting s) + mset (accepted_by e)"
    and "sv_running s' \<longleftrightarrow> sv_running s \<and> e \<noteq> Shutdown"
    and "\<not> sv_running s \<Longrightarrow> accepted_by e = [] \<and> sv_served s' = sv_served s"
  using assms by (cases e; (auto split: if_splits list.splits; fail))+


definition sample_events :: "nat event list" where
  "sample_events = [Accepted 1, AcceptFailed, Accepted 2, Peeked 2 (Peek 1), Peeked 1 PeekTimeout, Received, Shutdown]"


subsection \<open>Start-up\<close>

definition serving :: "action \<Rightarrow> bool" where
  "serving a \<longleftrightarrow> a = ServeHttp \<or> (\<exists>t. a = ServeHttps t)"

lemma start_metrics_listener_actions:
  assumes "start_metrics_listener H listen = (r, acts)"
  shows "\<not> list_ex serving acts \<and> Started \<notin> set acts \<and>
    (case r of Inr up \<Rightarrow> (case listen of None \<Rightarrow> \<not> up | Some a \<Rightarrow> up \<and> MetricsUp a \<in> set acts) | Inl _ \<Rightarrow> True)"
  using assms by (auto simp: start_metrics_listener_def Let_def serving_def split: option.splits if_splits)

lemma listen_and_serve_actions:
  assumes "listen_and_serve H cfg addr = (r, acts)"
  shows "case r of
      Inl _ \<Rightarrow> acts = []
    | Inr _ \<Rightarrow> \<exists>pre post. acts = pre @ Started # post \<and> Started \<notin> set (pre @ post) \<and> \<not> list_ex serving pre \<and>
        MetricsDown \<notin> set post \<and> (co_https cfg \<or> (\<exists>a. Bound a \<in> set pre \<and> ServeHttp \<in> set post))"
proof (cases r)
  case (Inr u)
  let ?pre = "if co_https cfg then [] else [Bound addr]" and ?post = "tl (dropWhile ((\<noteq>) Started) acts)"
  have "acts = ?pre @ Started # ?post" "Started \<notin> set (?pre @ ?post)" "MetricsDown \<notin> set ?post"
    "co_https cfg \<or> ServeHttp \<in> set ?post"
    using assms Inr by (auto simp: listen_and_serve_def split: if_splits)
  moreover have "\<not> list_ex serving ?pre" "co_https cfg \<or> Bound addr \<in> set ?pre" by (auto simp: serving_def)
  ultimately show ?thesis unfolding Inr sum.case by blast
qed (use assms in \<open>auto simp: listen_and_serve_def split: if_splits\<close>)

text \<open>The start-up either fails before it serves anything or runs through. A failed start (an address
  that does not resolve or bind, a bad key file, a store that does not open, an occupied metrics address) never
  reports the server as started and serves no request. Otherwise the server is reported as started once,
  before it serves and with the refresh timer running; on the plain transport its address is bound by then;
  and at the end the timer is stopped, and the metrics listener, which is up exactly if it is configured.\<close>
theorem startup_order:
  "case run_server H cfg of
     (Inl e, acts) \<Rightarrow> Started \<notin> set acts \<and> \<not> list_ex serving acts
   | (Inr _, acts) \<Rightarrow>
       \<exists>pre post. acts = pre @ Started # post \<and> Started \<notin> set (pre @ post) \<and> \<not> list_ex serving pre \<and>
         TimerUp \<in> set pre \<and> TimerAborted \<in> set post \<and>
         (co_https cfg \<or> (\<exists>a. Bound a \<in> set pre \<and> ServeHttp \<in> set post)) \<and>
         (case co_metrics_listen cfg of
            None \<Rightarrow> MetricsDown \<notin> set post
          | Some a \<Rightarrow> MetricsUp a \<in> set pre \<and> MetricsDown \<in> set post)"
proof -
  have logs: "\<not> list_ex serving (map Log ls)" for ls by (auto simp: list_ex_iff serving_def)
  show ?thesis
  proof (cases "resolve_bind_addr H (bind_addr cfg)")
    case (Inr addr)
    obtain m macts where m: "start_metrics_listener H (co_metrics_listen cfg) = (m, macts)" by fastforce
    obtain l lacts where l: "listen_and_serve H cfg addr = (l, lacts)" by fastforce
    note facts = start_metrics_listener_actions [OF m] listen_and_serve_actions [OF l]
    show ?thesis
    proof (cases "he_app_state H cfg \<and> \<not> isl m \<and> \<not> isl l")
      case True
      then obtain up u where ul: "m = Inr up" "l = Inr u" by (cases m; cases l) auto
      then obtain pre post where post: "lacts = pre @ Started # post" "Started \<notin> set (pre @ post)" "\<not> list_ex serving pre"
        "MetricsDown \<notin> set post" "co_https cfg \<or> (\<exists>a. Bound a \<in> set pre \<and> ServeHttp \<in> set post)"
        using facts(2) by auto
      let ?logs = "map Log (validate_token_hashes cfg @ warn_on_dev_tokens cfg @ warn_on_self_upstream H cfg addr)"
      let ?pre = "?logs @ macts @ [TimerUp] @ pre" and ?post = "post @ [TimerAborted] @ (if up then [MetricsDown] else [])"
      have "run_server H cfg = (Inr (), ?pre @ Started # ?post)"
        using True Inr m l ul post(1) by (simp add: run_server_def Let_def)
      moreover have "Started \<notin> set (?pre @ ?post)" "\<not> list_ex serving ?pre"
        using post(2,3) facts(1) logs [of "validate_token_hashes cfg @ warn_on_dev_tokens cfg @ warn_on_self_upstream H cfg addr"]
        by (auto simp: list_ex_iff serving_def)
      moreover have "case co_metrics_listen cfg of None \<Rightarrow> MetricsDown \<notin> set ?post
          | Some a \<Rightarrow> MetricsUp a \<in> set ?pre \<and> MetricsDown \<in> set ?post"
        using facts(1) ul(1) post(4) by (auto split: option.splits)
      ultimately show ?thesis
        using post(5) unfolding \<open>run_server H cfg = _\<close> prod.case sum.case
        by (intro exI [of _ ?pre] exI [of _ ?post]) auto
    next
      case False
      then show ?thesis
        using facts Inr m l logs [of "validate_token_hashes cfg @ warn_on_dev_tokens cfg @ warn_on_self_upstream H cfg addr"]
        by (cases m; cases l) (auto simp: run_server_def Let_def list_ex_iff serving_def)
    qed
  qed (simp add: run_server_def)
qed

text \<open>An upstream that is this server is found by its name only: the comparison of addresses asks for a host
  without a port, which the resolver of the standard library refuses.\<close>

definition needs_port :: "host_env \<Rightarrow> bool" where
  "needs_port H \<longleftrightarrow> (\<forall>s. CHR '':'' \<notin> set s \<longrightarrow> (\<exists>e. he_resolve H s = Inl e))"

lemma split_once_str_set: "split_once_str p s = Some (a, b) \<Longrightarrow> set b \<subseteq> set s"
  by (induction p s arbitrary: a rule: split_once_str.induct) (auto split: if_splits dest: in_set_dropD)

lemma ascii_lower_colon: "ascii_lower c = CHR '':'' \<longleftrightarrow> c = CHR '':''"
  by (auto simp: ascii_lower_def is_ascii_uppercase_def dest: arg_cong [of _ _ code])

lemma uri_host_no_port:
  assumes "uri_host uri = Some host" "CHR ''['' \<notin> set uri"
  shows "CHR '':'' \<notin> set host"
proof -
  let ?rest = "case split_once_str ''://'' uri of Some (_, r) \<Rightarrow> r | None \<Rightarrow> uri"
  let ?auth = "rev (before_any {CHR ''@''} (rev (before_any {CHR ''/'', CHR ''?'', CHR ''#''} ?rest)))"
  have "set ?rest \<subseteq> set uri"
    by (auto split: option.splits dest: split_once_str_set)
  then have "CHR ''['' \<notin> set ?auth"
    using assms(2) by (auto simp: before_any_def dest!: set_takeWhileD)
  then have "strip_prefix ?auth ''['' = None" by (cases "strip_prefix ?auth ''[''") auto
  then have "host = to_ascii_lowercase (before_any {CHR '':''} ?auth)"
    using assms(1) by (simp add: uri_host_def Let_def split: if_splits)
  then show ?thesis by (auto simp: to_ascii_lowercase_def before_any_def ascii_lower_colon eq_commute [of "CHR '':''"] dest!: set_takeWhileD)
qed

theorem self_upstream_by_name_only:
  assumes "needs_port H" "CHR ''['' \<notin> set uri"
  shows "warn_if_uri_is_self H cfg addr uri label =
    (case uri_host uri of
       Some host \<Rightarrow> if host = to_ascii_lowercase (co_host cfg) then [SelfUpstream label host] else []
     | None \<Rightarrow> [])"
  using assms uri_host_no_port [OF _ assms(2)]
  by (auto simp: warn_if_uri_is_self_def needs_port_def split: option.splits sum.splits)

subsection \<open>Timers\<close>

lemma configure_http_timeouts:
  "\<exists>t. ho_header_read_timeout (configure_http cfg) = Some t \<and> t > 0 \<and>
     (ho_keep_alive (configure_http cfg) \<longleftrightarrow> co_keepalive_timeout_secs cfg > 0) \<and>
     (ho_keep_alive (configure_http cfg) \<longrightarrow> t = co_keepalive_timeout_secs cfg)"
  by (auto simp: configure_http_def Let_def max_def word_neq_0_conv not_less not_le intro: order_less_trans [of 0 1])

lemma drain_bounded: "snd (drain_and_close grace rs) \<le> grace"
  by (induction grace rs rule: drain_and_close.induct) (auto split: read_result.splits prod.splits)

lemma refresh_rounds_go_on:
  "TimerOff \<in> set (refresh_rounds rs) \<longleftrightarrow> (\<exists>r\<in>set rs. fst (snd r) = None)"
  "Sleep t \<in> set (refresh_rounds rs) \<Longrightarrow> t \<ge> 0"
  by (induction rs rule: refresh_rounds.induct) (auto split: option.splits)

lemma refresh_schedule_falls_back:
  "cron ''0 0 1 * * *'' \<noteq> None \<Longrightarrow> refresh_schedule cron schedule \<noteq> None"
  by (auto simp: refresh_schedule_def split: option.splits)

end
