(* ===== verification/Spec2Isabelle.thy ===== *)
theory Spec2Isabelle
  imports CityHash Keys Ocsp Validate Selection Fifo Registration Collateral ReadThrough Pcs Verifiable Metrics_Series Config_Safety Import_Restore Startup
begin

text \<open>
  A verification of pccs-rs, a caching service for attestation collateral: Intel PCK certificates, TCB
  infos, enclave identities and revocation lists, and read-through copies of AMD KDS, NVIDIA RIM and
  NVIDIA OCSP documents.

  \<^bold>\<open>The program.\<close> A request enters the axum service of \<^verbatim>\<open>src/lib.rs\<close> (layers, routes), is authorised by
  \<^verbatim>\<open>src/auth.rs\<close> where the route asks for it, is checked by \<^verbatim>\<open>src/validate.rs\<close> and answered by
  \<^verbatim>\<open>src/routes/handlers.rs\<close> from \<^verbatim>\<open>src/cache.rs\<close>. The cache looks its records up in \<^verbatim>\<open>src/store.rs\<close>, a
  typed store over RocksDB whose keys \<^verbatim>\<open>src/keys.rs\<close> builds with the hash of \<^verbatim>\<open>src/hash/city.rs\<close>. In LAZY
  mode it fills a missing record through the upstream client \<^verbatim>\<open>src/pcs.rs\<close>, chooses among the certificates
  of a platform with \<^verbatim>\<open>src/selection.rs\<close>, and reads OCSP messages with \<^verbatim>\<open>src/ocsp.rs\<close>. Failures are the
  values of \<^verbatim>\<open>src/error.rs\<close>; \<^verbatim>\<open>src/config.rs\<close> merges the settings; \<^verbatim>\<open>src/metrics.rs\<close> counts and times what happens;
  \<^verbatim>\<open>src/main.rs\<close> and \<^verbatim>\<open>src/server.rs\<close> start the service and accept its connections. Beside the service,
  \<^verbatim>\<open>src/intel_import.rs\<close> turns a snapshot of an Intel PCCS into a fresh store.

  \<^bold>\<open>The theories.\<close>
  \<^item> \<open>Prelude\<close>, \<open>Rust_Strings\<close>, \<open>Json\<close>, \<open>Effects\<close>: what the sources use of the Rust library (\<open>Result\<close>,
    \<open>Option\<close>, strings as UTF-8 bytes, big-endian integers, decimal and hexadecimal text), JSON values, and
    asynchronous operations as functions from a state to a result and a state.
  \<^item> \<open>Errors\<close> (\<^verbatim>\<open>error.rs\<close>), \<open>Headers\<close> (\<^verbatim>\<open>headers.rs\<close>), \<open>CityHash\<close> (\<^verbatim>\<open>hash.rs\<close>, \<^verbatim>\<open>hash/city.rs\<close>, on machine
    words), \<open>Keys\<close> (\<^verbatim>\<open>keys.rs\<close>), \<open>Validate\<close> (\<^verbatim>\<open>validate.rs\<close>), \<open>Ocsp\<close> (\<^verbatim>\<open>ocsp.rs\<close>).
  \<^item> \<open>X509\<close> and \<open>Selection\<close> (\<^verbatim>\<open>selection.rs\<close>): TCB comparison, the certificate extension, buckets, the
    insertion sort of the V8 engine, and the choice of a certificate.
  \<^item> \<open>Rocks\<close>, \<open>Store\<close>, \<open>Fifo\<close>, \<open>Platform\<close>, \<open>Registration\<close>, \<open>Appraisal\<close>, \<open>Seed\<close>, \<open>Collateral\<close> (\<^verbatim>\<open>store.rs\<close>):
    the database interface, the typed slots, the bounded read-through kinds, and the read-modify-write
    operations on platform pools, the registration queue, policies, seed documents and uploads.
  \<^item> \<open>Canonical\<close>, \<open>ReadThrough\<close>, \<open>Fill\<close>, \<open>Refresh\<close> (\<^verbatim>\<open>cache.rs\<close>): canonical paths; the AMD and NVIDIA caches
    with their outcome memory; the getters, registration and refresh of the Intel part in the three modes;
    the single-flight protocol of the admin refresh as a step relation. \<open>Fill_Guarantee\<close>, \<open>Verifiable\<close>
    and \<open>Atomic_Fill\<close> hold what the filling operations guarantee of the database.
  \<^item> \<open>Pcs\<close> (\<^verbatim>\<open>pcs.rs\<close>): URLs, retries, throttling, response checks and every fetch.
  \<^item> \<open>Http\<close>, \<open>Http_Security\<close> (\<^verbatim>\<open>auth.rs\<close>, \<^verbatim>\<open>health.rs\<close>, \<^verbatim>\<open>routes/\<close>, \<^verbatim>\<open>lib.rs\<close>): every handler, the route
    table, the layers and their composition \<open>create_app\<close>.
  \<^item> \<open>Config\<close>, \<open>Config_Safety\<close> (\<^verbatim>\<open>config.rs\<close>): defaults, TOML file, command line, and the import of a Node
    configuration.
  \<^item> \<open>Metrics\<close>, \<open>Metrics_Series\<close> (\<^verbatim>\<open>metrics.rs\<close>): labels, histograms, every recording operation, the scrape
    text, and the layer around \<open>create_app\<close>.
  \<^item> \<open>Import\<close> (\<^verbatim>\<open>intel_import.rs\<close>): the checks and the conversion of every table, and the publication of the
    store. \<open>Import_Publish\<close> is about the destination directory, \<open>Import_Records\<close> about the parts of the
    conversion, \<open>Import_Restore\<close> about the whole import.
  \<^item> \<open>Startup\<close> (\<^verbatim>\<open>main.rs\<close>, \<^verbatim>\<open>server.rs\<close>): the accept loop, connection timeouts, start-up warnings and exits,
    the refresh timer.

  \<^bold>\<open>State and effects.\<close> A record is a \<open>record\<close> with a short prefix per type (\<open>pp_\<close> for \<open>PlatformPool\<close>), an
  enum a \<open>datatype\<close>, an integer a word of its width. A store operation takes the database and returns
  \<open>PccsError + result\<close>; a cache operation (\<open>op\<close>) runs on the shared state \<open>sys\<close>: the database, the memories
  behind the mutexes, and the outside world. Between two accesses of one request other requests may run;
  \<open>cx_env\<close>, \<open>cx_lock\<close> and \<open>cx_cut\<close> of the context \<open>ctx\<close> stand for what they do to the shared state, and are
  arbitrary unless a theorem restricts them. \<open>Refresh\<close> models interleaving itself, one step per await point.

  \<^bold>\<open>Parameters and hypotheses.\<close> Code outside the repository is an argument of the definitions.
  \<^item> RocksDB is \<open>rocks\<close>; \<open>rocks_ok\<close> states that reads, iterators and atomic batches act on one map,
    \<open>reads_reliable\<close> and \<open>writes_reliable\<close> that they do not fail. \<open>mem_rocks\<close> is an instance.
  \<^item> The serde codecs are \<open>serde\<close>; \<open>serde_ok\<close> states that decoding inverts encoding.
  \<^item> SHA-2, hexadecimal, base64 and date parsing, and the clock, are fields of the contexts or arguments.
  \<^item> The network is a state transformer that answers each exchange; nothing is assumed of the answers.
  \<^item> axum's path matching and own answers are \<open>axum\<close>; \<open>plain_axum\<close>, \<open>visible_values_ok\<close> and
    \<open>head_keeps_status\<close> state that its own answers carry no header of the application, that a visible
    ASCII text is a header value, and that a HEAD answer has the status of the GET.
    \<open>matches_registered\<close> states that it only matches paths the application has registered.
  \<^item> \<open>undisturbed\<close> states that other requests leave the database alone, where a theorem compares the database
    before and after one request.
  \<^item> SQLite is what its queries return (\<open>sqlite\<close>, \<open>source\<close>), the DER parser for revocation lists a predicate on
    bytes. The file system under an import is a map from paths; other processes may change it before each
    step (\<open>di_others\<close>) and each step may fail; \<open>leaves\<close> states that they stay away from one path. \<open>utf8_keys\<close>
    states that the keys are UTF-8, as every Rust string is.
  \<^item> The printing of floating-point numbers is \<open>float_format\<close>, of which nothing is assumed. \<open>needs_port\<close> states
    that the resolver of the standard library refuses a host without a port.

  \<^bold>\<open>What is shown.\<close>
  \<^item> \<^emph>\<open>Selection\<close>: it succeeds exactly when the platform reaches some certificate, returns one it reaches, and
    the greatest one when the pool is totally ordered; the sort permutes, and sorts ordered inputs.
  \<^item> \<^emph>\<open>Store\<close>: typed round trips; a bounded insert implements a FIFO queue, and the bound and the index
    consistency hold in every reachable store; merging and replacing keep what a platform has; a failed
    upload leaves certificates and pools alone; registrations implement a map and are handed out once; one
    default policy per FMSPC; key families are disjoint.
  \<^item> \<^emph>\<open>Cache\<close>: nothing expired is served; a fetched document is served until its TTL ends; closed modes never
    depend on an upstream; failures are shared and remembered within a bound; no record loses its issuer
    chain; a refresh has one leader, every call returns if no client leaves, and a client that leaves while
    leading disables the refresh of its target.
  \<^item> \<^emph>\<open>Parsers and text\<close>: the DER reader accepts exactly minimal DER, the OCSP request parser exactly its
    documented structure; CRL URIs stay on vendor hosts; canonical paths are fixed points; the query sent
    to another PCCS is read back unchanged; the deadline of an OCSP response is bounded.
  \<^item> \<^emph>\<open>Service\<close>: operator endpoints need their token; an error answer has written nothing; which responses are
    shared across origins and by caches; an upstream call is bounded; settings follow their precedence and
    fail closed; only connections that speak in time are served; a failed start never reports itself as
    started.
  \<^item> \<^emph>\<open>Metrics\<close>: a scrape prints the number of events recorded under each label and the cumulative counts of the
    recorded durations; the layer records each request once and leaves its answer alone.
  \<^item> \<^emph>\<open>Import\<close>: a valid snapshot becomes a well-formed store, each row of which the read paths then find; an
    undisturbed import succeeds; an import never replaces a path, and publishes all of a verified store or
    nothing.

  \<^bold>\<open>Interfaces.\<close> Each locale states what a group of proofs relies on and is interpreted on the definitions.
  \<^item> \<open>tlv_reader\<close> (\<open>Ocsp\<close>): a reader of one element, and that it makes progress; \<open>v8_comparator\<close> (\<open>Selection\<close>): a
    comparison function, the sort; \<open>record_slot\<close> (\<open>Store\<close>): a codec, key and matching of one record kind,
    the round trips of its getter and setter.
  \<^item> \<open>guarantee\<close> (\<open>Effects\<close>), extended by \<open>network_guarantee\<close> (\<open>Pcs\<close>): a relation between states that atomic
    operations keep, kept by their compositions. \<open>fill_guarantee\<close>, \<open>fill_writes\<close> (\<open>Fill_Guarantee\<close>): a relation
    between databases that the environment (and the single writes) keep, kept by every filling operation;
    \<open>quiet\<close> (\<open>Atomic_Fill\<close>) is the case of equality.
  \<^item> \<open>counter_bank\<close>, \<open>histogram_bank\<close> (\<open>Metrics_Series\<close>): one cell per label, and what a scrape shows of it.
  \<^item> \<open>kept\<close>, \<open>off_staging\<close>, \<open>occupied\<close> (\<open>Import_Publish\<close>): a property of the file system that the steps of an import
    keep. \<open>entry_rows\<close> (\<open>Import_Records\<close>): a loop that adds the entries of its rows. \<open>undisturbed_import\<close> and
    \<open>restored\<close> (\<open>Import_Restore\<close>): the run without interference, and the database it leaves.

  \<^bold>\<open>Loops.\<close> Every definition is total and none takes fuel: loops over data are structural, the others carry a
  termination proof. The send loop of \<open>Pcs\<close> recurses on the attempts that are left, at most \<open>max_attempts\<close>, as
  in the source. Loops that never end by design (the accept loop, the refresh timer, the interleaving of
  refresh calls) are steps over a sequence of events.

  \<^bold>\<open>Not modelled.\<close> The load generator \<^verbatim>\<open>src/bin/loadgen.rs\<close>, a benchmark client whose work is timed socket I/O;
  of \<^verbatim>\<open>main.rs\<close> the dispatch of commands, signals and log set-up, and of \<^verbatim>\<open>server.rs\<close> socket options and the
  forwarding of bytes; log lines and the texts of foreign errors; the places where the store, the cache and
  the client record metrics (the recorded events are a parameter of the metrics layer); connection pools
  and TLS, which the HTTP libraries own; the unit tests.
\<close>

end
